(* ===== verification/Prelude.thy ===== *)
theory Prelude
  imports Main "HOL-Library.Word"
begin

text \<open>
  Shared vocabulary of the development: the machine integers of the Rust sources, the
  arithmetic of Rust's standard library that the sources use (saturating, checked and
  wrapping operations, casts, byte order), the \<open>Result\<close> type, half-open ranges, and the
  generic facts on lists and words that the component theories rest on.

  Conventions.  \<open>u8\<close> to \<open>u64\<close> are words of that width; a signed integer \<open>iN\<close> is a word of the
  same width read with \<open>sint\<close>.  A Rust \<open>usize\<close> is a 64 bit word where the source computes
  with it, and a natural number where it is only a list index or a length.  Arithmetic
  written with plain operators wraps, which is what the release profile does; indexing
  out of bounds and division by zero stop the program in every profile and are modelled
  as such wherever the source can reach them.
\<close>

unbundle bit_operations_syntax

section \<open>Types\<close>

type_synonym u8 = "8 word"
type_synonym u16 = "16 word"
type_synonym i16 = "16 word"
type_synonym u32 = "32 word"
type_synonym i32 = "32 word"
type_synonym u64 = "64 word"
type_synonym i64 = "64 word"
type_synonym usize = "64 word"

datatype ('a, 'e) result = Ok 'a | Err 'e

fun is_ok :: "('a, 'e) result \<Rightarrow> bool" where
  "is_ok (Ok _) = True"
| "is_ok (Err _) = False"

fun and_then :: "('a, 'e) result \<Rightarrow> ('a \<Rightarrow> ('b, 'e) result) \<Rightarrow> ('b, 'e) result" where
  "and_then (Ok x) f = f x"
| "and_then (Err e) f = Err e"

lemma and_then_Ok_iff: "and_then r f = Ok y \<longleftrightarrow> (\<exists>x. r = Ok x \<and> f x = Ok y)"
  by (cases r) auto

text \<open>A half-open range \<open>start..end\<close> as \<open>std::ops::Range\<close> has it.\<close>

record 'a range =
  range_start :: 'a
  range_end :: 'a

definition mk_range :: "'a \<Rightarrow> 'a \<Rightarrow> 'a range" where
  "mk_range a b = \<lparr>range_start = a, range_end = b\<rparr>"

definition range_is_empty :: "('a::linorder) range \<Rightarrow> bool" where
  "range_is_empty r = (\<not> range_start r < range_end r)"

definition range_contains :: "('a::linorder) range \<Rightarrow> 'a \<Rightarrow> bool" where
  "range_contains r x = (range_start r \<le> x \<and> x < range_end r)"

lemma mk_range_sel [simp]:
  "range_start (mk_range a b) = a" "range_end (mk_range a b) = b"
  by (simp_all add: mk_range_def)

named_theorems rust_arith \<open>Rust arithmetic reduced to naturals\<close>

section \<open>Integer operations of the standard library\<close>

definition saturating_add :: "'a::len word \<Rightarrow> 'a word \<Rightarrow> 'a word" where
  "saturating_add a b = (if a \<le> a + b then a + b else - 1)"

definition saturating_sub :: "'a::len word \<Rightarrow> 'a word \<Rightarrow> 'a word" where
  "saturating_sub a b = (if b \<le> a then a - b else 0)"

definition saturating_mul :: "'a::len word \<Rightarrow> 'a word \<Rightarrow> 'a word" where
  "saturating_mul a b = (if unat a * unat b < 2 ^ LENGTH('a) then a * b else - 1)"

definition checked_add :: "'a::len word \<Rightarrow> 'a word \<Rightarrow> 'a word option" where
  "checked_add a b = (if a \<le> a + b then Some (a + b) else None)"

text \<open>\<open>checked_shl\<close> and \<open>checked_shr\<close>: the amount must be below the width.\<close>

definition checked_shl :: "'a::len word \<Rightarrow> nat \<Rightarrow> 'a word option" where
  "checked_shl a n = (if n < LENGTH('a) then Some (push_bit n a) else None)"

definition checked_shr :: "'a::len word \<Rightarrow> nat \<Rightarrow> 'a word option" where
  "checked_shr a n = (if n < LENGTH('a) then Some (drop_bit n a) else None)"

text \<open>\<open>wrapping_shl\<close> and \<open>wrapping_shr\<close>: the amount is taken modulo the width.\<close>

definition wrapping_shl :: "'a::len word \<Rightarrow> u32 \<Rightarrow> 'a word" where
  "wrapping_shl a n = push_bit (unat n mod LENGTH('a)) a"

definition wrapping_shr :: "'a::len word \<Rightarrow> u32 \<Rightarrow> 'a word" where
  "wrapping_shr a n = drop_bit (unat n mod LENGTH('a)) a"

definition wrapping_shr_signed :: "'a::len word \<Rightarrow> u32 \<Rightarrow> 'a word" where
  "wrapping_shr_signed a n = signed_drop_bit (unat n mod LENGTH('a)) a"

text \<open>Signed saturation, for \<open>i64::saturating_add\<close> and \<open>saturating_sub\<close>.\<close>

definition clamp_signed :: "int \<Rightarrow> 'a::len word" where
  "clamp_signed i =
     word_of_int (max (- (2 ^ (LENGTH('a) - 1))) (min (2 ^ (LENGTH('a) - 1) - 1) i))"

definition saturating_add_signed :: "'a::len word \<Rightarrow> 'a word \<Rightarrow> 'a word" where
  "saturating_add_signed a b = clamp_signed (sint a + sint b)"

definition saturating_sub_signed :: "'a::len word \<Rightarrow> 'a word \<Rightarrow> 'a word" where
  "saturating_sub_signed a b = clamp_signed (sint a - sint b)"

text \<open>Division of signed integers truncates towards zero.\<close>

definition trunc_div :: "int \<Rightarrow> int \<Rightarrow> int" where
  "trunc_div a b =
     (let q = \<bar>a\<bar> div \<bar>b\<bar> in if (a < 0) = (b < 0) then q else - q)"

definition trunc_rem :: "int \<Rightarrow> int \<Rightarrow> int" where
  "trunc_rem a b = a - trunc_div a b * b"

text \<open>\<open>u64::leading_zeros\<close> and \<open>usize::trailing_zeros\<close>.\<close>

definition leading_zeros :: "'a::len word \<Rightarrow> nat" where
  "leading_zeros w = length (takeWhile Not (rev (map (bit w) [0..<LENGTH('a)])))"

fun trailing_zeros :: "nat \<Rightarrow> nat" where
  "trailing_zeros n = (if n = 0 then 64 else if odd n then 0 else Suc (trailing_zeros (n div 2)))"

declare trailing_zeros.simps [simp del]

lemma trailing_zeros_odd: "odd n \<Longrightarrow> trailing_zeros n = 0"
  by (subst trailing_zeros.simps) (cases "n = 0"; simp)

lemma trailing_zeros_double: "0 < n \<Longrightarrow> trailing_zeros (2 * n) = Suc (trailing_zeros n)"
  by (subst trailing_zeros.simps) simp

section \<open>Arithmetic facts\<close>

lemma word_le_plus_iff:
  fixes a b :: "'a::len word"
  shows "a \<le> a + b \<longleftrightarrow> unat a + unat b < 2 ^ LENGTH('a)"
  by (metis add.commute no_olen_add_nat not_less olen_add_eqv)

lemma unat_max_word: "unat (- 1 :: 'a::len word) = 2 ^ LENGTH('a) - 1"
  by (simp add: unsigned_minus_1_eq_mask mask_eq_exp_minus_1)

lemma unat_of_nat_u64: "n < 2 ^ 64 \<Longrightarrow> unat (of_nat n :: u64) = n"
  by (simp only: unat_of_nat) simp

lemma unat_u64_less: "unat (w :: u64) < 18446744073709551616"
proof -
  have "unat w < 2 ^ LENGTH(64)" by (rule unsigned_less)
  then show ?thesis by simp
qed

lemma unat_saturating_add [rust_arith]:
  fixes a b :: "'a::len word"
  shows "unat (saturating_add a b) = min (unat a + unat b) (2 ^ LENGTH('a) - 1)"
proof (cases "unat a + unat b < 2 ^ LENGTH('a)")
  case True
  then have "unat (a + b) = unat a + unat b" by (simp add: unat_word_ariths)
  with True show ?thesis by (simp add: saturating_add_def word_le_plus_iff)
next
  case False
  then show ?thesis by (simp add: saturating_add_def word_le_plus_iff unat_max_word)
qed

lemma unat_saturating_sub [rust_arith]:
  "unat (saturating_sub a b) = unat a - unat b"
  by (auto simp: saturating_sub_def unat_sub word_le_nat_alt)

lemma unat_saturating_mul [rust_arith]:
  fixes a b :: "'a::len word"
  shows "unat (saturating_mul a b) = min (unat a * unat b) (2 ^ LENGTH('a) - 1)"
proof (cases "unat a * unat b < 2 ^ LENGTH('a)")
  case True
  then have "unat (a * b) = unat a * unat b" by (simp add: unat_word_ariths)
  with True show ?thesis by (simp add: saturating_mul_def)
next
  case False
  then show ?thesis by (simp add: saturating_mul_def unat_max_word)
qed

lemma checked_add_Some [rust_arith]:
  fixes a b :: "'a::len word"
  shows "checked_add a b = Some c \<longleftrightarrow> unat c = unat a + unat b"
proof
  assume "checked_add a b = Some c"
  then have "a \<le> a + b" and "c = a + b" by (auto simp: checked_add_def split: if_splits)
  then show "unat c = unat a + unat b" by (simp add: word_le_plus_iff unat_word_ariths)
next
  assume c: "unat c = unat a + unat b"
  moreover have "unat c < 2 ^ LENGTH('a)" by simp
  ultimately have lt: "unat a + unat b < 2 ^ LENGTH('a)" by linarith
  then have "unat (a + b) = unat a + unat b" by (simp add: unat_word_ariths)
  with c have "c = a + b" by (simp add: word_unat_eq_iff)
  with lt show "checked_add a b = Some c" by (simp add: checked_add_def word_le_plus_iff)
qed

lemma checked_add_None [rust_arith]:
  fixes a b :: "'a::len word"
  shows "checked_add a b = None \<longleftrightarrow> 2 ^ LENGTH('a) \<le> unat a + unat b"
  by (simp add: checked_add_def word_le_plus_iff not_less)

section \<open>Lists\<close>

lemma list_all_update [intro]: "list_all P xs \<Longrightarrow> P x \<Longrightarrow> list_all P (xs[i := x])"
  by (cases "i < length xs") (auto simp: list_all_length nth_list_update)

lemma all_nat_split: "(\<forall>k. Q k) = (Q 0 \<and> (\<forall>k. Q (Suc k)))"
  using not0_implies_Suc by metis

text \<open>
  A \<open>match\<close> on an opcode as a table of its arms: pattern, guard, and what the arm does.  The first
  arm whose pattern and guard fit is taken.
\<close>

fun first_arm :: "('p \<times> bool \<times> 'a) list \<Rightarrow> 'p \<Rightarrow> 'a option" where
  "first_arm [] x = None"
| "first_arm ((pat, guard, action) # arms) x =
     (if pat = x \<and> guard then Some action else first_arm arms x)"

lemma first_arm_mem: "first_arm arms x = Some a \<Longrightarrow> (x, True, a) \<in> set arms"
  by (induction arms x rule: first_arm.induct) (auto split: if_splits)

lemma first_arm_append:
  "first_arm (arms @ arms') x = (case first_arm arms x of None \<Rightarrow> first_arm arms' x | Some a \<Rightarrow> Some a)"
  by (induction arms x rule: first_arm.induct) auto

section \<open>Slices and byte order\<close>

text \<open>\<open>slice.get(start..end)\<close>: \<open>None\<close> when the range is inverted or runs past the slice.\<close>

definition slice_get :: "'a list \<Rightarrow> nat \<Rightarrow> nat \<Rightarrow> 'a list option" where
  "slice_get xs a b = (if a \<le> b \<and> b \<le> length xs then Some (take (b - a) (drop a xs)) else None)"

lemma slice_get_length: "slice_get xs a b = Some ys \<Longrightarrow> length ys = b - a"
  by (auto simp: slice_get_def split: if_splits)

lemma slice_get_nth:
  "slice_get xs a b = Some ys \<Longrightarrow> i < b - a \<Longrightarrow> ys ! i = xs ! (a + i)"
  by (auto simp: slice_get_def split: if_splits)

fun from_le_bytes :: "u8 list \<Rightarrow> 'a::len word" where
  "from_le_bytes [] = 0"
| "from_le_bytes (b # bs) = ucast b OR push_bit 8 (from_le_bytes bs)"

definition to_le_bytes :: "'a::len word \<Rightarrow> u8 list" where
  "to_le_bytes w = map (\<lambda>i. ucast (drop_bit (8 * i) w)) [0..<LENGTH('a) div 8]"

text \<open>\<open>to_be\<close> on a little-endian host reverses the bytes; \<open>to_le\<close> leaves the value alone.\<close>

definition swap_bytes :: "'a::len word \<Rightarrow> 'a word" where
  "swap_bytes w = from_le_bytes (rev (to_le_bytes w))"

lemma length_to_le_bytes [simp]: "length (to_le_bytes (w :: 'a::len word)) = LENGTH('a) div 8"
  by (simp add: to_le_bytes_def)

lemma bit_from_le_bytes:
  "bit (from_le_bytes bs :: 'a::len word) n \<longleftrightarrow>
     n < LENGTH('a) \<and> n div 8 < length bs \<and> bit (bs ! (n div 8)) (n mod 8)"
proof (induction bs arbitrary: n)
  case Nil
  then show ?case by simp
next
  case (Cons b bs)
  show ?case
  proof (cases "n < 8")
    case True
    then show ?thesis by (simp add: bit_simps)
  next
    case False
    then have "n div 8 = Suc ((n - 8) div 8)" and "n mod 8 = (n - 8) mod 8"
      by (simp_all add: le_div_geq le_mod_geq)
    moreover have "\<not> bit b n" using False by (auto dest: bit_imp_le_length)
    moreover have "n - 8 < LENGTH('a)" if "n < LENGTH('a)" using that by simp
    ultimately show ?thesis using False by (auto simp: bit_simps Cons.IH)
  qed
qed

lemma nth_to_le_bytes [simp]:
  "i < LENGTH('a) div 8 \<Longrightarrow> to_le_bytes (w :: 'a::len word) ! i = ucast (drop_bit (8 * i) w)"
  by (simp add: to_le_bytes_def)

lemma from_le_to_le_bytes:
  fixes w :: "'a::len word"
  assumes "LENGTH('a) mod 8 = 0"
  shows "from_le_bytes (to_le_bytes w) = w"
proof (rule bit_word_eqI)
  fix n assume n: "n < LENGTH('a)"
  with assms have "n div 8 < LENGTH('a) div 8" by (auto elim!: dvdE)
  moreover have "8 * (n div 8) + n mod 8 = n" and "n mod 8 < 8" by simp_all
  ultimately show "bit (from_le_bytes (to_le_bytes w) :: 'a word) n = bit w n"
    using n by (auto simp: bit_from_le_bytes bit_simps add.commute)
qed

lemma to_le_from_le_bytes:
  assumes "length bs = LENGTH('a::len) div 8"
  shows "to_le_bytes (from_le_bytes bs :: 'a word) = bs"
proof (rule nth_equalityI)
  fix i assume i: "i < length (to_le_bytes (from_le_bytes bs :: 'a word))"
  then have i8: "8 * i + 8 \<le> LENGTH('a)" by auto
  show "to_le_bytes (from_le_bytes bs :: 'a word) ! i = bs ! i"
  proof (rule bit_word_eqI)
    fix n assume "n < LENGTH(8)"
    with i i8 assms show "bit (to_le_bytes (from_le_bytes bs :: 'a word) ! i) n = bit (bs ! i) n"
      by (simp add: bit_from_le_bytes bit_simps)
  qed
qed (use assms in simp)

end
