(* ===== verification/Errors.thy ===== *)
theory Errors
  imports Prelude
begin

text \<open>
  The error types of the virtual machine: \<open>AccessType\<close> (\<open>sbpf/src/memory_region.rs\<close>),
  \<open>ElfError\<close> (\<open>sbpf/src/elf.rs\<close>), \<open>VerifierError\<close> (\<open>sbpf/src/verifier.rs\<close>) and
  \<open>EbpfError\<close> (\<open>sbpf/src/error.rs\<close>).  \<open>StableResult\<close> is the prelude's \<open>result\<close>: the two differ
  only in their memory layout.  The boxed error object of a system call is a type parameter.
\<close>

datatype AccessType = Load | Store

datatype ElfError =
    FailedToParse string
  | EntrypointOutOfBounds
  | InvalidEntrypoint
  | FailedToGetSection string
  | UnresolvedSymbol string usize usize
  | SectionNotFound string
  | RelativeJumpOutOfBounds usize
  | SymbolHashCollision u32
  | WrongEndianess
  | WrongAbi
  | WrongMachine
  | WrongClass
  | NotOneTextSection
  | WritableSectionNotSupported string
  | AddressOutsideLoadableSection u64
  | InvalidVirtualAddress u64
  | UnknownRelocation u32
  | FailedToReadRelocationInfo
  | WrongType
  | UnknownSymbol usize
  | ValueOutOfBounds
  | UnsupportedSBPFVersion
  | InvalidProgramHeader

datatype VerifierError =
    ProgramLengthNotMultiple
  | ProgramTooLarge usize
  | NoProgram
  | DivisionByZero usize
  | UnsupportedLEBEArgument usize
  | LDDWCannotBeLast
  | IncompleteLDDW usize
  | InfiniteLoop usize
  | JumpOutOfCode usize usize
  | JumpToMiddleOfLDDW usize usize
  | InvalidSourceRegister usize
  | CannotWriteR10 usize
  | InvalidDestinationRegister usize
  | UnknownOpCode u8 usize
  | ShiftWithOverflow u64 u64 usize
  | InvalidRegister usize
  | InvalidFunction usize
  | InvalidSyscall u32
  | UnalignedImmediate usize

datatype 'x EbpfError =
    ElfError ElfError
  | FunctionAlreadyRegistered usize
  | CallDepthExceeded
  | ExitRootCallFrame
  | DivideByZero
  | DivideOverflow
  | ExecutionOverrun
  | CallOutsideTextSegment
  | ExceededMaxInstructions
  | JitNotCompiled
  | InvalidMemoryRegion usize
  | AccessViolation AccessType u64 u64 string
  | StackAccessViolation AccessType u64 u64 i64
  | InvalidInstruction
  | UnsupportedInstruction
  | ExhaustedTextSegment usize
  | LibcInvocationFailed string "string list" i32
  | VerifierError VerifierError
  | SyscallError 'x

type_synonym 'x ProgramResult = "(u64, 'x EbpfError) result"

end
