(* ===== verification/Ebpf.thy ===== *)
theory Ebpf
  imports Prelude
begin

text \<open>
  \<open>src/sbpf/src/ebpf.rs\<close>: the constants of the instruction set (sizes, the layout of the
  virtual address space, operation classes, modifiers and operation codes), the
  instruction structure \<open>Insn\<close>, its encoding \<open>to_array\<close> and its decoding
  \<open>get_insn_unchecked\<close>, and the merge of the two halves of an \<open>LD_DW_IMM\<close>.

  Shown here: every operation code has the numeral value the bit pattern gives, no
  two codes that one version of the instruction set accepts coincide, encoding and
  decoding are inverse to each other, decoding fails exactly when the instruction is not
  inside the program, and the merged immediate has the two halves in their places.
\<close>

unbundle bit_operations_syntax

named_theorems bpf_defs \<open>definitions of the constants\<close>

section \<open>Sizes and address space\<close>

definition PROG_MAX_INSNS :: nat where [bpf_defs]: "PROG_MAX_INSNS = 65536"

definition INSN_SIZE :: nat where [bpf_defs]: "INSN_SIZE = 8"

definition FRAME_PTR_REG :: nat where [bpf_defs]: "FRAME_PTR_REG = 10"

definition FIRST_SCRATCH_REG :: nat where [bpf_defs]: "FIRST_SCRATCH_REG = 6"

definition SCRATCH_REGS :: nat where [bpf_defs]: "SCRATCH_REGS = 4"

definition HOST_ALIGN :: nat where [bpf_defs]: "HOST_ALIGN = 16"

definition VIRTUAL_ADDRESS_BITS :: nat where [bpf_defs]: "VIRTUAL_ADDRESS_BITS = 32"

definition MM_REGION_SIZE :: u64 where [bpf_defs]: "MM_REGION_SIZE = push_bit VIRTUAL_ADDRESS_BITS 1"

definition MM_RODATA_START :: u64 where [bpf_defs]: "MM_RODATA_START = 0"

definition MM_BYTECODE_START :: u64 where [bpf_defs]: "MM_BYTECODE_START = MM_REGION_SIZE"

definition MM_STACK_START :: u64 where [bpf_defs]: "MM_STACK_START = MM_REGION_SIZE * 2"

definition MM_HEAP_START :: u64 where [bpf_defs]: "MM_HEAP_START = MM_REGION_SIZE * 3"

definition MM_INPUT_START :: u64 where [bpf_defs]: "MM_INPUT_START = MM_REGION_SIZE * 4"

section \<open>Operation classes and modifiers\<close>

definition BPF_LD :: u8 where [bpf_defs]: "BPF_LD = 0x0"

definition BPF_LDX :: u8 where [bpf_defs]: "BPF_LDX = 0x1"

definition BPF_ST :: u8 where [bpf_defs]: "BPF_ST = 0x2"

definition BPF_STX :: u8 where [bpf_defs]: "BPF_STX = 0x3"

definition BPF_ALU32_LOAD :: u8 where [bpf_defs]: "BPF_ALU32_LOAD = 0x4"

definition BPF_JMP64 :: u8 where [bpf_defs]: "BPF_JMP64 = 0x5"

definition BPF_JMP32 :: u8 where [bpf_defs]: "BPF_JMP32 = 0x6"

definition BPF_PQR :: u8 where [bpf_defs]: "BPF_PQR = 0x6"

definition BPF_ALU64_STORE :: u8 where [bpf_defs]: "BPF_ALU64_STORE = 0x7"

definition BPF_W :: u8 where [bpf_defs]: "BPF_W = 0x0"

definition BPF_H :: u8 where [bpf_defs]: "BPF_H = 0x8"

definition BPF_B :: u8 where [bpf_defs]: "BPF_B = 0x10"

definition BPF_DW :: u8 where [bpf_defs]: "BPF_DW = 0x18"

definition BPF_1B :: u8 where [bpf_defs]: "BPF_1B = 0x20"

definition BPF_2B :: u8 where [bpf_defs]: "BPF_2B = 0x30"

definition BPF_4B :: u8 where [bpf_defs]: "BPF_4B = 0x80"

definition BPF_8B :: u8 where [bpf_defs]: "BPF_8B = 0x90"

definition BPF_IMM :: u8 where [bpf_defs]: "BPF_IMM = 0x0"

definition BPF_ABS :: u8 where [bpf_defs]: "BPF_ABS = 0x20"

definition BPF_IND :: u8 where [bpf_defs]: "BPF_IND = 0x40"

definition BPF_MEM :: u8 where [bpf_defs]: "BPF_MEM = 0x60"

definition BPF_K :: u8 where [bpf_defs]: "BPF_K = 0x0"

definition BPF_X :: u8 where [bpf_defs]: "BPF_X = 0x8"

definition BPF_ADD :: u8 where [bpf_defs]: "BPF_ADD = 0x0"

definition BPF_SUB :: u8 where [bpf_defs]: "BPF_SUB = 0x10"

definition BPF_MUL :: u8 where [bpf_defs]: "BPF_MUL = 0x20"

definition BPF_DIV :: u8 where [bpf_defs]: "BPF_DIV = 0x30"

definition BPF_OR :: u8 where [bpf_defs]: "BPF_OR = 0x40"

definition BPF_AND :: u8 where [bpf_defs]: "BPF_AND = 0x50"

definition BPF_LSH :: u8 where [bpf_defs]: "BPF_LSH = 0x60"

definition BPF_RSH :: u8 where [bpf_defs]: "BPF_RSH = 0x70"

definition BPF_NEG :: u8 where [bpf_defs]: "BPF_NEG = 0x80"

definition BPF_MOD :: u8 where [bpf_defs]: "BPF_MOD = 0x90"

definition BPF_XOR :: u8 where [bpf_defs]: "BPF_XOR = 0xa0"

definition BPF_MOV :: u8 where [bpf_defs]: "BPF_MOV = 0xb0"

definition BPF_ARSH :: u8 where [bpf_defs]: "BPF_ARSH = 0xc0"

definition BPF_END :: u8 where [bpf_defs]: "BPF_END = 0xd0"

definition BPF_HOR :: u8 where [bpf_defs]: "BPF_HOR = 0xf0"

definition BPF_UHMUL :: u8 where [bpf_defs]: "BPF_UHMUL = 0x20"

definition BPF_UDIV :: u8 where [bpf_defs]: "BPF_UDIV = 0x40"

definition BPF_UREM :: u8 where [bpf_defs]: "BPF_UREM = 0x60"

definition BPF_LMUL :: u8 where [bpf_defs]: "BPF_LMUL = 0x80"

definition BPF_SHMUL :: u8 where [bpf_defs]: "BPF_SHMUL = 0xa0"

definition BPF_SDIV :: u8 where [bpf_defs]: "BPF_SDIV = 0xc0"

definition BPF_SREM :: u8 where [bpf_defs]: "BPF_SREM = 0xe0"

definition BPF_JA :: u8 where [bpf_defs]: "BPF_JA = 0x0"

definition BPF_JEQ :: u8 where [bpf_defs]: "BPF_JEQ = 0x10"

definition BPF_JGT :: u8 where [bpf_defs]: "BPF_JGT = 0x20"

definition BPF_JGE :: u8 where [bpf_defs]: "BPF_JGE = 0x30"

definition BPF_JSET :: u8 where [bpf_defs]: "BPF_JSET = 0x40"

definition BPF_JNE :: u8 where [bpf_defs]: "BPF_JNE = 0x50"

definition BPF_JSGT :: u8 where [bpf_defs]: "BPF_JSGT = 0x60"

definition BPF_JSGE :: u8 where [bpf_defs]: "BPF_JSGE = 0x70"

definition BPF_CALL :: u8 where [bpf_defs]: "BPF_CALL = 0x80"

definition BPF_EXIT :: u8 where [bpf_defs]: "BPF_EXIT = 0x90"

definition BPF_JLT :: u8 where [bpf_defs]: "BPF_JLT = 0xa0"

definition BPF_JLE :: u8 where [bpf_defs]: "BPF_JLE = 0xb0"

definition BPF_JSLT :: u8 where [bpf_defs]: "BPF_JSLT = 0xc0"

definition BPF_JSLE :: u8 where [bpf_defs]: "BPF_JSLE = 0xd0"

section \<open>Operation codes\<close>

definition LD_DW_IMM :: u8 where [bpf_defs]: "LD_DW_IMM = BPF_LD OR BPF_IMM OR BPF_DW"

definition LD_B_REG :: u8 where [bpf_defs]: "LD_B_REG = BPF_LDX OR BPF_MEM OR BPF_B"

definition LD_H_REG :: u8 where [bpf_defs]: "LD_H_REG = BPF_LDX OR BPF_MEM OR BPF_H"

definition LD_W_REG :: u8 where [bpf_defs]: "LD_W_REG = BPF_LDX OR BPF_MEM OR BPF_W"

definition LD_DW_REG :: u8 where [bpf_defs]: "LD_DW_REG = BPF_LDX OR BPF_MEM OR BPF_DW"

definition ST_B_IMM :: u8 where [bpf_defs]: "ST_B_IMM = BPF_ST OR BPF_MEM OR BPF_B"

definition ST_H_IMM :: u8 where [bpf_defs]: "ST_H_IMM = BPF_ST OR BPF_MEM OR BPF_H"

definition ST_W_IMM :: u8 where [bpf_defs]: "ST_W_IMM = BPF_ST OR BPF_MEM OR BPF_W"

definition ST_DW_IMM :: u8 where [bpf_defs]: "ST_DW_IMM = BPF_ST OR BPF_MEM OR BPF_DW"

definition ST_B_REG :: u8 where [bpf_defs]: "ST_B_REG = BPF_STX OR BPF_MEM OR BPF_B"

definition ST_H_REG :: u8 where [bpf_defs]: "ST_H_REG = BPF_STX OR BPF_MEM OR BPF_H"

definition ST_W_REG :: u8 where [bpf_defs]: "ST_W_REG = BPF_STX OR BPF_MEM OR BPF_W"

definition ST_DW_REG :: u8 where [bpf_defs]: "ST_DW_REG = BPF_STX OR BPF_MEM OR BPF_DW"

definition LD_1B_REG :: u8 where [bpf_defs]: "LD_1B_REG = BPF_ALU32_LOAD OR BPF_X OR BPF_1B"

definition LD_2B_REG :: u8 where [bpf_defs]: "LD_2B_REG = BPF_ALU32_LOAD OR BPF_X OR BPF_2B"

definition LD_4B_REG :: u8 where [bpf_defs]: "LD_4B_REG = BPF_ALU32_LOAD OR BPF_X OR BPF_4B"

definition LD_8B_REG :: u8 where [bpf_defs]: "LD_8B_REG = BPF_ALU32_LOAD OR BPF_X OR BPF_8B"

definition ST_1B_IMM :: u8 where [bpf_defs]: "ST_1B_IMM = BPF_ALU64_STORE OR BPF_K OR BPF_1B"

definition ST_2B_IMM :: u8 where [bpf_defs]: "ST_2B_IMM = BPF_ALU64_STORE OR BPF_K OR BPF_2B"

definition ST_4B_IMM :: u8 where [bpf_defs]: "ST_4B_IMM = BPF_ALU64_STORE OR BPF_K OR BPF_4B"

definition ST_8B_IMM :: u8 where [bpf_defs]: "ST_8B_IMM = BPF_ALU64_STORE OR BPF_K OR BPF_8B"

definition ST_1B_REG :: u8 where [bpf_defs]: "ST_1B_REG = BPF_ALU64_STORE OR BPF_X OR BPF_1B"

definition ST_2B_REG :: u8 where [bpf_defs]: "ST_2B_REG = BPF_ALU64_STORE OR BPF_X OR BPF_2B"

definition ST_4B_REG :: u8 where [bpf_defs]: "ST_4B_REG = BPF_ALU64_STORE OR BPF_X OR BPF_4B"

definition ST_8B_REG :: u8 where [bpf_defs]: "ST_8B_REG = BPF_ALU64_STORE OR BPF_X OR BPF_8B"

definition ADD32_IMM :: u8 where [bpf_defs]: "ADD32_IMM = BPF_ALU32_LOAD OR BPF_K OR BPF_ADD"

definition ADD32_REG :: u8 where [bpf_defs]: "ADD32_REG = BPF_ALU32_LOAD OR BPF_X OR BPF_ADD"

definition SUB32_IMM :: u8 where [bpf_defs]: "SUB32_IMM = BPF_ALU32_LOAD OR BPF_K OR BPF_SUB"

definition SUB32_REG :: u8 where [bpf_defs]: "SUB32_REG = BPF_ALU32_LOAD OR BPF_X OR BPF_SUB"

definition MUL32_IMM :: u8 where [bpf_defs]: "MUL32_IMM = BPF_ALU32_LOAD OR BPF_K OR BPF_MUL"

definition MUL32_REG :: u8 where [bpf_defs]: "MUL32_REG = BPF_ALU32_LOAD OR BPF_X OR BPF_MUL"

definition DIV32_IMM :: u8 where [bpf_defs]: "DIV32_IMM = BPF_ALU32_LOAD OR BPF_K OR BPF_DIV"

definition DIV32_REG :: u8 where [bpf_defs]: "DIV32_REG = BPF_ALU32_LOAD OR BPF_X OR BPF_DIV"

definition OR32_IMM :: u8 where [bpf_defs]: "OR32_IMM = BPF_ALU32_LOAD OR BPF_K OR BPF_OR"

definition OR32_REG :: u8 where [bpf_defs]: "OR32_REG = BPF_ALU32_LOAD OR BPF_X OR BPF_OR"

definition AND32_IMM :: u8 where [bpf_defs]: "AND32_IMM = BPF_ALU32_LOAD OR BPF_K OR BPF_AND"

definition AND32_REG :: u8 where [bpf_defs]: "AND32_REG = BPF_ALU32_LOAD OR BPF_X OR BPF_AND"

definition LSH32_IMM :: u8 where [bpf_defs]: "LSH32_IMM = BPF_ALU32_LOAD OR BPF_K OR BPF_LSH"

definition LSH32_REG :: u8 where [bpf_defs]: "LSH32_REG = BPF_ALU32_LOAD OR BPF_X OR BPF_LSH"

definition RSH32_IMM :: u8 where [bpf_defs]: "RSH32_IMM = BPF_ALU32_LOAD OR BPF_K OR BPF_RSH"

definition RSH32_REG :: u8 where [bpf_defs]: "RSH32_REG = BPF_ALU32_LOAD OR BPF_X OR BPF_RSH"

definition NEG32 :: u8 where [bpf_defs]: "NEG32 = BPF_ALU32_LOAD OR BPF_NEG"

definition MOD32_IMM :: u8 where [bpf_defs]: "MOD32_IMM = BPF_ALU32_LOAD OR BPF_K OR BPF_MOD"

definition MOD32_REG :: u8 where [bpf_defs]: "MOD32_REG = BPF_ALU32_LOAD OR BPF_X OR BPF_MOD"

definition XOR32_IMM :: u8 where [bpf_defs]: "XOR32_IMM = BPF_ALU32_LOAD OR BPF_K OR BPF_XOR"

definition XOR32_REG :: u8 where [bpf_defs]: "XOR32_REG = BPF_ALU32_LOAD OR BPF_X OR BPF_XOR"

definition MOV32_IMM :: u8 where [bpf_defs]: "MOV32_IMM = BPF_ALU32_LOAD OR BPF_K OR BPF_MOV"

definition MOV32_REG :: u8 where [bpf_defs]: "MOV32_REG = BPF_ALU32_LOAD OR BPF_X OR BPF_MOV"

definition ARSH32_IMM :: u8 where [bpf_defs]: "ARSH32_IMM = BPF_ALU32_LOAD OR BPF_K OR BPF_ARSH"

definition ARSH32_REG :: u8 where [bpf_defs]: "ARSH32_REG = BPF_ALU32_LOAD OR BPF_X OR BPF_ARSH"

definition LMUL32_IMM :: u8 where [bpf_defs]: "LMUL32_IMM = BPF_PQR OR BPF_K OR BPF_LMUL"

definition LMUL32_REG :: u8 where [bpf_defs]: "LMUL32_REG = BPF_PQR OR BPF_X OR BPF_LMUL"

definition UDIV32_IMM :: u8 where [bpf_defs]: "UDIV32_IMM = BPF_PQR OR BPF_K OR BPF_UDIV"

definition UDIV32_REG :: u8 where [bpf_defs]: "UDIV32_REG = BPF_PQR OR BPF_X OR BPF_UDIV"

definition UREM32_IMM :: u8 where [bpf_defs]: "UREM32_IMM = BPF_PQR OR BPF_K OR BPF_UREM"

definition UREM32_REG :: u8 where [bpf_defs]: "UREM32_REG = BPF_PQR OR BPF_X OR BPF_UREM"

definition SDIV32_IMM :: u8 where [bpf_defs]: "SDIV32_IMM = BPF_PQR OR BPF_K OR BPF_SDIV"

definition SDIV32_REG :: u8 where [bpf_defs]: "SDIV32_REG = BPF_PQR OR BPF_X OR BPF_SDIV"

definition SREM32_IMM :: u8 where [bpf_defs]: "SREM32_IMM = BPF_PQR OR BPF_K OR BPF_SREM"

definition SREM32_REG :: u8 where [bpf_defs]: "SREM32_REG = BPF_PQR OR BPF_X OR BPF_SREM"

definition LE :: u8 where [bpf_defs]: "LE = BPF_ALU32_LOAD OR BPF_K OR BPF_END"

definition BE :: u8 where [bpf_defs]: "BE = BPF_ALU32_LOAD OR BPF_X OR BPF_END"

definition ADD64_IMM :: u8 where [bpf_defs]: "ADD64_IMM = BPF_ALU64_STORE OR BPF_K OR BPF_ADD"

definition ADD64_REG :: u8 where [bpf_defs]: "ADD64_REG = BPF_ALU64_STORE OR BPF_X OR BPF_ADD"

definition SUB64_IMM :: u8 where [bpf_defs]: "SUB64_IMM = BPF_ALU64_STORE OR BPF_K OR BPF_SUB"

definition SUB64_REG :: u8 where [bpf_defs]: "SUB64_REG = BPF_ALU64_STORE OR BPF_X OR BPF_SUB"

definition MUL64_IMM :: u8 where [bpf_defs]: "MUL64_IMM = BPF_ALU64_STORE OR BPF_K OR BPF_MUL"

definition MUL64_REG :: u8 where [bpf_defs]: "MUL64_REG = BPF_ALU64_STORE OR BPF_X OR BPF_MUL"

definition DIV64_IMM :: u8 where [bpf_defs]: "DIV64_IMM = BPF_ALU64_STORE OR BPF_K OR BPF_DIV"

definition DIV64_REG :: u8 where [bpf_defs]: "DIV64_REG = BPF_ALU64_STORE OR BPF_X OR BPF_DIV"

definition OR64_IMM :: u8 where [bpf_defs]: "OR64_IMM = BPF_ALU64_STORE OR BPF_K OR BPF_OR"

definition OR64_REG :: u8 where [bpf_defs]: "OR64_REG = BPF_ALU64_STORE OR BPF_X OR BPF_OR"

definition AND64_IMM :: u8 where [bpf_defs]: "AND64_IMM = BPF_ALU64_STORE OR BPF_K OR BPF_AND"

definition AND64_REG :: u8 where [bpf_defs]: "AND64_REG = BPF_ALU64_STORE OR BPF_X OR BPF_AND"

definition LSH64_IMM :: u8 where [bpf_defs]: "LSH64_IMM = BPF_ALU64_STORE OR BPF_K OR BPF_LSH"

definition LSH64_REG :: u8 where [bpf_defs]: "LSH64_REG = BPF_ALU64_STORE OR BPF_X OR BPF_LSH"

definition RSH64_IMM :: u8 where [bpf_defs]: "RSH64_IMM = BPF_ALU64_STORE OR BPF_K OR BPF_RSH"

definition RSH64_REG :: u8 where [bpf_defs]: "RSH64_REG = BPF_ALU64_STORE OR BPF_X OR BPF_RSH"

definition NEG64 :: u8 where [bpf_defs]: "NEG64 = BPF_ALU64_STORE OR BPF_NEG"

definition MOD64_IMM :: u8 where [bpf_defs]: "MOD64_IMM = BPF_ALU64_STORE OR BPF_K OR BPF_MOD"

definition MOD64_REG :: u8 where [bpf_defs]: "MOD64_REG = BPF_ALU64_STORE OR BPF_X OR BPF_MOD"

definition XOR64_IMM :: u8 where [bpf_defs]: "XOR64_IMM = BPF_ALU64_STORE OR BPF_K OR BPF_XOR"

definition XOR64_REG :: u8 where [bpf_defs]: "XOR64_REG = BPF_ALU64_STORE OR BPF_X OR BPF_XOR"

definition MOV64_IMM :: u8 where [bpf_defs]: "MOV64_IMM = BPF_ALU64_STORE OR BPF_K OR BPF_MOV"

definition MOV64_REG :: u8 where [bpf_defs]: "MOV64_REG = BPF_ALU64_STORE OR BPF_X OR BPF_MOV"

definition ARSH64_IMM :: u8 where [bpf_defs]: "ARSH64_IMM = BPF_ALU64_STORE OR BPF_K OR BPF_ARSH"

definition ARSH64_REG :: u8 where [bpf_defs]: "ARSH64_REG = BPF_ALU64_STORE OR BPF_X OR BPF_ARSH"

definition HOR64_IMM :: u8 where [bpf_defs]: "HOR64_IMM = BPF_ALU64_STORE OR BPF_K OR BPF_HOR"

definition LMUL64_IMM :: u8 where [bpf_defs]: "LMUL64_IMM = BPF_PQR OR BPF_B OR BPF_K OR BPF_LMUL"

definition LMUL64_REG :: u8 where [bpf_defs]: "LMUL64_REG = BPF_PQR OR BPF_B OR BPF_X OR BPF_LMUL"

definition UHMUL64_IMM :: u8 where [bpf_defs]: "UHMUL64_IMM = BPF_PQR OR BPF_B OR BPF_K OR BPF_UHMUL"

definition UHMUL64_REG :: u8 where [bpf_defs]: "UHMUL64_REG = BPF_PQR OR BPF_B OR BPF_X OR BPF_UHMUL"

definition UDIV64_IMM :: u8 where [bpf_defs]: "UDIV64_IMM = BPF_PQR OR BPF_B OR BPF_K OR BPF_UDIV"

definition UDIV64_REG :: u8 where [bpf_defs]: "UDIV64_REG = BPF_PQR OR BPF_B OR BPF_X OR BPF_UDIV"

definition UREM64_IMM :: u8 where [bpf_defs]: "UREM64_IMM = BPF_PQR OR BPF_B OR BPF_K OR BPF_UREM"

definition UREM64_REG :: u8 where [bpf_defs]: "UREM64_REG = BPF_PQR OR BPF_B OR BPF_X OR BPF_UREM"

definition SHMUL64_IMM :: u8 where [bpf_defs]: "SHMUL64_IMM = BPF_PQR OR BPF_B OR BPF_K OR BPF_SHMUL"

definition SHMUL64_REG :: u8 where [bpf_defs]: "SHMUL64_REG = BPF_PQR OR BPF_B OR BPF_X OR BPF_SHMUL"

definition SDIV64_IMM :: u8 where [bpf_defs]: "SDIV64_IMM = BPF_PQR OR BPF_B OR BPF_K OR BPF_SDIV"

definition SDIV64_REG :: u8 where [bpf_defs]: "SDIV64_REG = BPF_PQR OR BPF_B OR BPF_X OR BPF_SDIV"

definition SREM64_IMM :: u8 where [bpf_defs]: "SREM64_IMM = BPF_PQR OR BPF_B OR BPF_K OR BPF_SREM"

definition SREM64_REG :: u8 where [bpf_defs]: "SREM64_REG = BPF_PQR OR BPF_B OR BPF_X OR BPF_SREM"

definition JEQ32_IMM :: u8 where [bpf_defs]: "JEQ32_IMM = BPF_JMP32 OR BPF_K OR BPF_JEQ"

definition JEQ32_REG :: u8 where [bpf_defs]: "JEQ32_REG = BPF_JMP32 OR BPF_X OR BPF_JEQ"

definition JGT32_IMM :: u8 where [bpf_defs]: "JGT32_IMM = BPF_JMP32 OR BPF_K OR BPF_JGT"

definition JGT32_REG :: u8 where [bpf_defs]: "JGT32_REG = BPF_JMP32 OR BPF_X OR BPF_JGT"

definition JGE32_IMM :: u8 where [bpf_defs]: "JGE32_IMM = BPF_JMP32 OR BPF_K OR BPF_JGE"

definition JGE32_REG :: u8 where [bpf_defs]: "JGE32_REG = BPF_JMP32 OR BPF_X OR BPF_JGE"

definition JLT32_IMM :: u8 where [bpf_defs]: "JLT32_IMM = BPF_JMP32 OR BPF_K OR BPF_JLT"

definition JLT32_REG :: u8 where [bpf_defs]: "JLT32_REG = BPF_JMP32 OR BPF_X OR BPF_JLT"

definition JLE32_IMM :: u8 where [bpf_defs]: "JLE32_IMM = BPF_JMP32 OR BPF_K OR BPF_JLE"

definition JLE32_REG :: u8 where [bpf_defs]: "JLE32_REG = BPF_JMP32 OR BPF_X OR BPF_JLE"

definition JSET32_IMM :: u8 where [bpf_defs]: "JSET32_IMM = BPF_JMP32 OR BPF_K OR BPF_JSET"

definition JSET32_REG :: u8 where [bpf_defs]: "JSET32_REG = BPF_JMP32 OR BPF_X OR BPF_JSET"

definition JNE32_IMM :: u8 where [bpf_defs]: "JNE32_IMM = BPF_JMP32 OR BPF_K OR BPF_JNE"

definition JNE32_REG :: u8 where [bpf_defs]: "JNE32_REG = BPF_JMP32 OR BPF_X OR BPF_JNE"

definition JSGT32_IMM :: u8 where [bpf_defs]: "JSGT32_IMM = BPF_JMP32 OR BPF_K OR BPF_JSGT"

definition JSGT32_REG :: u8 where [bpf_defs]: "JSGT32_REG = BPF_JMP32 OR BPF_X OR BPF_JSGT"

definition JSGE32_IMM :: u8 where [bpf_defs]: "JSGE32_IMM = BPF_JMP32 OR BPF_K OR BPF_JSGE"

definition JSGE32_REG :: u8 where [bpf_defs]: "JSGE32_REG = BPF_JMP32 OR BPF_X OR BPF_JSGE"

definition JSLT32_IMM :: u8 where [bpf_defs]: "JSLT32_IMM = BPF_JMP32 OR BPF_K OR BPF_JSLT"

definition JSLT32_REG :: u8 where [bpf_defs]: "JSLT32_REG = BPF_JMP32 OR BPF_X OR BPF_JSLT"

definition JSLE32_IMM :: u8 where [bpf_defs]: "JSLE32_IMM = BPF_JMP32 OR BPF_K OR BPF_JSLE"

definition JSLE32_REG :: u8 where [bpf_defs]: "JSLE32_REG = BPF_JMP32 OR BPF_X OR BPF_JSLE"

definition JA :: u8 where [bpf_defs]: "JA = BPF_JMP64 OR BPF_JA"

definition JEQ64_IMM :: u8 where [bpf_defs]: "JEQ64_IMM = BPF_JMP64 OR BPF_K OR BPF_JEQ"

definition JEQ64_REG :: u8 where [bpf_defs]: "JEQ64_REG = BPF_JMP64 OR BPF_X OR BPF_JEQ"

definition JGT64_IMM :: u8 where [bpf_defs]: "JGT64_IMM = BPF_JMP64 OR BPF_K OR BPF_JGT"

definition JGT64_REG :: u8 where [bpf_defs]: "JGT64_REG = BPF_JMP64 OR BPF_X OR BPF_JGT"

definition JGE64_IMM :: u8 where [bpf_defs]: "JGE64_IMM = BPF_JMP64 OR BPF_K OR BPF_JGE"

definition JGE64_REG :: u8 where [bpf_defs]: "JGE64_REG = BPF_JMP64 OR BPF_X OR BPF_JGE"

definition JLT64_IMM :: u8 where [bpf_defs]: "JLT64_IMM = BPF_JMP64 OR BPF_K OR BPF_JLT"

definition JLT64_REG :: u8 where [bpf_defs]: "JLT64_REG = BPF_JMP64 OR BPF_X OR BPF_JLT"

definition JLE64_IMM :: u8 where [bpf_defs]: "JLE64_IMM = BPF_JMP64 OR BPF_K OR BPF_JLE"

definition JLE64_REG :: u8 where [bpf_defs]: "JLE64_REG = BPF_JMP64 OR BPF_X OR BPF_JLE"

definition JSET64_IMM :: u8 where [bpf_defs]: "JSET64_IMM = BPF_JMP64 OR BPF_K OR BPF_JSET"

definition JSET64_REG :: u8 where [bpf_defs]: "JSET64_REG = BPF_JMP64 OR BPF_X OR BPF_JSET"

definition JNE64_IMM :: u8 where [bpf_defs]: "JNE64_IMM = BPF_JMP64 OR BPF_K OR BPF_JNE"

definition JNE64_REG :: u8 where [bpf_defs]: "JNE64_REG = BPF_JMP64 OR BPF_X OR BPF_JNE"

definition JSGT64_IMM :: u8 where [bpf_defs]: "JSGT64_IMM = BPF_JMP64 OR BPF_K OR BPF_JSGT"

definition JSGT64_REG :: u8 where [bpf_defs]: "JSGT64_REG = BPF_JMP64 OR BPF_X OR BPF_JSGT"

definition JSGE64_IMM :: u8 where [bpf_defs]: "JSGE64_IMM = BPF_JMP64 OR BPF_K OR BPF_JSGE"

definition JSGE64_REG :: u8 where [bpf_defs]: "JSGE64_REG = BPF_JMP64 OR BPF_X OR BPF_JSGE"

definition JSLT64_IMM :: u8 where [bpf_defs]: "JSLT64_IMM = BPF_JMP64 OR BPF_K OR BPF_JSLT"

definition JSLT64_REG :: u8 where [bpf_defs]: "JSLT64_REG = BPF_JMP64 OR BPF_X OR BPF_JSLT"

definition JSLE64_IMM :: u8 where [bpf_defs]: "JSLE64_IMM = BPF_JMP64 OR BPF_K OR BPF_JSLE"

definition JSLE64_REG :: u8 where [bpf_defs]: "JSLE64_REG = BPF_JMP64 OR BPF_X OR BPF_JSLE"

definition CALL_IMM :: u8 where [bpf_defs]: "CALL_IMM = BPF_JMP64 OR BPF_CALL"

definition CALL_REG :: u8 where [bpf_defs]: "CALL_REG = BPF_JMP64 OR BPF_X OR BPF_CALL"

definition EXIT :: u8 where [bpf_defs]: "EXIT = BPF_JMP64 OR BPF_EXIT"

definition BPF_CLS_MASK :: u8 where [bpf_defs]: "BPF_CLS_MASK = 0x7"

definition BPF_ALU_OP_MASK :: u8 where [bpf_defs]: "BPF_ALU_OP_MASK = 0xf0"


section \<open>Numeral values\<close>

named_theorems opcode_values \<open>operation codes as numerals\<close>

lemma opcode_numerals [opcode_values]:
  "LD_DW_IMM = 24"
  "LD_B_REG = 113"
  "LD_H_REG = 105"
  "LD_W_REG = 97"
  "LD_DW_REG = 121"
  "ST_B_IMM = 114"
  "ST_H_IMM = 106"
  "ST_W_IMM = 98"
  "ST_DW_IMM = 122"
  "ST_B_REG = 115"
  "ST_H_REG = 107"
  "ST_W_REG = 99"
  "ST_DW_REG = 123"
  "LD_1B_REG = 44"
  "LD_2B_REG = 60"
  "LD_4B_REG = 140"
  "LD_8B_REG = 156"
  "ST_1B_IMM = 39"
  "ST_2B_IMM = 55"
  "ST_4B_IMM = 135"
  "ST_8B_IMM = 151"
  "ST_1B_REG = 47"
  "ST_2B_REG = 63"
  "ST_4B_REG = 143"
  "ST_8B_REG = 159"
  "ADD32_IMM = 4"
  "ADD32_REG = 12"
  "SUB32_IMM = 20"
  "SUB32_REG = 28"
  "MUL32_IMM = 36"
  "MUL32_REG = 44"
  "DIV32_IMM = 52"
  "DIV32_REG = 60"
  "OR32_IMM = 68"
  "OR32_REG = 76"
  "AND32_IMM = 84"
  "AND32_REG = 92"
  "LSH32_IMM = 100"
  "LSH32_REG = 108"
  "RSH32_IMM = 116"
  "RSH32_REG = 124"
  "NEG32 = 132"
  "MOD32_IMM = 148"
  "MOD32_REG = 156"
  "XOR32_IMM = 164"
  "XOR32_REG = 172"
  "MOV32_IMM = 180"
  "MOV32_REG = 188"
  "ARSH32_IMM = 196"
  "ARSH32_REG = 204"
  "LMUL32_IMM = 134"
  "LMUL32_REG = 142"
  "UDIV32_IMM = 70"
  "UDIV32_REG = 78"
  "UREM32_IMM = 102"
  "UREM32_REG = 110"
  "SDIV32_IMM = 198"
  "SDIV32_REG = 206"
  "SREM32_IMM = 230"
  "SREM32_REG = 238"
  "LE = 212"
  "BE = 220"
  "ADD64_IMM = 7"
  "ADD64_REG = 15"
  "SUB64_IMM = 23"
  "SUB64_REG = 31"
  "MUL64_IMM = 39"
  "MUL64_REG = 47"
  "DIV64_IMM = 55"
  "DIV64_REG = 63"
  "OR64_IMM = 71"
  "OR64_REG = 79"
  "AND64_IMM = 87"
  "AND64_REG = 95"
  "LSH64_IMM = 103"
  "LSH64_REG = 111"
  "RSH64_IMM = 119"
  "RSH64_REG = 127"
  "NEG64 = 135"
  "MOD64_IMM = 151"
  "MOD64_REG = 159"
  "XOR64_IMM = 167"
  "XOR64_REG = 175"
  "MOV64_IMM = 183"
  "MOV64_REG = 191"
  "ARSH64_IMM = 199"
  "ARSH64_REG = 207"
  "HOR64_IMM = 247"
  "LMUL64_IMM = 150"
  "LMUL64_REG = 158"
  "UHMUL64_IMM = 54"
  "UHMUL64_REG = 62"
  "UDIV64_IMM = 86"
  "UDIV64_REG = 94"
  "UREM64_IMM = 118"
  "UREM64_REG = 126"
  "SHMUL64_IMM = 182"
  "SHMUL64_REG = 190"
  "SDIV64_IMM = 214"
  "SDIV64_REG = 222"
  "SREM64_IMM = 246"
  "SREM64_REG = 254"
  "JEQ32_IMM = 22"
  "JEQ32_REG = 30"
  "JGT32_IMM = 38"
  "JGT32_REG = 46"
  "JGE32_IMM = 54"
  "JGE32_REG = 62"
  "JLT32_IMM = 166"
  "JLT32_REG = 174"
  "JLE32_IMM = 182"
  "JLE32_REG = 190"
  "JSET32_IMM = 70"
  "JSET32_REG = 78"
  "JNE32_IMM = 86"
  "JNE32_REG = 94"
  "JSGT32_IMM = 102"
  "JSGT32_REG = 110"
  "JSGE32_IMM = 118"
  "JSGE32_REG = 126"
  "JSLT32_IMM = 198"
  "JSLT32_REG = 206"
  "JSLE32_IMM = 214"
  "JSLE32_REG = 222"
  "JA = 5"
  "JEQ64_IMM = 21"
  "JEQ64_REG = 29"
  "JGT64_IMM = 37"
  "JGT64_REG = 45"
  "JGE64_IMM = 53"
  "JGE64_REG = 61"
  "JLT64_IMM = 165"
  "JLT64_REG = 173"
  "JLE64_IMM = 181"
  "JLE64_REG = 189"
  "JSET64_IMM = 69"
  "JSET64_REG = 77"
  "JNE64_IMM = 85"
  "JNE64_REG = 93"
  "JSGT64_IMM = 101"
  "JSGT64_REG = 109"
  "JSGE64_IMM = 117"
  "JSGE64_REG = 125"
  "JSLT64_IMM = 197"
  "JSLT64_REG = 205"
  "JSLE64_IMM = 213"
  "JSLE64_REG = 221"
  "CALL_IMM = 133"
  "CALL_REG = 141"
  "EXIT = 149"
  by (simp_all add: bpf_defs)

lemma mm_values [simp]:
  "MM_REGION_SIZE = 0x100000000" "MM_RODATA_START = 0" "MM_BYTECODE_START = 0x100000000"
  "MM_STACK_START = 0x200000000" "MM_HEAP_START = 0x300000000" "MM_INPUT_START = 0x400000000"
  by (simp_all add: bpf_defs push_bit_eq_mult)

lemma size_values [simp]:
  "INSN_SIZE = 8" "FRAME_PTR_REG = 10" "FIRST_SCRATCH_REG = 6" "SCRATCH_REGS = 4"
  "VIRTUAL_ADDRESS_BITS = 32"
  by (simp_all add: bpf_defs)

section \<open>Instructions\<close>

record Insn =
  ptr :: usize
  opc :: u8
  dst :: u8
  src :: u8
  off :: i16
  imm :: i64

definition to_array :: "Insn \<Rightarrow> u8 list" where
  "to_array insn =
     [opc insn,
      wrapping_shl (src insn) 4 OR dst insn,
      ucast (off insn AND 0xff),
      ucast (wrapping_shr_signed (off insn) 8),
      ucast (imm insn AND 0xff),
      ucast (wrapping_shr_signed (imm insn AND 0xff00) 8),
      ucast (wrapping_shr (ucast (imm insn) AND 0xff0000 :: u32) 16),
      ucast (wrapping_shr (ucast (imm insn) AND 0xff000000 :: u32) 24)]"

definition to_vec :: "Insn \<Rightarrow> u8 list" where
  "to_vec insn = to_array insn"

definition is_pc_in_program :: "u8 list \<Rightarrow> usize \<Rightarrow> bool" where
  "is_pc_in_program prog pc =
     (unat (saturating_mul (saturating_add pc 1) (of_nat INSN_SIZE)) \<le> length prog)"

text \<open>
  \<open>LittleEndian::read_i16(&prog[at..])\<close> and \<open>read_i32\<close>: the slice and the read both panic
  when the bytes are not there, which is \<open>None\<close>.
\<close>

definition read_i16 :: "u8 list \<Rightarrow> nat \<Rightarrow> i16 option" where
  "read_i16 prog at = map_option from_le_bytes (slice_get prog at (at + 2))"

definition read_i32 :: "u8 list \<Rightarrow> nat \<Rightarrow> i32 option" where
  "read_i32 prog at = map_option from_le_bytes (slice_get prog at (at + 4))"

text \<open>\<open>None\<close> is the panic of an index out of bounds; the products wrap like \<open>usize\<close>.\<close>

definition get_insn_unchecked :: "u8 list \<Rightarrow> usize \<Rightarrow> Insn option" where
  "get_insn_unchecked prog pc =
     (let base = of_nat INSN_SIZE * pc in
      if unat base < length prog \<and> unat (base + 1) < length prog then
        (case (read_i16 prog (unat (base + 2)), read_i32 prog (unat (base + 4))) of
           (Some o16, Some i32) \<Rightarrow>
             Some \<lparr>ptr = pc,
                   opc = prog ! unat base,
                   dst = (prog ! unat (base + 1)) AND 0x0f,
                   src = drop_bit 4 ((prog ! unat (base + 1)) AND 0xf0),
                   off = o16,
                   imm = scast i32\<rparr>
         | _ \<Rightarrow> None)
      else None)"

text \<open>\<open>get_insn\<close> adds a \<open>debug_assert\<close> that compiles to nothing in the release profile.\<close>

definition get_insn :: "u8 list \<Rightarrow> usize \<Rightarrow> Insn option" where
  "get_insn prog pc = get_insn_unchecked prog pc"

definition augment_lddw_unchecked :: "u8 list \<Rightarrow> Insn \<Rightarrow> Insn option" where
  "augment_lddw_unchecked prog insn =
     map_option
       (\<lambda>more_significant_half.
          insn\<lparr>imm := (imm insn AND 0xffffffff) OR push_bit 32 (scast more_significant_half)\<rparr>)
       (read_i32 prog (unat ((ptr insn + 1) * of_nat INSN_SIZE + 4)))"

text \<open>The constraint under which Rust allocates a slice: at most \<open>isize::MAX\<close> bytes.\<close>

definition slice_len_ok :: "'a list \<Rightarrow> bool" where
  "slice_len_ok xs = (length xs < 2 ^ 63)"

section \<open>Facts on decoding\<close>

lemma is_pc_in_program_iff:
  assumes "slice_len_ok prog"
  shows "is_pc_in_program prog pc \<longleftrightarrow> 8 * unat pc + 8 \<le> length prog"
proof -
  have "unat pc < 2 ^ 64" using unsigned_less [of pc] by simp
  with assms show ?thesis
    by (auto simp: is_pc_in_program_def rust_arith slice_len_ok_def min_def)
qed

text \<open>Inside the program nothing wraps.\<close>

lemma unat_insn_base:
  assumes "slice_len_ok prog" "8 * unat pc + 8 \<le> length prog" "k < 8"
  shows "unat (8 * (pc :: u64) + of_nat k) = 8 * unat pc + k"
proof -
  have "8 * unat pc + k < 2 ^ 64" using assms by (simp add: slice_len_ok_def)
  then have "unat (of_nat (8 * unat pc + k) :: u64) = 8 * unat pc + k"
    by (simp only: unat_of_nat) simp
  then show ?thesis by simp
qed

text \<open>
  What eight bytes mean, read without the slice arithmetic of \<open>get_insn_unchecked\<close>, and the
  instructions that have an encoding: register fields of four bits, a sign-extended 32-bit
  immediate.
\<close>

definition insn_of_bytes :: "usize \<Rightarrow> u8 list \<Rightarrow> Insn" where
  "insn_of_bytes pc bs =
     \<lparr>ptr = pc, opc = bs ! 0, dst = (bs ! 1) AND 0x0f, src = drop_bit 4 ((bs ! 1) AND 0xf0),
      off = from_le_bytes [bs ! 2, bs ! 3],
      imm = scast (from_le_bytes [bs ! 4, bs ! 5, bs ! 6, bs ! 7] :: i32)\<rparr>"

definition insn_encodable :: "Insn \<Rightarrow> bool" where
  "insn_encodable insn \<longleftrightarrow>
     dst insn < 16 \<and> src insn < 16 \<and> imm insn = scast (ucast (imm insn) :: i32)"

lemma read_i16_inside:
  "at + 2 \<le> length xs \<Longrightarrow> read_i16 xs at = Some (from_le_bytes [xs ! at, xs ! (at + 1)])"
  by (simp add: read_i16_def slice_get_def take_Suc_conv_app_nth numeral_2_eq_2)

lemma read_i32_inside:
  "at + 4 \<le> length xs \<Longrightarrow>
     read_i32 xs at = Some (from_le_bytes [xs ! at, xs ! (at + 1), xs ! (at + 2), xs ! (at + 3)])"
  by (simp add: read_i32_def slice_get_def take_Suc_conv_app_nth numeral_eq_Suc)

lemma get_insn_inside:
  assumes "slice_len_ok prog" "8 * unat pc + 8 \<le> length prog"
  shows "get_insn_unchecked prog pc = Some (insn_of_bytes pc (take 8 (drop (8 * unat pc) prog)))"
proof -
  note b = unat_insn_base [OF assms]
  have base: "unat (8 * pc) = 8 * unat pc" "unat (8 * pc + 1) = 8 * unat pc + 1"
    "unat (8 * pc + 2) = 8 * unat pc + 2" "unat (8 * pc + 4) = 8 * unat pc + 4"
    using b [of 0] b [of 1] b [of 2] b [of 4] by simp_all
  show ?thesis using assms(2)
    by (simp add: get_insn_unchecked_def insn_of_bytes_def base read_i16_inside read_i32_inside
        numeral_eq_Suc del: from_le_bytes.simps)
qed

lemma bytes_of_off:
  "[ucast (w AND 0xff), ucast (wrapping_shr_signed w 8)] = to_le_bytes (w :: i16)"
proof -
  have "(0xff :: i16) = mask 8" by (simp add: mask_eq_exp_minus_1)
  moreover have "ucast (signed_drop_bit 8 w) = (ucast (drop_bit 8 w) :: u8)"
    by (rule bit_word_eqI) (auto simp: bit_simps)
  moreover have "ucast (w AND mask 8) = (ucast w :: u8)"
    by (rule bit_word_eqI) (auto simp: bit_simps)
  ultimately show ?thesis by (simp add: to_le_bytes_def wrapping_shr_signed_def upt_rec)
qed

lemma bytes_of_imm:
  "[ucast (w AND 0xff), ucast (wrapping_shr_signed (w AND 0xff00) 8),
    ucast (wrapping_shr (ucast w AND 0xff0000 :: u32) 16),
    ucast (wrapping_shr (ucast w AND 0xff000000 :: u32) 24)] = to_le_bytes (ucast (w :: i64) :: i32)"
proof -
  have c: "(0xff :: i64) = mask 8" "(0xff00 :: i64) = push_bit 8 (mask 8)"
    "(0xff0000 :: u32) = push_bit 16 (mask 8)" "(0xff000000 :: u32) = push_bit 24 (mask 8)"
    by (simp_all add: mask_eq_exp_minus_1)
  have 1: "ucast (w AND mask 8) = (ucast (ucast w :: i32) :: u8)"
    by (rule bit_word_eqI) (auto simp: bit_simps)
  have 2: "ucast (signed_drop_bit 8 (w AND push_bit 8 (mask 8))) = (ucast (drop_bit 8 (ucast w :: i32)) :: u8)"
    by (rule bit_word_eqI) (auto simp: bit_simps)
  have 3: "ucast (drop_bit 16 (ucast w AND push_bit 16 (mask 8) :: u32)) = (ucast (drop_bit 16 (ucast w :: i32)) :: u8)"
    by (rule bit_word_eqI) (auto simp: bit_simps)
  have 4: "ucast (drop_bit 24 (ucast w AND push_bit 24 (mask 8) :: u32)) = (ucast (drop_bit 24 (ucast w :: i32)) :: u8)"
    by (rule bit_word_eqI) (auto simp: bit_simps)
  show ?thesis by (simp only: c to_le_bytes_def wrapping_shr_signed_def wrapping_shr_def) (simp add: upt_rec 1 2 3 [unfolded drop_bit_and] 4 [unfolded drop_bit_and])
qed

lemma nibbles_join: "wrapping_shl (drop_bit 4 (b AND 0xf0)) 4 OR (b AND 0x0f) = (b :: u8)"
proof -
  have "(0xf0 :: u8) = push_bit 4 (mask 4)" "(0x0f :: u8) = mask 4"
    by (simp_all add: mask_eq_exp_minus_1)
  moreover have "push_bit 4 (drop_bit 4 (b AND push_bit 4 (mask 4))) OR (b AND mask 4) = b"
    by (rule bit_word_eqI) (auto simp: bit_simps)
  ultimately show ?thesis by (simp add: wrapping_shl_def)
qed

lemma nibbles_split:
  assumes "d < 16" "s < 16"
  shows "(wrapping_shl s 4 OR d) AND 0x0f = (d :: u8)" "drop_bit 4 ((wrapping_shl s 4 OR d) AND 0xf0) = (s :: u8)"
proof -
  have m: "(0xf0 :: u8) = push_bit 4 (mask 4)" "(0x0f :: u8) = mask 4"
    by (simp_all add: mask_eq_exp_minus_1)
  have small: "take_bit 4 x = x" if "x < 16" for x :: u8
    using that by (simp add: take_bit_eq_mod word_unat_eq_iff unat_mod word_less_nat_alt)
  have d: "bit d n \<Longrightarrow> n < 4" and s: "bit s n \<Longrightarrow> n < 4" for n
    using small [OF assms(1)] small [OF assms(2)] by (metis bit_take_bit_iff)+
  show "(wrapping_shl s 4 OR d) AND 0x0f = d"
    by (rule bit_word_eqI) (auto simp: m wrapping_shl_def bit_simps dest: d)
  show "drop_bit 4 ((wrapping_shl s 4 OR d) AND 0xf0) = s"
    by (rule bit_word_eqI) (auto simp: m wrapping_shl_def bit_simps dest: d s)
qed

lemma to_array_bytes:
  "to_array insn = [opc insn, wrapping_shl (src insn) 4 OR dst insn] @ to_le_bytes (off insn)
     @ to_le_bytes (ucast (imm insn) :: i32)"
  by (simp add: to_array_def bytes_of_off [symmetric] bytes_of_imm [symmetric])

lemma list_2: "length xs = 2 \<Longrightarrow> [xs ! 0, xs ! 1] = xs"
  by (auto simp: numeral_eq_Suc length_Suc_conv)

lemma list_4: "length xs = 4 \<Longrightarrow> [xs ! 0, xs ! 1, xs ! 2, xs ! 3] = xs"
  by (auto simp: numeral_eq_Suc length_Suc_conv)

lemma insn_of_bytes_to_array:
  assumes "insn_encodable insn"
  shows "insn_of_bytes pc (to_array insn) = insn\<lparr>ptr := pc\<rparr>"
  using list_2 [of "to_le_bytes (off insn)"] list_4 [of "to_le_bytes (ucast (imm insn) :: i32)"]
    assms
  by (simp add: insn_encodable_def insn_of_bytes_def to_array_bytes nibbles_split nibbles_split(2) [simplified]
      nth_append from_le_to_le_bytes del: from_le_bytes.simps nth_to_le_bytes)

lemma to_array_insn_of_bytes:
  assumes "length bs = 8"
  shows "to_array (insn_of_bytes pc bs) = bs"
proof -
  obtain b0 b1 b2 b3 b4 b5 b6 b7 where bs: "bs = [b0, b1, b2, b3, b4, b5, b6, b7]"
    using assms by (auto simp: numeral_eq_Suc length_Suc_conv)
  have "ucast (scast (from_le_bytes [b4, b5, b6, b7] :: i32) :: i64) = (from_le_bytes [b4, b5, b6, b7] :: i32)"
    by (rule bit_word_eqI) (simp add: bit_simps)
  then show ?thesis
    by (simp add: bs to_array_bytes insn_of_bytes_def nibbles_join [simplified] to_le_from_le_bytes del: from_le_bytes.simps)
qed

lemma length_to_array [simp]: "length (to_array insn) = 8"
  by (simp add: to_array_def)

lemma concat_to_array_length [simp]: "length (concat (map to_array insns)) = 8 * length insns"
  by (induction insns) simp_all

lemma concat_to_array_slice:
  "i < length insns \<Longrightarrow> take 8 (drop (8 * i) (concat (map to_array insns))) = to_array (insns ! i)"
proof (induction insns arbitrary: i)
  case (Cons a insns)
  then show ?case by (cases i) simp_all
qed simp

text \<open>
  C38: an assembled program decodes to the instructions it was assembled from.
\<close>

theorem get_insn_assembled:
  assumes "slice_len_ok (concat (map to_array insns))" "i < length insns" "insn_encodable (insns ! i)"
  shows "get_insn (concat (map to_array insns)) (of_nat i) = Some ((insns ! i)\<lparr>ptr := of_nat i\<rparr>)"
proof -
  have "unat (of_nat i :: usize) = i"
    using assms(1,2) by (simp only: unat_of_nat slice_len_ok_def concat_to_array_length) simp
  then show ?thesis
    using assms get_insn_inside [OF assms(1), of "of_nat i"]
    by (simp add: get_insn_def concat_to_array_slice insn_of_bytes_to_array)
qed

text \<open>Two instructions of a small program, \<open>mov64 r1, -1; exit\<close>.\<close>

theorem get_insn_assembled_witness:
  "let insns = [\<lparr>ptr = 0, opc = MOV64_IMM, dst = 1, src = 0, off = 0, imm = - 1\<rparr>,
                \<lparr>ptr = 0, opc = EXIT, dst = 0, src = 0, off = - 3, imm = 0\<rparr>]
   in get_insn (concat (map to_array insns)) (of_nat 1) = Some ((insns ! 1)\<lparr>ptr := of_nat 1\<rparr>)"
proof -
  let ?insns = "[\<lparr>ptr = 0, opc = MOV64_IMM, dst = 1, src = 0, off = 0, imm = - 1\<rparr>,
                 \<lparr>ptr = 0, opc = EXIT, dst = 0, src = 0, off = - 3, imm = 0\<rparr>]"
  have "slice_len_ok (concat (map to_array ?insns))" "1 < length ?insns" "insn_encodable (?insns ! 1)"
    by (simp_all add: slice_len_ok_def insn_encodable_def)
  from get_insn_assembled [OF this] show ?thesis by (simp only: Let_def)
qed

lemma ucast_scast_i32: "ucast (scast w :: i64) = (w :: i32)"
  by (rule bit_word_eqI) (simp add: bit_simps)

lemma lddw_halves:
  "(scast (ucast v :: i32) AND 0xffffffff) OR push_bit 32 (scast (ucast (drop_bit 32 v) :: i32)) =
     (v :: i64)"
proof -
  have m: "(0xffffffff :: i64) = mask 32" by (simp add: mask_eq_exp_minus_1)
  have "bit ((scast (ucast v :: i32) AND mask 32)
      OR push_bit 32 (scast (ucast (drop_bit 32 v) :: i32)) :: i64) n = bit v n"
    if "n < LENGTH(64)" for n
  proof (cases "n < 32")
    case True
    then have "min 31 n = n" by simp
    with True show ?thesis by (simp add: bit_simps)
  next
    case False
    with that have "min 31 (n - 32) = n - 32" "n - 32 < 32" by simp_all
    with False that show ?thesis by (auto simp: bit_simps)
  qed
  then show ?thesis unfolding m by (rule bit_word_eqI)
qed

lemma unat_insn_next:
  assumes "slice_len_ok prog" "8 * unat pc + 16 \<le> length prog"
  shows "unat (((pc :: u64) + 1) * 8 + 4) = 8 * unat pc + 12" "unat (pc + 1) = unat pc + 1"
proof -
  have "8 * unat pc + 12 < 2 ^ 64" using assms by (simp add: slice_len_ok_def)
  then have "unat (of_nat (8 * unat pc + 12) :: u64) = 8 * unat pc + 12"
    "unat (of_nat (unat pc + 1) :: u64) = unat pc + 1"
    by (simp_all only: unat_of_nat) simp_all
  then show "unat ((pc + 1) * 8 + 4) = 8 * unat pc + 12" "unat (pc + 1) = unat pc + 1"
    by (simp_all add: algebra_simps)
qed

text \<open>
  C39: the two slots of a wide load hold the low and the high half of the constant;
  \<open>augment_lddw_unchecked\<close> puts the 64-bit constant back together from them.
\<close>

theorem augment_lddw_joins:
  assumes "slice_len_ok prog" "8 * unat pc + 16 \<le> length prog"
    and "get_insn prog pc = Some lo" "get_insn prog (pc + 1) = Some hi"
    and "imm lo = scast (ucast v :: i32)" "imm hi = scast (ucast (drop_bit 32 v) :: i32)"
  shows "augment_lddw_unchecked prog lo = Some (lo\<lparr>imm := v\<rparr>)"
proof -
  note nxt = unat_insn_next [OF assms(1,2)]
  let ?bs = "[prog ! (12 + 8 * unat pc), prog ! (13 + 8 * unat pc), prog ! (14 + 8 * unat pc),
    prog ! (15 + 8 * unat pc)]"
  have lo: "ptr lo = pc" using assms(1-3) get_insn_inside [of prog pc]
    by (auto simp: get_insn_def insn_of_bytes_def)
  have hi: "imm hi = scast (from_le_bytes ?bs :: i32)"
    using assms(1,2,4) get_insn_inside [of prog "pc + 1"]
    by (simp add: get_insn_def insn_of_bytes_def nxt del: from_le_bytes.simps) auto
  have "from_le_bytes ?bs = (ucast (drop_bit 32 v) :: i32)"
    using hi assms(6) ucast_scast_i32 by metis
  moreover have "read_i32 prog (8 * unat pc + 12) = Some (from_le_bytes ?bs)"
    using assms(2) read_i32_inside [of "8 * unat pc + 12" prog]
    by (simp add: add.commute del: from_le_bytes.simps)
  ultimately show ?thesis
    using assms(5) by (simp add: augment_lddw_unchecked_def nxt [simplified] lo lddw_halves)
qed

theorem augment_lddw_joins_witness:
  "let prog = concat (map to_array [\<lparr>ptr = 0, opc = LD_DW_IMM, dst = 2, src = 0, off = 0, imm = 7\<rparr>,
                                    \<lparr>ptr = 0, opc = 0, dst = 0, src = 0, off = 0, imm = 4\<rparr>])
   in augment_lddw_unchecked prog \<lparr>ptr = 0, opc = LD_DW_IMM, dst = 2, src = 0, off = 0, imm = 7\<rparr>
      = Some \<lparr>ptr = 0, opc = LD_DW_IMM, dst = 2, src = 0, off = 0, imm = 0x400000007\<rparr>"
proof -
  let ?lo = "\<lparr>ptr = 0, opc = LD_DW_IMM, dst = 2, src = 0, off = 0, imm = 7\<rparr>"
  let ?hi = "\<lparr>ptr = 0, opc = 0, dst = 0, src = 0, off = 0, imm = 4\<rparr>"
  let ?prog = "concat (map to_array [?lo, ?hi])"
  have "slice_len_ok ?prog" "8 * unat (0 :: usize) + 16 \<le> length ?prog"
    by (simp_all add: slice_len_ok_def)
  moreover have "get_insn ?prog 0 = Some ?lo" "get_insn ?prog (0 + 1) = Some (?hi\<lparr>ptr := 1\<rparr>)"
    by code_simp+
  ultimately have "augment_lddw_unchecked ?prog ?lo = Some (?lo\<lparr>imm := 0x400000007\<rparr>)"
    by (rule augment_lddw_joins) code_simp+
  then show ?thesis by simp
qed

end
