(* ===== verification/Region.thy ===== *)
theory Region
  imports Errors Ebpf
begin

text \<open>
  \<open>MemoryRegion\<close> of \<open>sbpf/src/memory_region.rs\<close>: a slice of host memory seen at a range of guest
  addresses, contiguous or spread out with gaps between frames, and the translation of a guest
  access into a host address.
\<close>

unbundle bit_operations_syntax

section \<open>Operations\<close>

text \<open>What \<open>MemoryRegion::new\<close> uses of a slice: its host address and its length.\<close>

record Slice =
  as_ptr :: u64
  slice_len :: u64

record MemoryRegion =
  host_addr :: u64
  vm_addr :: u64
  len :: u64
  vm_gap_shift :: u8
  writable :: bool
  access_violation_handler_payload :: "u16 option"

definition new_region :: "Slice \<Rightarrow> u64 \<Rightarrow> u64 \<Rightarrow> bool \<Rightarrow> MemoryRegion" where
  "new_region s addr vm_gap_size wr =
     (let shift = saturating_sub (saturating_mul 8 8) 1;
          shift = (if vm_gap_size > 0
                   then saturating_sub shift (of_nat (leading_zeros vm_gap_size)) else shift)
      in \<lparr>host_addr = as_ptr s, vm_addr = addr, len = slice_len s, vm_gap_shift = shift,
          writable = wr, access_violation_handler_payload = None\<rparr>)"

definition new_readonly :: "Slice \<Rightarrow> u64 \<Rightarrow> MemoryRegion" where
  "new_readonly s addr = new_region s addr 0 False"

definition new_writable :: "Slice \<Rightarrow> u64 \<Rightarrow> MemoryRegion" where
  "new_writable s addr = new_region s addr 0 True"

definition new_writable_gapped :: "Slice \<Rightarrow> u64 \<Rightarrow> u64 \<Rightarrow> MemoryRegion" where
  "new_writable_gapped s addr vm_gap_size = new_region s addr vm_gap_size True"

text \<open>\<open>&[]\<close>, whose dangling address is never dereferenced.\<close>

definition empty_slice :: Slice where
  "empty_slice = \<lparr>as_ptr = 1, slice_len = 0\<rparr>"

definition vm_addr_range :: "MemoryRegion \<Rightarrow> u64 range" where
  "vm_addr_range r =
     (if vm_gap_shift r = 63 then mk_range (vm_addr r) (saturating_add (vm_addr r) (len r))
      else mk_range (vm_addr r) (saturating_add (vm_addr r) (saturating_mul (len r) 2)))"

definition unwrap_or :: "'a option \<Rightarrow> 'a \<Rightarrow> 'a" where
  "unwrap_or x d = (case x of None \<Rightarrow> d | Some y \<Rightarrow> y)"

definition is_in_gap :: "MemoryRegion \<Rightarrow> u64 \<Rightarrow> bool" where
  "is_in_gap r begin_offset \<longleftrightarrow>
     unwrap_or (checked_shr begin_offset (unat (vm_gap_shift r))) 0 AND 1 = 1"

definition gapped_offset :: "MemoryRegion \<Rightarrow> u64 \<Rightarrow> u64" where
  "gapped_offset r begin_offset =
     (let gap_mask = unwrap_or (checked_shl (- 1 :: u64) (unat (vm_gap_shift r))) 0
      in unwrap_or (checked_shr (begin_offset AND gap_mask) 1) 0
           OR (begin_offset AND NOT gap_mask))"

definition vm_to_host :: "MemoryRegion \<Rightarrow> AccessType \<Rightarrow> u64 \<Rightarrow> u64 \<Rightarrow> u64 option" where
  "vm_to_host r access_type addr n =
     (if access_type = Store \<and> \<not> writable r then None
      else if addr < vm_addr r then None
      else
        let begin_offset = saturating_sub addr (vm_addr r) in
        if vm_gap_shift r = 63 then
          (case checked_add begin_offset n of
             Some end_offset \<Rightarrow>
               if end_offset \<le> len r then Some (saturating_add (host_addr r) begin_offset)
               else None
           | None \<Rightarrow> None)
        else
          (case checked_add (gapped_offset r begin_offset) n of
             Some end_offset \<Rightarrow>
               if end_offset \<le> len r \<and> \<not> is_in_gap r begin_offset
               then Some (saturating_add (host_addr r) (gapped_offset r begin_offset))
               else None
           | None \<Rightarrow> None))"

section \<open>Construction\<close>

lemma leading_zeros_power:
  assumes "k < LENGTH('a::len)"
  shows "leading_zeros (2 ^ k :: 'a word) = LENGTH('a) - Suc k"
proof -
  have "[0..<LENGTH('a)] = [0..<k] @ k # [Suc k..<LENGTH('a)]"
    using assms by (metis le_add1 le_add_same_cancel1 less_imp_add_positive upt_add_eq_append
        upt_conv_Cons zero_le)
  moreover have "takeWhile Not (rev (map (bit (2 ^ k :: 'a word)) [Suc k..<LENGTH('a)]) @ True # xs)
      = rev (map (bit (2 ^ k :: 'a word)) [Suc k..<LENGTH('a)])" for xs
    by (subst takeWhile_append2) (auto simp: bit_simps)
  ultimately show ?thesis using assms by (simp add: leading_zeros_def bit_simps)
qed

lemma new_region_contiguous [simp]:
  "new_region s a 0 w = \<lparr>host_addr = as_ptr s, vm_addr = a, len = slice_len s, vm_gap_shift = 63,
     writable = w, access_violation_handler_payload = None\<rparr>"
  by (simp add: new_region_def saturating_sub_def saturating_mul_def)

lemma new_region_gapped:
  assumes "k < 64"
  shows "new_region s a (2 ^ k) w = \<lparr>host_addr = as_ptr s, vm_addr = a, len = slice_len s,
     vm_gap_shift = of_nat k, writable = w, access_violation_handler_payload = None\<rparr>"
proof -
  have pos: "(2 ^ k :: u64) > 0" using assms by (simp add: word_neq_0_conv [symmetric])
  have "unat (of_nat (63 - k) :: u8) = 63 - k" using assms by (simp only: unat_of_nat) simp
  then have "saturating_sub 63 (of_nat (63 - k) :: u8) = of_nat k"
    using assms by (simp add: saturating_sub_def word_le_nat_alt of_nat_diff)
  then show ?thesis
    using assms pos leading_zeros_power [of k, where 'a = 64]
    by (simp add: new_region_def saturating_mul_def saturating_sub_def [of 64])
qed

section \<open>Gap arithmetic\<close>

text \<open>
  The reference translation on naturals: with frames of \<open>g = 2 ^ s\<close> bytes, offset \<open>x\<close> is in frame
  \<open>x div (2 * g)\<close>, or in the gap after it when \<open>x div g\<close> is odd.
\<close>

definition frame_offset :: "nat \<Rightarrow> nat \<Rightarrow> nat" where
  "frame_offset g x = (x div (2 * g)) * g + x mod g"

lemma is_in_gap_bit:
  assumes "unat (vm_gap_shift r) < 64"
  shows "is_in_gap r x \<longleftrightarrow> bit x (unat (vm_gap_shift r))"
proof -
  have "(drop_bit s x AND 1 = 1) \<longleftrightarrow> bit x s" for s
    by (simp add: and_one_eq mod_2_eq_odd even_drop_bit_iff_not_bit)
  then show ?thesis using assms by (simp add: is_in_gap_def unwrap_or_def checked_shr_def)
qed

lemma is_in_gap_iff:
  assumes "unat (vm_gap_shift r) < 64"
  shows "is_in_gap r x \<longleftrightarrow> odd (unat x div 2 ^ unat (vm_gap_shift r))"
proof -
  have "bit x s \<longleftrightarrow> bit (unat x) s" for s by (simp add: bit_unsigned_iff)
  then show ?thesis using assms by (simp add: is_in_gap_bit bit_iff_odd)
qed

lemma gapped_offset_bits:
  assumes s: "unat (vm_gap_shift r) = s" "s < 63" and gap: "\<not> is_in_gap r x"
  shows "gapped_offset r x = push_bit s (drop_bit (Suc s) x) OR take_bit s x"
proof -
  have nb: "\<not> bit x s" using gap s by (simp add: is_in_gap_bit)
  have "gapped_offset r x = drop_bit 1 (x AND push_bit s (- 1)) OR (x AND NOT (push_bit s (- 1)))"
    using s by (simp add: gapped_offset_def unwrap_or_def checked_shl_def checked_shr_def)
  also have "\<dots> = push_bit s (drop_bit (Suc s) x) OR take_bit s x"
  proof (rule bit_word_eqI)
    fix n assume n: "n < LENGTH(64)"
    consider "n < s" "Suc n < s" | "Suc n = s" | "n = s" | "s < n" by linarith
    then show "bit (drop_bit 1 (x AND push_bit s (- 1)) OR (x AND NOT (push_bit s (- 1)))) n =
        bit (push_bit s (drop_bit (Suc s) x) OR take_bit s x) n"
      using n nb s(2) by cases (auto simp: bit_simps dest: bit_imp_le_length)
  qed
  finally show ?thesis .
qed

lemma gapped_offset_frame:
  assumes "unat (vm_gap_shift r) < 63" "\<not> is_in_gap r x"
  shows "unat (gapped_offset r x) = frame_offset (2 ^ unat (vm_gap_shift r)) (unat x)"
proof -
  define s where "s = unat (vm_gap_shift r)"
  have s: "s < 63" using assms(1) by (simp add: s_def)
  have dis: "push_bit s (drop_bit (Suc s) x) AND take_bit s x = 0"
    by (rule bit_word_eqI) (auto simp: bit_simps)
  have "unat x div 2 ^ Suc s * 2 ^ s \<le> unat x div 2 ^ Suc s * 2 ^ Suc s" by simp
  also have "\<dots> \<le> unat x" by (rule div_times_less_eq_dividend)
  also have "\<dots> < 2 ^ 64" using unat_u64_less [of x] by simp
  finally have "take_bit 64 (push_bit s (drop_bit (Suc s) (unat x))) = unat x div 2 ^ Suc s * 2 ^ s"
    by (simp add: drop_bit_eq_div push_bit_eq_mult take_bit_nat_eq_self del: power_Suc)
  then have hi: "unat (push_bit s (drop_bit (Suc s) x)) = unat x div 2 ^ Suc s * 2 ^ s"
    by (simp only: unsigned_push_bit_eq unsigned_drop_bit_eq)
       (simp add: take_bit_nat_eq_self unat_u64_less)
  have lo: "unat (take_bit s x) = unat x mod 2 ^ s"
    using s by (simp only: unsigned_take_bit_eq) (simp add: take_bit_eq_mod)
  have "unat x div 2 ^ Suc s * 2 ^ s + unat x mod 2 ^ s \<le> unat x div 2 ^ s * 2 ^ s + unat x mod 2 ^ s"
    by (simp add: div_le_mono2)
  also have "\<dots> = unat x" by (rule div_mult_mod_eq)
  finally have less: "unat x div 2 ^ Suc s * 2 ^ s + unat x mod 2 ^ s < 18446744073709551616"
    using unat_u64_less [of x] by linarith
  have "unat (gapped_offset r x) = unat (push_bit s (drop_bit (Suc s) x) + take_bit s x)"
    using gapped_offset_bits [OF s_def [symmetric] s assms(2)] disjunctive_add_eq_or [OF dis] by simp
  also have "\<dots> = unat x div 2 ^ Suc s * 2 ^ s + unat x mod 2 ^ s"
    using hi lo less by (simp add: unat_word_ariths del: power_Suc)
  finally show ?thesis by (simp add: frame_offset_def s_def)
qed

lemma frame_offset_le: "frame_offset g x \<le> x"
proof -
  have "x div (2 * g) * g \<le> x div g * g" by (cases "g = 0") (simp_all add: div_le_mono2)
  then show ?thesis using div_mult_mod_eq [of x g] unfolding frame_offset_def by linarith
qed

lemma frame_offset_inj:
  assumes "0 < g" "even (x div g)" "even (y div g)" "frame_offset g x = frame_offset g y"
  shows "x = y"
proof -
  have frame: "z = 2 * (frame_offset g z div g) * g + frame_offset g z mod g" if "even (z div g)" for z
  proof -
    have "frame_offset g z div g = z div g div 2" "frame_offset g z mod g = z mod g"
      using assms(1) by (simp_all add: frame_offset_def div_mult2_eq [symmetric] mult.commute)
    then show ?thesis using that div_mult_mod_eq [of z g] by simp
  qed
  show ?thesis using frame [OF assms(2)] frame [OF assms(3)] assms(4) by simp
qed

section \<open>Translation\<close>

text \<open>
  The offset into the host slice of the byte at a guest offset, or \<open>None\<close> in a gap; and the
  regions that stand for a Rust slice, whose end does not wrap around.
\<close>

definition host_offset :: "MemoryRegion \<Rightarrow> nat \<Rightarrow> nat option" where
  "host_offset r x =
     (let g = 2 ^ unat (vm_gap_shift r) in
      if vm_gap_shift r = 63 then Some x
      else if odd (x div g) then None else Some (frame_offset g x))"

definition region_wf :: "MemoryRegion \<Rightarrow> bool" where
  "region_wf r \<longleftrightarrow>
     unat (vm_gap_shift r) \<le> 63 \<and> unat (host_addr r) + unat (len r) < 2 ^ 64"

lemma host_offset_le: "host_offset r x = Some y \<Longrightarrow> y \<le> x"
  by (auto simp: host_offset_def Let_def frame_offset_le split: if_splits)

lemma host_offset_inj:
  assumes "host_offset r x = Some y" "host_offset r x' = Some y"
  shows "x = x'"
  using assms frame_offset_inj [of "2 ^ unat (vm_gap_shift r)" x x']
  by (auto simp: host_offset_def Let_def split: if_splits)

lemma gap_shift_63: "vm_gap_shift r \<noteq> 63 \<Longrightarrow> unat (vm_gap_shift r) \<le> 63 \<Longrightarrow> unat (vm_gap_shift r) < 63"
  by (simp add: word_unat_eq_iff)

lemma vm_to_host_spec:
  assumes "region_wf r"
  shows "vm_to_host r t a n = Some h \<longleftrightarrow>
    (t = Store \<longrightarrow> writable r) \<and> vm_addr r \<le> a \<and>
    (\<exists>y. host_offset r (unat a - unat (vm_addr r)) = Some y \<and> y + unat n \<le> unat (len r)
       \<and> unat h = unat (host_addr r) + y)"
proof (cases "(t = Store \<and> \<not> writable r) \<or> a < vm_addr r")
  case True
  then show ?thesis by (auto simp: vm_to_host_def)
next
  case False
  define x where "x = saturating_sub a (vm_addr r)"
  have x: "unat x = unat a - unat (vm_addr r)" by (simp add: x_def unat_saturating_sub)
  have key: "(case checked_add v n of None \<Rightarrow> None
      | Some e \<Rightarrow> if e \<le> len r then Some (saturating_add (host_addr r) v) else None) = Some h
      \<longleftrightarrow> unat v + unat n \<le> unat (len r) \<and> unat h = unat (host_addr r) + unat v" for v
  proof (cases "checked_add v n")
    case None
    moreover from None have "2 ^ 64 \<le> unat v + unat n" by (simp add: checked_add_None)
    ultimately show ?thesis using unat_u64_less [of "len r"] by auto
  next
    case (Some e)
    then have e: "unat e = unat v + unat n" by (simp add: checked_add_Some)
    have "saturating_add (host_addr r) v = h \<longleftrightarrow> unat h = unat (host_addr r) + unat v"
      if "unat v + unat n \<le> unat (len r)"
      using that assms by (auto simp: word_unat_eq_iff unat_saturating_add region_wf_def)
    with Some e show ?thesis by (auto simp: word_le_nat_alt)
  qed
  show ?thesis
  proof (cases "vm_gap_shift r = 63")
    case True
    with False show ?thesis using key [of x]
      by (simp add: vm_to_host_def Let_def host_offset_def x flip: x_def) auto
  next
    case gapped: False
    then have s: "unat (vm_gap_shift r) < 63" using assms gap_shift_63 [of r] by (simp add: region_wf_def)
    show ?thesis
    proof (cases "is_in_gap r x")
      case True
      then have "odd (unat x div 2 ^ unat (vm_gap_shift r))" using s by (simp add: is_in_gap_iff)
      with True False gapped show ?thesis
        by (auto simp: vm_to_host_def Let_def host_offset_def x simp flip: x_def split: option.splits)
    next
      case nogap: False
      then have "even (unat x div 2 ^ unat (vm_gap_shift r))" using s by (simp add: is_in_gap_iff)
      with nogap False gapped gapped_offset_frame [OF s nogap] show ?thesis
        using key [of "gapped_offset r x"]
        by (simp add: vm_to_host_def Let_def host_offset_def x cong: option.case_cong flip: x_def) auto
    qed
  qed
qed

section \<open>Properties\<close>

lemma vm_to_host_bounds:
  assumes "region_wf r" "vm_to_host r t a n = Some h"
  shows "unat (host_addr r) \<le> unat h"
    and "unat h + unat n \<le> unat (host_addr r) + unat (len r)"
    and "t = Store \<Longrightarrow> writable r"
  using assms by (auto simp: vm_to_host_spec)

text \<open>
  C24: an access that translates stays inside the region's host slice, start to end, and a store
  translates only where the region is writable.
\<close>

theorem vm_to_host_in_slice:
  assumes "region_wf r" "vm_to_host r t a n = Some h"
  shows "unat (host_addr r) \<le> unat h
    \<and> unat h + unat n \<le> unat (host_addr r) + unat (len r)
    \<and> (t = Store \<longrightarrow> writable r)"
  using vm_to_host_bounds [OF assms] by blast

theorem vm_to_host_in_slice_witness:
  "let r = new_writable_gapped \<lparr>as_ptr = 0x7000, slice_len = 8192\<rparr> MM_STACK_START 4096
   in vm_to_host r Store (MM_STACK_START + 8200) 8 = Some 0x8008 \<and> unat (0x8008 :: u64) + 8 \<le> 0x7000 + 8192"
proof -
  let ?r = "new_writable_gapped \<lparr>as_ptr = 0x7000, slice_len = 8192\<rparr> MM_STACK_START 4096"
  have r: "?r = \<lparr>host_addr = 0x7000, vm_addr = 0x200000000, len = 8192, vm_gap_shift = 12,
      writable = True, access_violation_handler_payload = None\<rparr>"
    using new_region_gapped [of 12 "\<lparr>as_ptr = 0x7000, slice_len = 8192\<rparr>"]
    by (simp add: new_writable_gapped_def)
  have h: "vm_to_host ?r Store (MM_STACK_START + 8200) 8 = Some 0x8008"
    unfolding r by (simp only: mm_values) code_simp
  moreover have "region_wf ?r" unfolding r by (simp add: region_wf_def)
  ultimately have "unat (0x8008 :: u64) + unat (8 :: u64) \<le> unat (host_addr ?r) + unat (len ?r)"
    by (intro vm_to_host_in_slice [THEN conjunct2, THEN conjunct1])
  with h show ?thesis by (simp add: r)
qed

text \<open>
  C26: in a gapped region no byte of host memory is visible at two guest addresses.
\<close>

theorem vm_to_host_injective:
  assumes "region_wf r" "vm_to_host r t a n = Some h" "vm_to_host r t' b m = Some h"
  shows "a = b"
proof -
  let ?x = "\<lambda>a. unat a - unat (vm_addr r)"
  obtain y where y: "host_offset r (?x a) = Some y" "host_offset r (?x b) = Some y"
    "vm_addr r \<le> a" "vm_addr r \<le> b"
    using assms by (auto simp: vm_to_host_spec)
  then have "?x a = ?x b" by (metis host_offset_inj)
  then show ?thesis using y(3,4) by (auto simp: word_le_nat_alt word_unat_eq_iff)
qed

theorem vm_to_host_injective_witness:
  "let r = new_readonly \<lparr>as_ptr = 0x7000, slice_len = 16\<rparr> MM_INPUT_START
   in \<forall>b. vm_to_host r Load b 1 = Some 0x7003 \<longrightarrow> MM_INPUT_START + 3 = b"
proof -
  let ?r = "new_readonly \<lparr>as_ptr = 0x7000, slice_len = 16\<rparr> MM_INPUT_START"
  have "region_wf ?r" by (simp add: region_wf_def new_readonly_def)
  moreover have "vm_to_host ?r Load (MM_INPUT_START + 3) 1 = Some 0x7003"
    by (simp add: vm_to_host_def new_readonly_def checked_add_def saturating_add_def saturating_sub_def)
  ultimately show ?thesis unfolding Let_def using vm_to_host_injective by blast
qed

lemma gapped_access:
  assumes "k < 63" "unat (as_ptr s) + unat (slice_len s) < 2 ^ 64" "unat base + x < 2 ^ 64"
  defines "r \<equiv> new_writable_gapped s base (2 ^ k)" and "y \<equiv> x div 2 ^ (k + 1) * 2 ^ k + x mod 2 ^ k"
  shows "vm_to_host r t (base + of_nat x) n =
    (if even (x div 2 ^ k) \<and> y + unat n \<le> unat (slice_len s) then Some (as_ptr s + of_nat y) else None)"
proof -
  have r: "r = \<lparr>host_addr = as_ptr s, vm_addr = base, len = slice_len s, vm_gap_shift = of_nat k,
     writable = True, access_violation_handler_payload = None\<rparr>"
    using assms(1) by (simp add: r_def new_writable_gapped_def new_region_gapped)
  have k: "unat (of_nat k :: u8) = k" using assms(1) by (simp only: unat_of_nat) simp
  have wf: "region_wf r" using assms(1,2) by (simp add: region_wf_def r k)
  have xw: "unat (of_nat x :: u64) = x" using assms(3) by (simp only: unat_of_nat) simp
  then have x: "unat (base + of_nat x) = unat base + x"
    using assms(3) by (simp add: unat_word_ariths)
  have k63: "(of_nat k :: u8) \<noteq> 63" using k assms(1) by (auto simp: word_unat_eq_iff)
  have off: "host_offset r x = (if even (x div 2 ^ k) then Some y else None)"
    using k63 by (simp add: host_offset_def r k frame_offset_def Let_def y_def)
  have le: "base \<le> base + of_nat x" by (simp add: word_le_nat_alt x)
  have "unat (as_ptr s + of_nat y) = unat (as_ptr s) + y" if "y \<le> unat (slice_len s)"
  proof -
    have "unat (of_nat y :: u64) = y"
      using that unat_u64_less [of "slice_len s"] by (simp only: unat_of_nat) simp
    with that assms(2) show ?thesis by (simp add: unat_word_ariths)
  qed
  then have "vm_to_host r t (base + of_nat x) n = Some h \<longleftrightarrow>
      (if even (x div 2 ^ k) \<and> y + unat n \<le> unat (slice_len s) then Some (as_ptr s + of_nat y) else None)
        = Some h" for h
    using le x off vm_to_host_spec [OF wf, of t "base + of_nat x" n h]
    by (auto simp: r word_unat_eq_iff)
  then show ?thesis by (metis (no_types, lifting) not_Some_eq)
qed


text \<open>
  C27: the gapped translation is the documented one.  In a region with frames of \<open>2 ^ k\<close> bytes, a
  byte at offset \<open>x\<close> is mapped exactly when \<open>x\<close> lies in a frame (not in the gap after it) whose
  copy in the host slice holds it, and then to frame \<open>x div 2 ^ (k + 1)\<close> of the slice at the same
  offset in the frame.
\<close>

theorem gapped_translation:
  assumes "k < 63" "unat (as_ptr s) + unat (slice_len s) < 2 ^ 64" "unat base + x < 2 ^ 64"
  defines "r \<equiv> new_writable_gapped s base (2 ^ k)"
  shows "vm_to_host r t (base + of_nat x) 1 =
    (let y = x div 2 ^ (k + 1) * 2 ^ k + x mod 2 ^ k in
     if even (x div 2 ^ k) \<and> y < unat (slice_len s) then Some (as_ptr s + of_nat y) else None)"
  unfolding r_def gapped_access [OF assms(1-3)] by (simp add: Let_def Suc_le_eq)

theorem gapped_translation_witness:
  "vm_to_host (new_writable_gapped \<lparr>as_ptr = 0x7000, slice_len = 8192\<rparr> MM_STACK_START (2 ^ 12)) Load
     (MM_STACK_START + of_nat 8197) 1 = Some (0x7000 + of_nat 4101)"
  using gapped_translation [of 12 "\<lparr>as_ptr = 0x7000, slice_len = 8192\<rparr>" MM_STACK_START 8197 Load]
  by simp



end
