(* ===== verification/Tracker.thy ===== *)
theory Tracker
  imports Prelude
begin

text \<open>
  \<open>MemoryAccessTracker\<close> of \<open>sbpf/src/memory_region.rs\<close>: the ranges whose reads are forbidden and
  the log of the reads that touched them.  The interior mutability of the source is explicit state
  passing.  \<open>read_monitor\<close> is the contract its clients (the memory mapping, the virtual machine)
  rely on.
\<close>

section \<open>Operations\<close>

record MemoryAccessTracker =
  watched_ranges :: "u64 range list"
  forbidden_accesses :: "(u64 \<times> usize) list"
  enabled :: bool

definition new_tracker :: MemoryAccessTracker where
  "new_tracker = \<lparr>watched_ranges = [], forbidden_accesses = [], enabled = False\<rparr>"

definition clone_tracker :: "MemoryAccessTracker \<Rightarrow> MemoryAccessTracker" where
  "clone_tracker t =
     \<lparr>watched_ranges = watched_ranges t, forbidden_accesses = forbidden_accesses t,
      enabled = enabled t\<rparr>"

definition add_watched_range :: "MemoryAccessTracker \<Rightarrow> u64 range \<Rightarrow> MemoryAccessTracker" where
  "add_watched_range t r =
     (if \<not> range_is_empty r then t\<lparr>watched_ranges := watched_ranges t @ [r], enabled := True\<rparr>
      else t)"

fun push_nonempty :: "u64 range list \<Rightarrow> u64 range list \<Rightarrow> u64 range list" where
  "push_nonempty watched [] = watched"
| "push_nonempty watched (r # rs) =
     push_nonempty (if \<not> range_is_empty r then watched @ [r] else watched) rs"

definition add_watched_ranges :: "MemoryAccessTracker \<Rightarrow> u64 range list \<Rightarrow> MemoryAccessTracker" where
  "add_watched_ranges t rs =
     (let watched = push_nonempty (watched_ranges t) rs;
          t = t\<lparr>watched_ranges := watched\<rparr>
      in if watched \<noteq> [] then t\<lparr>enabled := True\<rparr> else t)"

text \<open>The loop of \<open>check_access\<close>; \<open>break\<close> ends the recursion at the first overlap.\<close>

fun check_access_loop ::
  "u64 range list \<Rightarrow> u64 \<Rightarrow> u64 \<Rightarrow> u64 \<Rightarrow> (u64 \<times> usize) list \<Rightarrow> (u64 \<times> usize) list"
where
  "check_access_loop [] vm_addr read_end n log = log"
| "check_access_loop (r # rs) vm_addr read_end n log =
     (if vm_addr < range_end r \<and> read_end > range_start r then log @ [(vm_addr, n)]
      else check_access_loop rs vm_addr read_end n log)"

definition check_access :: "MemoryAccessTracker \<Rightarrow> u64 \<Rightarrow> u64 \<Rightarrow> MemoryAccessTracker" where
  "check_access t vm_addr n =
     (if \<not> enabled t then t
      else t\<lparr>forbidden_accesses :=
               check_access_loop (watched_ranges t) vm_addr (saturating_add vm_addr n) n
                 (forbidden_accesses t)\<rparr>)"

definition has_forbidden_accesses :: "MemoryAccessTracker \<Rightarrow> bool" where
  "has_forbidden_accesses t \<longleftrightarrow> forbidden_accesses t \<noteq> []"

definition get_forbidden_accesses :: "MemoryAccessTracker \<Rightarrow> (u64 \<times> usize) list" where
  "get_forbidden_accesses t = forbidden_accesses t"

definition get_watched_ranges :: "MemoryAccessTracker \<Rightarrow> u64 range list" where
  "get_watched_ranges t = watched_ranges t"

definition reset_tracker :: "MemoryAccessTracker \<Rightarrow> MemoryAccessTracker" where
  "reset_tracker t = t\<lparr>forbidden_accesses := []\<rparr>"

definition clear_tracker :: "MemoryAccessTracker \<Rightarrow> MemoryAccessTracker" where
  "clear_tracker t = t\<lparr>watched_ranges := [], forbidden_accesses := [], enabled := False\<rparr>"

section \<open>Invariant\<close>

text \<open>Only nonempty ranges are watched, and tracking is on exactly when there is one.\<close>

definition tracker_inv :: "MemoryAccessTracker \<Rightarrow> bool" where
  "tracker_inv t \<longleftrightarrow>
     (enabled t \<longleftrightarrow> watched_ranges t \<noteq> []) \<and> list_all (\<lambda>r. \<not> range_is_empty r) (watched_ranges t)"

lemma push_nonempty_filter: "push_nonempty w rs = w @ filter (\<lambda>r. \<not> range_is_empty r) rs"
  by (induction w rs rule: push_nonempty.induct) simp_all

lemma tracker_inv_new [simp, intro]: "tracker_inv new_tracker"
  by (simp add: tracker_inv_def new_tracker_def)

lemma tracker_inv_add_range [intro]: "tracker_inv t \<Longrightarrow> tracker_inv (add_watched_range t r)"
  by (simp add: tracker_inv_def add_watched_range_def)

lemma tracker_inv_add_ranges [intro]: "tracker_inv t \<Longrightarrow> tracker_inv (add_watched_ranges t rs)"
  by (auto simp: tracker_inv_def add_watched_ranges_def push_nonempty_filter Let_def list_all_iff)

lemma tracker_inv_check [intro]: "tracker_inv t \<Longrightarrow> tracker_inv (check_access t a n)"
  by (simp add: tracker_inv_def check_access_def)

lemma tracker_inv_reset [intro]: "tracker_inv t \<Longrightarrow> tracker_inv (reset_tracker t)"
  by (simp add: tracker_inv_def reset_tracker_def)

lemma tracker_inv_clear [simp, intro]: "tracker_inv (clear_tracker t)"
  by (simp add: tracker_inv_def clear_tracker_def)

section \<open>What an access check means\<close>

text \<open>
  The reference: some byte of the access, an address from \<open>vm_addr\<close> up to \<open>vm_addr + n\<close> counted
  without wrap-around, lies in the range.
\<close>

definition touches :: "u64 \<Rightarrow> u64 \<Rightarrow> u64 range \<Rightarrow> bool" where
  "touches vm_addr n r \<longleftrightarrow>
     (\<exists>x. unat vm_addr \<le> x \<and> x < unat vm_addr + unat n
        \<and> unat (range_start r) \<le> x \<and> x < unat (range_end r))"

definition reads_forbidden :: "u64 range list \<Rightarrow> u64 \<Rightarrow> u64 \<Rightarrow> bool" where
  "reads_forbidden rs vm_addr n \<longleftrightarrow> (\<exists>r \<in> set rs. touches vm_addr n r)"

lemma touches_iff_overlap:
  assumes "\<not> range_is_empty r" "0 < n"
  shows "touches a n r \<longleftrightarrow> a < range_end r \<and> saturating_add a n > range_start r"
proof
  assume "touches a n r"
  moreover note unat_u64_less [of "range_end r"]
  ultimately show "a < range_end r \<and> saturating_add a n > range_start r"
    by (auto simp: touches_def word_less_nat_alt unat_saturating_add)
next
  assume o: "a < range_end r \<and> saturating_add a n > range_start r"
  then have "touches a n r = (\<exists>x. max (unat a) (unat (range_start r)) \<le> x
      \<and> x < min (unat a + unat n) (unat (range_end r)))"
    by (simp add: touches_def) (metis max.bounded_iff min_less_iff_conj)
  moreover have "max (unat a) (unat (range_start r)) < min (unat a + unat n) (unat (range_end r))"
    using o assms by (auto simp: word_less_nat_alt unat_saturating_add range_is_empty_def)
  ultimately show "touches a n r" by blast
qed

lemma check_access_loop_eq:
  "check_access_loop rs a e n log =
     log @ (if \<exists>r \<in> set rs. a < range_end r \<and> e > range_start r then [(a, n)] else [])"
  by (induction rs) auto

lemma check_access_watched [simp]: "watched_ranges (check_access t a n) = watched_ranges t"
  by (simp add: check_access_def)

lemma log_check_access:
  assumes "tracker_inv t" "0 < n"
  shows "forbidden_accesses (check_access t a n) =
    forbidden_accesses t @ (if reads_forbidden (watched_ranges t) a n then [(a, n)] else [])"
proof (cases "enabled t")
  case True
  have "(\<exists>r \<in> set (watched_ranges t). a < range_end r \<and> saturating_add a n > range_start r)
      = reads_forbidden (watched_ranges t) a n"
    using assms touches_iff_overlap [of _ n a]
    by (auto simp: reads_forbidden_def tracker_inv_def list_all_iff)
  with True show ?thesis by (simp add: check_access_def check_access_loop_eq)
next
  case False
  with assms show ?thesis by (simp add: check_access_def tracker_inv_def reads_forbidden_def)
qed

section \<open>The contract of a read monitor\<close>

text \<open>
  \<open>note_read\<close> is told of a read, \<open>log_of\<close> is the log, \<open>hits\<close> says which reads are forbidden.
  From the law of one read follows what a whole sequence of reads leaves in the log.
\<close>

locale read_monitor =
  fixes ok :: "'m \<Rightarrow> bool"
    and note_read :: "'m \<Rightarrow> u64 \<Rightarrow> u64 \<Rightarrow> 'm"
    and log_of :: "'m \<Rightarrow> (u64 \<times> usize) list"
    and hits :: "'m \<Rightarrow> u64 \<Rightarrow> u64 \<Rightarrow> bool"
  assumes ok_note: "ok m \<Longrightarrow> ok (note_read m a n)"
    and hits_note: "ok m \<Longrightarrow> hits (note_read m a n) = hits m"
    and log_note: "ok m \<Longrightarrow> 0 < n \<Longrightarrow>
      log_of (note_read m a n) = log_of m @ (if hits m a n then [(a, n)] else [])"
begin

lemma log_fold:
  assumes "ok m" "list_all (\<lambda>(a, n). 0 < n) reads"
  shows "log_of (fold (\<lambda>(a, n) m. note_read m a n) reads m) =
      log_of m @ filter (\<lambda>(a, n). hits m a n) reads"
    and "ok (fold (\<lambda>(a, n) m. note_read m a n) reads m)"
  using assms by (induction reads arbitrary: m) (auto simp: ok_note hits_note log_note split: prod.splits)

lemma clean_iff:
  assumes "ok m" "list_all (\<lambda>(a, n). 0 < n) reads" "log_of m = []"
  shows "log_of (fold (\<lambda>(a, n) m. note_read m a n) reads m) = [] \<longleftrightarrow>
      (\<forall>(a, n) \<in> set reads. \<not> hits m a n)"
  using log_fold [OF assms(1,2)] assms(3) by (auto simp: filter_empty_conv)

end

interpretation tracker: read_monitor tracker_inv check_access get_forbidden_accesses
  "\<lambda>t. reads_forbidden (watched_ranges t)"
  by unfold_locales (auto simp: get_forbidden_accesses_def log_check_access)

section \<open>Properties\<close>

text \<open>
  C7: the tracker reports exactly the forbidden reads.  After any sequence of reads of at least
  one byte, the log has grown by the reads that share a byte with a watched range, each once, in
  order, with its address and length.
\<close>

theorem tracker_reports_exactly:
  assumes "tracker_inv t" "list_all (\<lambda>(a, n). 0 < n) reads"
  shows "get_forbidden_accesses (fold (\<lambda>(a, n) t. check_access t a n) reads t) =
    get_forbidden_accesses t @ filter (\<lambda>(a, n). reads_forbidden (watched_ranges t) a n) reads"
  by (rule tracker.log_fold(1)) (use assms in simp_all)

theorem tracker_reports_exactly_witness:
  "get_forbidden_accesses
     (fold (\<lambda>(a, n) t. check_access t a n) [(0, 8), (99, 2), (107, 1)]
       (add_watched_range new_tracker (mk_range 100 107))) = [(99, 2)]"
proof -
  let ?t = "add_watched_range new_tracker (mk_range 100 107)"
  have "tracker_inv ?t" by auto
  note tracker_reports_exactly [OF this, of "[(0, 8), (99, 2), (107, 1)]"]
  moreover have "watched_ranges ?t = [mk_range 100 107]" "get_forbidden_accesses ?t = []"
    by (simp_all add: add_watched_range_def new_tracker_def range_is_empty_def
        get_forbidden_accesses_def)
  moreover have "reads_forbidden [mk_range 100 107] 99 2"
    by (simp add: reads_forbidden_def touches_def) presburger
  ultimately show ?thesis by (simp add: reads_forbidden_def touches_def)
qed

text \<open>
  C33: the tracker's state stays consistent (only nonempty ranges watched, tracking on exactly when
  there is one) from its creation through every operation, and \<open>reset\<close> clears the log but keeps
  the watched ranges while \<open>clear\<close> drops both.
\<close>

theorem tracker_inv_operations:
  "tracker_inv new_tracker \<and>
   (\<forall>t. tracker_inv t \<longrightarrow>
      (\<forall>r. tracker_inv (add_watched_range t r)) \<and> (\<forall>rs. tracker_inv (add_watched_ranges t rs))
      \<and> (\<forall>a n. tracker_inv (check_access t a n)) \<and> tracker_inv (clear_tracker t)
      \<and> tracker_inv (reset_tracker t) \<and> \<not> has_forbidden_accesses (reset_tracker t)
      \<and> get_watched_ranges (reset_tracker t) = get_watched_ranges t
      \<and> \<not> has_forbidden_accesses (clear_tracker t) \<and> get_watched_ranges (clear_tracker t) = [])"
  by (auto simp: has_forbidden_accesses_def get_watched_ranges_def)
     (simp_all add: reset_tracker_def clear_tracker_def)

theorem tracker_inv_operations_witness:
  "tracker_inv (check_access (add_watched_ranges new_tracker [mk_range 5 5, mk_range 2 9]) 3 1)"
  using tracker_inv_operations by auto

text \<open>
  C34: adding ranges one at a time and in one call leaves the same tracker, and empty ranges (with
  the end not after the start) are dropped.
\<close>

theorem add_watched_ranges_refines:
  "watched_ranges (add_watched_ranges t rs) =
     watched_ranges t @ filter (\<lambda>r. range_start r < range_end r) rs
   \<and> (tracker_inv t \<longrightarrow> add_watched_ranges t rs = fold (\<lambda>r t. add_watched_range t r) rs t)"
proof -
  have "add_watched_ranges t rs = fold (\<lambda>r t. add_watched_range t r) rs t" if "tracker_inv t"
    using that
  proof (induction rs arbitrary: t)
    case Nil
    then show ?case by (cases "watched_ranges t") (simp_all add: add_watched_ranges_def tracker_inv_def)
  next
    case (Cons r rs)
    have "add_watched_ranges t (r # rs) = add_watched_ranges (add_watched_range t r) rs"
      using Cons.prems
      by (auto simp: add_watched_ranges_def add_watched_range_def push_nonempty_filter Let_def
          tracker_inv_def)
    with Cons show ?case by auto
  qed
  then show ?thesis
    by (simp add: add_watched_ranges_def push_nonempty_filter Let_def range_is_empty_def)
qed

theorem add_watched_ranges_refines_witness:
  "add_watched_ranges new_tracker [mk_range 9 2, mk_range 1 4] =
     add_watched_range (add_watched_range new_tracker (mk_range 9 2)) (mk_range 1 4)"
  using add_watched_ranges_refines [of new_tracker "[mk_range 9 2, mk_range 1 4]"] by auto

end
