(* ===== verification/Eytzinger.thy ===== *)
theory Eytzinger
  imports Prelude
begin

text \<open>
  The Eytzinger (breadth-first) layout of a sorted array that \<open>UnalignedMemoryMapping\<close>
  (\<open>sbpf/src/memory_region.rs\<close>) searches.  Nodes are numbered from 1, the children of node \<open>k\<close> are
  \<open>2 * k\<close> and \<open>2 * k + 1\<close>.  This theory has the combinatorics of the layout with no memory
  regions in it: which nodes a subtree has, how many, and which sorted position a node holds.
\<close>

section \<open>Subtrees\<close>

fun below :: "nat \<Rightarrow> nat \<Rightarrow> bool" where
  "below k j = (if j \<le> k then j = k else below k (j div 2))"

declare below.simps [simp del]

lemma below_refl [simp]: "below k k"
  by (subst below.simps) simp

lemma below_le: "below k j \<Longrightarrow> k \<le> j"
  by (subst (asm) below.simps) (simp split: if_splits)

lemma below_root: "0 < j \<Longrightarrow> below 1 j"
proof (induction j rule: less_induct)
  case (less j)
  then show ?case
    by (subst below.simps) (cases "j = 1", auto intro: less.IH)
qed

lemma half_eq: "j div 2 = k \<longleftrightarrow> j = 2 * k \<or> j = 2 * k + 1" for k :: nat
  by auto

lemma below_parent: "0 < m \<Longrightarrow> below m j \<longleftrightarrow> j = m \<or> below m (j div 2)"
  using below_le [of m "j div 2"] by (subst below.simps) auto

lemma below_children:
  assumes "0 < k"
  shows "below k j \<longleftrightarrow> j = k \<or> below (2 * k) j \<or> below (2 * k + 1) j"
proof (induction j rule: less_induct)
  case (less j)
  show ?case
  proof (cases "k < j")
    case False
    then show ?thesis using assms by (auto dest: below_le simp: below.simps [of k j])
  next
    case True
    then have "below k j \<longleftrightarrow> below k (j div 2)" by (subst below.simps) auto
    also have "\<dots> \<longleftrightarrow> j div 2 = k \<or> below (2 * k) (j div 2) \<or> below (2 * k + 1) (j div 2)"
      using less.IH [of "j div 2"] True by simp
    also have "\<dots> \<longleftrightarrow> below (2 * k) j \<or> below (2 * k + 1) j"
      using below_parent [of "2 * k" j] below_parent [of "2 * k + 1" j] assms
      by (simp add: half_eq) blast
    finally show ?thesis using True by auto
  qed
qed

lemma below_disjoint: "0 < k \<Longrightarrow> below (2 * k) j \<Longrightarrow> below (2 * k + 1) j \<Longrightarrow> False"
proof (induction j rule: less_induct)
  case (less j)
  from less.prems(2) have l: "j = 2 * k \<or> (2 * k < j \<and> below (2 * k) (j div 2))"
    by (subst (asm) below.simps) (auto split: if_splits)
  from less.prems(3) have r: "j = 2 * k + 1 \<or> (2 * k + 1 < j \<and> below (2 * k + 1) (j div 2))"
    by (subst (asm) below.simps) (auto split: if_splits)
  show ?case
  proof (cases "2 * k + 1 < j")
    case True
    with l r less.prems(1) show ?thesis by (auto intro: less.IH [of "j div 2"])
  next
    case False
    with l r less.prems(1) show ?thesis by (auto dest: below_le)
  qed
qed

section \<open>Sizes and positions\<close>

text \<open>The nodes of an array of \<open>n\<close> that lie in the subtree of \<open>k\<close>.\<close>

function subtree_size :: "nat \<Rightarrow> nat \<Rightarrow> nat" where
  "subtree_size n k =
     (if k = 0 \<or> n < k then 0 else subtree_size n (2 * k) + 1 + subtree_size n (2 * k + 1))"
  by pat_completeness auto
termination by (relation "measure (\<lambda>(n, k). Suc n - k)") auto

declare subtree_size.simps [simp del]

lemma subtree_size_card: "0 < k \<Longrightarrow> subtree_size n k = card {j. j \<le> n \<and> below k j}"
proof (induction n k rule: subtree_size.induct)
  case (1 n k)
  show ?case
  proof (cases "n < k")
    case True
    then have "{j. j \<le> n \<and> below k j} = {}" by (auto dest: below_le)
    with True show ?thesis by (subst subtree_size.simps) (simp only: card.empty, simp)
  next
    case False
    let ?L = "{j. j \<le> n \<and> below (2 * k) j}" and ?R = "{j. j \<le> n \<and> below (2 * k + 1) j}"
    have split: "{j. j \<le> n \<and> below k j} = {k} \<union> (?L \<union> ?R)"
      using False 1(3) below_children [of k] by auto
    have fin: "finite ?L" "finite ?R" by auto
    have "card {j. j \<le> n \<and> below k j} = 1 + (card ?L + card ?R)"
      unfolding split using fin 1(3) below_disjoint [of k]
      by (subst card_Un_disjoint; (subst card_Un_disjoint)?) (auto dest: below_le)
    with False 1 show ?thesis by (subst subtree_size.simps) simp
  qed
qed

lemma subtree_size_root: "subtree_size n 1 = n"
proof -
  have "{j. j \<le> n \<and> below 1 j} = {1..n}" using below_root below_le by fastforce
  then show ?thesis using subtree_size_card [of 1 n] by simp
qed

text \<open>The number of sorted positions to the left of the subtree of \<open>k\<close>.\<close>

fun left_of :: "nat \<Rightarrow> nat \<Rightarrow> nat" where
  "left_of n k =
     (if k \<le> 1 then 0
      else if even k then left_of n (k div 2)
      else left_of n (k div 2) + subtree_size n (k - 1) + 1)"

declare left_of.simps [simp del]

lemma left_of_root [simp]: "left_of n (Suc 0) = 0"
  by (subst left_of.simps) simp

lemma left_of_child:
  assumes "0 < k"
  shows "left_of n (2 * k) = left_of n k"
    and "left_of n (2 * k + 1) = left_of n k + subtree_size n (2 * k) + 1"
  using assms by (subst left_of.simps, simp)+

text \<open>The sorted position of node \<open>k\<close>.\<close>

definition position :: "nat \<Rightarrow> nat \<Rightarrow> nat" where
  "position n k = left_of n k + subtree_size n (2 * k)"

lemma left_of_fits: "0 < k \<Longrightarrow> k div 2 \<le> n \<Longrightarrow> left_of n k + subtree_size n k \<le> n"
proof (induction k rule: less_induct)
  case (less k)
  show ?case
  proof (cases "k = 1")
    case True
    then show ?thesis using subtree_size_root by simp
  next
    case False
    define p where "p = k div 2"
    have p: "0 < p" "p < k" "p \<le> n" "k = 2 * p \<or> k = 2 * p + 1"
      using False less.prems by (auto simp: p_def)
    have "left_of n p + subtree_size n p \<le> n" using less.IH [of p] p by auto
    moreover have "subtree_size n p = subtree_size n (2 * p) + 1 + subtree_size n (2 * p + 1)"
      using p by (subst subtree_size.simps) simp
    ultimately show ?thesis using p(4) left_of_child [OF p(1), of n] by auto
  qed
qed

lemma position_less: "0 < k \<Longrightarrow> k \<le> n \<Longrightarrow> position n k < n"
  using left_of_fits [of k n] subtree_size.simps [of n k] div_le_dividend [of k 2]
  by (simp add: position_def)

section \<open>The way back up\<close>

text \<open>
  \<open>index >> (index.trailing_zeros() + 1)\<close>: drops the left turns at the end of a path and the right
  turn before them.
\<close>

definition last_right_turn :: "nat \<Rightarrow> nat" where
  "last_right_turn k = k div 2 ^ (trailing_zeros k + 1)"

lemma last_right_turn_steps:
  "last_right_turn (Suc 0) = 0"
  "0 < k \<Longrightarrow> last_right_turn (2 * k) = last_right_turn k"
  "last_right_turn (2 * k + 1) = k"
  by (simp_all add: last_right_turn_def trailing_zeros_odd trailing_zeros_double)

lemma last_right_turn_position:
  "0 < k \<Longrightarrow> k div 2 \<le> n \<Longrightarrow>
     (if left_of n k = 0 then last_right_turn k = 0
      else 0 < last_right_turn k \<and> last_right_turn k \<le> n
        \<and> position n (last_right_turn k) = left_of n k - 1)"
proof (induction k rule: less_induct)
  case (less k)
  show ?case
  proof (cases "k = 1")
    case True
    then show ?thesis by (simp add: last_right_turn_steps)
  next
    case False
    define p where "p = k div 2"
    have p: "0 < p" "p < k" "p \<le> n" "p div 2 \<le> n" using False less.prems by (auto simp: p_def)
    consider "k = 2 * p" | "k = 2 * p + 1" unfolding p_def by linarith
    then show ?thesis
    proof cases
      case 1
      then show ?thesis
        using less.IH [OF p(2,1,4)] left_of_child(1) [OF p(1), of n] last_right_turn_steps(2) [OF p(1)]
        by simp
    next
      case 2
      then show ?thesis
        using left_of_child(2) [OF p(1), of n] last_right_turn_steps(3) [of p] p
        by (simp add: position_def)
    qed
  qed
qed

end
