(* ===== verification/Program.thy ===== *)
theory Program
  imports Ebpf Errors "HOL-Library.RBT"
begin

text \<open>
  \<open>sbpf/src/program.rs\<close>: the feature switches of each SBPF version, the function registry and
  the loader's builtin program; with the \<open>Config\<close> of \<open>sbpf/src/vm.rs\<close> that the loader holds.

  A \<open>BTreeMap\<close> is a red-black tree of the library, ordered by key.  A builtin function pointer is
  a value of the type parameter \<open>'f\<close>; \<open>Interpreter\<close> takes the function that runs it as a
  parameter.
\<close>

section \<open>Versions\<close>

datatype SBPFVersion = V0 | V1 | V2 | V3 | V4 | Reserved

fun version_rank :: "SBPFVersion \<Rightarrow> nat" where
  "version_rank V0 = 0"
| "version_rank V1 = 1"
| "version_rank V2 = 2"
| "version_rank V3 = 3"
| "version_rank V4 = 4"
| "version_rank Reserved = 5"

lemma version_rank_inj: "version_rank v = version_rank w \<longleftrightarrow> v = w"
  by (cases v; cases w) simp_all

text \<open>The derived \<open>PartialOrd\<close>: the order of the constructors.\<close>

instantiation SBPFVersion :: linorder
begin

definition less_eq_SBPFVersion :: "SBPFVersion \<Rightarrow> SBPFVersion \<Rightarrow> bool" where
  "less_eq_SBPFVersion v w \<longleftrightarrow> version_rank v \<le> version_rank w"

definition less_SBPFVersion :: "SBPFVersion \<Rightarrow> SBPFVersion \<Rightarrow> bool" where
  "less_SBPFVersion v w \<longleftrightarrow> version_rank v < version_rank w"

instance
  by standard (auto simp: less_eq_SBPFVersion_def less_SBPFVersion_def version_rank_inj)

end

definition manual_stack_frame_bump :: "SBPFVersion \<Rightarrow> bool" where
  "manual_stack_frame_bump v \<longleftrightarrow> v = V1 \<or> v = V2"

definition stack_frame_gaps :: "SBPFVersion \<Rightarrow> bool" where
  "stack_frame_gaps v \<longleftrightarrow> v = V0"

definition enable_pqr :: "SBPFVersion \<Rightarrow> bool" where
  "enable_pqr v \<longleftrightarrow> v = V2"

definition explicit_sign_extension_of_results :: "SBPFVersion \<Rightarrow> bool" where
  "explicit_sign_extension_of_results v \<longleftrightarrow> v = V2"

definition swap_sub_reg_imm_operands :: "SBPFVersion \<Rightarrow> bool" where
  "swap_sub_reg_imm_operands v \<longleftrightarrow> v = V2"

definition disable_neg :: "SBPFVersion \<Rightarrow> bool" where
  "disable_neg v \<longleftrightarrow> v = V2"

definition callx_uses_src_reg :: "SBPFVersion \<Rightarrow> bool" where
  "callx_uses_src_reg v \<longleftrightarrow> v = V2"

definition disable_lddw :: "SBPFVersion \<Rightarrow> bool" where
  "disable_lddw v \<longleftrightarrow> v = V2"

definition disable_le :: "SBPFVersion \<Rightarrow> bool" where
  "disable_le v \<longleftrightarrow> v = V2"

definition move_memory_instruction_classes :: "SBPFVersion \<Rightarrow> bool" where
  "move_memory_instruction_classes v \<longleftrightarrow> v = V2"

definition static_syscalls :: "SBPFVersion \<Rightarrow> bool" where
  "static_syscalls v \<longleftrightarrow> v \<ge> V3"

definition enable_stricter_elf_headers :: "SBPFVersion \<Rightarrow> bool" where
  "enable_stricter_elf_headers v \<longleftrightarrow> v \<ge> V3"

definition enable_lower_rodata_vaddr :: "SBPFVersion \<Rightarrow> bool" where
  "enable_lower_rodata_vaddr v \<longleftrightarrow> v \<ge> V3"

definition enable_jmp32 :: "SBPFVersion \<Rightarrow> bool" where
  "enable_jmp32 v \<longleftrightarrow> v \<ge> V3"

definition callx_uses_dst_reg :: "SBPFVersion \<Rightarrow> bool" where
  "callx_uses_dst_reg v \<longleftrightarrow> v \<ge> V3"

lemmas version_defs =
  manual_stack_frame_bump_def stack_frame_gaps_def enable_pqr_def
  explicit_sign_extension_of_results_def swap_sub_reg_imm_operands_def disable_neg_def
  callx_uses_src_reg_def disable_lddw_def disable_le_def move_memory_instruction_classes_def
  static_syscalls_def enable_stricter_elf_headers_def enable_lower_rodata_vaddr_def
  enable_jmp32_def callx_uses_dst_reg_def less_eq_SBPFVersion_def less_SBPFVersion_def

definition calculate_call_imm_target_pc :: "SBPFVersion \<Rightarrow> usize \<Rightarrow> i64 \<Rightarrow> u32" where
  "calculate_call_imm_target_pc v pc i =
     (if static_syscalls v then ucast (saturating_add_signed (saturating_add_signed pc i) 1)
      else ucast i)"

section \<open>Configuration\<close>

record Config =
  max_call_depth :: usize
  stack_frame_size :: usize
  enable_address_translation :: bool
  enable_stack_frame_gaps :: bool
  instruction_meter_checkpoint_distance :: usize
  enable_instruction_meter :: bool
  enable_register_tracing :: bool
  enable_symbol_and_section_labels :: bool
  reject_broken_elfs :: bool
  noop_instruction_rate :: u32
  sanitize_user_provided_values :: bool
  optimize_rodata :: bool
  allow_memory_region_zero :: bool
  aligned_memory_mapping :: bool
  enabled_sbpf_versions :: "SBPFVersion \<times> SBPFVersion"

definition stack_size :: "Config \<Rightarrow> usize" where
  "stack_size c = stack_frame_size c * max_call_depth c"

definition default_Config :: Config where
  "default_Config =
     \<lparr>max_call_depth = 64,
      stack_frame_size = 4096,
      enable_address_translation = True,
      enable_stack_frame_gaps = True,
      instruction_meter_checkpoint_distance = 10000,
      enable_instruction_meter = True,
      enable_register_tracing = False,
      enable_symbol_and_section_labels = False,
      reject_broken_elfs = False,
      noop_instruction_rate = 256,
      sanitize_user_provided_values = True,
      optimize_rodata = True,
      allow_memory_region_zero = True,
      aligned_memory_mapping = False,
      enabled_sbpf_versions = (V0, V4)\<rparr>"

section \<open>Function registry\<close>

type_synonym 'v FunctionRegistry = "(u32, u8 list \<times> 'v) rbt"

definition default_FunctionRegistry :: "'v FunctionRegistry" where
  "default_FunctionRegistry = RBT.empty"

definition register_function ::
  "'v FunctionRegistry \<Rightarrow> u32 \<Rightarrow> u8 list \<Rightarrow> 'v \<Rightarrow> 'v FunctionRegistry \<times> (unit, ElfError) result"
where
  "register_function reg key name val =
     (case RBT.lookup reg key of
        None \<Rightarrow> (RBT.insert key (name, val) reg, Ok ())
      | Some entry \<Rightarrow>
          if snd entry \<noteq> val then (reg, Err (SymbolHashCollision key)) else (reg, Ok ()))"

definition unregister_function :: "'v FunctionRegistry \<Rightarrow> u32 \<Rightarrow> 'v FunctionRegistry" where
  "unregister_function reg key = RBT.delete key reg"

definition registry_keys :: "'v FunctionRegistry \<Rightarrow> u32 list" where
  "registry_keys reg = RBT.keys reg"

definition registry_iter :: "'v FunctionRegistry \<Rightarrow> (u32 \<times> u8 list \<times> 'v) list" where
  "registry_iter reg = RBT.entries reg"

definition lookup_by_key :: "'v FunctionRegistry \<Rightarrow> u32 \<Rightarrow> (u8 list \<times> 'v) option" where
  "lookup_by_key reg key = RBT.lookup reg key"

definition lookup_by_name :: "'v FunctionRegistry \<Rightarrow> u8 list \<Rightarrow> (u8 list \<times> 'v) option" where
  "lookup_by_name reg name = List.find (\<lambda>entry. fst entry = name) (map snd (RBT.entries reg))"

section \<open>Builtin program\<close>

record 'f BuiltinProgram =
  config :: "Config option"
  sparse_registry :: "'f FunctionRegistry"

definition new_loader :: "Config \<Rightarrow> 'f BuiltinProgram" where
  "new_loader c = \<lparr>config = Some c, sparse_registry = default_FunctionRegistry\<rparr>"

definition new_builtin :: "'f BuiltinProgram" where
  "new_builtin = \<lparr>config = None, sparse_registry = default_FunctionRegistry\<rparr>"

definition new_mock :: "'f BuiltinProgram" where
  "new_mock = \<lparr>config = Some default_Config, sparse_registry = default_FunctionRegistry\<rparr>"

text \<open>\<open>None\<close> is the panic of \<open>unwrap\<close> on a program that is no loader.\<close>

definition get_config :: "'f BuiltinProgram \<Rightarrow> Config option" where
  "get_config p = config p"

definition get_function_registry :: "'f BuiltinProgram \<Rightarrow> 'f FunctionRegistry" where
  "get_function_registry p = sparse_registry p"

text \<open>
  \<open>ebpf::hash_symbol_name\<close> runs the Murmur3 hasher of the \<open>hash32\<close> crate, which is a parameter.
\<close>

definition register_builtin ::
  "(u8 list \<Rightarrow> u32) \<Rightarrow> 'f BuiltinProgram \<Rightarrow> u8 list \<Rightarrow> 'f
     \<Rightarrow> 'f BuiltinProgram \<times> (unit, ElfError) result"
where
  "register_builtin hash_symbol_name p name val =
     (let key = hash_symbol_name name;
          (reg, res) = register_function (sparse_registry p) key name val
      in (p\<lparr>sparse_registry := reg\<rparr>, res))"

definition entrypoint_name :: "u8 list" where
  "entrypoint_name = map (\<lambda>c. of_nat (of_char c)) ''entrypoint''"

text \<open>The outer \<open>None\<close> is the panic of \<open>get_config\<close>.\<close>

definition register_function_hashed_legacy ::
  "(u8 list \<Rightarrow> u32) \<Rightarrow> usize FunctionRegistry \<Rightarrow> 'f BuiltinProgram \<Rightarrow> bool \<Rightarrow> u8 list \<Rightarrow> usize
     \<Rightarrow> (usize FunctionRegistry \<times> (u32, ElfError) result) option"
where
  "register_function_hashed_legacy hash reg loader hash_symbol_name name val =
     (case get_config loader of
        None \<Rightarrow> None
      | Some cfg \<Rightarrow>
          let h = (if name = entrypoint_name then hash entrypoint_name
                   else hash (to_le_bytes val));
              stored_name =
                (if enable_symbol_and_section_labels cfg \<or> name = entrypoint_name then name else []);
              key = (if hash_symbol_name then h else ucast val)
          in if hash_symbol_name \<and> lookup_by_key (get_function_registry loader) h \<noteq> None
             then Some (reg, Err (SymbolHashCollision h))
             else (case register_function reg key stored_name val of
                     (reg', Ok _) \<Rightarrow> Some (reg', Ok key)
                   | (reg', Err e) \<Rightarrow> Some (reg', Err e)))"

section \<open>The contract of a symbol table\<close>

text \<open>
  What the loader and the interpreter rely on: a key keeps the first entry registered for it, a
  second registration succeeds only for the same value, and other keys are not disturbed.
\<close>

locale symbol_table =
  fixes register :: "'t \<Rightarrow> 'k \<Rightarrow> 'n \<Rightarrow> 'v \<Rightarrow> 't \<times> (unit, 'e) result"
    and lookup :: "'t \<Rightarrow> 'k \<Rightarrow> ('n \<times> 'v) option"
  assumes lookup_register:
      "lookup (fst (register t k n v)) k' =
         (if k' = k \<and> lookup t k = None then Some (n, v) else lookup t k')"
    and register_ok:
      "is_ok (snd (register t k n v)) \<longleftrightarrow> (\<forall>e. lookup t k = Some e \<longrightarrow> snd e = v)"
begin

lemma register_then_lookup:
  assumes "is_ok (snd (register t k n v))"
  shows "map_option snd (lookup (fst (register t k n v)) k) = Some v"
  using assms by (cases "lookup t k") (auto simp: lookup_register register_ok)

lemma register_keeps:
  assumes "lookup t k' = Some e"
  shows "lookup (fst (register t k n v)) k' = Some e"
  using assms by (auto simp: lookup_register)

lemma register_twice:
  assumes "is_ok (snd (register t k n v))"
  shows "is_ok (snd (register (fst (register t k n v)) k n' v))"
  using register_then_lookup [OF assms] by (auto simp: register_ok)

end

interpretation registry: symbol_table register_function lookup_by_key
proof
  fix t :: "'a FunctionRegistry" and k k' :: u32 and n v
  show "lookup_by_key (fst (register_function t k n v)) k' =
      (if k' = k \<and> lookup_by_key t k = None then Some (n, v) else lookup_by_key t k')"
    by (auto simp: register_function_def lookup_by_key_def split: option.splits)
  show "is_ok (snd (register_function t k n v)) \<longleftrightarrow>
      (\<forall>e. lookup_by_key t k = Some e \<longrightarrow> snd e = v)"
    by (auto simp: register_function_def lookup_by_key_def split: option.splits)
qed

section \<open>Registry properties\<close>

text \<open>
  C40: registering a function under its hash makes it callable: a successful registration is found
  again under the key, every key that resolved before still resolves to the same function, and a
  failed registration changes nothing and reports the colliding hash.
\<close>

theorem register_builtin_spec:
  "(case register_builtin hash p name f of
      (p', Ok _) \<Rightarrow> map_option snd (lookup_by_key (get_function_registry p') (hash name)) = Some f
        \<and> (\<forall>k e. lookup_by_key (get_function_registry p) k = Some e
               \<longrightarrow> lookup_by_key (get_function_registry p') k = Some e)
    | (p', Err e) \<Rightarrow> p' = p \<and> e = SymbolHashCollision (hash name)
        \<and> (\<exists>n f'. lookup_by_key (get_function_registry p) (hash name) = Some (n, f') \<and> f' \<noteq> f))"
proof -
  obtain reg res where r: "register_function (sparse_registry p) (hash name) name f = (reg, res)"
    by (cases "register_function (sparse_registry p) (hash name) name f")
  show ?thesis
  proof (cases res)
    case (Ok u)
    then show ?thesis
      using registry.register_then_lookup [of "sparse_registry p" "hash name" name f]
        registry.register_keeps [of "sparse_registry p" _ _ "hash name" name f] r
      by (simp add: register_builtin_def get_function_registry_def Let_def)
  next
    case (Err e)
    then show ?thesis using r
      by (auto simp: register_builtin_def get_function_registry_def lookup_by_key_def
          register_function_def split: option.splits if_splits)
  qed
qed

text \<open>A syscall hash that is already taken by another function is refused.\<close>

theorem register_builtin_spec_witness:
  "let h = (\<lambda>bs :: u8 list. of_nat (length bs) :: u32);
       p = fst (register_builtin h new_mock [104, 105] (7 :: nat))
   in map_option snd (lookup_by_key (get_function_registry p) 2) = Some 7
      \<and> snd (register_builtin h p [97, 98] 8) = Err (SymbolHashCollision 2)"
proof -
  let ?h = "\<lambda>bs :: u8 list. of_nat (length bs) :: u32"
  let ?p = "fst (register_builtin ?h new_mock [104, 105] (7 :: nat))"
  have r: "snd (register_builtin ?h new_mock [104, 105] (7 :: nat)) = Ok ()"
    by (simp add: register_builtin_def register_function_def new_mock_def
        default_FunctionRegistry_def)
  have "map_option snd (lookup_by_key (get_function_registry ?p) (?h [104, 105])) = Some 7"
    using register_builtin_spec [where hash = ?h and p = new_mock and name = "[104, 105]" and f = "7 :: nat"] r by (simp add: case_prod_beta)
  moreover have "snd (register_builtin ?h ?p [97, 98] 8) = Err (SymbolHashCollision 2)"
    by (simp add: register_builtin_def register_function_def new_mock_def
        default_FunctionRegistry_def)
  ultimately show ?thesis by (simp add: Let_def)
qed

end
