(* ===== verification/Accounts.thy ===== *)
theory Accounts
  imports Prelude
begin

text \<open>
  The accounts of a transaction (\<open>agave/transaction-context/src/transaction_accounts.rs\<close>) and an
  account borrowed by an instruction (\<open>instruction_accounts.rs\<close>).

  Interior mutability (\<open>Cell\<close>, \<open>UnsafeCell\<close>) is explicit state: an operation takes the accounts and
  returns them changed, together with its result, since an early return does not undo what came
  before it.  A \<open>Pubkey\<close> is its 32 bytes.  Of an \<open>Arc\<close> the model keeps the contents and whether
  another owner exists; capacities are not observable.  \<open>i8\<close>, \<open>i64\<close> and \<open>i128\<close> counters are integers
  with the bounds of their width written out.
\<close>

section \<open>Errors and sequencing\<close>

text \<open>The variants of \<open>solana_instruction::InstructionError\<close> that the modelled code names.\<close>

datatype InstructionError =
    GenericError
  | InvalidArgument
  | InvalidAccountData
  | AccountDataTooSmall
  | ModifiedProgramId
  | ExternalAccountLamportSpend
  | ExternalAccountDataModified
  | ReadonlyLamportChange
  | ReadonlyDataModified
  | AccountDataSizeChanged
  | ExecutableModified
  | ExecutableAccountNotRentExempt
  | AccountBorrowFailed
  | AccountBorrowOutstanding
  | MissingAccount
  | CallDepth
  | UnbalancedInstruction
  | ReentrancyNotAllowed
  | PrivilegeEscalation
  | ProgramEnvironmentSetupFailure
  | ProgramFailedToComplete
  | ComputationalBudgetExceeded
  | InvalidRealloc
  | InvalidAccountOwner
  | ArithmeticOverflow
  | UnsupportedSysvar
  | UnsupportedProgramId
  | MaxAccountsExceeded
  | MaxAccountsDataAllocationsExceeded
  | MaxInstructionTraceLengthExceeded
  | BuiltinProgramsMustConsumeComputeUnits

text \<open>The \<open>?\<close> operator in code that changes a state.\<close>

fun try_then ::
  "'s \<times> ('a, 'e) result \<Rightarrow> ('s \<Rightarrow> 'a \<Rightarrow> 's \<times> ('b, 'e) result) \<Rightarrow> 's \<times> ('b, 'e) result"
where
  "try_then (s, Ok x) k = k s x"
| "try_then (s, Err e) k = (s, Err e)"

definition ok_or :: "'a option \<Rightarrow> 'e \<Rightarrow> ('a, 'e) result" where
  "ok_or x e = (case x of None \<Rightarrow> Err e | Some y \<Rightarrow> Ok y)"

text \<open>\<open>slice.get(i)\<close>.\<close>

definition nth_get :: "'a list \<Rightarrow> nat \<Rightarrow> 'a option" where
  "nth_get xs i = (if i < length xs then Some (xs ! i) else None)"

text \<open>\<open>as i64\<close> of a \<open>usize\<close>, and saturation at the bounds of a signed width.\<close>

definition as_i64 :: "nat \<Rightarrow> int" where
  "as_i64 n = sint (of_nat n :: i64)"

definition clamp :: "nat \<Rightarrow> int \<Rightarrow> int" where
  "clamp w x = max (- (2 ^ (w - 1))) (min (2 ^ (w - 1) - 1) x)"

definition checked_signed :: "nat \<Rightarrow> int \<Rightarrow> int option" where
  "checked_signed w x = (if - (2 ^ (w - 1)) \<le> x \<and> x < 2 ^ (w - 1) then Some x else None)"

section \<open>Constants\<close>

definition MAX_ACCOUNTS_PER_TRANSACTION :: nat where
  "MAX_ACCOUNTS_PER_TRANSACTION = 256"

definition MAX_ACCOUNTS_PER_INSTRUCTION :: nat where
  "MAX_ACCOUNTS_PER_INSTRUCTION = 255"

definition MAX_INSTRUCTION_DATA_LEN :: nat where
  "MAX_INSTRUCTION_DATA_LEN = 10 * 1024"

definition MAX_ACCOUNT_DATA_LEN :: nat where
  "MAX_ACCOUNT_DATA_LEN = 10 * 1024 * 1024"

definition MAX_ACCOUNT_DATA_GROWTH_PER_TRANSACTION :: int where
  "MAX_ACCOUNT_DATA_GROWTH_PER_TRANSACTION = int MAX_ACCOUNT_DATA_LEN * 2"

definition MAX_ACCOUNT_DATA_GROWTH_PER_INSTRUCTION :: nat where
  "MAX_ACCOUNT_DATA_GROWTH_PER_INSTRUCTION = 10 * 1024"

definition MAX_INSTRUCTION_TRACE_LENGTH :: nat where
  "MAX_INSTRUCTION_TRACE_LENGTH = 64"

definition GUEST_REGION_SIZE :: u64 where
  "GUEST_REGION_SIZE = push_bit 32 1"

definition RETURN_DATA_SCRATCHPAD :: u64 where
  "RETURN_DATA_SCRATCHPAD = 7 * GUEST_REGION_SIZE"

definition GUEST_ACCOUNT_PAYLOAD_BASE_ADDRESS :: u64 where
  "GUEST_ACCOUNT_PAYLOAD_BASE_ADDRESS = 8 * GUEST_REGION_SIZE"

definition GUEST_INSTRUCTION_DATA_BASE_ADDRESS :: u64 where
  "GUEST_INSTRUCTION_DATA_BASE_ADDRESS = 264 * GUEST_REGION_SIZE"

definition GUEST_INSTRUCTION_ACCOUNT_BASE_ADDRESS :: u64 where
  "GUEST_INSTRUCTION_ACCOUNT_BASE_ADDRESS = 328 * GUEST_REGION_SIZE"

section \<open>VmSlice\<close>

record VmSlice =
  vs_ptr :: u64
  vs_len :: u64

definition new_VmSlice :: "u64 \<Rightarrow> u64 \<Rightarrow> VmSlice" where
  "new_VmSlice p n = \<lparr>vs_ptr = p, vs_len = n\<rparr>"

definition VmSlice_is_empty :: "VmSlice \<Rightarrow> bool" where
  "VmSlice_is_empty s \<longleftrightarrow> vs_len s = 0"

text \<open>\<open>elem_size\<close> is \<open>size_of::<T>()\<close>.\<close>

definition VmSlice_end :: "u64 \<Rightarrow> VmSlice \<Rightarrow> u64" where
  "VmSlice_end elem_size s = saturating_add (vs_ptr s) (saturating_mul (vs_len s) elem_size)"

definition set_len :: "VmSlice \<Rightarrow> u64 \<Rightarrow> VmSlice" where
  "set_len s new_len = s\<lparr>vs_len := new_len\<rparr>"

section \<open>Account fields and views\<close>

type_synonym Pubkey = "u8 list"
type_synonym IndexOfAccount = u16

text \<open>What the code reads of an \<open>AccountSharedData\<close> of the \<open>solana_account\<close> crate.\<close>

record AccountSharedData =
  asd_lamports :: u64
  asd_data :: "u8 list"
  asd_owner :: Pubkey
  asd_executable :: bool
  asd_rent_epoch :: u64
  asd_shared :: bool

record AccountSharedFields =
  shared_key :: Pubkey
  shared_owner :: Pubkey
  shared_lamports :: u64
  shared_payload :: VmSlice

record AccountPrivateFields =
  private_rent_epoch :: u64
  private_executable :: bool
  private_payload :: "u8 list"
  private_shared :: bool

definition payload_len :: "AccountPrivateFields \<Rightarrow> nat" where
  "payload_len p = length (private_payload p)"

text \<open>
  \<open>TransactionAccountView\<close> and \<open>TransactionAccountViewMut\<close> differ only in what they may change.
\<close>

record TransactionAccountView =
  abi_account :: AccountSharedFields
  private_fields :: AccountPrivateFields

definition view_lamports :: "TransactionAccountView \<Rightarrow> u64" where
  "view_lamports v = shared_lamports (abi_account v)"

definition view_data :: "TransactionAccountView \<Rightarrow> u8 list" where
  "view_data v = private_payload (private_fields v)"

definition view_owner :: "TransactionAccountView \<Rightarrow> Pubkey" where
  "view_owner v = shared_owner (abi_account v)"

definition view_executable :: "TransactionAccountView \<Rightarrow> bool" where
  "view_executable v = private_executable (private_fields v)"

definition view_rent_epoch :: "TransactionAccountView \<Rightarrow> u64" where
  "view_rent_epoch v = private_rent_epoch (private_fields v)"

definition view_eq :: "TransactionAccountView \<Rightarrow> AccountSharedData \<Rightarrow> bool" where
  "view_eq v other \<longleftrightarrow>
     asd_lamports other = view_lamports v \<and> asd_data other = view_data v
     \<and> asd_owner other = view_owner v \<and> asd_executable other = view_executable v
     \<and> asd_rent_epoch other = view_rent_epoch v"

text \<open>New contents in an \<open>Arc\<close> of this view alone, and the guest-visible length set to match.\<close>

definition put_data :: "TransactionAccountView \<Rightarrow> u8 list \<Rightarrow> TransactionAccountView" where
  "put_data v bytes =
     v\<lparr>private_fields := (private_fields v)\<lparr>private_payload := bytes, private_shared := False\<rparr>\<rparr>"

definition sync_len :: "TransactionAccountView \<Rightarrow> u64 \<Rightarrow> TransactionAccountView" where
  "sync_len v n =
     v\<lparr>abi_account := (abi_account v)\<lparr>shared_payload := set_len (shared_payload (abi_account v)) n\<rparr>\<rparr>"

definition vec_resize :: "'a list \<Rightarrow> nat \<Rightarrow> 'a \<Rightarrow> 'a list" where
  "vec_resize xs new_len val = take new_len xs @ replicate (new_len - length xs) val"

definition view_resize :: "TransactionAccountView \<Rightarrow> nat \<Rightarrow> u8 \<Rightarrow> TransactionAccountView" where
  "view_resize v new_len val =
     sync_len (put_data v (vec_resize (view_data v) new_len val)) (of_nat new_len)"

definition view_set_data_from_slice ::
  "TransactionAccountView \<Rightarrow> u8 list \<Rightarrow> TransactionAccountView"
where
  "view_set_data_from_slice v new_data =
     sync_len (put_data v new_data) (of_nat (length new_data))"

definition view_extend_from_slice ::
  "TransactionAccountView \<Rightarrow> u8 list \<Rightarrow> TransactionAccountView"
where
  "view_extend_from_slice v bytes =
     (let v = put_data v (view_data v @ bytes)
      in sync_len v (of_nat (payload_len (private_fields v))))"

definition view_reserve :: "TransactionAccountView \<Rightarrow> nat \<Rightarrow> TransactionAccountView" where
  "view_reserve v additional = put_data v (view_data v)"

definition view_is_shared :: "TransactionAccountView \<Rightarrow> bool" where
  "view_is_shared v = private_shared (private_fields v)"

definition view_set_lamports :: "TransactionAccountView \<Rightarrow> u64 \<Rightarrow> TransactionAccountView" where
  "view_set_lamports v n = v\<lparr>abi_account := (abi_account v)\<lparr>shared_lamports := n\<rparr>\<rparr>"

text \<open>\<open>data_as_mut_slice\<close> with what its caller then stores through the slice.\<close>

definition write_data_as_mut_slice ::
  "TransactionAccountView \<Rightarrow> (u8 list \<Rightarrow> u8 list) \<Rightarrow> TransactionAccountView"
where
  "write_data_as_mut_slice v f = put_data v (f (view_data v))"

text \<open>\<open>copy_from_slice\<close> panics when the lengths differ.\<close>

definition view_copy_into_owner_from_slice ::
  "TransactionAccountView \<Rightarrow> u8 list \<Rightarrow> TransactionAccountView option"
where
  "view_copy_into_owner_from_slice v source =
     (if length source = 32
      then Some (v\<lparr>abi_account := (abi_account v)\<lparr>shared_owner := source\<rparr>\<rparr>) else None)"

definition view_set_executable :: "TransactionAccountView \<Rightarrow> bool \<Rightarrow> TransactionAccountView" where
  "view_set_executable v b = v\<lparr>private_fields := (private_fields v)\<lparr>private_executable := b\<rparr>\<rparr>"

section \<open>Borrow counters\<close>

type_synonym BorrowCounter = int

definition is_writing :: "BorrowCounter \<Rightarrow> bool" where
  "is_writing c \<longleftrightarrow> c < 0"

definition is_reading :: "BorrowCounter \<Rightarrow> bool" where
  "is_reading c \<longleftrightarrow> c > 0"

definition counter_try_borrow :: "BorrowCounter \<Rightarrow> (BorrowCounter, InstructionError) result" where
  "counter_try_borrow c =
     (if is_writing c then Err AccountBorrowFailed
      else case checked_signed 8 (c + 1) of
             Some counter \<Rightarrow> Ok counter
           | None \<Rightarrow> Err AccountBorrowFailed)"

definition counter_try_borrow_mut :: "BorrowCounter \<Rightarrow> (BorrowCounter, InstructionError) result" where
  "counter_try_borrow_mut c =
     (if is_writing c \<or> is_reading c then Err AccountBorrowFailed else Ok (clamp 8 (c - 1)))"

definition release_borrow :: "BorrowCounter \<Rightarrow> BorrowCounter" where
  "release_borrow c = clamp 8 (c - 1)"

definition release_borrow_mut :: "BorrowCounter \<Rightarrow> BorrowCounter" where
  "release_borrow_mut c = clamp 8 (c + 1)"

section \<open>Transaction accounts\<close>

type_synonym KeyedAccountSharedData = "Pubkey \<times> AccountSharedData"

record TransactionAccounts =
  shared_account_fields :: "AccountSharedFields list"
  private_account_fields :: "AccountPrivateFields list"
  borrow_counters :: "BorrowCounter list"
  touched_flags :: "bool list"
  ta_resize_delta :: int
  ta_lamports_delta :: int

definition new_fields ::
  "nat \<Rightarrow> KeyedAccountSharedData \<Rightarrow> AccountSharedFields \<times> AccountPrivateFields"
where
  "new_fields idx item =
     (\<lparr>shared_key = fst item,
       shared_owner = asd_owner (snd item),
       shared_lamports = asd_lamports (snd item),
       shared_payload =
         new_VmSlice
           (saturating_add GUEST_ACCOUNT_PAYLOAD_BASE_ADDRESS
             (saturating_mul GUEST_REGION_SIZE (of_nat idx)))
           (of_nat (length (asd_data (snd item))))\<rparr>,
      \<lparr>private_rent_epoch = asd_rent_epoch (snd item),
       private_executable = asd_executable (snd item),
       private_payload = asd_data (snd item),
       private_shared = asd_shared (snd item)\<rparr>)"

definition new_TransactionAccounts :: "KeyedAccountSharedData list \<Rightarrow> TransactionAccounts" where
  "new_TransactionAccounts accounts =
     (let fields = map (\<lambda>(idx, item). new_fields idx item) (List.enumerate 0 accounts)
      in \<lparr>shared_account_fields = map fst fields,
          private_account_fields = map snd fields,
          borrow_counters = replicate (length accounts) 0,
          touched_flags = replicate (length accounts) False,
          ta_resize_delta = 0,
          ta_lamports_delta = 0\<rparr>)"

definition accounts_len :: "TransactionAccounts \<Rightarrow> nat" where
  "accounts_len ta = length (shared_account_fields ta)"

definition accounts_touch ::
  "TransactionAccounts \<Rightarrow> IndexOfAccount \<Rightarrow> TransactionAccounts \<times> (unit, InstructionError) result"
where
  "accounts_touch ta index =
     (if unat index < length (touched_flags ta)
      then (ta\<lparr>touched_flags := (touched_flags ta)[unat index := True]\<rparr>, Ok ())
      else (ta, Err MissingAccount))"

definition update_accounts_resize_delta ::
  "TransactionAccounts \<Rightarrow> nat \<Rightarrow> nat \<Rightarrow> TransactionAccounts"
where
  "update_accounts_resize_delta ta old_len new_len =
     ta\<lparr>ta_resize_delta :=
          clamp 64 (ta_resize_delta ta + clamp 64 (as_i64 new_len - as_i64 old_len))\<rparr>"

definition accounts_can_data_be_resized ::
  "TransactionAccounts \<Rightarrow> nat \<Rightarrow> nat \<Rightarrow> (unit, InstructionError) result"
where
  "accounts_can_data_be_resized ta old_len new_len =
     (if new_len > MAX_ACCOUNT_DATA_LEN then Err InvalidRealloc
      else
        let length_delta = clamp 64 (as_i64 new_len - as_i64 old_len) in
        if clamp 64 (ta_resize_delta ta + length_delta) > MAX_ACCOUNT_DATA_GROWTH_PER_TRANSACTION
        then Err MaxAccountsDataAllocationsExceeded
        else Ok ())"

text \<open>The account at an index, as a borrow sees it.\<close>

definition view_at :: "TransactionAccounts \<Rightarrow> nat \<Rightarrow> TransactionAccountView" where
  "view_at ta i =
     \<lparr>abi_account = shared_account_fields ta ! i, private_fields = private_account_fields ta ! i\<rparr>"

definition put_view ::
  "TransactionAccounts \<Rightarrow> nat \<Rightarrow> TransactionAccountView \<Rightarrow> TransactionAccounts"
where
  "put_view ta i v =
     ta\<lparr>shared_account_fields := (shared_account_fields ta)[i := abi_account v],
        private_account_fields := (private_account_fields ta)[i := private_fields v]\<rparr>"

text \<open>
  A successful borrow returns the accounts with the counter raised; the view is then
  \<open>view_at\<close> and \<open>put_view\<close> at the index.  The \<open>unwrap\<close>s after the counter was found do not fail
  while the arrays have one length, which \<open>accounts_inv\<close> states.
\<close>

definition try_borrow_mut ::
  "TransactionAccounts \<Rightarrow> IndexOfAccount \<Rightarrow> (TransactionAccounts, InstructionError) result"
where
  "try_borrow_mut ta index =
     and_then (ok_or (nth_get (borrow_counters ta) (unat index)) MissingAccount)
       (\<lambda>c. and_then (counter_try_borrow_mut c)
          (\<lambda>c. Ok (ta\<lparr>borrow_counters := (borrow_counters ta)[unat index := c]\<rparr>)))"

definition try_borrow ::
  "TransactionAccounts \<Rightarrow> IndexOfAccount \<Rightarrow> (TransactionAccounts, InstructionError) result"
where
  "try_borrow ta index =
     and_then (ok_or (nth_get (borrow_counters ta) (unat index)) MissingAccount)
       (\<lambda>c. and_then (counter_try_borrow c)
          (\<lambda>c. Ok (ta\<lparr>borrow_counters := (borrow_counters ta)[unat index := c]\<rparr>)))"

text \<open>\<open>Drop\<close> of \<open>AccountRef\<close> and of \<open>AccountRefMut\<close>.\<close>

definition drop_AccountRef :: "TransactionAccounts \<Rightarrow> IndexOfAccount \<Rightarrow> TransactionAccounts" where
  "drop_AccountRef ta index =
     ta\<lparr>borrow_counters :=
          (borrow_counters ta)[unat index := release_borrow (borrow_counters ta ! unat index)]\<rparr>"

definition drop_AccountRefMut :: "TransactionAccounts \<Rightarrow> IndexOfAccount \<Rightarrow> TransactionAccounts" where
  "drop_AccountRefMut ta index =
     (let i = unat index;
          v = view_at ta i;
          ta = put_view ta i (sync_len v (of_nat (payload_len (private_fields v))))
      in ta\<lparr>borrow_counters := (borrow_counters ta)[i := release_borrow_mut (borrow_counters ta ! i)]\<rparr>)"

definition add_lamports_delta ::
  "TransactionAccounts \<Rightarrow> int \<Rightarrow> TransactionAccounts \<times> (unit, InstructionError) result"
where
  "add_lamports_delta ta balance =
     (case checked_signed 128 (ta_lamports_delta ta + balance) of
        None \<Rightarrow> (ta, Err ArithmeticOverflow)
      | Some delta \<Rightarrow> (ta\<lparr>ta_lamports_delta := delta\<rparr>, Ok ()))"

definition get_lamports_delta :: "TransactionAccounts \<Rightarrow> int" where
  "get_lamports_delta ta = ta_lamports_delta ta"

definition deconstruct_into_keyed_account_shared_data ::
  "TransactionAccounts \<Rightarrow> KeyedAccountSharedData list"
where
  "deconstruct_into_keyed_account_shared_data ta =
     map (\<lambda>(sf, pf).
            (shared_key sf,
             \<lparr>asd_lamports = shared_lamports sf, asd_data = private_payload pf,
              asd_owner = shared_owner sf, asd_executable = private_executable pf,
              asd_rent_epoch = private_rent_epoch pf, asd_shared = private_shared pf\<rparr>))
       (zip (shared_account_fields ta) (private_account_fields ta))"

definition deconstruct_into_account_shared_data :: "TransactionAccounts \<Rightarrow> AccountSharedData list" where
  "deconstruct_into_account_shared_data ta =
     map (\<lambda>(sf, pf).
            \<lparr>asd_lamports = shared_lamports sf, asd_data = private_payload pf,
             asd_owner = shared_owner sf, asd_executable = private_executable pf,
             asd_rent_epoch = private_rent_epoch pf, asd_shared = private_shared pf\<rparr>)
       (zip (shared_account_fields ta) (private_account_fields ta))"

definition take_accounts :: "TransactionAccounts \<Rightarrow> KeyedAccountSharedData list \<times> bool list \<times> int" where
  "take_accounts ta =
     (deconstruct_into_keyed_account_shared_data ta, touched_flags ta, ta_resize_delta ta)"

definition resize_delta :: "TransactionAccounts \<Rightarrow> int" where
  "resize_delta ta = ta_resize_delta ta"

definition account_key :: "TransactionAccounts \<Rightarrow> IndexOfAccount \<Rightarrow> Pubkey option" where
  "account_key ta index = map_option shared_key (nth_get (shared_account_fields ta) (unat index))"

definition account_keys_iter :: "TransactionAccounts \<Rightarrow> Pubkey list" where
  "account_keys_iter ta = map shared_key (shared_account_fields ta)"

end
