(* ===== verification/Memory_Mapping.thy ===== *)
theory Memory_Mapping
  imports Region Tracker Eytzinger Program Accounts
begin

text \<open>
  The memory mappings of \<open>sbpf/src/memory_region.rs\<close>: the lookup cache, the Eytzinger-ordered and
  the aligned mapping, and \<open>MemoryMapping\<close> with the translation of loads and stores.

  Operations that change the mapping return the new one; this covers the lookup cache and the
  tracker, which the source mutates behind shared references.  Host memory is a function from
  addresses to bytes, passed to the operations that read or write it.  The access violation handler
  is a closure: its code and the transaction accounts it captured, if any, which a call may change.
  An index is a natural number where it addresses a slice.
\<close>

unbundle bit_operations_syntax

section \<open>Lookup cache\<close>

record MappingCache =
  entries :: "(u64 range \<times> nat) list"
  head :: usize

definition MAPPING_CACHE_SIZE :: nat where
  "MAPPING_CACHE_SIZE = 4"

definition new_cache :: MappingCache where
  "new_cache = \<lparr>entries = replicate MAPPING_CACHE_SIZE (mk_range 0 0, 0), head = 0\<rparr>"

definition cache_find :: "MappingCache \<Rightarrow> u64 \<Rightarrow> nat option" where
  "cache_find c addr =
     map_option snd
       (List.find (\<lambda>(vm_range, region_index). range_contains vm_range addr)
          (map (\<lambda>i. entries c ! unat ((head c + of_nat i) mod of_nat MAPPING_CACHE_SIZE))
             [0..<MAPPING_CACHE_SIZE]))"

definition cache_insert :: "MappingCache \<Rightarrow> u64 range \<Rightarrow> nat \<Rightarrow> MappingCache" where
  "cache_insert c vm_range region_index =
     (let h = (head c - 1) mod of_nat MAPPING_CACHE_SIZE
      in c\<lparr>head := h, entries := (entries c)[unat h := (vm_range, region_index)]\<rparr>)"

definition cache_flush :: "MappingCache \<Rightarrow> MappingCache" where
  "cache_flush c =
     c\<lparr>entries := replicate MAPPING_CACHE_SIZE (mk_range 0 0, 0), head := 0\<rparr>"

section \<open>Common parts\<close>

record AccessViolationHandler =
  handler_code ::
    "TransactionAccounts option \<Rightarrow> MemoryRegion \<Rightarrow> u64 \<Rightarrow> AccessType \<Rightarrow> u64 \<Rightarrow> u64
       \<Rightarrow> MemoryRegion \<times> TransactionAccounts option"
  captured :: "TransactionAccounts option"

definition default_access_violation_handler :: AccessViolationHandler where
  "default_access_violation_handler =
     \<lparr>handler_code = \<lambda>env region region_max_len access_type addr n. (region, env), captured = None\<rparr>"

record CommonMemoryMapping =
  regions :: "MemoryRegion list"
  access_violation_handler :: AccessViolationHandler
  cm_allow_memory_region_zero :: bool
  cm_max_call_depth :: i64
  cm_stack_frame_size :: i64
  cm_sbpf_version :: SBPFVersion
  access_tracker :: MemoryAccessTracker

definition new_common ::
  "MemoryRegion list \<Rightarrow> Config \<Rightarrow> SBPFVersion \<Rightarrow> AccessViolationHandler \<Rightarrow> CommonMemoryMapping"
where
  "new_common rs cfg v handler =
     \<lparr>regions = rs,
      access_violation_handler = handler,
      cm_allow_memory_region_zero = allow_memory_region_zero cfg,
      cm_max_call_depth = max_call_depth cfg,
      cm_stack_frame_size = stack_frame_size cfg,
      cm_sbpf_version = v,
      access_tracker = new_tracker\<rparr>"

text \<open>\<open>i64::checked_div\<close>: \<open>None\<close> for a zero divisor and for \<open>MIN / -1\<close>.\<close>

definition checked_div_i64 :: "i64 \<Rightarrow> i64 \<Rightarrow> i64 option" where
  "checked_div_i64 a b =
     (if b = 0 \<or> (sint a = - (2 ^ 63) \<and> sint b = - 1) then None
      else Some (word_of_int (trunc_div (sint a) (sint b))))"

definition violation_stack_frame :: "CommonMemoryMapping \<Rightarrow> u64 \<Rightarrow> i64" where
  "violation_stack_frame c addr =
     unwrap_or (checked_div_i64 (saturating_sub_signed addr MM_STACK_START) (cm_stack_frame_size c)) 0"

definition generate_access_violation ::
  "CommonMemoryMapping \<Rightarrow> AccessType \<Rightarrow> u64 \<Rightarrow> u64 \<Rightarrow> 'x ProgramResult"
where
  "generate_access_violation c access_type addr n =
     (let stack_frame = violation_stack_frame c addr in
      if \<not> manual_stack_frame_bump (cm_sbpf_version c)
         \<and> - 1 \<le> sint stack_frame
         \<and> sint stack_frame < sint (saturating_add_signed (cm_max_call_depth c) 1)
      then Err (StackAccessViolation access_type addr n stack_frame)
      else
        let masked = addr AND NOT (saturating_sub MM_BYTECODE_START 1);
            region_name =
              (if masked = MM_BYTECODE_START then ''program''
               else if masked = MM_STACK_START then ''stack''
               else if masked = MM_HEAP_START then ''heap''
               else if masked = MM_INPUT_START then ''input''
               else ''unknown'')
        in Err (AccessViolation access_type addr n region_name))"

section \<open>Unaligned mapping\<close>

record UnalignedMemoryMapping =
  u_common :: CommonMemoryMapping
  region_addresses :: "u64 list"
  region_index_lookup :: "nat list"
  cache :: MappingCache

text \<open>
  \<open>None\<close> is the panic of \<open>regions[in_index]\<close>.  The two arrays have the length of \<open>regions\<close>, which
  bounds \<open>out_index\<close>; the saturating index arithmetic of the source does not saturate, since a
  vector has fewer than \<open>2 ^ 63\<close> elements.
\<close>

function construct_eytzinger_order ::
  "MemoryRegion list \<Rightarrow> nat \<Rightarrow> nat \<Rightarrow> u64 list \<times> nat list \<Rightarrow> (nat \<times> u64 list \<times> nat list) option"
where
  "construct_eytzinger_order rs in_index out_index (addrs, lookup) =
     (if out_index \<ge> length rs then Some (in_index, addrs, lookup)
      else
        case construct_eytzinger_order rs in_index (out_index * 2 + 1) (addrs, lookup) of
          None \<Rightarrow> None
        | Some (in_index, addrs, lookup) \<Rightarrow>
            if in_index < length rs then
              construct_eytzinger_order rs (in_index + 1) (out_index * 2 + 2)
                (addrs[out_index := vm_addr (rs ! in_index)], lookup[out_index := in_index])
            else None)"
  by pat_completeness auto
termination by (relation "measure (\<lambda>(rs, _, out_index, _). length rs - out_index)") auto

declare construct_eytzinger_order.simps [simp del]

text \<open>The check that neighbours in sorted order do not overlap; the index of the first that do.\<close>

fun find_overlap :: "MemoryRegion list \<Rightarrow> nat \<Rightarrow> nat option" where
  "find_overlap (first # second # rs) index =
     (if range_end (vm_addr_range first) > vm_addr second then Some index
      else find_overlap (second # rs) (index + 1))"
| "find_overlap _ index = None"

text \<open>The outer \<open>None\<close> is a panic of \<open>construct_eytzinger_order\<close>.\<close>

definition new_unaligned ::
  "MemoryRegion list \<Rightarrow> Config \<Rightarrow> SBPFVersion \<Rightarrow> AccessViolationHandler
     \<Rightarrow> (UnalignedMemoryMapping, 'x EbpfError) result option"
where
  "new_unaligned rs cfg v handler =
     (let rs = sort_key vm_addr rs in
      case find_overlap rs 1 of
        Some index \<Rightarrow> Some (Err (InvalidMemoryRegion (of_nat index)))
      | None \<Rightarrow>
          (case construct_eytzinger_order rs 0 0 (replicate (length rs) 0, replicate (length rs) 0) of
             None \<Rightarrow> None
           | Some (_, addrs, lookup) \<Rightarrow>
               Some (Ok \<lparr>u_common = new_common rs cfg v handler,
                         region_addresses = addrs,
                         region_index_lookup = lookup,
                         cache = new_cache\<rparr>)))"

text \<open>
  The search loop; \<open>index\<close> starts at 1 and only grows, the test \<open>0 < index\<close> holds throughout.
\<close>

function search_loop :: "u64 list \<Rightarrow> u64 \<Rightarrow> nat \<Rightarrow> nat" where
  "search_loop addrs addr index =
     (if 0 < index \<and> index \<le> length addrs
      then search_loop addrs addr (2 * index + of_bool (addrs ! (index - 1) \<le> addr))
      else index)"
  by pat_completeness auto
termination by (relation "measure (\<lambda>(addrs, _, index). Suc (length addrs) - index)") auto

declare search_loop.simps [simp del]

definition unaligned_find_region ::
  "UnalignedMemoryMapping \<Rightarrow> u64 \<Rightarrow> (nat \<times> MemoryRegion) option \<times> UnalignedMemoryMapping"
where
  "unaligned_find_region m addr =
     (case cache_find (cache m) addr of
        Some index \<Rightarrow> (Some (index, regions (u_common m) ! index), m)
      | None \<Rightarrow>
          let index = last_right_turn (search_loop (region_addresses m) addr 1) in
          if index = 0 then (None, m)
          else
            let index = region_index_lookup m ! (index - 1);
                region = regions (u_common m) ! index
            in (Some (index, region),
                m\<lparr>cache := cache_insert (cache m) (vm_addr_range region) index\<rparr>))"

text \<open>The one caller has checked \<open>index\<close> against the number of regions.\<close>

definition unaligned_replace_region ::
  "UnalignedMemoryMapping \<Rightarrow> nat \<Rightarrow> MemoryRegion
     \<Rightarrow> (unit, 'x EbpfError) result \<times> UnalignedMemoryMapping"
where
  "unaligned_replace_region m index region =
     (Ok (), m\<lparr>u_common := (u_common m)\<lparr>regions := (regions (u_common m))[index := region]\<rparr>,
               cache := cache_flush (cache m)\<rparr>)"

section \<open>Aligned mapping\<close>

record AlignedMemoryMapping =
  a_common :: CommonMemoryMapping

definition region_slot :: "u64 \<Rightarrow> nat" where
  "region_slot addr = unat (unwrap_or (checked_shr addr VIRTUAL_ADDRESS_BITS) 0)"

lemma region_slot_div: "region_slot addr = unat addr div 2 ^ 32"
  by (simp add: region_slot_def checked_shr_def unwrap_or_def drop_bit_eq_div unat_div)

text \<open>
  The loop that fills the holes between the regions, when region zero is allowed.  It ends: a round
  either moves to the next region or brings the expected index closer to the region's own.
\<close>

function fill_holes :: "MemoryRegion list \<Rightarrow> nat \<Rightarrow> (MemoryRegion list, 'x EbpfError) result" where
  "fill_holes rs expected =
     (if expected < length rs then
        let actual = region_slot (vm_addr (rs ! expected)) in
        if actual > expected then
          fill_holes
            (take expected rs
               @ [new_readonly empty_slice (saturating_mul (of_nat expected) MM_REGION_SIZE)]
               @ drop expected rs)
            (expected + 1)
        else if actual < expected then Err (InvalidMemoryRegion (of_nat actual))
        else fill_holes rs (expected + 1)
      else Ok rs)"
  by pat_completeness auto
termination
proof (relation "measures [\<lambda>(rs, expected). length rs - expected,
    \<lambda>(rs, expected). region_slot (vm_addr (rs ! expected)) - expected]", goal_cases)
  case 1
  then show ?case by simp
next
  case (2 rs expected actual)
  have "(take expected rs @ x # drop expected rs) ! Suc expected = rs ! expected" for x
    using 2(1) by (simp add: nth_append min_def)
  with 2 show ?case by auto
next
  case (3 rs expected actual)
  then show ?case by auto
qed

declare fill_holes.simps [simp del]

fun find_misplaced :: "MemoryRegion list \<Rightarrow> nat \<Rightarrow> nat option" where
  "find_misplaced [] index = None"
| "find_misplaced (r # rs) index =
     (if region_slot (vm_addr r) \<noteq> index then Some index else find_misplaced rs (index + 1))"

definition new_aligned ::
  "MemoryRegion list \<Rightarrow> Config \<Rightarrow> SBPFVersion \<Rightarrow> AccessViolationHandler
     \<Rightarrow> (AlignedMemoryMapping, 'x EbpfError) result"
where
  "new_aligned rs cfg v handler =
     and_then
       (if allow_memory_region_zero cfg then fill_holes (sort_key vm_addr rs) 0
        else
          let rs = sort_key vm_addr (new_readonly empty_slice 0 # rs) in
          (case find_misplaced rs 0 of
             Some index \<Rightarrow> Err (InvalidMemoryRegion (of_nat index))
           | None \<Rightarrow> Ok rs))
       (\<lambda>rs. Ok \<lparr>a_common = new_common rs cfg v handler\<rparr>)"

definition aligned_find_region :: "AlignedMemoryMapping \<Rightarrow> u64 \<Rightarrow> (nat \<times> MemoryRegion) option" where
  "aligned_find_region m addr =
     (let index = unat (wrapping_shr addr (of_nat VIRTUAL_ADDRESS_BITS)) in
      if index < length (regions (a_common m))
         \<and> (index > 0 \<or> cm_allow_memory_region_zero (a_common m))
      then Some (index, regions (a_common m) ! index) else None)"

definition aligned_replace_region ::
  "AlignedMemoryMapping \<Rightarrow> nat \<Rightarrow> MemoryRegion
     \<Rightarrow> (unit, 'x EbpfError) result \<times> AlignedMemoryMapping"
where
  "aligned_replace_region m index region =
     (let begin_index = region_slot (vm_addr region);
          end_index = region_slot (saturating_add (vm_addr region) (saturating_sub (len region) 1))
      in if begin_index \<noteq> index \<or> end_index \<noteq> index
         then (Err (InvalidMemoryRegion (of_nat index)), m)
         else (Ok (), m\<lparr>a_common := (a_common m)\<lparr>regions := (regions (a_common m))[index := region]\<rparr>\<rparr>))"

section \<open>Memory mapping\<close>

datatype MemoryMapping =
    Identity
  | Aligned AlignedMemoryMapping
  | Unaligned UnalignedMemoryMapping

definition new_identity :: MemoryMapping where
  "new_identity = Identity"

definition new_with_access_violation_handler ::
  "MemoryRegion list \<Rightarrow> Config \<Rightarrow> SBPFVersion \<Rightarrow> AccessViolationHandler
     \<Rightarrow> (MemoryMapping, 'x EbpfError) result option"
where
  "new_with_access_violation_handler rs cfg v handler =
     (if v \<ge> V4 \<or> aligned_memory_mapping cfg
      then Some (and_then (new_aligned rs cfg v handler) (\<lambda>m. Ok (Aligned m)))
      else map_option (\<lambda>res. and_then res (\<lambda>m. Ok (Unaligned m))) (new_unaligned rs cfg v handler))"

definition new_mapping ::
  "MemoryRegion list \<Rightarrow> Config \<Rightarrow> SBPFVersion \<Rightarrow> (MemoryMapping, 'x EbpfError) result option"
where
  "new_mapping rs cfg v =
     new_with_access_violation_handler rs cfg v default_access_violation_handler"

fun common_of :: "MemoryMapping \<Rightarrow> CommonMemoryMapping option" where
  "common_of Identity = None"
| "common_of (Aligned m) = Some (a_common m)"
| "common_of (Unaligned m) = Some (u_common m)"

fun map_common :: "(CommonMemoryMapping \<Rightarrow> CommonMemoryMapping) \<Rightarrow> MemoryMapping \<Rightarrow> MemoryMapping" where
  "map_common f Identity = Identity"
| "map_common f (Aligned m) = Aligned (m\<lparr>a_common := f (a_common m)\<rparr>)"
| "map_common f (Unaligned m) = Unaligned (m\<lparr>u_common := f (u_common m)\<rparr>)"

fun find_region :: "MemoryMapping \<Rightarrow> u64 \<Rightarrow> (nat \<times> MemoryRegion) option \<times> MemoryMapping" where
  "find_region Identity addr = (None, Identity)"
| "find_region (Aligned m) addr = (aligned_find_region m addr, Aligned m)"
| "find_region (Unaligned m) addr =
     (let (found, m') = unaligned_find_region m addr in (found, Unaligned m'))"

fun get_regions :: "MemoryMapping \<Rightarrow> MemoryRegion list" where
  "get_regions Identity = []"
| "get_regions (Aligned m) = regions (a_common m)"
| "get_regions (Unaligned m) = regions (u_common m)"

text \<open>\<open>regions.get(index + 1)\<close>'s start, or the end of the address space.\<close>

definition next_region_start :: "MemoryRegion list \<Rightarrow> nat \<Rightarrow> u64" where
  "next_region_start rs index =
     (if index + 1 < length rs then vm_addr (rs ! (index + 1)) else - 1)"

definition replace_region ::
  "MemoryMapping \<Rightarrow> nat \<Rightarrow> MemoryRegion \<Rightarrow> (unit, 'x EbpfError) result \<times> MemoryMapping"
where
  "replace_region m index region =
     (let rs = get_regions m in
      if index \<ge> length rs \<or> vm_addr (rs ! index) \<noteq> vm_addr region
         \<or> range_end (vm_addr_range region) > next_region_start rs index
      then (Err (InvalidMemoryRegion (of_nat index)), m)
      else
        (case m of
           Identity \<Rightarrow> (Err (InvalidMemoryRegion (of_nat index)), m)
         | Aligned a \<Rightarrow> map_prod id Aligned (aligned_replace_region a index region)
         | Unaligned u \<Rightarrow> map_prod id Unaligned (unaligned_replace_region u index region)))"

definition get_access_tracker :: "MemoryMapping \<Rightarrow> MemoryAccessTracker option" where
  "get_access_tracker m = map_option access_tracker (common_of m)"

text \<open>\<open>access_tracker.check_access\<close> on the mapping's tracker; nothing is tracked by \<open>Identity\<close>.\<close>

definition track_access :: "MemoryMapping \<Rightarrow> u64 \<Rightarrow> u64 \<Rightarrow> MemoryMapping" where
  "track_access m addr n =
     map_common (\<lambda>c. c\<lparr>access_tracker := check_access (access_tracker c) addr n\<rparr>) m"

definition map_memory ::
  "MemoryMapping \<Rightarrow> AccessType \<Rightarrow> u64 \<Rightarrow> u64 \<Rightarrow> 'x ProgramResult \<times> MemoryMapping"
where
  "map_memory m access_type addr n =
     (let m = (if access_type = Load then track_access m addr n else m);
          (found, m) = find_region m addr;
          translated = (case found of Some (_, region) \<Rightarrow> vm_to_host region access_type addr n
                        | None \<Rightarrow> None)
      in case translated of
           Some host \<Rightarrow> (Ok host, m)
         | None \<Rightarrow>
             (case common_of m of
                None \<Rightarrow> (Ok addr, m)
              | Some c \<Rightarrow> (generate_access_violation c access_type addr n, m)))"

definition set_captured :: "MemoryMapping \<Rightarrow> TransactionAccounts option \<Rightarrow> MemoryMapping" where
  "set_captured m env =
     map_common (\<lambda>c. c\<lparr>access_violation_handler := access_violation_handler c\<lparr>captured := env\<rparr>\<rparr>) m"

definition map_with_access_violation_handler ::
  "MemoryMapping \<Rightarrow> AccessType \<Rightarrow> u64 \<Rightarrow> u64 \<Rightarrow> 'x ProgramResult \<times> MemoryMapping"
where
  "map_with_access_violation_handler m access_type addr n =
     (case common_of m of
        None \<Rightarrow> (Ok addr, m)
      | Some c \<Rightarrow>
          (case find_region m addr of
             (None, m) \<Rightarrow> (generate_access_violation c access_type addr n, m)
           | (Some (index, region), m) \<Rightarrow>
               (case vm_to_host region access_type addr n of
                  Some host \<Rightarrow> (Ok host, m)
                | None \<Rightarrow>
                    let max_len =
                          saturating_sub (next_region_start (get_regions m) index) (vm_addr region);
                        handler = access_violation_handler c;
                        (region, env) = handler_code handler (captured handler) region max_len access_type addr n;
                        m = set_captured m env
                    in (case vm_to_host region access_type addr n of
                          Some host \<Rightarrow>
                            (case replace_region m index region of
                               (Err err, m) \<Rightarrow> (Err err, m)
                             | (Ok _, m) \<Rightarrow> (Ok host, m))
                        | None \<Rightarrow> (generate_access_violation c access_type addr n, m)))))"

section \<open>Loads and stores\<close>

type_synonym host_memory = "u64 \<Rightarrow> u8"

definition read_bytes :: "host_memory \<Rightarrow> u64 \<Rightarrow> nat \<Rightarrow> u8 list" where
  "read_bytes mem host n = map (\<lambda>i. mem (host + of_nat i)) [0..<n]"

fun write_bytes :: "host_memory \<Rightarrow> u64 \<Rightarrow> u8 list \<Rightarrow> host_memory" where
  "write_bytes mem host [] = mem"
| "write_bytes mem host (b # bs) = write_bytes (mem(host := b)) (host + 1) bs"

text \<open>\<open>load::<T>\<close> and \<open>store::<T>\<close>, with \<open>n = size_of::<T>()\<close> in 1, 2, 4, 8.\<close>

definition load :: "nat \<Rightarrow> host_memory \<Rightarrow> MemoryMapping \<Rightarrow> u64 \<Rightarrow> 'x ProgramResult \<times> MemoryMapping" where
  "load n mem m addr =
     (let m = track_access m addr (of_nat n) in
      case map_with_access_violation_handler m Load addr (of_nat n) of
        (Ok host, m) \<Rightarrow> (Ok (from_le_bytes (read_bytes mem host n)), m)
      | (Err err, m) \<Rightarrow> (Err err, m))"

definition store ::
  "nat \<Rightarrow> host_memory \<Rightarrow> MemoryMapping \<Rightarrow> u64 \<Rightarrow> u64 \<Rightarrow> 'x ProgramResult \<times> MemoryMapping \<times> host_memory"
where
  "store n mem m val addr =
     (case map_with_access_violation_handler m Store addr (of_nat n) of
        (Ok host, m) \<Rightarrow> (Ok host, m, write_bytes mem host (take n (to_le_bytes val)))
      | (Err err, m) \<Rightarrow> (Err err, m, mem))"

end
