(* ===== verification/Mapping_Lookup.thy ===== *)
theory Mapping_Lookup
  imports Memory_Mapping
begin

text \<open>
  Region lookup is correct: the Eytzinger construction lays the sorted regions out so that the
  search finds the last region starting at or below an address, the cache never changes an answer,
  and the aligned constructor puts every region into the slot its address names.
\<close>

section \<open>The Eytzinger layout\<close>

text \<open>The subtree of node \<open>k\<close> has been filled in, the rest of the two arrays left alone.\<close>

definition laid_out ::
  "MemoryRegion list \<Rightarrow> nat \<Rightarrow> u64 list \<times> nat list \<Rightarrow> u64 list \<times> nat list \<Rightarrow> bool"
where
  "laid_out rs k old new \<longleftrightarrow>
     length (fst new) = length rs \<and> length (snd new) = length rs \<and>
     (\<forall>j. 0 < j \<and> j \<le> length rs \<longrightarrow>
        fst new ! (j - 1) =
          (if below k j then vm_addr (rs ! position (length rs) j) else fst old ! (j - 1)) \<and>
        snd new ! (j - 1) = (if below k j then position (length rs) j else snd old ! (j - 1)))"

lemma laid_out_empty:
  assumes "length rs < k" "length (fst st) = length rs" "length (snd st) = length rs"
  shows "laid_out rs k st st"
  using assms by (auto simp: laid_out_def dest: below_le)

lemma laid_out_node:
  assumes k: "0 < k" "k \<le> length rs"
    and left: "laid_out rs (2 * k) (addrs, lookup) (addrs1, lookup1)"
    and right: "laid_out rs (2 * k + 1)
      (addrs1[k - 1 := vm_addr (rs ! position (length rs) k)],
       lookup1[k - 1 := position (length rs) k]) st"
  shows "laid_out rs k (addrs, lookup) st"
proof -
  let ?n = "length rs"
  have len: "length addrs1 = ?n" "length lookup1 = ?n" using left by (simp_all add: laid_out_def)
  have "fst st ! (j - 1) =
      (if below k j then vm_addr (rs ! position ?n j) else addrs ! (j - 1)) \<and>
      snd st ! (j - 1) = (if below k j then position ?n j else lookup ! (j - 1))"
    if j: "0 < j" "j \<le> ?n" for j
  proof -
    have l: "addrs1 ! (j - 1) =
        (if below (2 * k) j then vm_addr (rs ! position ?n j) else addrs ! (j - 1))"
      "lookup1 ! (j - 1) = (if below (2 * k) j then position ?n j else lookup ! (j - 1))"
      using left j by (simp_all add: laid_out_def)
    have eq: "k - 1 = j - 1 \<longleftrightarrow> j = k" using j k by auto
    have r: "fst st ! (j - 1) = (if below (2 * k + 1) j then vm_addr (rs ! position ?n j)
        else if j = k then vm_addr (rs ! position ?n k) else addrs1 ! (j - 1))"
      "snd st ! (j - 1) = (if below (2 * k + 1) j then position ?n j
        else if j = k then position ?n k else lookup1 ! (j - 1))"
      using right j k len eq by (simp_all add: laid_out_def nth_list_update)
    show ?thesis using l r below_children [OF k(1), of j] by auto
  qed
  moreover have "length (fst st) = ?n" "length (snd st) = ?n" using right by (simp_all add: laid_out_def)
  ultimately show ?thesis unfolding laid_out_def fst_conv snd_conv by blast
qed

lemma construct_eytzinger_order_spec:
  assumes "0 < k" "k div 2 \<le> length rs" "length (fst st) = length rs" "length (snd st) = length rs"
  shows "\<exists>st'. construct_eytzinger_order rs (left_of (length rs) k) (k - 1) st =
      Some (left_of (length rs) k + subtree_size (length rs) k, st') \<and> laid_out rs k st st'"
  using assms
proof (induction "Suc (length rs) - k" arbitrary: k st rule: less_induct)
  case less
  let ?n = "length rs" and ?c = construct_eytzinger_order
  obtain addrs lookup where st: "st = (addrs, lookup)" by (cases st)
  show ?case
  proof (cases "?n < k")
    case True
    then have "subtree_size ?n k = 0" by (subst subtree_size.simps) simp
    moreover have "?c rs (left_of ?n k) (k - 1) st = Some (left_of ?n k, st)"
      using True less_Suc_eq_le [of ?n "k - 1"] less.prems(1) unfolding st
      by (subst construct_eytzinger_order.simps) simp
    ultimately show ?thesis using True less.prems by (auto intro: laid_out_empty)
  next
    case False
    then have k: "0 < k" "k \<le> ?n" using less.prems by auto
    have size: "subtree_size ?n k = subtree_size ?n (2 * k) + 1 + subtree_size ?n (2 * k + 1)"
      using k by (subst subtree_size.simps) simp
    have m: "Suc ?n - 2 * k < Suc ?n - k" "Suc ?n - (2 * k + 1) < Suc ?n - k" "\<not> ?n \<le> k - 1"
      using k by auto
    have out: "(k - 1) * 2 + 1 = 2 * k - 1" "(k - 1) * 2 + 2 = 2 * k + 1 - 1" using k by auto
    obtain addrs1 lookup1
      where left: "?c rs (left_of ?n k) (2 * k - 1) st = Some (position ?n k, addrs1, lookup1)"
        "laid_out rs (2 * k) st (addrs1, lookup1)"
      using less.hyps [OF m(1), of st] less.prems k left_of_child [OF k(1), of ?n]
      by (auto simp: position_def)
    let ?st = "(addrs1[k - 1 := vm_addr (rs ! position ?n k)], lookup1[k - 1 := position ?n k])"
    have len: "length (fst ?st) = ?n" "length (snd ?st) = ?n"
      using left(2) by (simp_all add: laid_out_def)
    obtain st' where right: "?c rs (position ?n k + 1) (2 * k + 1 - 1) ?st =
        Some (position ?n k + 1 + subtree_size ?n (2 * k + 1), st')" "laid_out rs (2 * k + 1) ?st st'"
      using less.hyps [OF m(2), of ?st] k len left_of_child [OF k(1), of ?n]
      by (auto simp: position_def)
    have "?c rs (left_of ?n k) (k - 1) st = Some (position ?n k + 1 + subtree_size ?n (2 * k + 1), st')"
      using left(1) right(1) position_less [OF k] m(3) unfolding st
      by (subst construct_eytzinger_order.simps) (simp only: out, simp)
    moreover have "position ?n k + 1 + subtree_size ?n (2 * k + 1) = left_of ?n k + subtree_size ?n k"
      using size by (simp add: position_def)
    moreover have "laid_out rs k st st'" using laid_out_node [OF k] left(2) right(2) st by blast
    ultimately show ?thesis by auto
  qed
qed

text \<open>Both arrays describe the sorted regions in full.\<close>

definition eytzinger_ok :: "MemoryRegion list \<Rightarrow> u64 list \<Rightarrow> nat list \<Rightarrow> bool" where
  "eytzinger_ok rs addrs lookup \<longleftrightarrow> laid_out rs 1 ([], []) (addrs, lookup)"

lemma construct_eytzinger_ok:
  "\<exists>addrs lookup. construct_eytzinger_order rs 0 0 (replicate (length rs) 0, replicate (length rs) 0) =
     Some (length rs, addrs, lookup) \<and> eytzinger_ok rs addrs lookup"
proof -
  let ?st = "(replicate (length rs) 0, replicate (length rs) 0) :: u64 list \<times> nat list"
  obtain st' where "construct_eytzinger_order rs 0 0 ?st = Some (length rs, st')" "laid_out rs 1 ?st st'"
    using construct_eytzinger_order_spec [of 1 rs ?st] by (auto simp: subtree_size_root [simplified])
  then show ?thesis
    by (cases st') (auto simp: eytzinger_ok_def laid_out_def below_root [simplified])
qed

lemma eytzinger_okD:
  assumes "eytzinger_ok rs addrs lookup" "0 < k" "k \<le> length rs"
  shows "addrs ! (k - 1) = vm_addr (rs ! position (length rs) k)"
    and "lookup ! (k - 1) = position (length rs) k"
  using assms by (simp_all add: eytzinger_ok_def laid_out_def below_root [simplified])

lemma eytzinger_ok_length: "eytzinger_ok rs addrs lookup \<Longrightarrow> length addrs = length rs"
  by (simp add: eytzinger_ok_def laid_out_def)

lemma eytzinger_ok_replace:
  assumes "eytzinger_ok rs addrs lookup" "i < length rs" "vm_addr r = vm_addr (rs ! i)"
  shows "eytzinger_ok (rs[i := r]) addrs lookup"
  using assms by (auto simp: eytzinger_ok_def laid_out_def nth_list_update)

section \<open>The search\<close>

text \<open>
  The reference: the last region that starts at or below the address, by a walk over the regions.
\<close>

definition linear_find :: "MemoryRegion list \<Rightarrow> u64 \<Rightarrow> nat option" where
  "linear_find rs addr =
     (let c = length (takeWhile (\<lambda>r. vm_addr r \<le> addr) rs) in if c = 0 then None else Some (c - 1))"

lemma linear_find_eqI:
  assumes "c \<le> length rs" "\<And>i. i < c \<Longrightarrow> vm_addr (rs ! i) \<le> addr"
    and "\<And>i. c \<le> i \<Longrightarrow> i < length rs \<Longrightarrow> addr < vm_addr (rs ! i)"
  shows "linear_find rs addr = (if c = 0 then None else Some (c - 1))"
proof -
  have "takeWhile (\<lambda>r. vm_addr r \<le> addr) rs = take c rs"
    using assms by (intro takeWhile_eq_take_P_nth) (auto simp: not_le)
  then show ?thesis using assms(1) by (simp add: linear_find_def)
qed

lemma search_loop_spec:
  assumes "eytzinger_ok rs addrs lookup" "sorted (map vm_addr rs)"
    and "0 < k" "k div 2 \<le> length rs"
    and "\<And>i. i < left_of (length rs) k \<Longrightarrow> vm_addr (rs ! i) \<le> addr"
    and "\<And>i. left_of (length rs) k + subtree_size (length rs) k \<le> i \<Longrightarrow> i < length rs
          \<Longrightarrow> addr < vm_addr (rs ! i)"
  defines "k' \<equiv> search_loop addrs addr k"
  shows "0 < k' \<and> k' div 2 \<le> length rs \<and> left_of (length rs) k' \<le> length rs
    \<and> (\<forall>i < left_of (length rs) k'. vm_addr (rs ! i) \<le> addr)
    \<and> (\<forall>i. left_of (length rs) k' \<le> i \<and> i < length rs \<longrightarrow> addr < vm_addr (rs ! i))"
  using assms(3-6) unfolding k'_def
proof (induction "Suc (length rs) - k" arbitrary: k rule: less_induct)
  case less
  let ?n = "length rs"
  note len = eytzinger_ok_length [OF assms(1)]
  show ?case
  proof (cases "k \<le> ?n")
    case False
    then have "search_loop addrs addr k = k" by (subst search_loop.simps) (simp add: len)
    moreover have "subtree_size ?n k = 0" using False by (subst subtree_size.simps) simp
    ultimately show ?thesis using less.prems left_of_fits [of k ?n] by auto
  next
    case True
    note k = \<open>0 < k\<close> True
    note child = left_of_child [OF k(1), of ?n]
    have size: "subtree_size ?n k = subtree_size ?n (2 * k) + 1 + subtree_size ?n (2 * k + 1)"
      using k by (subst subtree_size.simps) simp
    have node: "addrs ! (k - 1) = vm_addr (rs ! position ?n k)" using eytzinger_okD(1) [OF assms(1) k] .
    have mono: "vm_addr (rs ! i) \<le> vm_addr (rs ! j)" if "i \<le> j" "j < ?n" for i j
      using assms(2) that sorted_nth_mono [of "map vm_addr rs" i j] by simp
    note pos = position_less [OF k]
    have m: "Suc ?n - 2 * k < Suc ?n - k" "Suc ?n - (2 * k + 1) < Suc ?n - k" using k by auto
    show ?thesis
    proof (cases "addrs ! (k - 1) \<le> addr")
      case True
      then have "search_loop addrs addr k = search_loop addrs addr (2 * k + 1)"
        using k by (subst search_loop.simps) (simp add: len)
      moreover have "vm_addr (rs ! i) \<le> addr" if "i < left_of ?n (2 * k + 1)" for i
        using that child mono [of i "position ?n k"] pos True node
        by (auto simp: position_def)
      moreover have "addr < vm_addr (rs ! i)"
        if "left_of ?n (2 * k + 1) + subtree_size ?n (2 * k + 1) \<le> i" "i < ?n" for i
        using that child size less.prems(4) [of i] by simp
      ultimately show ?thesis using less.hyps [OF m(2)] k by simp
    next
      case False
      then have "search_loop addrs addr k = search_loop addrs addr (2 * k)"
        using k by (subst search_loop.simps) (simp add: len)
      moreover have "vm_addr (rs ! i) \<le> addr" if "i < left_of ?n (2 * k)" for i
        using that child less.prems(3) by simp
      moreover have "addr < vm_addr (rs ! i)"
        if "left_of ?n (2 * k) + subtree_size ?n (2 * k) \<le> i" "i < ?n" for i
        using that child mono [of "position ?n k" i] False node by (auto simp: position_def)
      ultimately show ?thesis using less.hyps [OF m(1)] k by simp
    qed
  qed
qed

lemma linear_find_less: "linear_find rs addr = Some i \<Longrightarrow> i < length rs"
  using length_takeWhile_le [of "\<lambda>r. vm_addr r \<le> addr" rs]
  by (cases "length (takeWhile (\<lambda>r. vm_addr r \<le> addr) rs)")
     (auto simp: linear_find_def Let_def split: if_splits)

lemma search_finds:
  fixes addr :: u64
  assumes "eytzinger_ok rs addrs lookup" "sorted (map vm_addr rs)"
  defines "k \<equiv> last_right_turn (search_loop addrs addr 1)"
  shows "linear_find rs addr = (if k = 0 then None else Some (lookup ! (k - 1)))"
proof -
  let ?n = "length rs"
  define j where "j = search_loop addrs addr 1"
  have j: "0 < j" "j div 2 \<le> ?n" "left_of ?n j \<le> ?n"
    "\<forall>i < left_of ?n j. vm_addr (rs ! i) \<le> addr"
    "\<forall>i. left_of ?n j \<le> i \<and> i < ?n \<longrightarrow> addr < vm_addr (rs ! i)"
    using search_loop_spec [OF assms(1,2), of 1 addr]
    by (simp_all add: j_def subtree_size_root [simplified])
  have "linear_find rs addr = (if left_of ?n j = 0 then None else Some (left_of ?n j - 1))"
    by (rule linear_find_eqI) (use j in auto)
  moreover have "if left_of ?n j = 0 then k = 0 else 0 < k \<and> k \<le> ?n \<and> position ?n k = left_of ?n j - 1"
    using last_right_turn_position [OF j(1,2)] unfolding k_def j_def [symmetric] .
  ultimately show ?thesis using eytzinger_okD(2) [OF assms(1), of k] by (auto split: if_splits)
qed

section \<open>Regions that do not overlap\<close>

definition regions_ok :: "MemoryRegion list \<Rightarrow> bool" where
  "regions_ok rs \<longleftrightarrow>
     sorted (map vm_addr rs) \<and>
     (\<forall>i. Suc i < length rs \<longrightarrow> range_end (vm_addr_range (rs ! i)) \<le> vm_addr (rs ! Suc i))"

lemma find_overlap_None:
  "find_overlap rs index = None \<longleftrightarrow>
     (\<forall>i. Suc i < length rs \<longrightarrow> range_end (vm_addr_range (rs ! i)) \<le> vm_addr (rs ! Suc i))"
proof (induction rs index rule: find_overlap.induct)
  case (1 first second rs index)
  show ?case
  proof (cases "range_end (vm_addr_range first) > vm_addr second")
    case True
    then show ?thesis by (subst all_nat_split) (simp add: not_le)
  next
    case False
    with 1 show ?thesis by (subst all_nat_split) (auto simp: not_less)
  qed
qed auto

lemma vm_addr_range_start [simp]: "range_start (vm_addr_range r) = vm_addr r"
  by (simp add: vm_addr_range_def)

lemma linear_find_in_range:
  assumes "regions_ok rs" "i < length rs" "range_contains (vm_addr_range (rs ! i)) addr"
  shows "linear_find rs addr = Some i"
proof -
  have mono: "vm_addr (rs ! i) \<le> vm_addr (rs ! j)" if "i \<le> j" "j < length rs" for i j
    using assms(1) that sorted_nth_mono [of "map vm_addr rs" i j] by (simp add: regions_ok_def)
  have "linear_find rs addr = (if Suc i = 0 then None else Some (Suc i - 1))"
  proof (rule linear_find_eqI)
    fix j assume "j < Suc i"
    then show "vm_addr (rs ! j) \<le> addr"
      using mono [of j i] assms(2,3) by (auto simp: range_contains_def)
  next
    fix j assume j: "Suc i \<le> j" "j < length rs"
    have "addr < range_end (vm_addr_range (rs ! i))" using assms(3) by (simp add: range_contains_def)
    also have "\<dots> \<le> vm_addr (rs ! Suc i)" using assms(1) j by (simp add: regions_ok_def)
    also have "\<dots> \<le> vm_addr (rs ! j)" using mono j by simp
    finally show "addr < vm_addr (rs ! j)" .
  qed (use assms in simp)
  then show ?thesis by simp
qed

section \<open>The cache\<close>

text \<open>Every entry is unused (an empty range) or records the range of the region it names.\<close>

definition cache_ok :: "MemoryRegion list \<Rightarrow> MappingCache \<Rightarrow> bool" where
  "cache_ok rs c \<longleftrightarrow>
     length (entries c) = MAPPING_CACHE_SIZE \<and>
     list_all (\<lambda>(rg, i). range_is_empty rg \<or> (i < length rs \<and> rg = vm_addr_range (rs ! i))) (entries c)"

lemma cache_index_less: "unat (h mod of_nat MAPPING_CACHE_SIZE :: usize) < MAPPING_CACHE_SIZE"
  by (simp add: MAPPING_CACHE_SIZE_def unat_mod)

lemma cache_ok_new [simp]: "cache_ok rs new_cache"
  by (simp add: cache_ok_def new_cache_def list_all_iff range_is_empty_def)

lemma cache_ok_flush [simp]: "cache_ok rs (cache_flush c)"
  by (simp add: cache_ok_def cache_flush_def list_all_iff range_is_empty_def)

lemma cache_ok_insert:
  assumes "cache_ok rs c" "i < length rs"
  shows "cache_ok rs (cache_insert c (vm_addr_range (rs ! i)) i)"
  using assms by (auto simp: cache_ok_def cache_insert_def Let_def)

lemma cache_find_sound:
  assumes "cache_ok rs c" "cache_find c addr = Some i"
  shows "i < length rs" "range_contains (vm_addr_range (rs ! i)) addr"
proof -
  obtain rg k where rg: "entries c ! unat ((head c + of_nat k) mod of_nat MAPPING_CACHE_SIZE) = (rg, i)"
    "range_contains rg addr"
    using assms(2) by (auto simp: cache_find_def find_Some_iff)
  have "(rg, i) \<in> set (entries c)"
    using assms(1) nth_mem [of _ "entries c"] cache_index_less [of "head c + of_nat k"]
    unfolding rg(1) [symmetric] cache_ok_def by simp
  with assms(1) rg(2) show "i < length rs" "range_contains (vm_addr_range (rs ! i)) addr"
    by (auto simp: cache_ok_def list_all_iff range_is_empty_def range_contains_def)
qed

section \<open>The unaligned mapping\<close>

definition unaligned_inv :: "UnalignedMemoryMapping \<Rightarrow> bool" where
  "unaligned_inv m \<longleftrightarrow>
     regions_ok (regions (u_common m)) \<and>
     eytzinger_ok (regions (u_common m)) (region_addresses m) (region_index_lookup m) \<and>
     cache_ok (regions (u_common m)) (cache m)"

lemma unaligned_find_region_spec:
  assumes "unaligned_inv m"
  shows "fst (unaligned_find_region m addr) =
      map_option (\<lambda>i. (i, regions (u_common m) ! i)) (linear_find (regions (u_common m)) addr)"
    and "unaligned_inv (snd (unaligned_find_region m addr))"
    and "u_common (snd (unaligned_find_region m addr)) = u_common m"
proof -
  let ?rs = "regions (u_common m)" and ?k = "last_right_turn (search_loop (region_addresses m) addr 1)"
  have search: "linear_find ?rs addr = (if ?k = 0 then None else Some (region_index_lookup m ! (?k - 1)))"
    using assms search_finds by (simp add: unaligned_inv_def regions_ok_def)
  have "fst (unaligned_find_region m addr) = map_option (\<lambda>i. (i, ?rs ! i)) (linear_find ?rs addr)
      \<and> unaligned_inv (snd (unaligned_find_region m addr))
      \<and> u_common (snd (unaligned_find_region m addr)) = u_common m"
  proof (cases "cache_find (cache m) addr")
    case None
    then show ?thesis using search assms linear_find_less [of ?rs addr]
      by (simp add: unaligned_find_region_def Let_def unaligned_inv_def cache_ok_insert)
  next
    case (Some i)
    have i: "i < length ?rs" "range_contains (vm_addr_range (?rs ! i)) addr"
      using assms Some cache_find_sound unfolding unaligned_inv_def by blast+
    then have "linear_find ?rs addr = Some i"
      using assms linear_find_in_range unfolding unaligned_inv_def by blast
    with Some assms show ?thesis by (simp add: unaligned_find_region_def)
  qed
  then show "fst (unaligned_find_region m addr) = map_option (\<lambda>i. (i, ?rs ! i)) (linear_find ?rs addr)"
    "unaligned_inv (snd (unaligned_find_region m addr))"
    "u_common (snd (unaligned_find_region m addr)) = u_common m"
    by blast+
qed

lemma regions_ok_sort:
  "find_overlap (sort_key vm_addr rs) 1 = None \<Longrightarrow> regions_ok (sort_key vm_addr rs)"
  by (simp add: regions_ok_def find_overlap_None)

lemma new_unaligned_ok:
  assumes "new_unaligned rs cfg v h = Some (Ok m)"
  shows "unaligned_inv m" "u_common m = new_common (sort_key vm_addr rs) cfg v h"
proof -
  let ?rs = "sort_key vm_addr rs"
  obtain addrs lookup where e: "construct_eytzinger_order ?rs 0 0
      (replicate (length ?rs) 0, replicate (length ?rs) 0) = Some (length ?rs, addrs, lookup)"
    "eytzinger_ok ?rs addrs lookup"
    using construct_eytzinger_ok by blast
  then show "unaligned_inv m" "u_common m = new_common ?rs cfg v h"
    using assms regions_ok_sort [of rs]
    by (auto simp: new_unaligned_def Let_def unaligned_inv_def new_common_def split: option.splits)
qed

lemma new_unaligned_total: "new_unaligned rs cfg v h \<noteq> None"
proof -
  obtain addrs lookup where "construct_eytzinger_order (sort_key vm_addr rs) 0 0
      (replicate (length rs) 0, replicate (length rs) 0) = Some (length rs, addrs, lookup)"
    using construct_eytzinger_ok [of "sort_key vm_addr rs"] by auto
  then show ?thesis by (auto simp: new_unaligned_def Let_def split: option.splits)
qed

section \<open>The aligned mapping\<close>

definition slots_ok :: "MemoryRegion list \<Rightarrow> bool" where
  "slots_ok rs \<longleftrightarrow> (\<forall>i < length rs. region_slot (vm_addr (rs ! i)) = i)"

lemma region_slot_less: "region_slot a < 2 ^ 32"
  using unat_u64_less [of a] by (simp add: region_slot_div less_mult_imp_div_less)

lemma filler_slot:
  assumes "k < 2 ^ 32"
  shows "region_slot (saturating_mul (of_nat k) MM_REGION_SIZE) = k"
proof -
  have "unat (of_nat k :: u64) = k" using assms by (simp only: unat_of_nat) simp
  then show ?thesis using assms by (simp add: region_slot_div unat_saturating_mul)
qed

lemma fill_holes_slots:
  assumes "fill_holes rs k = (Ok rs' :: (_, 'x EbpfError) result)"
    and "\<forall>i < k. i < length rs \<longrightarrow> region_slot (vm_addr (rs ! i)) = i"
  shows "slots_ok rs'"
  using assms
proof (induction rs k rule: fill_holes.induct)
  case (1 rs k)
  let ?a = "region_slot (vm_addr (rs ! k))"
  let ?f = "new_readonly empty_slice (saturating_mul (of_nat k) MM_REGION_SIZE)"
  consider "\<not> k < length rs" | "k < length rs" "k < ?a" | "k < length rs" "?a = k"
    using 1(3) by (subst (asm) fill_holes.simps) (auto simp: Let_def split: if_splits)
  then show ?case
  proof cases
    case 1
    then show ?thesis using "1.prems" by (subst (asm) fill_holes.simps) (auto simp: slots_ok_def)
  next
    case 2
    have "region_slot (vm_addr ?f) = k"
      using filler_slot [of k] 2 region_slot_less [of "vm_addr (rs ! k)"] by (simp add: new_readonly_def)
    then have "\<forall>i < k + 1. i < length (take k rs @ [?f] @ drop k rs) \<longrightarrow>
        region_slot (vm_addr ((take k rs @ [?f] @ drop k rs) ! i)) = i"
      using "1.prems"(2) 2 by (auto simp: nth_append less_Suc_eq)
    moreover have "fill_holes (take k rs @ [?f] @ drop k rs) (k + 1) = (Ok rs' :: (_, 'x EbpfError) result)"
      using "1.prems"(1) 2 by (subst (asm) fill_holes.simps) (simp add: Let_def)
    ultimately show ?thesis using "1.IH"(1) [OF 2(1) refl 2(2)] by blast
  next
    case 3
    then have "fill_holes rs (k + 1) = (Ok rs' :: (_, 'x EbpfError) result)"
      using "1.prems"(1) by (subst (asm) fill_holes.simps) (simp add: Let_def)
    moreover have "\<forall>i < k + 1. i < length rs \<longrightarrow> region_slot (vm_addr (rs ! i)) = i"
      using "1.prems"(2) 3 by (auto simp: less_Suc_eq)
    ultimately show ?thesis using "1.IH"(2) [OF 3(1) refl] 3 by simp
  qed
qed

lemma set_take_drop: "set xs = set (take k xs) \<union> set (drop k xs)"
  by (metis append_take_drop_id set_append)

text \<open>The result has the given regions and, besides, only empty read-only ones.\<close>

lemma fill_holes_regions:
  "fill_holes rs k = (Ok rs' :: (_, 'x EbpfError) result) \<Longrightarrow>
     set rs \<subseteq> set rs' \<and> set rs' \<subseteq> set rs \<union> range (new_readonly empty_slice)"
proof (induction rs k rule: fill_holes.induct)
  case (1 rs k)
  let ?a = "region_slot (vm_addr (rs ! k))"
  let ?f = "new_readonly empty_slice (saturating_mul (of_nat k) MM_REGION_SIZE)"
  consider "\<not> k < length rs" | "k < length rs" "k < ?a" | "k < length rs" "?a = k"
    using 1(3) by (subst (asm) fill_holes.simps) (auto simp: Let_def split: if_splits)
  then show ?case
  proof cases
    case 1
    then show ?thesis using "1.prems" by (subst (asm) fill_holes.simps) auto
  next
    case 2
    then have "fill_holes (take k rs @ [?f] @ drop k rs) (k + 1) = (Ok rs' :: (_, 'x EbpfError) result)"
      using "1.prems" by (subst (asm) fill_holes.simps) (simp add: Let_def)
    from "1.IH"(1) [OF 2(1) refl 2(2) this] show ?thesis
      unfolding set_take_drop [of rs k] by auto
  next
    case 3
    then have "fill_holes rs (k + 1) = (Ok rs' :: (_, 'x EbpfError) result)"
      using "1.prems" by (subst (asm) fill_holes.simps) (simp add: Let_def)
    with "1.IH"(2) [OF 3(1) refl] 3 show ?thesis by simp
  qed
qed

lemma find_misplaced_None:
  "find_misplaced rs k = None \<longleftrightarrow> (\<forall>i < length rs. region_slot (vm_addr (rs ! i)) = k + i)"
proof (induction rs arbitrary: k)
  case (Cons r rs)
  show ?case by (subst all_nat_split) (auto simp: Cons)
qed simp

definition aligned_inv :: "AlignedMemoryMapping \<Rightarrow> bool" where
  "aligned_inv m \<longleftrightarrow> slots_ok (regions (a_common m))"

lemma new_aligned_ok:
  assumes "new_aligned rs cfg v h = (Ok m :: (_, 'x EbpfError) result)"
  obtains rs' where "a_common m = new_common rs' cfg v h" "slots_ok rs'"
    "set rs \<subseteq> set rs'" "set rs' \<subseteq> set rs \<union> range (new_readonly empty_slice)"
proof (cases "allow_memory_region_zero cfg")
  case True
  then obtain rs' where f: "fill_holes (sort_key vm_addr rs) 0 = (Ok rs' :: (_, 'x EbpfError) result)"
    and m: "a_common m = new_common rs' cfg v h"
    using assms by (auto simp: new_aligned_def and_then_Ok_iff)
  show ?thesis using that [OF m] fill_holes_slots [OF f] fill_holes_regions [OF f] by simp
next
  case False
  let ?rs = "sort_key vm_addr (new_readonly empty_slice 0 # rs)"
  have "find_misplaced ?rs 0 = None" and m: "a_common m = new_common ?rs cfg v h"
    using False assms by (auto simp: new_aligned_def Let_def and_then_Ok_iff split: option.splits)
  then have "slots_ok ?rs" by (simp add: find_misplaced_None slots_ok_def)
  then show ?thesis using that [OF m] by (auto simp: set_insort_key)
qed

lemma wrapping_shr_slot: "unat (wrapping_shr a 32) = region_slot a"
  by (simp add: wrapping_shr_def region_slot_div drop_bit_eq_div unat_div)

lemma aligned_find_region_Some:
  "aligned_find_region m a = Some (i, r) \<longleftrightarrow>
     i = region_slot a \<and> i < length (regions (a_common m)) \<and> r = regions (a_common m) ! i
     \<and> (0 < i \<or> cm_allow_memory_region_zero (a_common m))"
  by (auto simp: aligned_find_region_def Let_def wrapping_shr_slot)

section \<open>The contract of a region lookup\<close>

text \<open>
  What the translation of an access relies on: the lookup answers with one of the regions and its
  index, keeps the invariant and does not change the regions.
\<close>

locale region_lookup =
  fixes inv :: "'m \<Rightarrow> bool"
    and regions_of :: "'m \<Rightarrow> MemoryRegion list"
    and lookup :: "'m \<Rightarrow> u64 \<Rightarrow> (nat \<times> MemoryRegion) option \<times> 'm"
  assumes lookup_sound: "inv m \<Longrightarrow> fst (lookup m a) = Some (i, r) \<Longrightarrow>
      i < length (regions_of m) \<and> r = regions_of m ! i"
    and lookup_inv: "inv m \<Longrightarrow> inv (snd (lookup m a))"
    and lookup_regions: "inv m \<Longrightarrow> regions_of (snd (lookup m a)) = regions_of m"
    and lookup_stable: "inv m \<Longrightarrow> fst (lookup (snd (lookup m a)) b) = fst (lookup m b)"
begin

lemma lookup_mem:
  assumes "inv m" "fst (lookup m a) = Some (i, r)"
  shows "r \<in> set (regions_of m)"
  using lookup_sound [OF assms] by auto

text \<open>A translated access lies in the host slice of a region, writable for a store.\<close>

lemma lookup_safe:
  assumes "inv m" "list_all region_wf (regions_of m)" "fst (lookup m a) = Some (i, r)"
    and "vm_to_host r t a n = Some h"
  shows "unat (host_addr r) \<le> unat h" "unat h + unat n \<le> unat (host_addr r) + unat (len r)"
    "t = Store \<longrightarrow> writable r"
  using assms(4) vm_to_host_spec [of r t a n h] lookup_mem [OF assms(1,3)] assms(2)
  by (auto simp: list_all_iff)

lemma lookup_sequence:
  assumes "inv m"
  shows "inv (fold (\<lambda>a m. snd (lookup m a)) as m)
    \<and> fst (lookup (fold (\<lambda>a m. snd (lookup m a)) as m) b) = fst (lookup m b)"
  using assms by (induction as arbitrary: m) (auto simp: lookup_inv lookup_stable)

end

interpretation unaligned: region_lookup unaligned_inv "\<lambda>m. regions (u_common m)" unaligned_find_region
proof
  fix m a b and i and r :: MemoryRegion assume inv: "unaligned_inv m"
  note spec = unaligned_find_region_spec [OF inv]
  show "fst (unaligned_find_region m a) = Some (i, r) \<Longrightarrow>
      i < length (regions (u_common m)) \<and> r = regions (u_common m) ! i"
    using linear_find_less by (auto simp: spec(1))
  show "unaligned_inv (snd (unaligned_find_region m a))" by (rule spec(2))
  show "regions (u_common (snd (unaligned_find_region m a))) = regions (u_common m)"
    by (simp add: spec(3))
  show "fst (unaligned_find_region (snd (unaligned_find_region m a)) b) = fst (unaligned_find_region m b)"
    using spec unaligned_find_region_spec(1) [of "snd (unaligned_find_region m a)" b] by simp
qed

interpretation aligned: region_lookup aligned_inv "\<lambda>m. regions (a_common m)"
  "\<lambda>m a. (aligned_find_region m a, m)"
  by unfold_locales (auto simp: aligned_find_region_Some)

section \<open>Properties\<close>

lemma find_overlap_Some:
  "find_overlap rs k = Some j \<Longrightarrow>
     \<exists>i. j = k + i \<and> Suc i < length rs \<and> range_end (vm_addr_range (rs ! i)) > vm_addr (rs ! Suc i)"
proof (induction rs k rule: find_overlap.induct)
  case (1 first second rs index)
  show ?case
  proof (cases "range_end (vm_addr_range first) > vm_addr second")
    case True
    with 1 show ?thesis by (auto intro!: exI [of _ 0])
  next
    case False
    with 1 obtain i where "j = index + Suc i" "Suc i < length (second # rs)"
      "range_end (vm_addr_range ((second # rs) ! i)) > vm_addr ((second # rs) ! Suc i)" by auto
    then show ?thesis by (auto intro!: exI [of _ "Suc i"])
  qed
qed auto

text \<open>
  C22: the unaligned constructor never panics.  It accepts exactly the regions that, sorted by
  address, do not overlap, and then the arrays it builds describe the sorted regions; otherwise it
  names the second of two neighbours that overlap.
\<close>

theorem new_unaligned_correct:
  "case new_unaligned rs cfg v h of
     None \<Rightarrow> False
   | Some (Ok m) \<Rightarrow> unaligned_inv m \<and> u_common m = new_common (sort_key vm_addr rs) cfg v h
   | Some (Err e) \<Rightarrow>
       \<exists>i. e = InvalidMemoryRegion (of_nat (Suc i)) \<and> Suc i < length rs
         \<and> range_end (vm_addr_range (sort_key vm_addr rs ! i)) > vm_addr (sort_key vm_addr rs ! Suc i)"
proof (cases "find_overlap (sort_key vm_addr rs) 1")
  case None
  with new_unaligned_total [of rs cfg v h] new_unaligned_ok [of rs cfg v h] show ?thesis
    by (auto simp: new_unaligned_def Let_def split: option.splits result.splits)
next
  case (Some j)
  then show ?thesis using find_overlap_Some [OF Some] by (auto simp: new_unaligned_def)
qed

text \<open>
  C20: the Eytzinger search with its cache is the linear search.  After any sequence of lookups, a
  lookup answers with the last region in address order that starts at or below the address, and
  with its index.
\<close>

theorem unaligned_find_linear:
  assumes "unaligned_inv m"
  shows "fst (unaligned_find_region (fold (\<lambda>a m. snd (unaligned_find_region m a)) as m) addr) =
    map_option (\<lambda>i. (i, regions (u_common m) ! i)) (linear_find (regions (u_common m)) addr)"
  using unaligned.lookup_sequence [OF assms, of as addr] unaligned_find_region_spec(1) [OF assms]
  by simp

definition sample_regions :: "MemoryRegion list" where
  "sample_regions =
     [new_readonly \<lparr>as_ptr = 0x1000, slice_len = 64\<rparr> MM_INPUT_START,
      new_readonly \<lparr>as_ptr = 0x2000, slice_len = 32\<rparr> MM_BYTECODE_START,
      new_writable \<lparr>as_ptr = 0x3000, slice_len = 128\<rparr> MM_HEAP_START]"

theorem unaligned_find_linear_witness:
  "\<exists>m. new_unaligned sample_regions default_Config V0 default_access_violation_handler
       = (Some (Ok m) :: (_, unit EbpfError) result option)
     \<and> fst (unaligned_find_region (fold (\<lambda>a m. snd (unaligned_find_region m a)) [0, MM_HEAP_START] m)
          (MM_HEAP_START + 5)) = Some (1, new_writable \<lparr>as_ptr = 0x3000, slice_len = 128\<rparr> MM_HEAP_START)"
proof -
  let ?rs = "sort_key vm_addr sample_regions"
  have rs: "?rs = [sample_regions ! 1, sample_regions ! 2, sample_regions ! 0]"
    by (simp add: sample_regions_def new_readonly_def new_writable_def)
  have "find_overlap ?rs 1 = None"
    by (simp add: rs sample_regions_def new_readonly_def new_writable_def vm_addr_range_def
        saturating_add_def)
  then obtain m where m: "new_unaligned sample_regions default_Config V0 default_access_violation_handler
       = (Some (Ok m) :: (_, unit EbpfError) result option)"
    using new_unaligned_total [of sample_regions default_Config V0 default_access_violation_handler]
    by (auto simp: new_unaligned_def Let_def split: option.splits)
  note ok = new_unaligned_ok [OF m]
  have "linear_find ?rs (MM_HEAP_START + 5) = Some 1"
    by (simp add: rs sample_regions_def new_readonly_def new_writable_def linear_find_def)
  with ok(2) have "fst (unaligned_find_region
      (fold (\<lambda>a m. snd (unaligned_find_region m a)) [0, MM_HEAP_START] m) (MM_HEAP_START + 5))
    = Some (1, ?rs ! 1)"
    by (subst unaligned_find_linear [OF ok(1)]) (simp add: new_common_def)
  moreover have "?rs ! 1 = new_writable \<lparr>as_ptr = 0x3000, slice_len = 128\<rparr> MM_HEAP_START"
    unfolding rs by (simp add: sample_regions_def)
  ultimately show ?thesis using m by auto
qed

lemma aligned_slots:
  assumes "new_aligned rs cfg v h = Ok m" "r \<in> set rs"
    and "allow_memory_region_zero cfg \<or> 0 < region_slot (vm_addr r)"
  shows "aligned_find_region m (vm_addr r) = Some (region_slot (vm_addr r), r)"
    and "\<forall>r' \<in> set (regions (a_common m)) - set rs. len r' = 0 \<and> \<not> writable r'"
proof -
  obtain rs' where rs': "a_common m = new_common rs' cfg v h" "slots_ok rs'" "set rs \<subseteq> set rs'"
    "set rs' \<subseteq> set rs \<union> range (new_readonly empty_slice)"
    using new_aligned_ok [OF assms(1)] .
  then obtain i where "i < length rs'" "rs' ! i = r" using assms(2) by (metis in_set_conv_nth subsetD)
  with rs' assms(3) show "aligned_find_region m (vm_addr r) = Some (region_slot (vm_addr r), r)"
    by (auto simp: aligned_find_region_Some slots_ok_def new_common_def)
  show "\<forall>r' \<in> set (regions (a_common m)) - set rs. len r' = 0 \<and> \<not> writable r'"
    using rs'(1,4) by (auto simp: new_common_def new_readonly_def empty_slice_def)
qed

text \<open>
  C23: the aligned constructor puts every region into the slot that the upper half of its address
  names, so the lookup at a region's address answers with that region; the holes it fills are empty
  and read-only.
\<close>

theorem aligned_find_given:
  assumes "new_aligned rs cfg v h = Ok m" "r \<in> set rs"
    and "allow_memory_region_zero cfg \<or> 0 < region_slot (vm_addr r)"
  shows "aligned_find_region m (vm_addr r) = Some (region_slot (vm_addr r), r)
    \<and> (\<forall>r' \<in> set (regions (a_common m)) - set rs. len r' = 0 \<and> \<not> writable r')"
  using aligned_slots [OF assms] ..

theorem aligned_find_given_witness:
  "\<exists>m. new_aligned sample_regions default_Config V4 default_access_violation_handler
       = (Ok m :: (_, unit EbpfError) result)
     \<and> aligned_find_region m MM_INPUT_START = Some (4, sample_regions ! 0)"
proof -
  have "is_ok (new_aligned sample_regions default_Config V4 default_access_violation_handler
      :: (_, unit EbpfError) result)"
    by (simp add: new_aligned_def default_Config_def sample_regions_def new_readonly_def
        new_writable_def fill_holes.simps region_slot_div saturating_mul_def)
  then obtain m where m: "new_aligned sample_regions default_Config V4 default_access_violation_handler
       = (Ok m :: (_, unit EbpfError) result)"
    by (cases "new_aligned sample_regions default_Config V4 default_access_violation_handler
      :: (_, unit EbpfError) result") auto
  have "aligned_find_region m (vm_addr (sample_regions ! 0)) =
      Some (region_slot (vm_addr (sample_regions ! 0)), sample_regions ! 0)"
    by (rule aligned_find_given [OF m, THEN conjunct1]) (simp_all add: sample_regions_def default_Config_def)
  moreover have "region_slot MM_INPUT_START = 4" by (simp add: region_slot_div)
  ultimately show ?thesis using m by (auto simp: sample_regions_def new_readonly_def)
qed

end
