(* ===== verification/Borrowed_Account.thy ===== *)
theory Borrowed_Account
  imports Accounts
begin

text \<open>
  \<open>agave/transaction-context/src/instruction_accounts.rs\<close>: what an instruction may do to the
  accounts passed to it.  A \<open>BorrowedInstructionAccount\<close> is the right to change one account of the
  transaction; its methods take and return the accounts.  The rent calculation of the \<open>solana_rent\<close>
  crate and the encoding of the \<open>bincode\<close> crate are parameters.
\<close>

section \<open>Instruction accounts\<close>

record InstructionAccount =
  index_in_transaction :: IndexOfAccount
  is_signer_flag :: u8
  is_writable_flag :: u8

definition as_u8 :: "bool \<Rightarrow> u8" where
  "as_u8 b = (if b then 1 else 0)"

definition new_InstructionAccount :: "IndexOfAccount \<Rightarrow> bool \<Rightarrow> bool \<Rightarrow> InstructionAccount" where
  "new_InstructionAccount index signer wr =
     \<lparr>index_in_transaction = index, is_signer_flag = as_u8 signer, is_writable_flag = as_u8 wr\<rparr>"

definition is_signer :: "InstructionAccount \<Rightarrow> bool" where
  "is_signer a \<longleftrightarrow> is_signer_flag a \<noteq> 0"

definition is_writable :: "InstructionAccount \<Rightarrow> bool" where
  "is_writable a \<longleftrightarrow> is_writable_flag a \<noteq> 0"

definition set_is_signer :: "InstructionAccount \<Rightarrow> bool \<Rightarrow> InstructionAccount" where
  "set_is_signer a b = a\<lparr>is_signer_flag := as_u8 b\<rparr>"

definition set_is_writable :: "InstructionAccount \<Rightarrow> bool \<Rightarrow> InstructionAccount" where
  "set_is_writable a b = a\<lparr>is_writable_flag := as_u8 b\<rparr>"

lemma InstructionAccount_simps [simp]:
  "index_in_transaction (new_InstructionAccount i s w) = i"
  "is_signer (new_InstructionAccount i s w) = s" "is_writable (new_InstructionAccount i s w) = w"
  "index_in_transaction (set_is_signer a b) = index_in_transaction a"
  "index_in_transaction (set_is_writable a b) = index_in_transaction a"
  "is_signer (set_is_signer a b) = b" "is_writable (set_is_signer a b) = is_writable a"
  "is_signer (set_is_writable a b) = is_signer a" "is_writable (set_is_writable a b) = b"
  by (simp_all add: new_InstructionAccount_def is_signer_def is_writable_def set_is_signer_def
      set_is_writable_def as_u8_def)

section \<open>Borrowed accounts\<close>

record BorrowedInstructionAccount =
  ba_instruction_account :: InstructionAccount
  index_in_transaction_of_instruction_program :: IndexOfAccount

definition get_index_in_transaction :: "BorrowedInstructionAccount \<Rightarrow> IndexOfAccount" where
  "get_index_in_transaction ba = index_in_transaction (ba_instruction_account ba)"

abbreviation (input) ba_index :: "BorrowedInstructionAccount \<Rightarrow> nat" where
  "ba_index ba \<equiv> unat (get_index_in_transaction ba)"

abbreviation (input) ba_view :: "TransactionAccounts \<Rightarrow> BorrowedInstructionAccount \<Rightarrow> TransactionAccountView" where
  "ba_view ta ba \<equiv> view_at ta (ba_index ba)"

text \<open>\<open>None\<close> is the panic of \<open>unwrap\<close>.\<close>

definition get_key :: "TransactionAccounts \<Rightarrow> BorrowedInstructionAccount \<Rightarrow> Pubkey option" where
  "get_key ta ba = account_key ta (get_index_in_transaction ba)"

definition get_owner :: "TransactionAccounts \<Rightarrow> BorrowedInstructionAccount \<Rightarrow> Pubkey" where
  "get_owner ta ba = view_owner (ba_view ta ba)"

definition get_lamports :: "TransactionAccounts \<Rightarrow> BorrowedInstructionAccount \<Rightarrow> u64" where
  "get_lamports ta ba = view_lamports (ba_view ta ba)"

definition get_data :: "TransactionAccounts \<Rightarrow> BorrowedInstructionAccount \<Rightarrow> u8 list" where
  "get_data ta ba = view_data (ba_view ta ba)"

definition ba_is_shared :: "TransactionAccounts \<Rightarrow> BorrowedInstructionAccount \<Rightarrow> bool" where
  "ba_is_shared ta ba = view_is_shared (ba_view ta ba)"

definition ba_is_executable :: "TransactionAccounts \<Rightarrow> BorrowedInstructionAccount \<Rightarrow> bool" where
  "ba_is_executable ta ba = view_executable (ba_view ta ba)"

definition get_rent_epoch :: "TransactionAccounts \<Rightarrow> BorrowedInstructionAccount \<Rightarrow> u64" where
  "get_rent_epoch ta ba = view_rent_epoch (ba_view ta ba)"

definition ba_is_signer :: "BorrowedInstructionAccount \<Rightarrow> bool" where
  "ba_is_signer ba = is_signer (ba_instruction_account ba)"

definition ba_is_writable :: "BorrowedInstructionAccount \<Rightarrow> bool" where
  "ba_is_writable ba = is_writable (ba_instruction_account ba)"

definition is_owned_by_current_program ::
  "TransactionAccounts \<Rightarrow> BorrowedInstructionAccount \<Rightarrow> bool"
where
  "is_owned_by_current_program ta ba =
     (case account_key ta (index_in_transaction_of_instruction_program ba) of
        Some program_key \<Rightarrow> program_key = get_owner ta ba
      | None \<Rightarrow> False)"

definition can_data_be_changed ::
  "TransactionAccounts \<Rightarrow> BorrowedInstructionAccount \<Rightarrow> (unit, InstructionError) result"
where
  "can_data_be_changed ta ba =
     (if \<not> ba_is_writable ba then Err ReadonlyDataModified
      else if \<not> is_owned_by_current_program ta ba then Err ExternalAccountDataModified
      else Ok ())"

definition can_data_be_resized ::
  "TransactionAccounts \<Rightarrow> BorrowedInstructionAccount \<Rightarrow> nat \<Rightarrow> (unit, InstructionError) result"
where
  "can_data_be_resized ta ba new_len =
     (let old_len = length (get_data ta ba) in
      if new_len \<noteq> old_len \<and> \<not> is_owned_by_current_program ta ba then Err AccountDataSizeChanged
      else and_then (accounts_can_data_be_resized ta old_len new_len)
             (\<lambda>_. can_data_be_changed ta ba))"

definition ba_touch ::
  "TransactionAccounts \<Rightarrow> BorrowedInstructionAccount
     \<Rightarrow> TransactionAccounts \<times> (unit, InstructionError) result"
where
  "ba_touch ta ba = accounts_touch ta (get_index_in_transaction ba)"

definition ba_update_accounts_resize_delta ::
  "TransactionAccounts \<Rightarrow> BorrowedInstructionAccount \<Rightarrow> nat \<Rightarrow> TransactionAccounts"
where
  "ba_update_accounts_resize_delta ta ba new_len =
     update_accounts_resize_delta ta (length (get_data ta ba)) new_len"

definition make_data_mut ::
  "TransactionAccounts \<Rightarrow> BorrowedInstructionAccount \<Rightarrow> TransactionAccounts"
where
  "make_data_mut ta ba =
     (if view_is_shared (ba_view ta ba)
      then put_view ta (ba_index ba)
             (view_reserve (ba_view ta ba) MAX_ACCOUNT_DATA_GROWTH_PER_INSTRUCTION)
      else ta)"

text \<open>\<open>chunks_exact\<close> with its \<open>remainder\<close>, and the test of \<open>set_owner\<close>.\<close>

definition ZEROS_LEN :: nat where
  "ZEROS_LEN = 1024"

function chunks_exact :: "nat \<Rightarrow> 'a list \<Rightarrow> 'a list list \<times> 'a list" where
  "chunks_exact n xs =
     (if 0 < n \<and> n \<le> length xs
      then (take n xs # fst (chunks_exact n (drop n xs)), snd (chunks_exact n (drop n xs)))
      else ([], xs))"
  by auto
termination by (relation "measure (\<lambda>(_, xs). length xs)") auto

declare chunks_exact.simps [simp del]

definition is_zeroed :: "u8 list \<Rightarrow> bool" where
  "is_zeroed buf =
     (let (chunks, remainder) = chunks_exact ZEROS_LEN buf in
      list_all (\<lambda>chunk. chunk = replicate ZEROS_LEN 0) chunks
      \<and> remainder = take (length remainder) (replicate ZEROS_LEN 0))"

section \<open>Changes\<close>

text \<open>\<open>None\<close> is the panic of \<open>copy_from_slice\<close> on a key of another length.\<close>

definition set_owner ::
  "TransactionAccounts \<Rightarrow> BorrowedInstructionAccount \<Rightarrow> u8 list
     \<Rightarrow> (TransactionAccounts \<times> (unit, InstructionError) result) option"
where
  "set_owner ta ba pubkey =
     (if \<not> is_owned_by_current_program ta ba then Some (ta, Err ModifiedProgramId)
      else if \<not> ba_is_writable ba then Some (ta, Err ModifiedProgramId)
      else if \<not> is_zeroed (get_data ta ba) then Some (ta, Err ModifiedProgramId)
      else if get_owner ta ba = pubkey then Some (ta, Ok ())
      else
        (case ba_touch ta ba of
           (ta, Err e) \<Rightarrow> Some (ta, Err e)
         | (ta, Ok _) \<Rightarrow>
             map_option (\<lambda>v. (put_view ta (ba_index ba) v, Ok ()))
               (view_copy_into_owner_from_slice (ba_view ta ba) pubkey)))"

definition set_lamports ::
  "TransactionAccounts \<Rightarrow> BorrowedInstructionAccount \<Rightarrow> u64
     \<Rightarrow> TransactionAccounts \<times> (unit, InstructionError) result"
where
  "set_lamports ta ba lamports =
     (if \<not> is_owned_by_current_program ta ba \<and> lamports < get_lamports ta ba
      then (ta, Err ExternalAccountLamportSpend)
      else if \<not> ba_is_writable ba then (ta, Err ReadonlyLamportChange)
      else
        let old_lamports = get_lamports ta ba in
        if old_lamports = lamports then (ta, Ok ())
        else
          let lamports_balance = clamp 128 (int (unat lamports) - int (unat old_lamports)) in
          try_then (add_lamports_delta ta lamports_balance) (\<lambda>ta _.
            try_then (ba_touch ta ba) (\<lambda>ta _.
              (put_view ta (ba_index ba) (view_set_lamports (ba_view ta ba) lamports), Ok ()))))"

definition checked_add_lamports ::
  "TransactionAccounts \<Rightarrow> BorrowedInstructionAccount \<Rightarrow> u64
     \<Rightarrow> TransactionAccounts \<times> (unit, InstructionError) result"
where
  "checked_add_lamports ta ba lamports =
     (case checked_add (get_lamports ta ba) lamports of
        None \<Rightarrow> (ta, Err ArithmeticOverflow)
      | Some lamports \<Rightarrow> set_lamports ta ba lamports)"

definition checked_sub_lamports ::
  "TransactionAccounts \<Rightarrow> BorrowedInstructionAccount \<Rightarrow> u64
     \<Rightarrow> TransactionAccounts \<times> (unit, InstructionError) result"
where
  "checked_sub_lamports ta ba lamports =
     (if get_lamports ta ba < lamports then (ta, Err ArithmeticOverflow)
      else set_lamports ta ba (get_lamports ta ba - lamports))"

text \<open>\<open>get_data_mut\<close> together with what the caller does to the slice, which keeps its length.\<close>

definition with_data_mut ::
  "TransactionAccounts \<Rightarrow> BorrowedInstructionAccount \<Rightarrow> (u8 list \<Rightarrow> u8 list)
     \<Rightarrow> TransactionAccounts \<times> (unit, InstructionError) result"
where
  "with_data_mut ta ba f =
     try_then (ta, can_data_be_changed ta ba) (\<lambda>ta _.
       try_then (ba_touch ta ba) (\<lambda>ta _.
         let ta = make_data_mut ta ba
         in (put_view ta (ba_index ba) (write_data_as_mut_slice (ba_view ta ba) f), Ok ())))"

definition set_data_from_slice ::
  "TransactionAccounts \<Rightarrow> BorrowedInstructionAccount \<Rightarrow> u8 list
     \<Rightarrow> TransactionAccounts \<times> (unit, InstructionError) result"
where
  "set_data_from_slice ta ba bytes =
     try_then (ta, can_data_be_resized ta ba (length bytes)) (\<lambda>ta _.
       try_then (ba_touch ta ba) (\<lambda>ta _.
         let ta = ba_update_accounts_resize_delta ta ba (length bytes)
         in (put_view ta (ba_index ba) (view_set_data_from_slice (ba_view ta ba) bytes), Ok ())))"

definition set_data_length ::
  "TransactionAccounts \<Rightarrow> BorrowedInstructionAccount \<Rightarrow> nat
     \<Rightarrow> TransactionAccounts \<times> (unit, InstructionError) result"
where
  "set_data_length ta ba new_length =
     try_then (ta, can_data_be_resized ta ba new_length) (\<lambda>ta _.
       if length (get_data ta ba) = new_length then (ta, Ok ())
       else try_then (ba_touch ta ba) (\<lambda>ta _.
         let ta = ba_update_accounts_resize_delta ta ba new_length
         in (put_view ta (ba_index ba) (view_resize (ba_view ta ba) new_length 0), Ok ())))"

definition ba_extend_from_slice ::
  "TransactionAccounts \<Rightarrow> BorrowedInstructionAccount \<Rightarrow> u8 list
     \<Rightarrow> TransactionAccounts \<times> (unit, InstructionError) result"
where
  "ba_extend_from_slice ta ba bytes =
     (let new_len = length (get_data ta ba) + length bytes in
      try_then (ta, can_data_be_resized ta ba new_len) (\<lambda>ta _.
        if bytes = [] then (ta, Ok ())
        else try_then (ba_touch ta ba) (\<lambda>ta _.
          let ta = ba_update_accounts_resize_delta ta ba new_len;
              ta = make_data_mut ta ba
          in (put_view ta (ba_index ba) (view_extend_from_slice (ba_view ta ba) bytes), Ok ()))))"

definition is_rent_exempt_at_data_length ::
  "(u64 \<Rightarrow> nat \<Rightarrow> bool) \<Rightarrow> TransactionAccounts \<Rightarrow> BorrowedInstructionAccount \<Rightarrow> nat \<Rightarrow> bool"
where
  "is_rent_exempt_at_data_length is_exempt ta ba data_length =
     is_exempt (get_lamports ta ba) data_length"

definition set_executable ::
  "(u64 \<Rightarrow> nat \<Rightarrow> bool) \<Rightarrow> TransactionAccounts \<Rightarrow> BorrowedInstructionAccount \<Rightarrow> bool
     \<Rightarrow> TransactionAccounts \<times> (unit, InstructionError) result"
where
  "set_executable is_exempt ta ba executable =
     (if \<not> is_exempt (get_lamports ta ba) (length (get_data ta ba))
      then (ta, Err ExecutableAccountNotRentExempt)
      else if \<not> is_owned_by_current_program ta ba then (ta, Err ExecutableModified)
      else if \<not> ba_is_writable ba then (ta, Err ExecutableModified)
      else if ba_is_executable ta ba = executable then (ta, Ok ())
      else try_then (ba_touch ta ba) (\<lambda>ta _.
        (put_view ta (ba_index ba) (view_set_executable (ba_view ta ba) executable), Ok ())))"

text \<open>
  \<open>get_state\<close> and \<open>set_state\<close>: \<open>bincode::deserialize\<close>, \<open>bincode::serialized_size\<close> and
  \<open>bincode::serialize_into\<close> (the new contents of the slice) are parameters.
\<close>

definition get_state ::
  "(u8 list \<Rightarrow> 't option) \<Rightarrow> TransactionAccounts \<Rightarrow> BorrowedInstructionAccount
     \<Rightarrow> ('t, InstructionError) result"
where
  "get_state deserialize ta ba = ok_or (deserialize (get_data ta ba)) InvalidAccountData"

definition set_state ::
  "('t \<Rightarrow> u64 option) \<Rightarrow> (u8 list \<Rightarrow> 't \<Rightarrow> u8 list option)
     \<Rightarrow> TransactionAccounts \<Rightarrow> BorrowedInstructionAccount \<Rightarrow> 't
     \<Rightarrow> TransactionAccounts \<times> (unit, InstructionError) result"
where
  "set_state serialized_size serialize_into ta ba state =
     try_then (with_data_mut ta ba (\<lambda>bytes. bytes)) (\<lambda>ta _.
       let bytes = get_data ta ba in
       case serialized_size state of
         None \<Rightarrow> (ta, Err GenericError)
       | Some n \<Rightarrow>
           if n > of_nat (length bytes) then (ta, Err AccountDataTooSmall)
           else (case serialize_into bytes state of
                   None \<Rightarrow> (ta, Err GenericError)
                 | Some bytes \<Rightarrow>
                     (put_view ta (ba_index ba) (write_data_as_mut_slice (ba_view ta ba) (\<lambda>_. bytes)),
                      Ok ())))"

section \<open>Zeroed data\<close>

text \<open>The chunked comparison is the plain one.\<close>

lemma chunks_exact_concat: "concat (fst (chunks_exact n xs)) @ snd (chunks_exact n xs) = xs"
  by (induction n xs rule: chunks_exact.induct) (subst (1 2) chunks_exact.simps, auto)

lemma chunks_exact_lengths:
  "list_all (\<lambda>c. length c = n) (fst (chunks_exact n xs))
   \<and> (0 < n \<longrightarrow> length (snd (chunks_exact n xs)) < n)"
  by (induction n xs rule: chunks_exact.induct) (subst (1 2) chunks_exact.simps, auto)

lemma zeros_iff: "xs = replicate (length xs) 0 \<longleftrightarrow> list_all (\<lambda>b. b = 0) xs"
  by (induction xs) auto

lemma is_zeroed_iff: "is_zeroed buf \<longleftrightarrow> list_all (\<lambda>b. b = 0) buf"
proof -
  obtain cs r where c: "chunks_exact ZEROS_LEN buf = (cs, r)" by fastforce
  have cat: "concat cs @ r = buf" using chunks_exact_concat [of ZEROS_LEN buf] c by simp
  have len: "list_all (\<lambda>c. length c = ZEROS_LEN) cs" "length r \<le> ZEROS_LEN"
    using chunks_exact_lengths [of ZEROS_LEN buf] c by (simp_all add: ZEROS_LEN_def)
  have "list_all (\<lambda>chunk. chunk = replicate ZEROS_LEN 0) cs \<longleftrightarrow> list_all (list_all (\<lambda>b. b = 0)) cs"
    using len(1) by (intro list.pred_cong refl) (auto simp: list_all_iff zeros_iff [unfolded list_all_iff, symmetric])
  moreover have "r = take (length r) (replicate ZEROS_LEN 0) \<longleftrightarrow> list_all (\<lambda>b. b = 0) r"
    using len(2) by (simp add: zeros_iff [symmetric] min_absorb1)
  moreover have "list_all (\<lambda>b. b = 0) buf \<longleftrightarrow>
      list_all (list_all (\<lambda>b. b = 0)) cs \<and> list_all (\<lambda>b. b = 0) r"
    unfolding cat [symmetric] by (auto simp: list_all_iff)
  ultimately show ?thesis by (simp add: is_zeroed_def c)
qed

section \<open>Frames\<close>

text \<open>The arrays of the accounts have one length, and the guest sees the length of the data.\<close>

definition accounts_inv :: "TransactionAccounts \<Rightarrow> bool" where
  "accounts_inv ta \<longleftrightarrow>
     length (private_account_fields ta) = accounts_len ta
     \<and> length (borrow_counters ta) = accounts_len ta
     \<and> length (touched_flags ta) = accounts_len ta
     \<and> (\<forall>i < accounts_len ta.
          vs_len (shared_payload (abi_account (view_at ta i))) = of_nat (length (view_data (view_at ta i))))"

definition total_lamports :: "TransactionAccounts \<Rightarrow> int" where
  "total_lamports ta = sum_list (map (\<lambda>sf. int (unat (shared_lamports sf))) (shared_account_fields ta))"

lemma sum_list_list_update:
  "i < length xs \<Longrightarrow> sum_list (map f (xs[i := x])) = sum_list (map f xs) - f (xs ! i) + (f x :: int)"
  by (induction xs arbitrary: i) (auto split: nat.split)

lemma view_at_put_view:
  "i < length (shared_account_fields ta) \<Longrightarrow> i < length (private_account_fields ta) \<Longrightarrow>
     view_at (put_view ta i v) j = (if j = i then v else view_at ta j)"
  by (simp add: view_at_def put_view_def)

lemma put_view_sel [simp]:
  "borrow_counters (put_view ta i v) = borrow_counters ta"
  "touched_flags (put_view ta i v) = touched_flags ta"
  "ta_resize_delta (put_view ta i v) = ta_resize_delta ta"
  "ta_lamports_delta (put_view ta i v) = ta_lamports_delta ta"
  "length (shared_account_fields (put_view ta i v)) = length (shared_account_fields ta)"
  "length (private_account_fields (put_view ta i v)) = length (private_account_fields ta)"
  by (simp_all add: put_view_def)

lemma total_put_view:
  "i < length (shared_account_fields ta) \<Longrightarrow>
     total_lamports (put_view ta i v) =
       total_lamports ta - int (unat (view_lamports (view_at ta i))) + int (unat (view_lamports v))"
  by (simp add: total_lamports_def put_view_def sum_list_list_update view_lamports_def view_at_def)

lemma view_simps [simp]:
  "view_data (put_data v bs) = bs" "view_owner (put_data v bs) = view_owner v"
  "view_lamports (put_data v bs) = view_lamports v" "view_executable (put_data v bs) = view_executable v"
  "abi_account (put_data v bs) = abi_account v" "view_rent_epoch (put_data v bs) = view_rent_epoch v"
  "view_data (sync_len v n) = view_data v" "view_owner (sync_len v n) = view_owner v"
  "view_lamports (sync_len v n) = view_lamports v" "view_executable (sync_len v n) = view_executable v"
  "view_rent_epoch (sync_len v n) = view_rent_epoch v"
  "vs_len (shared_payload (abi_account (sync_len v n))) = n"
  "shared_key (abi_account (sync_len v n)) = shared_key (abi_account v)"
  "view_lamports (view_set_lamports v m) = m" "view_data (view_set_lamports v m) = view_data v"
  "view_owner (view_set_lamports v m) = view_owner v"
  "view_executable (view_set_lamports v m) = view_executable v"
  "view_rent_epoch (view_set_lamports v m) = view_rent_epoch v"
  "shared_key (abi_account (view_set_lamports v m)) = shared_key (abi_account v)"
  "shared_payload (abi_account (view_set_lamports v m)) = shared_payload (abi_account v)"
  "view_data (view_set_executable v b) = view_data v" "view_owner (view_set_executable v b) = view_owner v"
  "view_lamports (view_set_executable v b) = view_lamports v" "view_executable (view_set_executable v b) = b"
  "view_rent_epoch (view_set_executable v b) = view_rent_epoch v"
  "abi_account (view_set_executable v b) = abi_account v"
  by (simp_all add: put_data_def sync_len_def view_data_def view_owner_def view_lamports_def
      view_executable_def view_rent_epoch_def set_len_def view_set_lamports_def view_set_executable_def)

lemma length_vec_resize [simp]: "length (vec_resize xs n x) = n"
  by (simp add: vec_resize_def)

section \<open>What a borrowed account may do\<close>

text \<open>
  The contract of a change through a borrowed account: the arrays keep their shape and keys, other
  accounts are untouched, a read-only account does not change, an account that the program does not
  own keeps its owner, data and executable flag and does not lose lamports, and the lamports delta
  accounts for every lamport moved.
\<close>

definition allowed :: "BorrowedInstructionAccount \<Rightarrow> TransactionAccounts \<Rightarrow> TransactionAccounts \<Rightarrow> bool" where
  "allowed ba ta ta' \<longleftrightarrow>
     accounts_inv ta'
     \<and> account_keys_iter ta' = account_keys_iter ta \<and> borrow_counters ta' = borrow_counters ta
     \<and> (\<forall>j. j \<noteq> ba_index ba \<longrightarrow> view_at ta' j = view_at ta j)
     \<and> (\<not> ba_is_writable ba \<longrightarrow> view_at ta' (ba_index ba) = view_at ta (ba_index ba))
     \<and> (\<not> is_owned_by_current_program ta ba \<longrightarrow>
          get_owner ta' ba = get_owner ta ba \<and> get_data ta' ba = get_data ta ba
          \<and> ba_is_executable ta' ba = ba_is_executable ta ba
          \<and> get_lamports ta ba \<le> get_lamports ta' ba)
     \<and> (get_owner ta' ba \<noteq> get_owner ta ba \<longrightarrow> list_all (\<lambda>b. b = 0) (get_data ta' ba))
     \<and> total_lamports ta' - ta_lamports_delta ta' = total_lamports ta - ta_lamports_delta ta"

definition borrowable :: "TransactionAccounts \<Rightarrow> BorrowedInstructionAccount \<Rightarrow> bool" where
  "borrowable ta ba \<longleftrightarrow> accounts_inv ta \<and> ba_index ba < accounts_len ta"

lemma touch_fields:
  assumes "borrowable ta ba"
  shows "\<exists>flags. ba_touch ta ba = (ta\<lparr>touched_flags := flags\<rparr>, Ok ()) \<and> length flags = accounts_len ta"
  using assms by (auto simp: borrowable_def ba_touch_def accounts_touch_def accounts_inv_def)

lemma view_at_fields [simp]:
  "view_at (ta\<lparr>touched_flags := fl\<rparr>) i = view_at ta i"
  "view_at (ta\<lparr>ta_lamports_delta := d\<rparr>) i = view_at ta i"
  "view_at (ta\<lparr>ta_resize_delta := d\<rparr>) i = view_at ta i"
  "view_at (ta\<lparr>borrow_counters := cs\<rparr>) i = view_at ta i"
  "total_lamports (ta\<lparr>touched_flags := fl\<rparr>) = total_lamports ta"
  "total_lamports (ta\<lparr>ta_lamports_delta := d\<rparr>) = total_lamports ta"
  "total_lamports (ta\<lparr>ta_resize_delta := d\<rparr>) = total_lamports ta"
  "total_lamports (ta\<lparr>borrow_counters := cs\<rparr>) = total_lamports ta"
  by (simp_all add: view_at_def total_lamports_def)

lemma keys_put_view:
  assumes "shared_key (abi_account v) = shared_key (abi_account (view_at ta i))"
  shows "account_keys_iter (put_view ta i v) = account_keys_iter ta"
  using assms by (simp add: account_keys_iter_def put_view_def view_at_def map_update list_update_same_conv
      length_map nth_map) (metis list_update_beyond list_update_id map_update not_le nth_map length_map)

text \<open>The change of one view after bookkeeping; every operation has this shape.\<close>

lemma allowed_put_view:
  assumes "borrowable ta ba" and "shared_account_fields t = shared_account_fields ta"
    and "private_account_fields t = private_account_fields ta" and "borrow_counters t = borrow_counters ta"
    and "length (touched_flags t) = accounts_len ta"
    and "shared_key (abi_account v) = shared_key (abi_account (ba_view ta ba))"
    and "vs_len (shared_payload (abi_account v)) = of_nat (length (view_data v))"
    and "ba_is_writable ba \<or> v = ba_view ta ba"
    and "is_owned_by_current_program ta ba
      \<or> view_owner v = get_owner ta ba \<and> view_data v = get_data ta ba
         \<and> view_executable v = ba_is_executable ta ba \<and> get_lamports ta ba \<le> view_lamports v"
    and "view_owner v \<noteq> get_owner ta ba \<longrightarrow> list_all (\<lambda>b. b = 0) (view_data v)"
    and "int (unat (view_lamports v)) - ta_lamports_delta t = int (unat (get_lamports ta ba)) - ta_lamports_delta ta"
  shows "allowed ba ta (put_view t (ba_index ba) v)"
proof -
  have v: "view_at t j = view_at ta j" for j by (simp add: view_at_def assms)
  have i: "ba_index ba < length (shared_account_fields t)" "ba_index ba < length (private_account_fields t)"
    using assms(1-3) by (auto simp: borrowable_def accounts_inv_def accounts_len_def)
  note at = view_at_put_view [OF i, of v]
  have "accounts_inv (put_view t (ba_index ba) v)"
    using assms(1-5,7) by (simp add: accounts_inv_def borrowable_def accounts_len_def at v)
  moreover have "account_keys_iter (put_view t (ba_index ba) v) = account_keys_iter ta"
    using keys_put_view [of v t "ba_index ba"] assms(2,6) by (simp add: v account_keys_iter_def)
  moreover have "total_lamports t = total_lamports ta" by (simp add: total_lamports_def assms(2))
  ultimately show ?thesis
    using assms(4,8-11) total_put_view [OF i(1), of v]
    by (auto simp: allowed_def at v get_owner_def get_data_def ba_is_executable_def get_lamports_def)
qed

lemma allowed_refl: "accounts_inv ta \<Longrightarrow> allowed ba ta ta"
  by (simp add: allowed_def)

lemma borrowable_inv: "borrowable ta ba \<Longrightarrow> accounts_inv ta"
  by (simp add: borrowable_def)

lemma borrowable_sync:
  "borrowable ta ba \<Longrightarrow>
     vs_len (shared_payload (abi_account (ba_view ta ba))) = of_nat (length (view_data (ba_view ta ba)))"
  by (simp add: borrowable_def accounts_inv_def)

lemma clamp_balance: "clamp 128 (uint (a :: u64) - uint (b :: u64)) = uint a - uint b"
  using unat_u64_less [of a] unat_u64_less [of b] unfolding uint_nat clamp_def
  by (simp add: min_def max_def del: of_nat_unat)

lemma set_lamports_allowed:
  assumes b: "borrowable ta ba"
  shows "allowed ba ta (fst (set_lamports ta ba n))"
proof (cases "(is_owned_by_current_program ta ba \<or> get_lamports ta ba \<le> n) \<and> ba_is_writable ba
    \<and> get_lamports ta ba \<noteq> n")
  case False
  then have "fst (set_lamports ta ba n) = ta" by (auto simp: set_lamports_def not_less)
  then show ?thesis using allowed_refl [OF borrowable_inv [OF b]] by simp
next
  case True
  let ?d = "int (unat n) - int (unat (get_lamports ta ba))"
  show ?thesis
  proof (cases "checked_signed 128 (ta_lamports_delta ta + ?d)")
    case None
    then have "fst (set_lamports ta ba n) = ta"
      using True by (auto simp: set_lamports_def not_less clamp_balance add_lamports_delta_def)
    then show ?thesis using allowed_refl [OF borrowable_inv [OF b]] by simp
  next
    case (Some d)
    let ?t = "ta\<lparr>ta_lamports_delta := d\<rparr>"
    have "borrowable ?t ba" using b by (simp add: borrowable_def accounts_inv_def accounts_len_def)
    then obtain fl where fl: "ba_touch ?t ba = (?t\<lparr>touched_flags := fl\<rparr>, Ok ())" "length fl = accounts_len ta"
      using touch_fields [of ?t ba] by (auto simp: accounts_len_def)
    then have "fst (set_lamports ta ba n) =
        put_view (?t\<lparr>touched_flags := fl\<rparr>) (ba_index ba) (view_set_lamports (ba_view ta ba) n)"
      using True Some by (auto simp: set_lamports_def not_less clamp_balance add_lamports_delta_def Let_def)
    moreover have "d = ta_lamports_delta ta + ?d" using Some by (simp add: checked_signed_def split: if_splits)
    ultimately show ?thesis
      using True fl(2) borrowable_sync [OF b]
      by (auto intro!: allowed_put_view [OF b] simp: get_owner_def get_data_def ba_is_executable_def)
  qed
qed

lemma changed_data_allowed:
  assumes b: "borrowable ta ba" and "can_data_be_changed ta ba = Ok ()"
    and "shared_account_fields t = shared_account_fields ta"
    and "private_account_fields t = private_account_fields ta" and "borrow_counters t = borrow_counters ta"
    and "length (touched_flags t) = accounts_len ta" "ta_lamports_delta t = ta_lamports_delta ta"
    and "v = put_data (ba_view ta ba) bytes \<and> length bytes = length (get_data ta ba)
         \<or> v = sync_len (put_data (ba_view ta ba) bytes) (of_nat (length bytes))"
  shows "allowed ba ta (put_view t (ba_index ba) v)"
proof -
  have "ba_is_writable ba" "is_owned_by_current_program ta ba"
    using assms(2) by (auto simp: can_data_be_changed_def split: if_splits)
  then show ?thesis
    using assms(3-8) borrowable_sync [OF b]
    by (intro allowed_put_view [OF b]) (auto simp: get_data_def get_owner_def get_lamports_def)
qed

lemma can_be_resized_changed: "can_data_be_resized ta ba n = Ok () \<Longrightarrow> can_data_be_changed ta ba = Ok ()"
  by (auto simp: can_data_be_resized_def Let_def and_then_Ok_iff split: if_splits)

lemma make_data_mut_fields:
  "make_data_mut ta ba = ta \<or> make_data_mut ta ba = put_view ta (ba_index ba) (put_data (ba_view ta ba) (get_data ta ba))"
  by (simp add: make_data_mut_def view_reserve_def get_data_def)

lemma put_view_twice:
  assumes "ba_index ba < length (shared_account_fields ta)" "ba_index ba < length (private_account_fields ta)"
  shows "put_view (make_data_mut ta ba) (ba_index ba) (put_data (ba_view (make_data_mut ta ba) ba) bytes) =
      put_view ta (ba_index ba) (put_data (ba_view ta ba) bytes)"
    and "put_view (make_data_mut ta ba) (ba_index ba) (sync_len (put_data (ba_view (make_data_mut ta ba) ba) bytes) n) =
      put_view ta (ba_index ba) (sync_len (put_data (ba_view ta ba) bytes) n)"
    and "get_data (make_data_mut ta ba) ba = get_data ta ba"
  using make_data_mut_fields [of ta ba] assms
  by (auto simp: put_view_def put_data_def view_at_def sync_len_def get_data_def view_data_def)

lemma with_data_mut_allowed:
  assumes b: "borrowable ta ba" and f: "\<And>bs. length (f bs) = length bs"
  shows "allowed ba ta (fst (with_data_mut ta ba f))"
proof (cases "can_data_be_changed ta ba")
  case (Ok u)
  obtain fl where fl: "ba_touch ta ba = (ta\<lparr>touched_flags := fl\<rparr>, Ok ())" "length fl = accounts_len ta"
    using touch_fields [OF b] by blast
  let ?t = "ta\<lparr>touched_flags := fl\<rparr>"
  have i: "ba_index ba < length (shared_account_fields ?t)" "ba_index ba < length (private_account_fields ?t)"
    using b by (auto simp: borrowable_def accounts_inv_def accounts_len_def)
  have "fst (with_data_mut ta ba f) = put_view ?t (ba_index ba) (put_data (ba_view ta ba) (f (get_data ta ba)))"
    using Ok fl(1) put_view_twice [OF i]
    by (simp add: with_data_mut_def write_data_as_mut_slice_def get_data_def)
  then show ?thesis using Ok fl(2) by (auto intro!: changed_data_allowed [OF b] simp: f)
qed (use allowed_refl [OF borrowable_inv [OF b]] in \<open>simp add: with_data_mut_def\<close>)

text \<open>The operations that replace the data: a test, a touch, and the new bytes with their length.\<close>

lemma resized_allowed:
  assumes b: "borrowable ta ba" and "can_data_be_resized ta ba n = Ok ()" "n = length bytes"
    and "t = ba_update_accounts_resize_delta (ta\<lparr>touched_flags := fl\<rparr>) ba n" "length fl = accounts_len ta"
  shows "allowed ba ta (put_view t (ba_index ba) (sync_len (put_data (ba_view ta ba) bytes) (of_nat n)))"
  using assms(3-)
  by (intro changed_data_allowed [OF b can_be_resized_changed [OF assms(2)], where bytes = bytes])
    (simp_all add: ba_update_accounts_resize_delta_def update_accounts_resize_delta_def)

lemma resize_delta_view [simp]:
  "view_at (ba_update_accounts_resize_delta ta ba n) i = view_at ta i"
  "length (shared_account_fields (ba_update_accounts_resize_delta ta ba n)) = accounts_len ta"
  "private_account_fields (ba_update_accounts_resize_delta ta ba n) = private_account_fields ta"
  by (simp_all add: ba_update_accounts_resize_delta_def update_accounts_resize_delta_def accounts_len_def)

lemma set_data_from_slice_allowed:
  assumes b: "borrowable ta ba"
  shows "allowed ba ta (fst (set_data_from_slice ta ba bytes))"
proof (cases "can_data_be_resized ta ba (length bytes)")
  case (Ok u)
  obtain fl where fl: "ba_touch ta ba = (ta\<lparr>touched_flags := fl\<rparr>, Ok ())" "length fl = accounts_len ta"
    using touch_fields [OF b] by blast
  with Ok show ?thesis
    by (simp add: set_data_from_slice_def view_set_data_from_slice_def Let_def resized_allowed [OF b])
qed (use allowed_refl [OF borrowable_inv [OF b]] in \<open>simp add: set_data_from_slice_def\<close>)

lemma set_data_length_allowed:
  assumes b: "borrowable ta ba"
  shows "allowed ba ta (fst (set_data_length ta ba n))"
proof (cases "can_data_be_resized ta ba n")
  case (Ok u)
  obtain fl where fl: "ba_touch ta ba = (ta\<lparr>touched_flags := fl\<rparr>, Ok ())" "length fl = accounts_len ta"
    using touch_fields [OF b] by blast
  with Ok show ?thesis
    by (simp add: set_data_length_def view_resize_def Let_def resized_allowed [OF b]
        allowed_refl [OF borrowable_inv [OF b]])
qed (use allowed_refl [OF borrowable_inv [OF b]] in \<open>simp add: set_data_length_def\<close>)

lemma view_extend_eq:
  "view_extend_from_slice v bs = sync_len (put_data v (view_data v @ bs)) (of_nat (length (view_data v) + length bs))"
  by (simp add: view_extend_from_slice_def payload_len_def put_data_def)

lemma extend_from_slice_allowed:
  assumes b: "borrowable ta ba"
  shows "allowed ba ta (fst (ba_extend_from_slice ta ba bytes))"
proof (cases "can_data_be_resized ta ba (length (get_data ta ba) + length bytes)")
  case (Ok u)
  obtain fl where fl: "ba_touch ta ba = (ta\<lparr>touched_flags := fl\<rparr>, Ok ())" "length fl = accounts_len ta"
    using touch_fields [OF b] by blast
  let ?n = "length (get_data ta ba) + length bytes"
  let ?t = "ba_update_accounts_resize_delta (ta\<lparr>touched_flags := fl\<rparr>) ba ?n"
  have i: "ba_index ba < length (shared_account_fields ?t)" "ba_index ba < length (private_account_fields ?t)"
    using b by (auto simp: borrowable_def accounts_inv_def accounts_len_def)
  have d: "view_data (ba_view (make_data_mut ?t ba) ba) = get_data ta ba"
    using put_view_twice(3) [OF i] by (simp add: get_data_def)
  have "put_view (make_data_mut ?t ba) (ba_index ba) (view_extend_from_slice (ba_view (make_data_mut ?t ba) ba) bytes) =
      put_view ?t (ba_index ba) (sync_len (put_data (ba_view ta ba) (get_data ta ba @ bytes)) (of_nat ?n))"
    unfolding view_extend_eq d put_view_twice(2) [OF i] by simp
  then have "fst (ba_extend_from_slice ta ba bytes) =
      (if bytes = [] then ta else put_view ?t (ba_index ba)
         (sync_len (put_data (ba_view ta ba) (get_data ta ba @ bytes)) (of_nat ?n)))"
    unfolding ba_extend_from_slice_def Let_def Ok fl(1) try_then.simps by simp
  then show ?thesis
    using resized_allowed [OF b Ok [simplified], of "get_data ta ba @ bytes", OF _ refl fl(2)]
      allowed_refl [OF borrowable_inv [OF b]] by simp
qed (use allowed_refl [OF borrowable_inv [OF b]] in \<open>simp add: ba_extend_from_slice_def\<close>)

lemma set_executable_allowed:
  assumes b: "borrowable ta ba"
  shows "allowed ba ta (fst (set_executable is_exempt ta ba e))"
proof -
  obtain fl where fl: "ba_touch ta ba = (ta\<lparr>touched_flags := fl\<rparr>, Ok ())" "length fl = accounts_len ta"
    using touch_fields [OF b] by blast
  show ?thesis
    using fl(1) allowed_refl [OF borrowable_inv [OF b]] fl(2) borrowable_sync [OF b]
    by (auto simp: set_executable_def get_owner_def get_lamports_def intro!: allowed_put_view [OF b])
qed

lemma set_owner_allowed:
  assumes b: "borrowable ta ba" and s: "set_owner ta ba k = Some (ta', r)"
  shows "allowed ba ta ta'"
proof -
  obtain fl where fl: "ba_touch ta ba = (ta\<lparr>touched_flags := fl\<rparr>, Ok ())" "length fl = accounts_len ta"
    using touch_fields [OF b] by blast
  show ?thesis
    using s fl(1) allowed_refl [OF borrowable_inv [OF b]] fl(2) borrowable_sync [OF b]
    by (auto simp: set_owner_def view_copy_into_owner_from_slice_def is_zeroed_iff get_data_def
        get_lamports_def view_lamports_def view_data_def split: if_splits
        intro!: allowed_put_view [OF b])
qed

lemma allowed_trans:
  assumes "allowed ba ta ta'" "allowed ba ta' ta''"
  shows "allowed ba ta ta''"
proof -
  have o: "is_owned_by_current_program t ba \<longleftrightarrow>
      nth_get (account_keys_iter t) (unat (index_in_transaction_of_instruction_program ba)) = Some (get_owner t ba)" for t
    by (simp add: is_owned_by_current_program_def account_key_def account_keys_iter_def nth_get_def)
  note a = assms [unfolded allowed_def]
  have own: "is_owned_by_current_program ta' ba \<longleftrightarrow>
      is_owned_by_current_program ta ba \<and> get_owner ta' ba = get_owner ta ba"
    using a(1) unfolding o by (metis option.inject)
  have "get_owner ta'' ba = get_owner ta ba \<and> get_data ta'' ba = get_data ta ba
      \<and> ba_is_executable ta'' ba = ba_is_executable ta ba \<and> get_lamports ta ba \<le> get_lamports ta'' ba"
    if "\<not> is_owned_by_current_program ta ba"
    using a own that by (metis order_trans)
  moreover have "list_all (\<lambda>b. b = 0) (get_data ta'' ba)" if "get_owner ta'' ba \<noteq> get_owner ta ba"
    using a own that by metis
  ultimately show ?thesis unfolding allowed_def using a by simp
qed

text \<open>Everything a program can do to an account it borrowed.\<close>

inductive account_step ::
  "(u64 \<Rightarrow> nat \<Rightarrow> bool) \<Rightarrow> BorrowedInstructionAccount \<Rightarrow> TransactionAccounts \<Rightarrow> TransactionAccounts \<Rightarrow> bool"
  for is_exempt ba
where
  set_lamports: "account_step is_exempt ba ta (fst (set_lamports ta ba n))"
| add_lamports: "account_step is_exempt ba ta (fst (checked_add_lamports ta ba n))"
| sub_lamports: "account_step is_exempt ba ta (fst (checked_sub_lamports ta ba n))"
| set_owner: "set_owner ta ba k = Some (ta', r) \<Longrightarrow> account_step is_exempt ba ta ta'"
| write_data: "(\<And>bs. length (f bs) = length bs) \<Longrightarrow> account_step is_exempt ba ta (fst (with_data_mut ta ba f))"
| replace: "account_step is_exempt ba ta (fst (set_data_from_slice ta ba bytes))"
| resize: "account_step is_exempt ba ta (fst (set_data_length ta ba n))"
| extend: "account_step is_exempt ba ta (fst (ba_extend_from_slice ta ba bytes))"
| set_executable: "account_step is_exempt ba ta (fst (set_executable is_exempt ta ba e))"

lemma account_step_allowed:
  assumes "account_step is_exempt ba ta ta'" "borrowable ta ba"
  shows "allowed ba ta ta' \<and> borrowable ta' ba"
proof
  show "allowed ba ta ta'"
    using assms
    by (cases rule: account_step.cases)
      (auto simp: checked_add_lamports_def checked_sub_lamports_def set_lamports_allowed set_owner_allowed
        with_data_mut_allowed set_data_from_slice_allowed set_data_length_allowed
        extend_from_slice_allowed set_executable_allowed allowed_refl borrowable_inv split: option.splits)
  then show "borrowable ta' ba"
    using assms(2)
    by (auto simp: allowed_def borrowable_def account_keys_iter_def accounts_len_def dest: map_eq_imp_length_eq)
qed

lemma account_steps_allowed:
  assumes "(account_step is_exempt ba)\<^sup>*\<^sup>* ta ta'" "borrowable ta ba"
  shows "allowed ba ta ta' \<and> borrowable ta' ba"
  using assms(1)
proof (induction rule: rtranclp_induct)
  case base
  then show ?case using assms(2) by (simp add: allowed_refl borrowable_inv)
next
  case (step t t')
  then show ?case using account_step_allowed allowed_trans by blast
qed

text \<open>Fresh accounts are in order.\<close>

lemma new_accounts_fields:
  "length (shared_account_fields (new_TransactionAccounts as)) = length as"
  "account_keys_iter (new_TransactionAccounts as) = map fst as"
  "i < length as \<Longrightarrow> view_at (new_TransactionAccounts as) i =
     \<lparr>abi_account = fst (new_fields i (as ! i)), private_fields = snd (new_fields i (as ! i))\<rparr>"
  by (auto simp: new_TransactionAccounts_def account_keys_iter_def view_at_def nth_enumerate_eq
      new_fields_def intro!: nth_equalityI split: prod.splits)

lemma accounts_inv_new: "accounts_inv (new_TransactionAccounts as)"
  using new_accounts_fields(1,2) [of as] new_accounts_fields(3) [of _ as]
  by (auto simp: accounts_inv_def accounts_len_def new_fields_def new_VmSlice_def view_data_def)
    (simp_all add: new_TransactionAccounts_def)

text \<open>
  C28: whatever a program does to an account it borrowed, by any sequence of operations and whether
  they succeed or fail: no other account changes, a read-only account does not change at all, an
  account the program does not own keeps its owner, data and executable flag and does not lose
  lamports, an account changes owner only with its data zeroed, and the lamports created or
  destroyed are exactly what the delta of the transaction records.
\<close>

theorem borrowed_account_safety:
  assumes "(account_step is_exempt ba)\<^sup>*\<^sup>* ta ta'" "accounts_inv ta"
    and "unat (get_index_in_transaction ba) < accounts_len ta"
  shows "accounts_inv ta'
     \<and> (\<forall>j. j \<noteq> unat (get_index_in_transaction ba) \<longrightarrow> view_at ta' j = view_at ta j)
     \<and> (\<not> ba_is_writable ba \<longrightarrow>
          view_at ta' (unat (get_index_in_transaction ba)) = view_at ta (unat (get_index_in_transaction ba)))
     \<and> (\<not> is_owned_by_current_program ta ba \<longrightarrow>
          get_owner ta' ba = get_owner ta ba \<and> get_data ta' ba = get_data ta ba
          \<and> ba_is_executable ta' ba = ba_is_executable ta ba
          \<and> get_lamports ta ba \<le> get_lamports ta' ba)
     \<and> (get_owner ta' ba \<noteq> get_owner ta ba \<longrightarrow> list_all (\<lambda>b. b = 0) (get_data ta' ba))
     \<and> total_lamports ta' - ta_lamports_delta ta' = total_lamports ta - ta_lamports_delta ta"
  using account_steps_allowed [OF assms(1)] assms(2,3) by (simp add: borrowable_def allowed_def)

definition sample_account :: "u64 \<Rightarrow> Pubkey \<Rightarrow> AccountSharedData" where
  "sample_account n owner =
     \<lparr>asd_lamports = n, asd_data = [1, 2], asd_owner = owner, asd_executable = False,
      asd_rent_epoch = 0, asd_shared = False\<rparr>"

definition sample_accounts :: TransactionAccounts where
  "sample_accounts =
     new_TransactionAccounts
       [(replicate 32 1, sample_account 1 (replicate 32 7)), (replicate 32 2, sample_account 5 (replicate 32 1))]"

definition sample_borrow :: BorrowedInstructionAccount where
  "sample_borrow =
     \<lparr>ba_instruction_account = new_InstructionAccount 1 False True,
      index_in_transaction_of_instruction_program = 0\<rparr>"

lemmas sample_eval =
  set_lamports_def is_owned_by_current_program_def account_key_def nth_get_def sample_accounts_def
  new_TransactionAccounts_def new_fields_def sample_account_def sample_borrow_def get_lamports_def
  get_owner_def view_at_def view_owner_def view_lamports_def get_index_in_transaction_def
  ba_is_writable_def add_lamports_delta_def checked_signed_def ba_touch_def accounts_touch_def
  put_view_def view_set_lamports_def clamp_def

theorem borrowed_account_safety_witness:
  "let ta = fst (set_lamports sample_accounts sample_borrow 9) in
   get_lamports ta sample_borrow = 9 \<and> ta_lamports_delta ta = 4 \<and> total_lamports ta = 10
   \<and> view_at ta 0 = view_at sample_accounts 0"
proof -
  let ?ta = "fst (set_lamports sample_accounts sample_borrow 9)"
  have s: "accounts_len sample_accounts = 2" "get_index_in_transaction sample_borrow = 1"
    by (simp_all add: sample_accounts_def accounts_len_def new_accounts_fields get_index_in_transaction_def
        sample_borrow_def)
  have "(account_step (\<lambda>_ _. True) sample_borrow)\<^sup>*\<^sup>* sample_accounts ?ta"
    by (intro r_into_rtranclp account_step.set_lamports)
  then have r: "view_at ?ta 0 = view_at sample_accounts 0"
    "total_lamports ?ta - ta_lamports_delta ?ta = total_lamports sample_accounts - ta_lamports_delta sample_accounts"
    using borrowed_account_safety [of "\<lambda>_ _. True" sample_borrow sample_accounts ?ta] s
    by (simp_all add: sample_accounts_def accounts_inv_new)
  have "ta_lamports_delta sample_accounts = 0" "total_lamports sample_accounts = 6"
    by (simp_all add: sample_accounts_def new_TransactionAccounts_def total_lamports_def new_fields_def
        sample_account_def)
  moreover have "get_lamports ?ta sample_borrow = 9" "ta_lamports_delta ?ta = 4"
    by (simp_all add: sample_eval)
  ultimately show ?thesis using r by simp
qed

end
