(* ===== verification/Transaction.thy ===== *)
theory Transaction
  imports Borrowed_Account Region
begin

text \<open>
  The context of a transaction (\<open>agave/transaction-context/src/transaction.rs\<close>) and the view on one
  of its instructions (\<open>instruction.rs\<close>): the trace of instructions, the stack of the running ones,
  the check that lamports balance, return data, and the handler that grows an account on a write
  past its end.

  An \<open>InstructionContext\<close> carries its fields and not the reference to the transaction, which its
  methods take as an argument.  What comes from the crates \<open>solana_sdk_ids\<close> and
  \<open>solana_instructions_sysvar\<close> is the record \<open>Sdk\<close>.
\<close>

section \<open>Instruction frames and contexts\<close>

record Sdk =
  instructions_id :: Pubkey
  sysvar_id :: Pubkey
  native_loader_id :: Pubkey
  bpf_loader_deprecated_id :: Pubkey
  bpf_loader_id :: Pubkey
  bpf_loader_upgradeable_id :: Pubkey
  loader_v4_id :: Pubkey
  store_current_index_checked :: "u8 list \<Rightarrow> u16 \<Rightarrow> (u8 list, InstructionError) result"

record InstructionFrame =
  reserved :: u16
  program_account_index_in_tx :: u16
  nesting_level :: u16
  index_of_caller_instruction :: u16
  frame_accounts :: VmSlice
  frame_data :: VmSlice

definition default_InstructionFrame :: InstructionFrame where
  "default_InstructionFrame =
     \<lparr>reserved = 0, program_account_index_in_tx = 0, nesting_level = 0,
      index_of_caller_instruction = - 1, frame_accounts = new_VmSlice 0 0,
      frame_data = new_VmSlice 0 0\<rparr>"

definition configure_vm_slices ::
  "InstructionFrame \<Rightarrow> u64 \<Rightarrow> nat \<Rightarrow> u64 \<Rightarrow> InstructionFrame"
where
  "configure_vm_slices f instruction_index instruction_accounts_len instruction_data_len =
     (let common_offset = saturating_mul GUEST_REGION_SIZE instruction_index in
      f\<lparr>frame_data :=
           new_VmSlice (saturating_add GUEST_INSTRUCTION_DATA_BASE_ADDRESS common_offset)
             instruction_data_len,
         frame_accounts :=
           new_VmSlice (saturating_add GUEST_INSTRUCTION_ACCOUNT_BASE_ADDRESS common_offset)
             (of_nat instruction_accounts_len)\<rparr>)"

record InstructionContext =
  index_in_trace :: nat
  ic_nesting_level :: nat
  ic_program_account_index :: IndexOfAccount
  instruction_accounts :: "InstructionAccount list"
  dedup_map :: "u16 list"
  instruction_data :: "u8 list"

definition get_index_in_trace :: "InstructionContext \<Rightarrow> nat" where
  "get_index_in_trace ic = index_in_trace ic"

definition ic_get_stack_height :: "InstructionContext \<Rightarrow> nat" where
  "ic_get_stack_height ic = ic_nesting_level ic + 1"

definition get_number_of_instruction_accounts :: "InstructionContext \<Rightarrow> IndexOfAccount" where
  "get_number_of_instruction_accounts ic = of_nat (length (instruction_accounts ic))"

definition check_number_of_instruction_accounts ::
  "InstructionContext \<Rightarrow> IndexOfAccount \<Rightarrow> (unit, InstructionError) result"
where
  "check_number_of_instruction_accounts ic expected_at_least =
     (if get_number_of_instruction_accounts ic < expected_at_least then Err MissingAccount else Ok ())"

definition get_instruction_data :: "InstructionContext \<Rightarrow> u8 list" where
  "get_instruction_data ic = instruction_data ic"

definition get_index_of_program_account_in_transaction ::
  "InstructionContext \<Rightarrow> (IndexOfAccount, InstructionError) result"
where
  "get_index_of_program_account_in_transaction ic =
     (if ic_program_account_index ic = - 1 then Err MissingAccount
      else Ok (ic_program_account_index ic))"

definition get_index_of_instruction_account_in_transaction ::
  "InstructionContext \<Rightarrow> IndexOfAccount \<Rightarrow> (IndexOfAccount, InstructionError) result"
where
  "get_index_of_instruction_account_in_transaction ic i =
     and_then (ok_or (nth_get (instruction_accounts ic) (unat i)) MissingAccount)
       (\<lambda>a. Ok (index_in_transaction a))"

definition get_index_of_account_in_instruction ::
  "InstructionContext \<Rightarrow> IndexOfAccount \<Rightarrow> (IndexOfAccount, InstructionError) result"
where
  "get_index_of_account_in_instruction ic index =
     ok_or
       (case nth_get (dedup_map ic) (unat index) of
          None \<Rightarrow> None
        | Some idx \<Rightarrow> if unat idx \<ge> length (instruction_accounts ic) then None else Some idx)
       MissingAccount"

definition is_instruction_account_duplicate ::
  "InstructionContext \<Rightarrow> IndexOfAccount \<Rightarrow> (IndexOfAccount option, InstructionError) result"
where
  "is_instruction_account_duplicate ic i =
     and_then (get_index_of_instruction_account_in_transaction ic i) (\<lambda>index.
       and_then (get_index_of_account_in_instruction ic index) (\<lambda>first.
         Ok (if first = i then None else Some first)))"

section \<open>Transaction context\<close>

record TransactionFrame =
  return_data_pubkey :: Pubkey
  return_data_scratchpad :: VmSlice
  cpi_scratchpad :: VmSlice
  current_executing_instruction :: u16
  number_of_instructions :: u16
  number_of_executed_cpis :: u16
  number_of_transaction_accounts :: u16

record TransactionContext =
  accounts :: TransactionAccounts
  instruction_stack_capacity :: nat
  instruction_trace_capacity :: nat
  instruction_stack :: "nat list"
  instruction_trace :: "InstructionFrame list"
  transaction_frame :: TransactionFrame
  return_data_bytes :: "u8 list"
  top_level_instruction_index :: nat
  deduplication_maps :: "u16 list list"
  tc_instruction_accounts :: "InstructionAccount list list"
  tc_instruction_data :: "u8 list list"

definition default_Pubkey :: Pubkey where
  "default_Pubkey = replicate 32 0"

definition scratchpad_at :: "u64 \<Rightarrow> VmSlice" where
  "scratchpad_at n =
     new_VmSlice
       (saturating_add GUEST_INSTRUCTION_DATA_BASE_ADDRESS (saturating_mul GUEST_REGION_SIZE n)) 0"

definition new_TransactionContext ::
  "KeyedAccountSharedData list \<Rightarrow> nat \<Rightarrow> nat \<Rightarrow> nat \<Rightarrow> TransactionContext"
where
  "new_TransactionContext transaction_accounts stack_capacity trace_capacity top_level =
     \<lparr>accounts = new_TransactionAccounts transaction_accounts,
      instruction_stack_capacity = stack_capacity,
      instruction_trace_capacity = trace_capacity,
      instruction_stack = [],
      instruction_trace = [default_InstructionFrame],
      transaction_frame =
        \<lparr>return_data_pubkey = default_Pubkey,
         return_data_scratchpad = new_VmSlice RETURN_DATA_SCRATCHPAD 0,
         cpi_scratchpad = scratchpad_at (of_nat top_level),
         current_executing_instruction = 0,
         number_of_instructions = of_nat top_level,
         number_of_executed_cpis = 0,
         number_of_transaction_accounts = of_nat (length transaction_accounts)\<rparr>,
      return_data_bytes = [],
      top_level_instruction_index = 0,
      deduplication_maps = [],
      tc_instruction_accounts = [],
      tc_instruction_data = []\<rparr>"

definition deconstruct_without_keys ::
  "TransactionContext \<Rightarrow> (AccountSharedData list, InstructionError) result"
where
  "deconstruct_without_keys tc =
     (if instruction_stack tc \<noteq> [] then Err CallDepth
      else Ok (deconstruct_into_account_shared_data (accounts tc)))"

definition get_number_of_accounts :: "TransactionContext \<Rightarrow> IndexOfAccount" where
  "get_number_of_accounts tc = of_nat (accounts_len (accounts tc))"

definition get_key_of_account_at_index ::
  "TransactionContext \<Rightarrow> IndexOfAccount \<Rightarrow> (Pubkey, InstructionError) result"
where
  "get_key_of_account_at_index tc index = ok_or (account_key (accounts tc) index) MissingAccount"

text \<open>\<open>Iterator::position\<close>.\<close>

fun find_position :: "('a \<Rightarrow> bool) \<Rightarrow> 'a list \<Rightarrow> nat option" where
  "find_position P [] = None"
| "find_position P (x # xs) = (if P x then Some 0 else map_option Suc (find_position P xs))"

definition find_index_of_account :: "TransactionContext \<Rightarrow> Pubkey \<Rightarrow> IndexOfAccount option" where
  "find_index_of_account tc pubkey =
     map_option of_nat (find_position (\<lambda>k. k = pubkey) (account_keys_iter (accounts tc)))"

definition get_instruction_trace_length :: "TransactionContext \<Rightarrow> nat" where
  "get_instruction_trace_length tc = length (instruction_trace tc) - 1"

definition get_or_empty :: "'a list list \<Rightarrow> nat \<Rightarrow> 'a list" where
  "get_or_empty xss i = (case nth_get xss i of None \<Rightarrow> [] | Some xs \<Rightarrow> xs)"

definition get_instruction_context_at_index_in_trace ::
  "TransactionContext \<Rightarrow> nat \<Rightarrow> (InstructionContext, InstructionError) result"
where
  "get_instruction_context_at_index_in_trace tc i =
     and_then (ok_or (nth_get (instruction_trace tc) i) CallDepth) (\<lambda>instruction.
       Ok \<lparr>index_in_trace = i,
           ic_nesting_level = unat (nesting_level instruction),
           ic_program_account_index = program_account_index_in_tx instruction,
           instruction_accounts = get_or_empty (tc_instruction_accounts tc) i,
           dedup_map = get_or_empty (deduplication_maps tc) i,
           instruction_data = get_or_empty (tc_instruction_data tc) i\<rparr>)"

definition get_instruction_context_at_nesting_level ::
  "TransactionContext \<Rightarrow> nat \<Rightarrow> (InstructionContext, InstructionError) result"
where
  "get_instruction_context_at_nesting_level tc level =
     and_then (ok_or (nth_get (instruction_stack tc) level) CallDepth)
       (get_instruction_context_at_index_in_trace tc)"

definition get_instruction_stack_height :: "TransactionContext \<Rightarrow> nat" where
  "get_instruction_stack_height tc = length (instruction_stack tc)"

definition get_current_instruction_index :: "TransactionContext \<Rightarrow> (nat, InstructionError) result" where
  "get_current_instruction_index tc =
     (if instruction_stack tc = [] then Err CallDepth else Ok (last (instruction_stack tc)))"

definition get_current_instruction_context ::
  "TransactionContext \<Rightarrow> (InstructionContext, InstructionError) result"
where
  "get_current_instruction_context tc =
     and_then (get_current_instruction_index tc) (get_instruction_context_at_index_in_trace tc)"

definition get_next_instruction_context ::
  "TransactionContext \<Rightarrow> (InstructionContext, InstructionError) result"
where
  "get_next_instruction_context tc =
     (if instruction_trace tc = [] then Err CallDepth
      else get_instruction_context_at_index_in_trace tc (length (instruction_trace tc) - 1))"

definition get_program_key ::
  "TransactionContext \<Rightarrow> InstructionContext \<Rightarrow> (Pubkey, InstructionError) result"
where
  "get_program_key tc ic =
     and_then (get_index_of_program_account_in_transaction ic) (get_key_of_account_at_index tc)"

text \<open>The borrow ends when the owner has been read.\<close>

definition get_program_owner ::
  "TransactionContext \<Rightarrow> InstructionContext \<Rightarrow> (Pubkey, InstructionError) result"
where
  "get_program_owner tc ic =
     and_then (get_index_of_program_account_in_transaction ic) (\<lambda>index.
       and_then (try_borrow (accounts tc) index) (\<lambda>ta. Ok (view_owner (view_at ta (unat index)))))"

definition try_borrow_instruction_account ::
  "TransactionContext \<Rightarrow> InstructionContext \<Rightarrow> IndexOfAccount
     \<Rightarrow> (TransactionContext \<times> BorrowedInstructionAccount, InstructionError) result"
where
  "try_borrow_instruction_account tc ic i =
     and_then (ok_or (nth_get (instruction_accounts ic) (unat i)) MissingAccount) (\<lambda>account.
       and_then (try_borrow_mut (accounts tc) (index_in_transaction account)) (\<lambda>ta.
         Ok (tc\<lparr>accounts := ta\<rparr>,
             \<lparr>ba_instruction_account = account,
              index_in_transaction_of_instruction_program = ic_program_account_index ic\<rparr>)))"

definition is_instruction_account_signer ::
  "InstructionContext \<Rightarrow> IndexOfAccount \<Rightarrow> (bool, InstructionError) result"
where
  "is_instruction_account_signer ic i =
     and_then (ok_or (nth_get (instruction_accounts ic) (unat i)) MissingAccount) (\<lambda>a. Ok (is_signer a))"

definition is_instruction_account_writable ::
  "InstructionContext \<Rightarrow> IndexOfAccount \<Rightarrow> (bool, InstructionError) result"
where
  "is_instruction_account_writable ic i =
     and_then (ok_or (nth_get (instruction_accounts ic) (unat i)) MissingAccount) (\<lambda>a. Ok (is_writable a))"

fun signers_of ::
  "TransactionContext \<Rightarrow> InstructionAccount list \<Rightarrow> (Pubkey set, InstructionError) result"
where
  "signers_of tc [] = Ok {}"
| "signers_of tc (a # as) =
     (if is_signer a
      then and_then (get_key_of_account_at_index tc (index_in_transaction a)) (\<lambda>k.
             and_then (signers_of tc as) (\<lambda>ks. Ok (insert k ks)))
      else signers_of tc as)"

definition get_signers ::
  "TransactionContext \<Rightarrow> InstructionContext \<Rightarrow> (Pubkey set, InstructionError) result"
where
  "get_signers tc ic = signers_of tc (instruction_accounts ic)"

definition get_key_of_instruction_account ::
  "TransactionContext \<Rightarrow> InstructionContext \<Rightarrow> IndexOfAccount \<Rightarrow> (Pubkey, InstructionError) result"
where
  "get_key_of_instruction_account tc ic i =
     and_then (get_index_of_instruction_account_in_transaction ic i) (get_key_of_account_at_index tc)"

section \<open>The trace and the stack\<close>

definition configure_next_instruction ::
  "TransactionContext \<Rightarrow> IndexOfAccount \<Rightarrow> InstructionAccount list \<Rightarrow> u16 list \<Rightarrow> u8 list
     \<Rightarrow> u16 option \<Rightarrow> TransactionContext \<times> (unit, InstructionError) result"
where
  "configure_next_instruction tc program_index accts dedup bytes caller_index =
     (let instruction_index = length (instruction_trace tc) - 1 in
      if instruction_trace tc = [] then (tc, Err CallDepth)
      else
        let instruction = last (instruction_trace tc);
            frame = transaction_frame tc;
            (frame, instruction) =
              (case caller_index of
                 None \<Rightarrow> (frame, instruction)
               | Some caller \<Rightarrow>
                   (frame\<lparr>number_of_instructions := saturating_add (number_of_instructions frame) 1\<rparr>,
                    instruction\<lparr>index_of_caller_instruction := caller\<rparr>));
            frame = frame\<lparr>cpi_scratchpad := scratchpad_at (ucast (number_of_instructions frame))\<rparr>;
            instruction = instruction\<lparr>program_account_index_in_tx := program_index\<rparr>;
            instruction = configure_vm_slices instruction (of_nat instruction_index) (length accts)
                            (of_nat (length bytes))
        in (tc\<lparr>transaction_frame := frame,
               instruction_trace := (instruction_trace tc)[instruction_index := instruction],
               deduplication_maps := deduplication_maps tc @ [dedup],
               tc_instruction_accounts := tc_instruction_accounts tc @ [accts],
               tc_instruction_data := tc_instruction_data tc @ [bytes]\<rparr>, Ok ()))"

text \<open>The part of \<open>push\<close> that stores the top-level index in the instructions sysvar.\<close>

definition store_sysvar_index ::
  "Sdk \<Rightarrow> TransactionContext \<Rightarrow> TransactionContext \<times> (unit, InstructionError) result"
where
  "store_sysvar_index sdk tc =
     (case find_index_of_account tc (instructions_id sdk) of
        None \<Rightarrow> (tc, Ok ())
      | Some index \<Rightarrow>
          (case try_borrow_mut (accounts tc) index of
             Err e \<Rightarrow> (tc, Err e)
           | Ok ta \<Rightarrow>
               if view_owner (view_at ta (unat index)) \<noteq> sysvar_id sdk
               then (tc\<lparr>accounts := drop_AccountRefMut ta index\<rparr>, Err InvalidAccountOwner)
               else
                 let bytes = view_data (view_at ta (unat index));
                     res = store_current_index_checked sdk bytes (of_nat (top_level_instruction_index tc));
                     stored = (case res of Ok bytes \<Rightarrow> bytes | Err _ \<Rightarrow> bytes);
                     ta = put_view ta (unat index)
                            (write_data_as_mut_slice (view_at ta (unat index)) (\<lambda>_. stored))
                 in (tc\<lparr>accounts := drop_AccountRefMut ta index\<rparr>, and_then res (\<lambda>_. Ok ()))))"

definition tc_push ::
  "Sdk \<Rightarrow> TransactionContext \<Rightarrow> TransactionContext \<times> (unit, InstructionError) result"
where
  "tc_push sdk tc =
     (let level = get_instruction_stack_height tc in
      if instruction_stack tc \<noteq> [] \<and> get_lamports_delta (accounts tc) \<noteq> 0
      then (tc, Err UnbalancedInstruction)
      else if instruction_trace tc = [] then (tc, Err CallDepth)
      else
        let i = get_instruction_trace_length tc;
            tc = tc\<lparr>instruction_trace :=
                      (instruction_trace tc)[i := (last (instruction_trace tc))\<lparr>nesting_level := of_nat level\<rparr>]\<rparr>
        in if i \<ge> instruction_trace_capacity tc then (tc, Err MaxInstructionTraceLengthExceeded)
           else
             let tc = tc\<lparr>instruction_trace := instruction_trace tc @ [default_InstructionFrame]\<rparr> in
             if level \<ge> instruction_stack_capacity tc then (tc, Err CallDepth)
             else
               let tc = tc\<lparr>transaction_frame :=
                             (transaction_frame tc)\<lparr>current_executing_instruction := of_nat i\<rparr>,
                           instruction_stack := instruction_stack tc @ [i]\<rparr>
               in store_sysvar_index sdk tc)"

text \<open>The check before the stack is popped; it borrows the program account for a moment.\<close>

definition detect_unbalanced ::
  "TransactionContext \<Rightarrow> TransactionContext \<times> (bool, InstructionError) result"
where
  "detect_unbalanced tc =
     try_then (tc, and_then (get_current_instruction_context tc)
                     get_index_of_program_account_in_transaction) (\<lambda>tc index.
       case try_borrow_mut (accounts tc) index of
         Err e \<Rightarrow> (tc, Err (if e = AccountBorrowFailed then AccountBorrowOutstanding else e))
       | Ok ta \<Rightarrow>
           (tc\<lparr>accounts := drop_AccountRefMut ta index\<rparr>, Ok (get_lamports_delta ta \<noteq> 0)))"

definition tc_pop :: "TransactionContext \<Rightarrow> TransactionContext \<times> (unit, InstructionError) result" where
  "tc_pop tc =
     (if instruction_stack tc = [] then (tc, Err CallDepth)
      else
        let (tc, detected) = detect_unbalanced tc;
            tc = tc\<lparr>instruction_stack := butlast (instruction_stack tc)\<rparr>;
            frame = transaction_frame tc;
            tc = (if instruction_stack tc \<noteq> [] then
                    tc\<lparr>transaction_frame :=
                         frame\<lparr>number_of_executed_cpis := saturating_add (number_of_executed_cpis frame) 1,
                               current_executing_instruction := of_nat (last (instruction_stack tc))\<rparr>\<rparr>
                  else tc\<lparr>top_level_instruction_index := top_level_instruction_index tc + 1\<rparr>)
        in (tc, and_then detected (\<lambda>unbalanced.
                  if unbalanced then Err UnbalancedInstruction else Ok ())))"

definition get_return_data :: "TransactionContext \<Rightarrow> Pubkey \<times> u8 list" where
  "get_return_data tc = (return_data_pubkey (transaction_frame tc), return_data_bytes tc)"

definition set_return_data :: "TransactionContext \<Rightarrow> Pubkey \<Rightarrow> u8 list \<Rightarrow> TransactionContext" where
  "set_return_data tc program_id bytes =
     (let frame = transaction_frame tc in
      tc\<lparr>transaction_frame :=
           frame\<lparr>return_data_pubkey := program_id,
                 return_data_scratchpad := set_len (return_data_scratchpad frame) (of_nat (length bytes))\<rparr>,
         return_data_bytes := bytes\<rparr>)"

definition take_instruction_trace ::
  "TransactionContext \<Rightarrow> TransactionContext
     \<times> InstructionFrame list \<times> InstructionAccount list list \<times> u8 list list"
where
  "take_instruction_trace tc =
     (tc\<lparr>instruction_trace := [], tc_instruction_accounts := [], tc_instruction_data := []\<rparr>,
      butlast (instruction_trace tc), tc_instruction_accounts tc, tc_instruction_data tc)"

record TransactionReturnData =
  rd_program_id :: Pubkey
  rd_data :: "u8 list"

record ExecutionRecord =
  er_accounts :: "KeyedAccountSharedData list"
  er_return_data :: TransactionReturnData
  touched_account_count :: u64
  accounts_resize_delta :: int

definition ExecutionRecord_from :: "TransactionContext \<Rightarrow> ExecutionRecord" where
  "ExecutionRecord_from tc =
     (let (accts, touched, delta) = take_accounts (accounts tc) in
      \<lparr>er_accounts = accts,
       er_return_data =
         \<lparr>rd_program_id = return_data_pubkey (transaction_frame tc), rd_data = return_data_bytes tc\<rparr>,
       touched_account_count = fold (\<lambda>was_touched acc. saturating_add acc (if was_touched then 1 else 0)) touched 0,
       accounts_resize_delta = delta\<rparr>)"

section \<open>Access violations\<close>

text \<open>
  The closure of \<open>access_violation_handler\<close>: it changes the region and, through the shared
  accounts, the account behind it.  \<open>data_ptr\<close> is the host address of an account's data.
\<close>

definition grown_len :: "TransactionAccounts \<Rightarrow> nat \<Rightarrow> u64 \<Rightarrow> nat" where
  "grown_len ta old_len address_space_reserved_for_account =
     (let remaining_allowed_growth =
            nat (max 0 (clamp 64 (MAX_ACCOUNT_DATA_GROWTH_PER_TRANSACTION - resize_delta ta)))
      in min (min (unat address_space_reserved_for_account) MAX_ACCOUNT_DATA_LEN)
           (min (2 ^ 64 - 1) (old_len + remaining_allowed_growth)))"

definition account_access_violation_handler ::
  "(TransactionAccounts \<Rightarrow> nat \<Rightarrow> u64) \<Rightarrow> bool \<Rightarrow> bool \<Rightarrow> TransactionAccounts
     \<Rightarrow> MemoryRegion \<Rightarrow> u64 \<Rightarrow> AccessType \<Rightarrow> u64 \<Rightarrow> u64 \<Rightarrow> MemoryRegion \<times> TransactionAccounts"
where
  "account_access_violation_handler data_ptr stricter_abi direct_mapping ta
     region address_space_reserved_for_account access_type addr n =
     (if access_type = Load then (region, ta)
      else
        case access_violation_handler_payload region of
          None \<Rightarrow> (region, ta)
        | Some index \<Rightarrow>
            let i = unat index;
                requested_length = saturating_sub (saturating_add addr n) (vm_addr region)
            in if requested_length > address_space_reserved_for_account then (region, ta)
               else
                 case try_borrow_mut ta index of
                   Err _ \<Rightarrow> (region, ta)
                 | Ok ta \<Rightarrow>
                     (case accounts_touch ta index of
                        (ta, Err _) \<Rightarrow> (region, drop_AccountRefMut ta index)
                      | (ta, Ok _) \<Rightarrow>
                          let old_len = length (view_data (view_at ta i));
                              new_len = grown_len ta old_len address_space_reserved_for_account;
                              (region, ta) =
                                (if requested_length > len region then
                                   let ta = update_accounts_resize_delta ta old_len new_len
                                   in (region\<lparr>len := of_nat new_len\<rparr>,
                                       put_view ta i (view_resize (view_at ta i) new_len 0))
                                 else (region, ta));
                              (region, ta) =
                                (if stricter_abi \<and> direct_mapping then
                                   let ta = put_view ta i (write_data_as_mut_slice (view_at ta i) (\<lambda>bytes. bytes))
                                   in (region\<lparr>host_addr := data_ptr ta i, writable := True\<rparr>, ta)
                                 else (region, ta))
                          in (region, drop_AccountRefMut ta index)))"

end
