(* ===== verification/Lamports.thy ===== *)
theory Lamports
  imports Transaction
begin

text \<open>
  A transaction as a state machine: configuring, pushing and popping instructions, working on
  borrowed accounts, growing an account on an access violation.  Whatever the order, the lamports of
  the transaction are those it began with plus the recorded delta, so an instruction that is popped
  with success has conserved them; and the stack is a chain of instructions of the trace, each at its
  own nesting level.
\<close>

section \<open>Steps of a transaction\<close>

inductive tx_step ::
  "Sdk \<Rightarrow> (u64 \<Rightarrow> nat \<Rightarrow> bool) \<Rightarrow> TransactionContext \<Rightarrow> TransactionContext \<Rightarrow> bool"
  for sdk is_exempt
where
  configure:
    "tx_step sdk is_exempt tc (fst (configure_next_instruction tc p accts dedup bytes caller))"
| push: "tx_step sdk is_exempt tc (fst (tc_push sdk tc))"
| pop: "tx_step sdk is_exempt tc (fst (tc_pop tc))"
| borrow:
    "get_current_instruction_context tc = Ok ic \<Longrightarrow>
     try_borrow_instruction_account tc ic i = Ok (tc1, ba) \<Longrightarrow>
     (account_step is_exempt ba)\<^sup>*\<^sup>* (accounts tc1) ta \<Longrightarrow>
     tx_step sdk is_exempt tc (tc1\<lparr>accounts := drop_AccountRefMut ta (get_index_in_transaction ba)\<rparr>)"
| set_return: "tx_step sdk is_exempt tc (set_return_data tc k bytes)"
| violation:
    "account_access_violation_handler data_ptr stricter direct (accounts tc) region res t a n = (region', ta) \<Longrightarrow>
     tx_step sdk is_exempt tc (tc\<lparr>accounts := ta\<rparr>)"

section \<open>Bookkeeping\<close>

text \<open>The invariant of the accounts while the account at an index may have a stale length.\<close>

definition inv_but :: "nat \<Rightarrow> TransactionAccounts \<Rightarrow> bool" where
  "inv_but i ta \<longleftrightarrow>
     i < accounts_len ta \<and> length (private_account_fields ta) = accounts_len ta
     \<and> length (borrow_counters ta) = accounts_len ta \<and> length (touched_flags ta) = accounts_len ta
     \<and> (\<forall>j < accounts_len ta. j \<noteq> i \<longrightarrow>
          vs_len (shared_payload (abi_account (view_at ta j))) = of_nat (length (view_data (view_at ta j))))"

definition keeps :: "TransactionAccounts \<Rightarrow> TransactionAccounts \<Rightarrow> bool" where
  "keeps ta ta' \<longleftrightarrow>
     account_keys_iter ta' = account_keys_iter ta
     \<and> total_lamports ta' - ta_lamports_delta ta' = total_lamports ta - ta_lamports_delta ta"

lemma keeps_refl [simp]: "keeps ta ta"
  by (simp add: keeps_def)

lemma keeps_trans: "keeps ta ta' \<Longrightarrow> keeps ta' ta'' \<Longrightarrow> keeps ta ta''"
  by (simp add: keeps_def)

lemma inv_but_inv: "accounts_inv ta \<Longrightarrow> i < accounts_len ta \<Longrightarrow> inv_but i ta"
  by (simp add: accounts_inv_def inv_but_def)

lemma fields_keep [simp]:
  "keeps ta (t\<lparr>borrow_counters := cs\<rparr>) = keeps ta t" "keeps ta (t\<lparr>touched_flags := fl\<rparr>) = keeps ta t"
  "keeps ta (t\<lparr>ta_resize_delta := d\<rparr>) = keeps ta t"
  by (simp_all add: keeps_def account_keys_iter_def)

lemma put_view_keeps:
  assumes "inv_but i ta" "shared_key (abi_account v) = shared_key (abi_account (view_at ta i))"
    and "view_lamports v = view_lamports (view_at ta i)"
  shows "inv_but i (put_view ta i v) \<and> keeps ta (put_view ta i v)"
  using assms keys_put_view [OF assms(2)] total_put_view [of i ta v]
  by (auto simp: inv_but_def keeps_def accounts_len_def view_at_put_view)

lemma try_borrow_mut_Ok:
  assumes "try_borrow_mut ta index = Ok ta'"
  shows "unat index < length (borrow_counters ta)" "borrow_counters ta ! unat index = 0"
    and "ta' = ta\<lparr>borrow_counters := (borrow_counters ta)[unat index := - 1]\<rparr>"
  using assms
  by (auto simp: try_borrow_mut_def and_then_Ok_iff ok_or_def nth_get_def counter_try_borrow_mut_def
      is_writing_def is_reading_def clamp_def split: option.splits if_splits)

lemma borrow_inv:
  assumes "accounts_inv ta" "try_borrow_mut ta index = Ok ta'"
  shows "inv_but (unat index) ta'" "keeps ta ta'" "accounts_inv ta'" "unat index < accounts_len ta"
  using assms(1) try_borrow_mut_Ok [OF assms(2)]
  by (simp_all add: inv_but_def accounts_inv_def accounts_len_def)

lemma drop_inv:
  assumes "inv_but (unat index) ta"
  shows "accounts_inv (drop_AccountRefMut ta index) \<and> keeps ta (drop_AccountRefMut ta index)"
proof -
  let ?i = "unat index"
  let ?v = "sync_len (view_at ta ?i) (of_nat (payload_len (private_fields (view_at ta ?i))))"
  have p: "inv_but ?i (put_view ta ?i ?v)" "keeps ta (put_view ta ?i ?v)"
    using put_view_keeps [OF assms, of ?v] by simp_all
  have i: "?i < length (shared_account_fields ta)" "?i < length (private_account_fields ta)"
    using assms by (simp_all add: inv_but_def accounts_len_def)
  have "view_data ?v = private_payload (private_fields (view_at ta ?i))" by simp (simp add: view_data_def)
  then show ?thesis
    using p view_at_put_view [OF i, of ?v]
    by (auto simp: drop_AccountRefMut_def Let_def accounts_inv_def inv_but_def accounts_len_def payload_len_def)
qed

text \<open>A borrow that is given up unused leaves no trace.\<close>

lemma borrow_drop:
  assumes inv: "accounts_inv ta" and b: "try_borrow_mut ta index = Ok ta'"
  shows "drop_AccountRefMut ta' index = ta"
proof -
  note t = try_borrow_mut_Ok [OF b]
  have i: "unat index < accounts_len ta" by (rule borrow_inv(4) [OF inv b])
  have s: "sync_len (view_at ta (unat index)) (of_nat (payload_len (private_fields (view_at ta (unat index))))) =
      view_at ta (unat index)"
    using inv i by (auto simp: accounts_inv_def sync_len_def set_len_def payload_len_def view_data_def)
  have c: "(borrow_counters ta)[unat index := 0] = borrow_counters ta"
    using t(1,2) by (metis list_update_id)
  show ?thesis
    using t(1,2) by (simp add: drop_AccountRefMut_def t(3) s Let_def release_borrow_mut_def clamp_def c put_view_def)
      (simp add: view_at_def)
qed

section \<open>Steps keep the accounts in order\<close>

definition accounts_step :: "TransactionAccounts \<Rightarrow> TransactionAccounts \<Rightarrow> bool" where
  "accounts_step ta ta' \<longleftrightarrow> accounts_inv ta' \<and> keeps ta ta'"

lemma accounts_step_refl: "accounts_inv ta \<Longrightarrow> accounts_step ta ta"
  by (simp add: accounts_step_def)

lemma store_sysvar_step:
  assumes "accounts_inv (accounts tc)"
  shows "accounts_step (accounts tc) (accounts (fst (store_sysvar_index sdk tc)))"
proof (cases "find_index_of_account tc (instructions_id sdk)")
  case (Some index)
  show ?thesis
  proof (cases "try_borrow_mut (accounts tc) index")
    case (Ok ta)
    note b = borrow_inv [OF assms Ok]
    have "inv_but (unat index) (put_view ta (unat index) (write_data_as_mut_slice (view_at ta (unat index)) f))
        \<and> keeps ta (put_view ta (unat index) (write_data_as_mut_slice (view_at ta (unat index)) f))" for f
      by (intro put_view_keeps b(1)) (simp_all add: write_data_as_mut_slice_def)
    then have "accounts_inv (drop_AccountRefMut t index) \<and> keeps (accounts tc) (drop_AccountRefMut t index)"
      if "t = ta \<or> (\<exists>f. t = put_view ta (unat index) (write_data_as_mut_slice (view_at ta (unat index)) f))" for t
      using that b(1,2) drop_inv keeps_trans by blast
    then show ?thesis
      using Some Ok by (auto simp: store_sysvar_index_def accounts_step_def Let_def)
  qed (use Some accounts_step_refl [OF assms] in \<open>simp add: store_sysvar_index_def\<close>)
qed (use accounts_step_refl [OF assms] in \<open>simp add: store_sysvar_index_def\<close>)

lemma detect_unbalanced_eq:
  assumes "accounts_inv (accounts tc)"
  shows "fst (detect_unbalanced tc) = tc"
    and "snd (detect_unbalanced tc) = Ok u \<Longrightarrow> u = (ta_lamports_delta (accounts tc) \<noteq> 0)"
proof -
  have d: "drop_AccountRefMut ta index = accounts tc \<and> get_lamports_delta ta = ta_lamports_delta (accounts tc)"
    if "try_borrow_mut (accounts tc) index = Ok ta" for ta index
    using borrow_drop [OF assms that] try_borrow_mut_Ok [OF that] by (simp add: get_lamports_delta_def)
  show "fst (detect_unbalanced tc) = tc"
    using d by (cases "and_then (get_current_instruction_context tc) get_index_of_program_account_in_transaction")
      (auto simp: detect_unbalanced_def split: result.splits)
  show "snd (detect_unbalanced tc) = Ok u \<Longrightarrow> u = (ta_lamports_delta (accounts tc) \<noteq> 0)"
    using d by (cases "and_then (get_current_instruction_context tc) get_index_of_program_account_in_transaction")
      (auto simp: detect_unbalanced_def split: result.splits)
qed

lemma push_accounts:
  "accounts (fst (tc_push sdk tc)) = accounts tc \<or>
   (\<exists>t. accounts t = accounts tc \<and> accounts (fst (tc_push sdk tc)) = accounts (fst (store_sysvar_index sdk t)))"
  by (auto simp: tc_push_def Let_def intro!: exI [where x = "tc\<lparr>instruction_trace := tr, transaction_frame := fr, instruction_stack := st\<rparr>" for tr fr st])

text \<open>A change of the data of one account.\<close>

definition view_meta :: "TransactionAccountView \<Rightarrow> Pubkey \<times> u64 \<times> bool" where
  "view_meta v = (view_owner v, view_lamports v, view_executable v)"

definition only_data :: "nat \<Rightarrow> TransactionAccounts \<Rightarrow> TransactionAccounts \<Rightarrow> bool" where
  "only_data i ta ta' \<longleftrightarrow>
     keeps ta ta' \<and> (\<forall>j. view_meta (view_at ta' j) = view_meta (view_at ta j) \<and> (j \<noteq> i \<longrightarrow> view_at ta' j = view_at ta j))"

text \<open>The account that a region belongs to.\<close>

definition region_payload :: "MemoryRegion \<Rightarrow> nat set" where
  "region_payload r = set_option (map_option unat (access_violation_handler_payload r))"

lemma only_data_refl: "only_data i ta ta"
  by (simp add: only_data_def)

lemma only_data_fields [simp]:
  "only_data i ta (t\<lparr>borrow_counters := cs\<rparr>) = only_data i ta t" "only_data i ta (t\<lparr>touched_flags := fl\<rparr>) = only_data i ta t"
  "only_data i ta (t\<lparr>ta_resize_delta := d\<rparr>) = only_data i ta t"
  by (simp_all add: only_data_def)

lemma only_data_put:
  assumes "inv_but i t" "only_data i ta t" "shared_key (abi_account v) = shared_key (abi_account (view_at t i))"
    and "view_meta v = view_meta (view_at t i)"
  shows "inv_but i (put_view t i v) \<and> only_data i ta (put_view t i v)"
proof -
  have "i < length (shared_account_fields t)" "i < length (private_account_fields t)"
    using assms(1) by (simp_all add: inv_but_def accounts_len_def)
  note at = view_at_put_view [OF this, of v]
  have "inv_but i (put_view t i v) \<and> keeps t (put_view t i v)"
    using put_view_keeps [OF assms(1,3)] assms(4) by (simp add: view_meta_def)
  then show ?thesis using assms(2,4) keeps_trans by (auto simp: only_data_def at)
qed

lemma only_data_drop:
  assumes "inv_but (unat index) t" "only_data (unat index) ta t"
  shows "accounts_inv (drop_AccountRefMut t index) \<and> only_data (unat index) ta (drop_AccountRefMut t index)"
  using drop_inv [OF assms(1)] only_data_put [OF assms, of "sync_len v n" for v n]
  by (auto simp: drop_AccountRefMut_def Let_def view_meta_def)

lemma handler_payload:
  "account_access_violation_handler data_ptr stricter direct ta region res t a n = (region', ta') \<Longrightarrow>
     access_violation_handler_payload region' = access_violation_handler_payload region"
  by (auto simp: account_access_violation_handler_def Let_def split: if_splits option.splits result.splits prod.splits)

lemma handler_frame:
  assumes "accounts_inv ta"
    and "account_access_violation_handler data_ptr stricter direct ta region res t a n = (region', ta')"
  shows "case access_violation_handler_payload region of None \<Rightarrow> ta' = ta
      | Some index \<Rightarrow> accounts_inv ta' \<and> only_data (unat index) ta ta'"
proof (cases "access_violation_handler_payload region")
  case None
  then show ?thesis using assms(2) by (auto simp: account_access_violation_handler_def split: if_splits)
next
  case (Some index)
  let ?i = "unat index"
  have "accounts_inv ta' \<and> only_data ?i ta ta'"
  proof (cases "try_borrow_mut ta index")
    case (Err e)
    then show ?thesis
      using assms Some only_data_refl by (auto simp: account_access_violation_handler_def Let_def split: if_splits)
  next
    case (Ok t1)
    note b = borrow_inv [OF assms(1) Ok]
    obtain fl where tch: "accounts_touch t1 index = (t1\<lparr>touched_flags := fl\<rparr>, Ok ())" "length fl = accounts_len t1"
      using b(1) by (auto simp: accounts_touch_def inv_but_def)
    let ?t = "t1\<lparr>touched_flags := fl\<rparr>"
    have t: "inv_but ?i ?t" "only_data ?i ta ?t"
      using b(1) tch(2) try_borrow_mut_Ok(3) [OF Ok] only_data_refl by (simp_all add: inv_but_def accounts_len_def)
    define req where "req = saturating_sub (saturating_add a n) (vm_addr region)"
    define grown where "grown = (\<lambda>m. let u = update_accounts_resize_delta ?t (length (view_data (view_at ?t ?i))) m
      in put_view u ?i (view_resize (view_at u ?i) m 0))"
    define last where "last = (\<lambda>u. if stricter \<and> direct
      then put_view u ?i (write_data_as_mut_slice (view_at u ?i) (\<lambda>b. b)) else u)"
    have g: "inv_but ?i (grown m) \<and> only_data ?i ta (grown m)" for m
      unfolding grown_def Let_def
      by (rule only_data_put)
        (use t in \<open>simp_all add: update_accounts_resize_delta_def inv_but_def accounts_len_def view_resize_def view_meta_def\<close>)
    have l: "accounts_inv (drop_AccountRefMut (last u) index) \<and> only_data ?i ta (drop_AccountRefMut (last u) index)"
      if "inv_but ?i u" "only_data ?i ta u" for u
    proof -
      have "inv_but ?i (last u) \<and> only_data ?i ta (last u)"
        using only_data_put [OF that] that by (simp add: last_def write_data_as_mut_slice_def view_meta_def)
      then show ?thesis using only_data_drop by blast
    qed
    have "ta' = ta \<or> (\<exists>m. ta' = drop_AccountRefMut (last (grown m)) index) \<or> ta' = drop_AccountRefMut (last ?t) index"
      using assms(2)
      unfolding account_access_violation_handler_def Some option.case Ok result.case tch(1) prod.case Let_def
        req_def [symmetric] grown_def last_def
      by (auto simp del: view_at_fields split: if_splits)
    then show ?thesis using assms(1) only_data_refl l [OF t] g l by blast
  qed
  then show ?thesis using Some by simp
qed

lemma handler_step:
  assumes "accounts_inv ta"
    and "account_access_violation_handler data_ptr stricter direct ta region res t a n = (region', ta')"
  shows "accounts_step ta ta'"
  using handler_frame [OF assms] assms(1)
  by (auto simp: accounts_step_def only_data_def split: option.splits)

lemma tx_step_accounts:
  assumes "tx_step sdk is_exempt tc tc'" "accounts_inv (accounts tc)"
  shows "accounts_step (accounts tc) (accounts tc')"
  using assms(1)
proof cases
  case (configure p accts dedup bytes caller)
  then show ?thesis
    using accounts_step_refl [OF assms(2)]
    by (simp add: configure_next_instruction_def Let_def split: option.splits)
next
  case push
  then show ?thesis
    using push_accounts [of sdk tc] store_sysvar_step assms(2) accounts_step_refl by metis
next
  case pop
  then show ?thesis
    using accounts_step_refl [OF assms(2)] detect_unbalanced_eq [OF assms(2)]
    by (auto simp: tc_pop_def Let_def split: prod.splits)
next
  case (borrow ic i tc1 ba ta)
  then obtain b: "try_borrow_mut (accounts tc) (get_index_in_transaction ba) = Ok (accounts tc1)"
    by (auto simp: try_borrow_instruction_account_def and_then_Ok_iff get_index_in_transaction_def)
  note bi = borrow_inv [OF assms(2) b]
  have "borrowable (accounts tc1) ba"
    using bi by (auto simp: borrowable_def inv_but_def)
  then have a: "allowed ba (accounts tc1) ta" "borrowable ta ba"
    using account_steps_allowed [OF borrow(4)] by simp_all
  then have "inv_but (unat (get_index_in_transaction ba)) ta" "keeps (accounts tc1) ta"
    by (auto simp: borrowable_def inv_but_inv allowed_def keeps_def)
  then show ?thesis
    using borrow(1) drop_inv bi(2) keeps_trans by (auto simp: accounts_step_def)
next
  case (set_return k bytes)
  then show ?thesis using accounts_step_refl [OF assms(2)] by (simp add: set_return_data_def Let_def)
next
  case (violation data_ptr stricter direct region res t a n region' ta)
  then show ?thesis using handler_step [OF assms(2)] by auto
qed

section \<open>The stack is a chain in the trace\<close>

definition stack_inv :: "TransactionContext \<Rightarrow> bool" where
  "stack_inv tc \<longleftrightarrow>
     instruction_trace tc \<noteq> []
     \<and> length (instruction_trace tc) \<le> instruction_trace_capacity tc + 1
     \<and> length (instruction_stack tc) \<le> instruction_stack_capacity tc
     \<and> sorted_wrt (<) (instruction_stack tc)
     \<and> (\<forall>k < length (instruction_stack tc).
          instruction_stack tc ! k < length (instruction_trace tc) - 1
          \<and> nesting_level (instruction_trace tc ! (instruction_stack tc ! k)) = of_nat k)"

text \<open>Only the reserved last frame changes, and one more may follow.\<close>

lemma stack_inv_trace:
  assumes "stack_inv tc" "instruction_stack tc' = instruction_stack tc"
    and "instruction_stack_capacity tc' = instruction_stack_capacity tc"
    and "instruction_trace_capacity tc' = instruction_trace_capacity tc"
    and "instruction_trace tc' = (instruction_trace tc)[length (instruction_trace tc) - 1 := f] @ rest"
    and "length (instruction_trace tc') \<le> instruction_trace_capacity tc + 1"
  shows "stack_inv tc'"
proof -
  have "instruction_trace tc' ! j = instruction_trace tc ! j" if "j < length (instruction_trace tc) - 1" for j
    using that assms(5) by (simp add: nth_append)
  moreover have "length (instruction_trace tc) - 1 \<le> length (instruction_trace tc') - 1"
    using assms(5) by simp
  ultimately show ?thesis
    using assms by (fastforce simp: stack_inv_def)
qed

lemma stack_inv_pushed:
  assumes "stack_inv tc" "length (instruction_stack tc) < instruction_stack_capacity tc"
    and "i < length (instruction_trace tc) - 1" "\<forall>k < length (instruction_stack tc). instruction_stack tc ! k < i"
    and "nesting_level (instruction_trace tc ! i) = of_nat (length (instruction_stack tc))"
  shows "stack_inv (tc\<lparr>transaction_frame := fr, instruction_stack := instruction_stack tc @ [i]\<rparr>)"
  using assms by (auto simp: stack_inv_def nth_append sorted_wrt_append less_Suc_eq in_set_conv_nth)

lemma stack_inv_fields [simp]:
  "stack_inv (tc\<lparr>accounts := ta\<rparr>) = stack_inv tc" "stack_inv (tc\<lparr>transaction_frame := fr\<rparr>) = stack_inv tc"
  "stack_inv (tc\<lparr>return_data_bytes := bs\<rparr>) = stack_inv tc"
  "stack_inv (tc\<lparr>top_level_instruction_index := n\<rparr>) = stack_inv tc"
  by (simp_all add: stack_inv_def)

lemma store_sysvar_stack: "stack_inv (fst (store_sysvar_index sdk tc)) = stack_inv tc"
  by (simp add: store_sysvar_index_def Let_def split: option.splits result.splits)

lemma push_stack:
  assumes inv: "stack_inv tc"
  shows "stack_inv (fst (tc_push sdk tc))"
proof (cases "instruction_stack tc \<noteq> [] \<and> get_lamports_delta (accounts tc) \<noteq> 0 \<or> instruction_trace tc = []")
  case True
  then show ?thesis using inv by (auto simp: tc_push_def Let_def)
next
  case False
  let ?i = "get_instruction_trace_length tc"
  let ?f = "(last (instruction_trace tc))\<lparr>nesting_level := of_nat (length (instruction_stack tc))\<rparr>"
  let ?t1 = "tc\<lparr>instruction_trace := (instruction_trace tc)[?i := ?f]\<rparr>"
  let ?t2 = "tc\<lparr>instruction_trace := (instruction_trace tc)[?i := ?f] @ [default_InstructionFrame]\<rparr>"
  have s1: "stack_inv ?t1"
    by (rule stack_inv_trace [OF inv, of _ ?f "[]"]) (use inv in \<open>simp_all add: get_instruction_trace_length_def stack_inv_def\<close>)
  show ?thesis
  proof (cases "?i < instruction_trace_capacity tc")
    case lt: True
    have s2: "stack_inv ?t2"
      by (rule stack_inv_trace [OF inv, of _ ?f "[default_InstructionFrame]"])
        (use inv False lt in \<open>auto simp: get_instruction_trace_length_def stack_inv_def\<close>)
    have "stack_inv (?t2\<lparr>transaction_frame := fr, instruction_stack := instruction_stack ?t2 @ [?i]\<rparr>)"
      if "length (instruction_stack tc) < instruction_stack_capacity tc" for fr
      by (rule stack_inv_pushed [OF s2])
        (use that inv False in \<open>auto simp: get_instruction_trace_length_def nth_append stack_inv_def\<close>)
    then show ?thesis
      using False lt s2
      by (auto simp: tc_push_def Let_def store_sysvar_stack get_instruction_stack_height_def)
  qed (use False s1 in \<open>auto simp: tc_push_def Let_def get_instruction_stack_height_def\<close>)
qed

lemma stack_inv_butlast:
  assumes "stack_inv tc"
  shows "stack_inv (tc\<lparr>instruction_stack := butlast (instruction_stack tc)\<rparr>)"
proof -
  have "sorted_wrt (<) (butlast (instruction_stack tc))"
    using assms by (cases "instruction_stack tc" rule: rev_cases) (auto simp: stack_inv_def sorted_wrt_append)
  then show ?thesis using assms by (auto simp: stack_inv_def nth_butlast)
qed

lemma tx_step_stack:
  assumes "tx_step sdk is_exempt tc tc'" "stack_inv tc" "accounts_inv (accounts tc)"
  shows "stack_inv tc'"
  using assms(1)
proof cases
  case (configure p accts dedup bytes caller)
  then have "stack_inv (fst (configure_next_instruction tc p accts dedup bytes caller))"
    using assms(2)
    by (cases "instruction_trace tc = []"; cases caller)
      (auto simp: configure_next_instruction_def Let_def stack_inv_def
        intro!: stack_inv_trace [OF assms(2), where rest = "[]", unfolded stack_inv_def])
  then show ?thesis using configure by simp
next
  case push
  then show ?thesis using push_stack [OF assms(2)] by simp
next
  case pop
  then show ?thesis
    using stack_inv_butlast [OF assms(2)] assms(2) detect_unbalanced_eq(1) [OF assms(3)]
    by (auto simp: tc_pop_def Let_def split: prod.splits)
next
  case (borrow ic i tc1 ba ta)
  then show ?thesis
    using assms(2) by (auto simp: try_borrow_instruction_account_def and_then_Ok_iff)
next
  case (set_return k bytes)
  then show ?thesis using assms(2) by (simp add: set_return_data_def Let_def stack_inv_def)
qed (use assms(2) in simp)

section \<open>Reachable transactions\<close>

lemma new_context_inv:
  "accounts_inv (accounts (new_TransactionContext as sc trc n))" "stack_inv (new_TransactionContext as sc trc n)"
  "ta_lamports_delta (accounts (new_TransactionContext as sc trc n)) = 0"
  "total_lamports (accounts (new_TransactionContext as sc trc n)) = (\<Sum>(_, a)\<leftarrow>as. int (unat (asd_lamports a)))"
proof -
  let ?sf = "shared_account_fields (new_TransactionAccounts as)"
  have "?sf ! i = fst (new_fields i (as ! i))" if "i < length as" for i
    using new_accounts_fields(3) [OF that] by (simp add: view_at_def)
  then have "map shared_lamports ?sf = map (\<lambda>(_, a). asd_lamports a) as"
    by (intro nth_equalityI) (simp_all add: new_accounts_fields new_fields_def split_beta)
  then have "map (\<lambda>w. int (unat w)) (map shared_lamports ?sf) = map (\<lambda>w. int (unat w)) (map (\<lambda>(_, a). asd_lamports a) as)"
    by simp
  then show "total_lamports (accounts (new_TransactionContext as sc trc n)) =
      (\<Sum>(_, a)\<leftarrow>as. int (unat (asd_lamports a)))"
    by (simp add: total_lamports_def new_TransactionContext_def comp_def case_prod_unfold)
qed (simp_all add: new_TransactionContext_def accounts_inv_new stack_inv_def,
    simp add: new_TransactionAccounts_def Let_def)

lemma reachable_inv:
  assumes "(tx_step sdk is_exempt)\<^sup>*\<^sup>* (new_TransactionContext as sc trc n) tc"
  shows "accounts_inv (accounts tc) \<and> stack_inv tc
    \<and> total_lamports (accounts tc) = (\<Sum>(_, a)\<leftarrow>as. int (unat (asd_lamports a))) + ta_lamports_delta (accounts tc)"
  using assms
proof (induction rule: rtranclp_induct)
  case base
  then show ?case using new_context_inv by simp
next
  case (step t t')
  then show ?case
    using tx_step_accounts [OF step(2)] tx_step_stack [OF step(2)] by (auto simp: accounts_step_def keeps_def)
qed

text \<open>
  C29: lamports are conserved.  In every state a transaction can reach, the lamports of all accounts
  are those the transaction was given plus the recorded delta; and when an instruction is popped with
  success the delta is zero, so the sum is exactly what the transaction was given.
\<close>

theorem lamports_conserved:
  assumes "(tx_step sdk is_exempt)\<^sup>*\<^sup>* (new_TransactionContext as sc trc n) tc"
  shows "total_lamports (accounts tc) =
       (\<Sum>(_, a)\<leftarrow>as. int (unat (asd_lamports a))) + ta_lamports_delta (accounts tc)
     \<and> (snd (tc_pop tc) = Ok () \<longrightarrow>
          total_lamports (accounts (fst (tc_pop tc))) = (\<Sum>(_, a)\<leftarrow>as. int (unat (asd_lamports a))))"
proof -
  note inv = reachable_inv [OF assms]
  note d = detect_unbalanced_eq [of tc]
  have "ta_lamports_delta (accounts tc) = 0 \<and> accounts (fst (tc_pop tc)) = accounts tc" if "snd (tc_pop tc) = Ok ()"
    using that d inv by (auto simp: tc_pop_def Let_def and_then_Ok_iff split: if_splits prod.splits)
  then show ?thesis using inv by simp
qed

definition sample_tc :: TransactionContext where
  "sample_tc =
     new_TransactionContext
       [(replicate 32 1, sample_account 1 (replicate 32 7)), (replicate 32 2, sample_account 5 (replicate 32 1))]
       5 64 1"

definition sample_sdk :: Sdk where
  "sample_sdk =
     \<lparr>instructions_id = replicate 32 9, sysvar_id = replicate 32 8, native_loader_id = replicate 32 7,
      bpf_loader_deprecated_id = replicate 32 6, bpf_loader_id = replicate 32 5,
      bpf_loader_upgradeable_id = replicate 32 4, loader_v4_id = replicate 32 3,
      store_current_index_checked = \<lambda>bytes index.
        if length bytes < 2 then Err AccountDataTooSmall
        else Ok (take (length bytes - 2) bytes @ to_le_bytes index)\<rparr>"

definition sample_pushed :: TransactionContext where
  "sample_pushed =
     fst (tc_push sample_sdk
       (fst (configure_next_instruction sample_tc 0 [new_InstructionAccount 1 False True] (replicate 256 0) [] None)))"

lemma sample_pushed_reachable: "(tx_step sample_sdk (\<lambda>_ _. True))\<^sup>*\<^sup>* sample_tc sample_pushed"
proof -
  let ?c = "fst (configure_next_instruction sample_tc 0 [new_InstructionAccount 1 False True] (replicate 256 0) [] None)"
  have "tx_step sample_sdk (\<lambda>_ _. True) sample_tc ?c" by (rule tx_step.configure)
  moreover have "tx_step sample_sdk (\<lambda>_ _. True) ?c sample_pushed"
    unfolding sample_pushed_def by (rule tx_step.push)
  ultimately show ?thesis by (meson converse_rtranclp_into_rtranclp r_into_rtranclp)
qed

lemmas tx_eval =
  tc_push_def tc_pop_def configure_next_instruction_def store_sysvar_index_def detect_unbalanced_def
  find_index_of_account_def get_current_instruction_context_def get_current_instruction_index_def
  get_instruction_context_at_index_in_trace_def get_index_of_program_account_in_transaction_def
  get_instruction_stack_height_def get_instruction_trace_length_def get_lamports_delta_def
  try_borrow_mut_def ok_or_def nth_get_def counter_try_borrow_mut_def is_writing_def is_reading_def
  clamp_def account_keys_iter_def configure_vm_slices_def new_TransactionContext_def
  new_TransactionAccounts_def new_fields_def

lemma sample_pushed_pops:
  "snd (tc_pop sample_pushed) = Ok ()" "get_instruction_stack_height sample_pushed = 1"
  "instruction_stack_capacity sample_pushed = 5"
  by (simp_all add: sample_pushed_def sample_tc_def sample_sdk_def tx_eval Let_def)

theorem lamports_conserved_witness:
  "total_lamports (accounts (fst (tc_pop sample_pushed))) = 6 \<and> snd (tc_pop sample_pushed) = Ok ()"
  using lamports_conserved [OF sample_pushed_reachable [unfolded sample_tc_def]] sample_pushed_pops
  by (simp add: sample_account_def)

text \<open>
  C30: the instruction stack is a chain of distinct trace entries, no longer than its capacity, and
  the instruction found at a nesting level carries that level: the debug assertion of
  \<open>get_instruction_context_at_nesting_level\<close> cannot fail.
\<close>

theorem nesting_levels_consistent:
  assumes "(tx_step sdk is_exempt)\<^sup>*\<^sup>* (new_TransactionContext as sc trc n) tc"
    and "instruction_stack_capacity tc \<le> 2 ^ 16" "level < get_instruction_stack_height tc"
  shows "get_instruction_stack_height tc \<le> instruction_stack_capacity tc
    \<and> get_instruction_trace_length tc \<le> instruction_trace_capacity tc
    \<and> distinct (instruction_stack tc)
    \<and> (\<exists>ic. get_instruction_context_at_nesting_level tc level = Ok ic \<and> ic_nesting_level ic = level)"
proof -
  have inv: "stack_inv tc" using reachable_inv [OF assms(1)] by simp
  then have l: "level < length (instruction_stack tc)" "level < 2 ^ 16"
    "instruction_stack tc ! level < length (instruction_trace tc)"
    "nesting_level (instruction_trace tc ! (instruction_stack tc ! level)) = of_nat level"
    using assms(2,3) by (fastforce simp: stack_inv_def get_instruction_stack_height_def)+
  have "distinct (instruction_stack tc)"
    using inv by (auto simp: stack_inv_def strict_sorted_iff)
  moreover have "unat (of_nat level :: u16) = level"
    using l(2) by (simp add: unat_of_nat take_bit_nat_eq_self)
  ultimately show ?thesis
    using inv l by (auto simp: get_instruction_context_at_nesting_level_def ok_or_def nth_get_def
        get_instruction_context_at_index_in_trace_def stack_inv_def get_instruction_stack_height_def
        get_instruction_trace_length_def)
qed

theorem nesting_levels_consistent_witness:
  "\<exists>ic. get_instruction_context_at_nesting_level sample_pushed 0 = Ok ic \<and> ic_nesting_level ic = 0"
  using nesting_levels_consistent [OF sample_pushed_reachable [unfolded sample_tc_def], of 0] sample_pushed_pops
  by simp

section \<open>Growth on access violations\<close>

lemma clamp_le: "clamp w x \<le> max x (- (2 ^ (w - 1)))"
  by (simp add: clamp_def)

lemma grown_len_bounds:
  "grown_len ta old_len res \<le> unat res" "grown_len ta old_len res \<le> MAX_ACCOUNT_DATA_LEN"
  by (simp_all add: grown_len_def Let_def)

lemma as_i64_small: "n \<le> MAX_ACCOUNT_DATA_LEN \<Longrightarrow> as_i64 n = int n"
  by (simp add: as_i64_def MAX_ACCOUNT_DATA_LEN_def signed_of_nat signed_take_bit_int_eq_self)

lemma growth_bound:
  assumes "old_len \<le> MAX_ACCOUNT_DATA_LEN" "ta_resize_delta ta \<le> MAX_ACCOUNT_DATA_GROWTH_PER_TRANSACTION"
  shows "clamp 64 (ta_resize_delta ta + clamp 64 (as_i64 (grown_len ta old_len res) - as_i64 old_len))
    \<le> MAX_ACCOUNT_DATA_GROWTH_PER_TRANSACTION"
proof -
  let ?new = "grown_len ta old_len res"
  have "int ?new \<le> int old_len + (MAX_ACCOUNT_DATA_GROWTH_PER_TRANSACTION - ta_resize_delta ta)"
    using assms(2)
    by (simp add: grown_len_def Let_def resize_delta_def clamp_def MAX_ACCOUNT_DATA_GROWTH_PER_TRANSACTION_def
        MAX_ACCOUNT_DATA_LEN_def)
  moreover have "?new \<le> MAX_ACCOUNT_DATA_LEN" by (rule grown_len_bounds)
  ultimately show ?thesis
    using assms by (simp add: as_i64_small clamp_def MAX_ACCOUNT_DATA_GROWTH_PER_TRANSACTION_def
        MAX_ACCOUNT_DATA_LEN_def)
qed

text \<open>
  C31: the access violation handler grows an account only within what was reserved for it.  It never
  touches a region that belongs to no account or a load; where it changes the region, the region
  keeps its guest address, ends at most where its reserved space ends, is at most the largest
  permitted account, and the growth of all accounts stays within the limit of a transaction.
\<close>

theorem access_violation_growth:
  assumes "accounts_inv ta"
    and "account_access_violation_handler data_ptr stricter direct ta region res t a n = (region', ta')"
    and "\<And>i. i < accounts_len ta \<Longrightarrow> length (view_data (view_at ta i)) \<le> MAX_ACCOUNT_DATA_LEN"
    and "ta_resize_delta ta \<le> MAX_ACCOUNT_DATA_GROWTH_PER_TRANSACTION"
  shows "vm_addr region' = vm_addr region
     \<and> (t = Load \<or> access_violation_handler_payload region = None \<longrightarrow> region' = region \<and> ta' = ta)
     \<and> (len region' \<noteq> len region \<longrightarrow>
          len region' \<le> res \<and> unat (len region') \<le> MAX_ACCOUNT_DATA_LEN)
     \<and> ta_resize_delta ta' \<le> MAX_ACCOUNT_DATA_GROWTH_PER_TRANSACTION"
proof (cases "t = Load \<or> access_violation_handler_payload region = None")
  case True
  then have "(region', ta') = (region, ta)"
    using assms(2) by (auto simp: account_access_violation_handler_def split: if_splits)
  then show ?thesis using assms(4) by simp
next
  case False
  then obtain index where index: "t \<noteq> Load" "access_violation_handler_payload region = Some index" by auto
  let ?i = "unat index"
  let ?old = "length (view_data (view_at ta ?i))"
  let ?new = "grown_len ta ?old res"
  have new: "unat (of_nat ?new :: u64) = ?new"
    using grown_len_bounds [of ta ?old res] unat_u64_less [of res] by (simp add: unat_of_nat take_bit_nat_eq_self)
  have "vm_addr region' = vm_addr region \<and> (len region' = len region \<or> len region' = of_nat ?new)
      \<and> (ta_resize_delta ta' = ta_resize_delta ta
         \<or> ?i < accounts_len ta \<and>
           ta_resize_delta ta' = clamp 64 (ta_resize_delta ta + clamp 64 (as_i64 ?new - as_i64 ?old)))"
  proof (cases "try_borrow_mut ta index")
    case (Err e)
    then show ?thesis
      using assms(2) index by (auto simp: account_access_violation_handler_def Let_def split: if_splits)
  next
    case (Ok t1)
    note t1 = try_borrow_mut_Ok(3) [OF Ok]
    have i: "?i < accounts_len ta" by (rule borrow_inv(4) [OF assms(1) Ok])
    have g: "grown_len t1 ?old res = ?new" by (simp add: grown_len_def resize_delta_def t1)
    have d: "ta_resize_delta (drop_AccountRefMut u index) = ta_resize_delta u" for u
      by (simp add: drop_AccountRefMut_def Let_def)
    have "view_at t1 = view_at ta" by (simp add: t1 fun_eq_iff)
    moreover have "accounts_touch t1 index = (t1\<lparr>touched_flags := (touched_flags t1)[?i := True]\<rparr>, Ok ())"
      using i assms(1) by (simp add: accounts_touch_def t1 accounts_inv_def)
    moreover have "grown_len (t1\<lparr>touched_flags := fl\<rparr>) ?old res = ?new" for fl
      using g by (simp add: grown_len_def resize_delta_def)
    ultimately show ?thesis
      using assms(2) index Ok i d
      by (auto simp: account_access_violation_handler_def Let_def update_accounts_resize_delta_def t1 split: if_splits)
  qed
  moreover have "clamp 64 (ta_resize_delta ta + clamp 64 (as_i64 ?new - as_i64 ?old))
      \<le> MAX_ACCOUNT_DATA_GROWTH_PER_TRANSACTION" if "?i < accounts_len ta"
    by (rule growth_bound [OF assms(3) [OF that] assms(4)])
  ultimately show ?thesis
    using False assms(4) grown_len_bounds [of ta ?old res] new
    by (auto simp: word_le_nat_alt)
qed

definition sample_region :: MemoryRegion where
  "sample_region =
     \<lparr>host_addr = 0x1000, vm_addr = 0x400000000, len = 2, vm_gap_shift = 63, writable = False,
      access_violation_handler_payload = Some 1\<rparr>"

lemma sample_accounts_small:
  "i < accounts_len sample_accounts \<Longrightarrow> length (view_data (view_at sample_accounts i)) \<le> MAX_ACCOUNT_DATA_LEN"
  "ta_resize_delta sample_accounts = 0"
  by (auto simp: sample_accounts_def accounts_len_def new_accounts_fields view_data_def new_fields_def less_Suc_eq
      sample_account_def MAX_ACCOUNT_DATA_LEN_def)
    (simp add: new_TransactionAccounts_def Let_def)

lemma sample_handler_len:
  "len (fst (account_access_violation_handler (\<lambda>_ _. 0x2000) True True sample_accounts sample_region 100
     Store 0x400000004 8)) = 100"
proof -
  let ?t = "sample_accounts\<lparr>borrow_counters := [0, - 1]\<rparr>"
  have b: "try_borrow_mut sample_accounts 1 = Ok ?t"
    by (simp add: try_borrow_mut_def ok_or_def nth_get_def sample_accounts_def new_TransactionAccounts_def
        counter_try_borrow_mut_def is_writing_def is_reading_def clamp_def)
  have t: "accounts_touch ?t 1 = (?t\<lparr>touched_flags := [False, True]\<rparr>, Ok ())"
    by (simp add: accounts_touch_def sample_accounts_def new_TransactionAccounts_def)
  have v: "length (view_data (view_at sample_accounts (Suc 0))) = 2"
    by (simp add: sample_accounts_def new_accounts_fields view_data_def new_fields_def sample_account_def)
  have g: "grown_len (?t\<lparr>touched_flags := [False, True]\<rparr>) 2 100 = 100"
    using sample_accounts_small(2)
    by (simp add: grown_len_def resize_delta_def clamp_def MAX_ACCOUNT_DATA_GROWTH_PER_TRANSACTION_def
        MAX_ACCOUNT_DATA_LEN_def)
  have r: "saturating_sub (saturating_add 0x400000004 8) (vm_addr sample_region) = 12"
    "access_violation_handler_payload sample_region = Some 1" "len sample_region = 2"
    by (simp_all add: saturating_sub_def saturating_add_def sample_region_def)
  show ?thesis
    by (simp add: account_access_violation_handler_def r b t v g Let_def)
qed

theorem access_violation_growth_witness:
  "case account_access_violation_handler (\<lambda>_ _. 0x2000) True True sample_accounts sample_region 100
          Store 0x400000004 8 of
     (region, ta) \<Rightarrow>
       len region = 100 \<and> vm_addr region = 0x400000000
       \<and> ta_resize_delta ta \<le> MAX_ACCOUNT_DATA_GROWTH_PER_TRANSACTION"
proof -
  obtain region ta where h: "account_access_violation_handler (\<lambda>_ _. 0x2000) True True sample_accounts
      sample_region 100 Store 0x400000004 8 = (region, ta)" by fastforce
  have inv: "accounts_inv sample_accounts" by (simp add: sample_accounts_def accounts_inv_new)
  have "vm_addr region = vm_addr sample_region \<and> ta_resize_delta ta \<le> MAX_ACCOUNT_DATA_GROWTH_PER_TRANSACTION"
    using access_violation_growth [OF inv h sample_accounts_small(1)] sample_accounts_small(2)
    by (simp add: MAX_ACCOUNT_DATA_GROWTH_PER_TRANSACTION_def)
  then show ?thesis using sample_handler_len h by (simp add: sample_region_def)
qed

end
