(* ===== verification/Mapping_Safety.thy ===== *)
theory Mapping_Safety
  imports Mapping_Lookup Lamports
begin

text \<open>
  Loads and stores through a \<open>MemoryMapping\<close>: they touch only host memory of the mapped regions,
  stores only writable ones; what is stored is loaded again; every load, and no store, is reported
  to the access tracker.
\<close>

section \<open>Invariant\<close>

definition lookup_inv :: "MemoryMapping \<Rightarrow> bool" where
  "lookup_inv m \<longleftrightarrow>
     (case m of Identity \<Rightarrow> True | Aligned a \<Rightarrow> aligned_inv a | Unaligned u \<Rightarrow> unaligned_inv u)"

text \<open>The regions of accounts leave room for the largest region of the guest, so that the handler can move and grow them.\<close>

definition region_ok :: "MemoryRegion \<Rightarrow> bool" where
  "region_ok r \<longleftrightarrow>
     region_wf r
     \<and> (access_violation_handler_payload r \<noteq> None \<longrightarrow>
          unat (len r) \<le> unat MM_REGION_SIZE \<and> unat (host_addr r) + unat MM_REGION_SIZE < 2 ^ 64)"

lemma region_ok_wf: "region_ok r \<Longrightarrow> region_wf r"
  by (simp add: region_ok_def)

definition mapping_inv :: "MemoryMapping \<Rightarrow> bool" where
  "mapping_inv m \<longleftrightarrow>
     lookup_inv m \<and> list_all region_ok (get_regions m)
     \<and> (\<forall>t. get_access_tracker m = Some t \<longrightarrow> tracker_inv t)"

text \<open>The accounts that a handler has captured change at most in the data of the given ones.\<close>

definition env_follows :: "nat set \<Rightarrow> TransactionAccounts option \<Rightarrow> TransactionAccounts option \<Rightarrow> bool" where
  "env_follows P env env' \<longleftrightarrow>
     (env = None \<longrightarrow> env' = None)
     \<and> (\<forall>ta. env = Some ta \<longrightarrow> accounts_inv ta \<longrightarrow>
        (\<exists>ta'. env' = Some ta' \<and> accounts_step ta ta'
           \<and> (\<forall>j. view_meta (view_at ta' j) = view_meta (view_at ta j) \<and> (j \<notin> P \<longrightarrow> view_at ta' j = view_at ta j))))"

text \<open>
  The handler may resize a region or make it writable, but leaves it a slice of the same account, and
  changes no other account; an invariant of what it captured may help.
\<close>

definition handler_ok :: "AccessViolationHandler \<Rightarrow> bool" where
  "handler_ok h \<longleftrightarrow>
     (\<exists>I. I (captured h)
        \<and> (\<forall>env r max_len t a n. I env \<longrightarrow> region_ok r \<longrightarrow>
             (case handler_code h env r max_len t a n of (r', env') \<Rightarrow>
                region_ok r' \<and> I env' \<and> region_payload r' = region_payload r \<and> env_follows (region_payload r) env env')))"

definition mapping_handler_ok :: "MemoryMapping \<Rightarrow> bool" where
  "mapping_handler_ok m \<longleftrightarrow> (\<forall>c. common_of m = Some c \<longrightarrow> handler_ok (access_violation_handler c))"

lemma env_follows_refl: "env_follows P env env"
  by (auto simp: env_follows_def accounts_step_refl)

lemma env_follows_mono: "env_follows P env env' \<Longrightarrow> P \<subseteq> Q \<Longrightarrow> env_follows Q env env'"
  by (simp add: env_follows_def subset_iff) metis

lemma env_follows_trans:
  assumes "env_follows P x y" "env_follows P y z"
  shows "env_follows P x z"
  unfolding env_follows_def
proof (intro conjI allI impI)
  show "z = None" if "x = None" using assms that by (simp add: env_follows_def)
next
  fix ta assume x: "x = Some ta" "accounts_inv ta"
  obtain tb where y: "y = Some tb" "accounts_step ta tb" "\<And>j. view_meta (view_at tb j) = view_meta (view_at ta j)"
    "\<And>j. j \<notin> P \<Longrightarrow> view_at tb j = view_at ta j"
    using assms(1) x unfolding env_follows_def by blast
  then have "accounts_inv tb" by (simp add: accounts_step_def)
  with y(1) obtain tc where z: "z = Some tc" "accounts_step tb tc" "\<And>j. view_meta (view_at tc j) = view_meta (view_at tb j)"
    "\<And>j. j \<notin> P \<Longrightarrow> view_at tc j = view_at tb j"
    using assms(2) unfolding env_follows_def by blast
  have "accounts_step ta tc" using y(2) z(2) keeps_trans by (auto simp: accounts_step_def)
  with y(3,4) z(1,3,4) show "\<exists>ta'. z = Some ta' \<and> accounts_step ta ta'
      \<and> (\<forall>j. view_meta (view_at ta' j) = view_meta (view_at ta j) \<and> (j \<notin> P \<longrightarrow> view_at ta' j = view_at ta j))"
    by simp
qed

lemma handler_ok_default [simp]: "handler_ok default_access_violation_handler"
  unfolding handler_ok_def default_access_violation_handler_def
  by (intro exI [of _ "\<lambda>_. True"]) (simp add: env_follows_refl)

lemma handler_ok_call:
  assumes "handler_ok h" "region_ok r" "handler_code h (captured h) r max_len t a n = (r', env)"
  shows "region_ok r'" "handler_ok (h\<lparr>captured := env\<rparr>)" "region_payload r' = region_payload r"
    and "env_follows (region_payload r) (captured h) env"
proof -
  obtain I where I: "I (captured h)"
    "\<And>env r max_len t a n. I env \<Longrightarrow> region_ok r \<Longrightarrow>
       (case handler_code h env r max_len t a n of (r', env') \<Rightarrow>
          region_ok r' \<and> I env' \<and> region_payload r' = region_payload r \<and> env_follows (region_payload r) env env')"
    using assms(1) unfolding handler_ok_def by blast
  have c: "region_ok r'" "I env" "region_payload r' = region_payload r" "env_follows (region_payload r) (captured h) env"
    using I(2) [OF I(1) assms(2), of max_len t a n] assms(3) by simp_all
  then show "region_ok r'" "region_payload r' = region_payload r" "env_follows (region_payload r) (captured h) env" by simp_all
  show "handler_ok (h\<lparr>captured := env\<rparr>)"
    unfolding handler_ok_def using I(2) c(2) by (intro exI [of _ I]) simp
qed

lemma get_regions_common: "get_regions m = (case common_of m of None \<Rightarrow> [] | Some c \<Rightarrow> regions c)"
  by (cases m) simp_all

section \<open>Lookup\<close>

lemma find_region_Unaligned [simp]:
  "find_region (Unaligned m) a =
     (fst (unaligned_find_region m a), Unaligned (snd (unaligned_find_region m a)))"
  by (simp add: case_prod_beta)

declare find_region.simps(3) [simp del]

lemma common_of_find_region:
  "lookup_inv m \<Longrightarrow> common_of (snd (find_region m a)) = common_of m"
  by (cases m) (simp_all add: lookup_inv_def unaligned_find_region_spec)

interpretation mapping: region_lookup lookup_inv get_regions find_region
proof
  fix m a b and i and r :: MemoryRegion assume inv: "lookup_inv m"
  show "fst (find_region m a) = Some (i, r) \<Longrightarrow> i < length (get_regions m) \<and> r = get_regions m ! i"
    using inv aligned.lookup_sound unaligned.lookup_sound by (cases m) (auto simp: lookup_inv_def)
  show "lookup_inv (snd (find_region m a))"
    using inv unaligned.lookup_inv by (cases m) (auto simp: lookup_inv_def)
  show "get_regions (snd (find_region m a)) = get_regions m"
    using inv by (simp add: get_regions_common common_of_find_region)
  show "fst (find_region (snd (find_region m a)) b) = fst (find_region m b)"
    using inv unaligned.lookup_stable by (cases m) (auto simp: lookup_inv_def)
qed

lemma handler_find_region [simp]:
  "lookup_inv m \<Longrightarrow> mapping_handler_ok (snd (find_region m a)) \<longleftrightarrow> mapping_handler_ok m"
  by (simp add: mapping_handler_ok_def common_of_find_region)

lemma mapping_inv_find_region [intro]: "mapping_inv m \<Longrightarrow> mapping_inv (snd (find_region m a))"
  by (simp add: mapping_inv_def mapping.lookup_inv mapping.lookup_regions get_access_tracker_def
      common_of_find_region)

section \<open>Replacing a region\<close>

lemma regions_ok_replace:
  assumes "regions_ok rs" "i < length rs" "vm_addr r = vm_addr (rs ! i)"
    and "range_end (vm_addr_range r) \<le> next_region_start rs i"
  shows "regions_ok (rs[i := r])"
proof -
  have same: "map vm_addr (rs[i := r]) = map vm_addr rs"
    using assms(2,3) by (metis list_update_id map_update)
  have "range_end (vm_addr_range (rs[i := r] ! j)) \<le> vm_addr (rs[i := r] ! Suc j)" if "Suc j < length rs" for j
  proof -
    have "vm_addr (rs[i := r] ! Suc j) = vm_addr (rs ! Suc j)"
      using same that by (metis length_list_update nth_map)
    then show ?thesis
      using assms(1,2,4) that by (cases "j = i") (auto simp: regions_ok_def next_region_start_def)
  qed
  then show ?thesis using assms(1) same by (simp add: regions_ok_def)
qed

lemma slots_ok_replace:
  "slots_ok rs \<Longrightarrow> i < length rs \<Longrightarrow> vm_addr r = vm_addr (rs ! i) \<Longrightarrow> slots_ok (rs[i := r])"
  by (auto simp: slots_ok_def nth_list_update)

lemma replace_region_Err: "replace_region m i r = (Err e, m') \<Longrightarrow> m' = m"
  by (cases m) (auto simp: replace_region_def Let_def aligned_replace_region_def
      unaligned_replace_region_def split: if_splits)

lemma replace_region_Ok:
  assumes "lookup_inv m" "replace_region m i r = (Ok u, m')"
  shows "i < length (get_regions m)" "vm_addr r = vm_addr (get_regions m ! i)"
    and "common_of m' = map_option (\<lambda>c. c\<lparr>regions := (regions c)[i := r]\<rparr>) (common_of m)"
    and "lookup_inv m'"
proof -
  have chk: "i < length (get_regions m)" "vm_addr (get_regions m ! i) = vm_addr r"
    "range_end (vm_addr_range r) \<le> next_region_start (get_regions m) i"
    using assms(2) by (auto simp: replace_region_def Let_def not_less split: if_splits)
  show "i < length (get_regions m)" "vm_addr r = vm_addr (get_regions m ! i)" using chk by simp_all
  show "common_of m' = map_option (\<lambda>c. c\<lparr>regions := (regions c)[i := r]\<rparr>) (common_of m)"
    using assms chk by (cases m) (auto simp: replace_region_def Let_def aligned_replace_region_def
      unaligned_replace_region_def split: if_splits)
  show "lookup_inv m'"
  proof (cases m)
    case (Unaligned x)
    then show ?thesis
      using assms chk regions_ok_replace [of "regions (u_common x)" i r]
        eytzinger_ok_replace [of "regions (u_common x)" _ _ i r]
      by (auto simp: replace_region_def lookup_inv_def unaligned_replace_region_def unaligned_inv_def
          split: if_splits)
  next
    case (Aligned x)
    then show ?thesis
      using assms chk slots_ok_replace [of "regions (a_common x)" i r]
      by (auto simp: replace_region_def lookup_inv_def aligned_replace_region_def aligned_inv_def
          Let_def split: if_splits)
  qed (use chk in simp)
qed

lemma linear_find_addresses:
  assumes "map vm_addr rs = map vm_addr rs'"
  shows "linear_find rs a = linear_find rs' a"
proof -
  have len: "length (takeWhile (\<lambda>r. vm_addr r \<le> a) rs) = length (takeWhile (\<lambda>v. v \<le> a) (map vm_addr rs))" for rs
    by (simp add: takeWhile_map comp_def)
  show ?thesis unfolding linear_find_def by (simp only: len assms)
qed

lemma find_after_replace:
  assumes "lookup_inv m" "fst (find_region m a) = Some (i, r0)" "replace_region m i r = (Ok u, m')"
  shows "fst (find_region m' a) = Some (i, r)"
proof -
  note rep = replace_region_Ok [OF assms(1,3)]
  show ?thesis
  proof (cases m)
    case Identity
    with assms(2) show ?thesis by simp
  next
    case (Aligned x)
    then obtain x' where x': "m' = Aligned x'"
      using assms(3) by (auto simp: replace_region_def Let_def aligned_replace_region_def split: if_splits)
    show ?thesis using assms(2) rep(1,3) unfolding Aligned x' by (auto simp: aligned_find_region_Some)
  next
    case (Unaligned x)
    then obtain x' where x': "m' = Unaligned x'"
      using assms(3) by (auto simp: replace_region_def Let_def unaligned_replace_region_def split: if_splits)
    let ?rs = "regions (u_common x)"
    have rs': "regions (u_common x') = ?rs[i := r]" using rep(3) Unaligned x' by simp
    have "map vm_addr (?rs[i := r]) = map vm_addr ?rs"
      using rep(1,2) Unaligned by (metis get_regions.simps(3) list_update_id map_update)
    then have "linear_find (?rs[i := r]) a = linear_find ?rs a" by (rule linear_find_addresses)
    moreover have "linear_find ?rs a = Some i"
      using assms(1,2) Unaligned by (auto simp: lookup_inv_def unaligned_find_region_spec)
    ultimately show ?thesis
      using rep(1,4) unfolding Unaligned x' by (simp add: lookup_inv_def unaligned_find_region_spec rs')
  qed
qed

section \<open>Translation\<close>

lemma set_captured_simps [simp]:
  "get_access_tracker (set_captured m env) = get_access_tracker m"
  "get_regions (set_captured m env) = get_regions m"
  "set_captured m env = Identity \<longleftrightarrow> m = Identity"
  "lookup_inv (set_captured m env) \<longleftrightarrow> lookup_inv m"
  "mapping_inv (set_captured m env) \<longleftrightarrow> mapping_inv m"
  "fst (find_region (set_captured m env) b) = fst (find_region m b)"
  by (cases m; simp add: set_captured_def get_access_tracker_def mapping_inv_def lookup_inv_def aligned_inv_def
      unaligned_inv_def aligned_find_region_def unaligned_find_region_def Let_def split: option.splits)+

lemma set_captured_common:
  "common_of (set_captured m env) =
     map_option (\<lambda>c. c\<lparr>access_violation_handler := access_violation_handler c\<lparr>captured := env\<rparr>\<rparr>) (common_of m)"
  by (cases m) (simp_all add: set_captured_def)

lemma generate_access_violation_Err: "\<exists>e. generate_access_violation c t a n = Err e"
  by (simp add: generate_access_violation_def Let_def)

lemma mapping_inv_replace:
  assumes "mapping_inv m" "replace_region m i r = (Ok u, m')" "region_ok r"
  shows "mapping_inv m'" "get_access_tracker m' = get_access_tracker m"
    and "mapping_handler_ok m' \<longleftrightarrow> mapping_handler_ok m"
proof -
  have inv: "lookup_inv m" using assms(1) by (simp add: mapping_inv_def)
  note rep = replace_region_Ok [OF inv assms(2)]
  show t: "get_access_tracker m' = get_access_tracker m"
    by (cases "common_of m") (simp_all add: get_access_tracker_def rep)
  show "mapping_handler_ok m' \<longleftrightarrow> mapping_handler_ok m"
    by (cases "common_of m") (simp_all add: mapping_handler_ok_def rep)
  show "mapping_inv m'"
    using assms(1,3) rep t by (cases "common_of m") (auto simp: mapping_inv_def get_regions_common)
qed

text \<open>
  The one statement on \<open>map_with_access_violation_handler\<close> that loads and stores need: a success
  leaves a mapping in which the region that holds the address translates the access.
\<close>

lemma map_with_handler_cases:
  assumes "map_with_access_violation_handler m t a n = (res :: 'x ProgramResult, m')" "m \<noteq> Identity"
  obtains (mapped) i r h where "find_region m a = (Some (i, r), m')" "vm_to_host r t a n = Some h"
      "res = Ok h"
  | (handled) c i r r' env u m1 h where "common_of m = Some c" "find_region m a = (Some (i, r), m1)"
      "handler_code (access_violation_handler c) (captured (access_violation_handler c)) r
         (saturating_sub (next_region_start (get_regions m1) i) (vm_addr r)) t a n = (r', env)"
      "vm_to_host r' t a n = Some h"
      "replace_region (set_captured m1 env) i r' = (Ok u :: (unit, 'x EbpfError) result, m')"
      "res = Ok h"
  | (failed) e where "m' = snd (find_region m a)" "res = Err e"
  | (refused) c i r r' env m1 e where "common_of m = Some c" "find_region m a = (Some (i, r), m1)"
      "handler_code (access_violation_handler c) (captured (access_violation_handler c)) r
         (saturating_sub (next_region_start (get_regions m1) i) (vm_addr r)) t a n = (r', env)"
      "m' = set_captured m1 env" "res = Err e"
proof -
  obtain c where c: "common_of m = Some c" using assms(2) by (cases m) auto
  obtain f m1 where f: "find_region m a = (f, m1)" by (cases "find_region m a")
  note err = generate_access_violation_Err [of c t a n, where ?'a = 'x]
  show ?thesis
  proof (cases f)
    case None
    then show ?thesis
      using assms c f err failed by (auto simp: map_with_access_violation_handler_def)
  next
    case (Some p)
    then obtain i r where p: "f = Some (i, r)" by (cases p) auto
    show ?thesis
    proof (cases "vm_to_host r t a n")
      case (Some h)
      then show ?thesis using assms c f p mapped by (auto simp: map_with_access_violation_handler_def)
    next
      case miss: None
      obtain r' env where call: "handler_code (access_violation_handler c) (captured (access_violation_handler c)) r
          (saturating_sub (next_region_start (get_regions m1) i) (vm_addr r)) t a n = (r', env)"
        by (rule prod.exhaust)
      show ?thesis
      proof (cases "vm_to_host r' t a n")
        case None
        then show ?thesis
          using assms c f p miss call err refused by (auto simp: map_with_access_violation_handler_def Let_def)
      next
        case (Some h)
        obtain x m2 where x: "replace_region (set_captured m1 env) i r' = (x :: (unit, 'x EbpfError) result, m2)"
          by (rule prod.exhaust)
        show ?thesis
        proof (cases x)
          case (Ok u)
          then show ?thesis using assms c f p miss call Some x handled
            by (auto simp: map_with_access_violation_handler_def Let_def)
        next
          case (Err e)
          then have "m2 = set_captured m1 env" using x replace_region_Err by blast
          with Err show ?thesis using assms c f p miss call Some x refused
            by (auto simp: map_with_access_violation_handler_def Let_def)
        qed
      qed
    qed
  qed
qed

lemma common_of_Identity [simp]: "common_of m = None \<longleftrightarrow> m = Identity"
  by (cases m) simp_all

lemma find_region_identity: "lookup_inv m \<Longrightarrow> snd (find_region m a) = Identity \<longleftrightarrow> m = Identity"
  using common_of_find_region [of m a] by (metis common_of_Identity)

lemma find_region_keeps:
  fixes a :: u64
  assumes "mapping_inv m"
  defines "m1 \<equiv> snd (find_region m a)"
  shows "mapping_inv m1" "mapping_handler_ok m1 \<longleftrightarrow> mapping_handler_ok m"
    "get_access_tracker m1 = get_access_tracker m" "m1 = Identity \<longleftrightarrow> m = Identity" "lookup_inv m1"
    "fst (find_region m1 a) = fst (find_region m a)"
proof -
  have inv: "lookup_inv m" using assms(1) by (simp add: mapping_inv_def)
  show "mapping_inv m1" using assms by auto
  show "mapping_handler_ok m1 \<longleftrightarrow> mapping_handler_ok m" using inv by (simp add: m1_def)
  show "get_access_tracker m1 = get_access_tracker m"
    using inv by (simp add: m1_def get_access_tracker_def common_of_find_region)
  show "m1 = Identity \<longleftrightarrow> m = Identity" using inv by (simp add: m1_def find_region_identity)
  show "lookup_inv m1" using inv by (simp add: m1_def mapping.lookup_inv)
  show "fst (find_region m1 a) = fst (find_region m a)" using inv by (simp add: m1_def mapping.lookup_stable)
qed

lemma set_captured_handler_ok:
  assumes "mapping_handler_ok m1" "common_of m1 = Some c" "region_ok r"
    and "handler_code (access_violation_handler c) (captured (access_violation_handler c)) r max_len t a n = (r', env)"
  shows "mapping_handler_ok (set_captured m1 env)" "region_ok r'"
  using handler_ok_call [OF _ assms(3,4)] assms(1,2) by (auto simp: mapping_handler_ok_def set_captured_common)

lemma map_with_handler_spec:
  assumes "mapping_inv m" "mapping_handler_ok m" "m \<noteq> Identity"
    and "map_with_access_violation_handler m t a n = (res :: 'x ProgramResult, m')"
  shows "mapping_inv m' \<and> mapping_handler_ok m' \<and> get_access_tracker m' = get_access_tracker m
    \<and> m' \<noteq> Identity \<and>
    (\<forall>h. res = Ok h \<longrightarrow> (\<exists>i r. fst (find_region m' a) = Some (i, r) \<and> vm_to_host r t a n = Some h))"
proof -
  have inv: "lookup_inv m" using assms(1) by (simp add: mapping_inv_def)
  note keeps = find_region_keeps [OF assms(1), of a]
  have wf: "region_ok r" if "find_region m a = (Some (i, r), m1)" for i r m1
    using mapping.lookup_mem [OF inv, of a i r] that assms(1) by (simp add: mapping_inv_def list_all_iff)
  have common: "common_of m1 = common_of m" if "find_region m a = (f, m1)" for f m1
    using common_of_find_region [OF inv, of a] that by simp
  from assms(4,3) show ?thesis
  proof (cases rule: map_with_handler_cases)
    case (mapped i r h)
    then show ?thesis using keeps assms(2,3) by simp
  next
    case (handled c i r r' env u m1 h)
    have m1: "m1 = snd (find_region m a)" using handled by simp
    note m1 = keeps [folded m1]
    have ok: "mapping_handler_ok (set_captured m1 env)" "region_ok r'"
      using set_captured_handler_ok [OF _ _ wf [OF handled(2)] handled(3)] m1(2) assms(2) common [OF handled(2)] handled(1)
      by simp_all
    have inv1: "mapping_inv (set_captured m1 env)" "lookup_inv (set_captured m1 env)" using m1(1,5) by simp_all
    note rep = mapping_inv_replace [OF inv1(1) handled(5) ok(2)]
    have "fst (find_region m' a) = Some (i, r')"
      using find_after_replace [OF inv1(2) _ handled(5)] m1(6) handled(2) by simp
    moreover have "m' \<noteq> Identity"
      using replace_region_Ok(3) [OF inv1(2) handled(5)] m1(4) assms(3)
      by (simp add: set_captured_common flip: common_of_Identity)
    ultimately show ?thesis using rep ok(1) m1 handled by simp
  next
    case (failed e)
    then show ?thesis using keeps assms(2,3) by simp
  next
    case (refused c i r r' env m1 e)
    have m1: "m1 = snd (find_region m a)" using refused by simp
    note m1 = keeps [folded m1]
    have "mapping_handler_ok (set_captured m1 env)"
      using set_captured_handler_ok(1) [OF _ _ wf [OF refused(2)] refused(3)] m1(2) assms(2) common [OF refused(2)]
        refused(1)
      by simp
    then show ?thesis using refused(4,5) m1 assms(3) by simp
  qed
qed

section \<open>The accounts behind a mapping\<close>

definition captured_accounts :: "MemoryMapping \<Rightarrow> TransactionAccounts option" where
  "captured_accounts m = (case common_of m of None \<Rightarrow> None | Some c \<Rightarrow> captured (access_violation_handler c))"

definition payloads :: "MemoryMapping \<Rightarrow> nat set" where
  "payloads m = \<Union> (set (map region_payload (get_regions m)))"

text \<open>
  Host memory that no store through a mapping reaches: a property \<open>Q\<close> of regions keeps writable
  regions away from it, all regions have it, and the handler keeps it.
\<close>

definition bytes_at :: "u64 \<Rightarrow> nat \<Rightarrow> u64 set" where
  "bytes_at p n = (\<lambda>i. p + of_nat i) ` {..<n}"

definition keeps_away :: "u64 set \<Rightarrow> (MemoryRegion \<Rightarrow> bool) \<Rightarrow> AccessViolationHandler \<Rightarrow> bool" where
  "keeps_away X Q h \<longleftrightarrow>
     (\<forall>r. Q r \<and> writable r \<longrightarrow> bytes_at (host_addr r) (unat (len r)) \<inter> X = {})
     \<and> (\<forall>env r k t a n. Q r \<longrightarrow> Q (fst (handler_code h env r k t a n)))"

definition spares :: "u64 set \<Rightarrow> MemoryMapping \<Rightarrow> bool" where
  "spares X m \<longleftrightarrow>
     (\<exists>c Q. common_of m = Some c \<and> list_all Q (regions c) \<and> keeps_away X Q (access_violation_handler c))"

lemma keeps_away_captured [simp]: "keeps_away X Q (h\<lparr>captured := env\<rparr>) = keeps_away X Q h"
  by (simp add: keeps_away_def)

lemma spares_region:
  "spares X m \<Longrightarrow> r \<in> set (get_regions m) \<Longrightarrow> writable r \<Longrightarrow> bytes_at (host_addr r) (unat (len r)) \<inter> X = {}"
  unfolding spares_def keeps_away_def by (elim exE conjE) (simp add: list_all_iff get_regions_common)

text \<open>
  Only accounts that a region of the mapping belongs to can have changed, and what was out of reach
  still is.
\<close>

definition accounts_follow :: "MemoryMapping \<Rightarrow> MemoryMapping \<Rightarrow> bool" where
  "accounts_follow m m' \<longleftrightarrow>
     payloads m' = payloads m \<and> env_follows (payloads m) (captured_accounts m) (captured_accounts m')
     \<and> (\<forall>X. spares X m \<longrightarrow> spares X m')"

lemma accounts_follow_refl [simp]: "accounts_follow m m"
  by (simp add: accounts_follow_def env_follows_refl)

lemma accounts_follow_trans: "accounts_follow x y \<Longrightarrow> accounts_follow y z \<Longrightarrow> accounts_follow x z"
  unfolding accounts_follow_def using env_follows_trans by metis

lemma accounts_follow_common: "common_of m' = common_of m \<Longrightarrow> accounts_follow m m'"
  by (simp add: accounts_follow_def payloads_def captured_accounts_def spares_def get_regions_common env_follows_refl)

lemma handler_call_follows:
  assumes inv: "mapping_inv m" "mapping_handler_ok m" "common_of m = Some c" and find: "find_region m a = (Some (i, r), m1)"
    and call: "handler_code (access_violation_handler c) (captured (access_violation_handler c)) r k t a n = (r', env)"
  shows "accounts_follow m (set_captured m1 env)" "common_of m1 = Some c" "lookup_inv (set_captured m1 env)"
    and "region_payload r' = region_payload (get_regions m1 ! i)" "get_regions m1 ! i = r" "i < length (get_regions m1)"
proof -
  have lookup: "lookup_inv m" using inv(1) by (simp add: mapping_inv_def)
  show common: "common_of m1 = Some c" using common_of_find_region [OF lookup, of a] find inv(3) by simp
  show "lookup_inv (set_captured m1 env)" using find mapping.lookup_inv [OF lookup, of a] by simp
  have mem: "i < length (get_regions m)" "get_regions m ! i = r"
    using mapping.lookup_sound [OF lookup, of a i r] find by simp_all
  then show "get_regions m1 ! i = r" "i < length (get_regions m1)" using common inv(3) by (simp_all add: get_regions_common)
  have r: "r \<in> set (get_regions m)" using mem nth_mem by blast
  then have "region_ok r" using inv(1) by (auto simp: mapping_inv_def list_all_iff)
  moreover have "handler_ok (access_violation_handler c)" using inv(2,3) by (simp add: mapping_handler_ok_def)
  ultimately have h: "region_payload r' = region_payload r" "env_follows (region_payload r) (captured (access_violation_handler c)) env"
    using handler_ok_call(3,4) [OF _ _ call] by blast+
  show "region_payload r' = region_payload (get_regions m1 ! i)" using h(1) mem(2) common inv(3) by (simp add: get_regions_common)
  have "region_payload r \<subseteq> payloads m" using r unfolding payloads_def by auto
  then have "env_follows (payloads m) (captured_accounts m) env"
    using env_follows_mono [OF h(2)] inv(3) by (simp add: captured_accounts_def)
  moreover have "spares X (set_captured m1 env) = spares X m" for X
    using common inv(3) by (simp add: spares_def set_captured_common)
  ultimately show "accounts_follow m (set_captured m1 env)"
    using common inv(3) by (simp add: accounts_follow_def payloads_def captured_accounts_def get_regions_common set_captured_common)
qed

text \<open>A region may be replaced by what the handler made of it.\<close>

lemma replaced_follows:
  assumes "lookup_inv m" "replace_region m i r' = (Ok u, m')" "region_payload r' = region_payload (get_regions m ! i)"
    and "common_of m = Some c" "handler_code (access_violation_handler c) env (get_regions m ! i) k t a n = (r', env')"
  shows "accounts_follow m m'"
proof -
  note rep = replace_region_Ok [OF assms(1,2)]
  let ?rs = "get_regions m"
  have c': "common_of m' = Some (c\<lparr>regions := (regions c)[i := r']\<rparr>)" using rep(3) assms(4) by simp
  then have "get_regions m' = ?rs[i := r']" using assms(4) by (simp add: get_regions_common)
  then have "map region_payload (get_regions m') = (map region_payload ?rs)[i := map region_payload ?rs ! i]"
    using assms(3) rep(1) by (simp add: map_update)
  then have "map region_payload (get_regions m') = map region_payload ?rs" by simp
  moreover have "captured_accounts m' = captured_accounts m" using c' assms(4) by (simp add: captured_accounts_def)
  moreover have "spares X m'" if X: "spares X m" for X
  proof -
    obtain Q where Q: "list_all Q (regions c)" "keeps_away X Q (access_violation_handler c)"
      using X assms(4) by (auto simp: spares_def)
    moreover have "?rs ! i \<in> set (regions c)" using rep(1) assms(4) by (simp add: get_regions_common)
    ultimately have "Q r'" using arg_cong [OF assms(5), of fst] unfolding keeps_away_def list_all_iff by force
    then have "list_all Q ((regions c)[i := r'])"
      using Q(1) set_update_subset_insert [of "regions c" i r'] by (auto simp: list_all_iff)
    with Q(2) c' show ?thesis by (auto simp: spares_def)
  qed
  ultimately show ?thesis by (simp add: accounts_follow_def payloads_def env_follows_refl)
qed

lemma map_with_handler_follows:
  assumes "mapping_inv m" "mapping_handler_ok m"
  shows "accounts_follow m (snd (map_with_access_violation_handler m t a n :: 'x ProgramResult \<times> MemoryMapping))"
proof (cases "m = Identity")
  case True
  then show ?thesis by (simp add: map_with_access_violation_handler_def)
next
  case False
  obtain res m' where r: "map_with_access_violation_handler m t a n = (res :: 'x ProgramResult, m')" by (rule prod.exhaust)
  have found: "accounts_follow m (snd (find_region m a))"
    using common_of_find_region [of m a] assms(1) by (intro accounts_follow_common) (simp add: mapping_inv_def)
  from r False have "accounts_follow m m'"
  proof (cases rule: map_with_handler_cases)
    case (mapped i r h)
    then show ?thesis using found by simp
  next
    case (handled c i r r' env u m1 h)
    note c = handler_call_follows [OF assms handled(1-3)]
    have "common_of (set_captured m1 env) = Some (c\<lparr>access_violation_handler := access_violation_handler c\<lparr>captured := env\<rparr>\<rparr>)"
      using c(2) by (simp add: set_captured_common)
    from replaced_follows [OF c(3) handled(5) _ this] have "accounts_follow (set_captured m1 env) m'"
      using c(4,5) handled(3) by simp
    then show ?thesis by (rule accounts_follow_trans [OF c(1)])
  next
    case (failed e)
    then show ?thesis using found by simp
  next
    case (refused c i r r' env m1 e)
    then show ?thesis using handler_call_follows(1) [OF assms refused(1-3)] by simp
  qed
  then show ?thesis using r by simp
qed

section \<open>Host memory\<close>

lemma write_bytes_other:
  "(\<And>i. i < length bs \<Longrightarrow> x \<noteq> host + of_nat i) \<Longrightarrow> write_bytes mem host bs x = mem x"
proof (induction bs arbitrary: mem host)
  case (Cons b bs)
  have "x \<noteq> host" using Cons.prems [of 0] by simp
  have "write_bytes (mem(host := b)) (host + 1) bs x = (mem(host := b)) x"
  proof (rule Cons.IH)
    fix i assume "i < length bs"
    then show "x \<noteq> host + 1 + of_nat i" using Cons.prems [of "Suc i"] by (simp add: add.assoc)
  qed
  with \<open>x \<noteq> host\<close> show ?case by simp
qed simp

lemma of_nat_u64_eq_0: "i < 2 ^ 64 \<Longrightarrow> (of_nat i :: u64) = 0 \<longleftrightarrow> i = 0"
  by (cases "i = 0") (auto simp: word_of_nat_eq_0_iff dest: dvd_imp_le)

lemma read_bytes_Suc: "read_bytes m host (Suc k) = m host # read_bytes m (host + 1) k"
  by (simp add: read_bytes_def upt_conv_Cons map_Suc_upt [symmetric] add.assoc del: upt_Suc)

lemma read_write_bytes:
  "length bs < 2 ^ 64 \<Longrightarrow> read_bytes (write_bytes mem host bs) host (length bs) = bs"
proof (induction bs arbitrary: mem host)
  case (Cons b bs)
  have "host \<noteq> host + 1 + of_nat i" if "i < length bs" for i
    using of_nat_u64_eq_0 [of "Suc i"] that Cons.prems by (auto simp: add.assoc)
  then have "write_bytes (mem(host := b)) (host + 1) bs host = b" by (subst write_bytes_other) auto
  with Cons show ?case by (simp add: read_bytes_Suc)
qed (simp add: read_bytes_def)

lemma from_le_take_bytes:
  assumes "n \<le> 8"
  shows "from_le_bytes (take n (to_le_bytes (v :: u64))) = take_bit (8 * n) v"
proof (rule bit_word_eqI)
  fix k assume k: "k < LENGTH(64)"
  have "8 * (k div 8) + k mod 8 = k" by simp
  moreover have "k div 8 < n \<longleftrightarrow> k < 8 * n" by auto
  ultimately show "bit (from_le_bytes (take n (to_le_bytes v)) :: u64) k = bit (take_bit (8 * n) v) k"
    using k assms by (auto simp: bit_from_le_bytes bit_simps)
qed

section \<open>Tracking\<close>

lemma track_access_simps [simp]:
  "get_access_tracker (track_access m a n) = map_option (\<lambda>t. check_access t a n) (get_access_tracker m)"
  "get_regions (track_access m a n) = get_regions m"
  "track_access m a n = Identity \<longleftrightarrow> m = Identity"
  "lookup_inv (track_access m a n) \<longleftrightarrow> lookup_inv m"
  "mapping_handler_ok (track_access m a n) \<longleftrightarrow> mapping_handler_ok m"
  by (cases m; simp add: track_access_def get_access_tracker_def lookup_inv_def aligned_inv_def
      unaligned_inv_def mapping_handler_ok_def)+

lemma accounts_follow_track [simp]: "accounts_follow m (track_access m a n)"
  by (cases m) (simp_all add: accounts_follow_def payloads_def captured_accounts_def spares_def track_access_def env_follows_refl)

lemma mapping_inv_track [simp]: "mapping_inv m \<Longrightarrow> mapping_inv (track_access m a n)"
  by (auto simp: mapping_inv_def)

lemma find_region_track [simp]: "fst (find_region (track_access m a n) b) = fst (find_region m b)"
  by (cases m) (simp_all add: track_access_def aligned_find_region_def unaligned_find_region_def Let_def
      split: option.splits)

lemma map_with_handler_tracker:
  assumes "lookup_inv m"
  shows "get_access_tracker (snd (map_with_access_violation_handler m t a n :: 'x ProgramResult \<times> _)) =
    get_access_tracker m"
proof (cases "m = Identity")
  case True
  then show ?thesis by (simp add: map_with_access_violation_handler_def)
next
  case False
  obtain res m' where r: "map_with_access_violation_handler m t a n = (res :: 'x ProgramResult, m')"
    by (cases "map_with_access_violation_handler m t a n :: 'x ProgramResult \<times> _")
  from r False show ?thesis
  proof (cases rule: map_with_handler_cases)
    case (mapped i x h)
    then have "m' = snd (find_region m a)" by simp
    then show ?thesis using assms r by (simp add: get_access_tracker_def common_of_find_region)
  next
    case (handled c i x x' env u m1 h)
    then have m1: "m1 = snd (find_region m a)" by simp
    have "lookup_inv (set_captured m1 env)" using assms by (simp add: m1 mapping.lookup_inv)
    from replace_region_Ok(3) [OF this handled(5)] show ?thesis
      using assms r
      by (simp add: get_access_tracker_def set_captured_common m1 common_of_find_region option.map_comp comp_def)
  next
    case (refused c i x x' env m1 e)
    then have "m1 = snd (find_region m a)" by simp
    then show ?thesis using assms r refused(4)
      by (simp add: get_access_tracker_def set_captured_common common_of_find_region option.map_comp comp_def)
  next
    case (failed e)
    then show ?thesis using assms r by (simp add: get_access_tracker_def common_of_find_region)
  qed
qed

lemma load_tracker:
  assumes "lookup_inv m"
  shows "get_access_tracker (snd (load n mem m a :: 'x ProgramResult \<times> _)) =
    map_option (\<lambda>t. check_access t a (of_nat n)) (get_access_tracker m)"
  using map_with_handler_tracker [of "track_access m a (of_nat n)" Load a "of_nat n", where ?'x = 'x] assms
  by (auto simp: load_def Let_def split: prod.splits result.splits)

lemma store_tracker:
  assumes "lookup_inv m"
  shows "get_access_tracker (fst (snd (store n mem m v a :: 'x ProgramResult \<times> _))) = get_access_tracker m"
  using map_with_handler_tracker [of m Store a "of_nat n", where ?'x = 'x] assms
  by (auto simp: store_def split: prod.splits result.splits)

lemma map_memory_state:
  "snd (map_memory m t a n :: 'x ProgramResult \<times> _) =
     snd (find_region (if t = Load then track_access m a n else m) a)"
  by (auto simp: map_memory_def Let_def split: prod.splits option.splits)

text \<open>The monitor's contract holds of a mapping: reading through \<open>map_memory\<close>.\<close>

definition mapping_log :: "MemoryMapping \<Rightarrow> (u64 \<times> usize) list" where
  "mapping_log m = (case get_access_tracker m of None \<Rightarrow> [] | Some t \<Rightarrow> get_forbidden_accesses t)"

definition mapping_watched :: "MemoryMapping \<Rightarrow> u64 range list" where
  "mapping_watched m = (case get_access_tracker m of None \<Rightarrow> [] | Some t \<Rightarrow> watched_ranges t)"

lemma mapping_log_check:
  assumes "mapping_inv m" "0 < n"
    and "get_access_tracker m' = map_option (\<lambda>t. check_access t a n) (get_access_tracker m)"
  shows "mapping_log m' = mapping_log m @ (if reads_forbidden (mapping_watched m) a n then [(a, n)] else [])"
  using assms
  by (cases "get_access_tracker m")
     (simp_all add: mapping_log_def mapping_watched_def tracker.log_note mapping_inv_def reads_forbidden_def)

interpretation map_log: read_monitor mapping_inv
  "\<lambda>m a n. snd (map_memory m Load a n :: unit ProgramResult \<times> _)" mapping_log
  "\<lambda>m. reads_forbidden (mapping_watched m)"
proof
  fix m :: MemoryMapping and a n :: u64 assume inv: "mapping_inv m"
  let ?m = "snd (map_memory m Load a n :: unit ProgramResult \<times> _)"
  show "mapping_inv ?m" using inv by (auto simp: map_memory_state)
  have t: "get_access_tracker ?m = map_option (\<lambda>t. check_access t a n) (get_access_tracker m)"
    using inv by (simp add: map_memory_state find_region_keeps)
  then show "reads_forbidden (mapping_watched ?m) = reads_forbidden (mapping_watched m)"
    by (cases "get_access_tracker m") (simp_all add: mapping_watched_def)
  show "mapping_log ?m = mapping_log m @ (if reads_forbidden (mapping_watched m) a n then [(a, n)] else [])"
    if "0 < n"
    using inv that t by (rule mapping_log_check)
qed

section \<open>Properties\<close>

lemma access_log:
  assumes "mapping_inv m" "0 < n" "n \<le> 8"
  shows "mapping_log (snd (load n mem m a)) =
      mapping_log m @ (if reads_forbidden (mapping_watched m) a (of_nat n) then [(a, of_nat n)] else [])"
    and "mapping_log (fst (snd (store n mem m v a))) = mapping_log m"
proof -
  have inv: "lookup_inv m" using assms(1) by (simp add: mapping_inv_def)
  have "0 < (of_nat n :: u64)" using assms(2,3) of_nat_u64_eq_0 [of n] by (simp add: word_neq_0_conv [symmetric])
  then show "mapping_log (snd (load n mem m a)) =
      mapping_log m @ (if reads_forbidden (mapping_watched m) a (of_nat n) then [(a, of_nat n)] else [])"
    using load_tracker [OF inv] by (rule mapping_log_check [OF assms(1)])
  show "mapping_log (fst (snd (store n mem m v a))) = mapping_log m"
    by (simp add: mapping_log_def store_tracker [OF inv])
qed

text \<open>
  C10: every load is reported.  Whatever a load returns, the mapping's log grows by exactly that
  load when it touches a watched range; a store never adds to the log.
\<close>

theorem loads_recorded:
  assumes "mapping_inv m" "0 < n" "n \<le> 8"
  shows "mapping_log (snd (load n mem m a)) =
      mapping_log m @ (if reads_forbidden (mapping_watched m) a (of_nat n) then [(a, of_nat n)] else [])
    \<and> mapping_log (fst (snd (store n mem m v a))) = mapping_log m"
  using access_log [OF assms] ..

lemma load_safe:
  assumes "mapping_inv m" "mapping_handler_ok m" "m \<noteq> Identity" "n \<le> 8" "load n mem m a = (Ok v :: 'x ProgramResult, m')"
  shows "mapping_inv m'"
    and "\<exists>r \<in> set (get_regions m'). \<exists>h. unat (host_addr r) \<le> unat h
      \<and> unat h + n \<le> unat (host_addr r) + unat (len r) \<and> v = from_le_bytes (read_bytes mem h n)"
proof -
  let ?m = "track_access m a (of_nat n)"
  obtain h where h: "map_with_access_violation_handler ?m Load a (of_nat n) = (Ok h :: 'x ProgramResult, m')"
    "v = from_le_bytes (read_bytes mem h n)"
    using assms(5) by (auto simp: load_def Let_def split: prod.splits result.splits)
  have spec: "mapping_inv m'" "\<exists>i r. fst (find_region m' a) = Some (i, r) \<and> vm_to_host r Load a (of_nat n) = Some h"
    using map_with_handler_spec [OF _ _ _ h(1)] assms(1-3) by auto
  then obtain i r where r: "fst (find_region m' a) = Some (i, r)" "vm_to_host r Load a (of_nat n) = Some h"
    by blast
  have inv: "lookup_inv m'" "list_all region_wf (get_regions m')" using spec(1) by (auto simp: mapping_inv_def list_all_iff region_ok_wf)
  have "unat (of_nat n :: u64) = n" using assms(4) by (simp only: unat_of_nat) simp
  then show "\<exists>r \<in> set (get_regions m'). \<exists>h. unat (host_addr r) \<le> unat h
      \<and> unat h + n \<le> unat (host_addr r) + unat (len r) \<and> v = from_le_bytes (read_bytes mem h n)"
    using mapping.lookup_mem [OF inv(1) r(1)] mapping.lookup_safe [OF inv r] h(2) by auto
  show "mapping_inv m'" by (rule spec(1))
qed

text \<open>
  C16: a load that succeeds returns the little-endian value of bytes that lie in the host slice of a
  mapped region, and keeps the mapping's invariant.
\<close>

theorem load_in_bounds:
  assumes "mapping_inv m" "mapping_handler_ok m" "m \<noteq> Identity" "n \<le> 8" "load n mem m a = (Ok v, m')"
  shows "mapping_inv m'
    \<and> (\<exists>r \<in> set (get_regions m'). \<exists>h. unat (host_addr r) \<le> unat h
      \<and> unat h + n \<le> unat (host_addr r) + unat (len r) \<and> v = from_le_bytes (read_bytes mem h n))"
  using load_safe [OF assms] ..

lemma store_safe:
  assumes "mapping_inv m" "mapping_handler_ok m" "m \<noteq> Identity" "n \<le> 8"
    and "store n mem m v a = (res :: 'x ProgramResult, m', mem')"
  shows "mapping_inv m'"
    and "case res of
        Ok h \<Rightarrow> \<exists>r \<in> set (get_regions m'). writable r \<and> unat (host_addr r) \<le> unat h
          \<and> unat h + n \<le> unat (host_addr r) + unat (len r)
          \<and> (\<forall>x. unat x < unat h \<or> unat h + n \<le> unat x \<longrightarrow> mem' x = mem x)
      | Err e \<Rightarrow> mem' = mem"
proof -
  obtain m1 res1 where m: "map_with_access_violation_handler m Store a (of_nat n) = (res1 :: 'x ProgramResult, m1)"
    by (cases "map_with_access_violation_handler m Store a (of_nat n) :: 'x ProgramResult \<times> _")
  have res: "m1 = m'" "res1 = res" using assms(5) m by (auto simp: store_def split: result.splits)
  note spec = map_with_handler_spec [OF assms(1-3) m, unfolded res]
  then show inv: "mapping_inv m'" by simp
  have n: "unat (of_nat n :: u64) = n" using assms(4) by (simp only: unat_of_nat) simp
  show "case res of
        Ok h \<Rightarrow> \<exists>r \<in> set (get_regions m'). writable r \<and> unat (host_addr r) \<le> unat h
          \<and> unat h + n \<le> unat (host_addr r) + unat (len r)
          \<and> (\<forall>x. unat x < unat h \<or> unat h + n \<le> unat x \<longrightarrow> mem' x = mem x)
      | Err e \<Rightarrow> mem' = mem"
  proof (cases res)
    case (Err e)
    then show ?thesis using assms(5) m res by (simp add: store_def)
  next
    case (Ok h)
    then obtain i r where r: "fst (find_region m' a) = Some (i, r)" "vm_to_host r Store a (of_nat n) = Some h"
      using spec by blast
    have l: "lookup_inv m'" "list_all region_wf (get_regions m')" using inv by (auto simp: mapping_inv_def list_all_iff region_ok_wf)
    note safe = mapping.lookup_safe [OF l r] mapping.lookup_mem [OF l(1) r(1)]
    have mem': "mem' = write_bytes mem h (take n (to_le_bytes v))"
      using assms(5) m res Ok by (simp add: store_def)
    have "mem' x = mem x" if x: "unat x < unat h \<or> unat h + n \<le> unat x" for x
      unfolding mem'
    proof (rule write_bytes_other)
      fix i assume "i < length (take n (to_le_bytes v))"
      then have i: "i < n" by simp
      have "unat (of_nat i :: u64) = i" using i assms(4) by (simp only: unat_of_nat) simp
      moreover have "unat h + i < 2 ^ 64"
        using safe(2,4) i n l(2) by (auto simp: list_all_iff region_wf_def)
      ultimately have "unat (h + of_nat i) = unat h + i" by (simp add: unat_word_ariths)
      then show "x \<noteq> h + of_nat i" using x i by auto
    qed
    then show ?thesis using safe n Ok by auto
  qed
qed

text \<open>
  C17: a store changes host memory only inside the slice of a writable mapped region, and only the
  bytes it was asked to write; a store that fails changes nothing.
\<close>

theorem store_in_bounds:
  assumes "mapping_inv m" "mapping_handler_ok m" "m \<noteq> Identity" "n \<le> 8"
    and "store n mem m v a = (res, m', mem')"
  shows "mapping_inv m' \<and>
      (case res of
        Ok h \<Rightarrow> \<exists>r \<in> set (get_regions m'). writable r \<and> unat (host_addr r) \<le> unat h
          \<and> unat h + n \<le> unat (host_addr r) + unat (len r)
          \<and> (\<forall>x. unat x < unat h \<or> unat h + n \<le> unat x \<longrightarrow> mem' x = mem x)
      | Err e \<Rightarrow> mem' = mem)"
  using store_safe [OF assms] ..

text \<open>
  C18: what was stored is loaded again: a load of the same width at the same address after a
  successful store returns the low bytes of the stored value.
\<close>

theorem store_then_load:
  assumes "mapping_inv m" "mapping_handler_ok m" "m \<noteq> Identity" "n \<le> 8"
    and "store n mem m v a = (Ok h :: 'x ProgramResult, m', mem')"
  shows "fst (load n mem' m' a) = (Ok (take_bit (8 * n) v) :: 'x ProgramResult)"
proof -
  have m: "map_with_access_violation_handler m Store a (of_nat n) = (Ok h :: 'x ProgramResult, m')"
    and mem': "mem' = write_bytes mem h (take n (to_le_bytes v))"
    using assms(5) by (auto simp: store_def split: prod.splits result.splits)
  note spec = map_with_handler_spec [OF assms(1-3) m]
  then obtain i r where r: "fst (find_region m' a) = Some (i, r)" "vm_to_host r Store a (of_nat n) = Some h"
    by auto
  have "r \<in> set (get_regions m')" using mapping.lookup_mem spec r(1) by (auto simp: mapping_inv_def)
  then have "region_wf r" using spec by (auto simp: mapping_inv_def list_all_iff region_ok_wf)
  then have load: "vm_to_host r Load a (of_nat n) = Some h" using r(2) by (simp add: vm_to_host_spec)
  let ?m = "track_access m' a (of_nat n)"
  have "fst (find_region ?m a) = Some (i, r)" using r(1) by simp
  then obtain m2 where "find_region ?m a = (Some (i, r), m2)" by (metis prod.collapse)
  then have "map_with_access_violation_handler ?m Load a (of_nat n) = (Ok h :: 'x ProgramResult, m2)"
    using load spec by (cases "common_of ?m") (simp_all add: map_with_access_violation_handler_def)
  moreover have "read_bytes mem' h n = take n (to_le_bytes v)"
    unfolding mem' using read_write_bytes [of "take n (to_le_bytes v)" mem h] assms(4) by simp
  ultimately show ?thesis using from_le_take_bytes [OF assms(4), of v] by (simp add: load_def)
qed

text \<open>The sample regions in a fresh mapping, with a watched range in the input region.\<close>

definition sample_mapping :: MemoryMapping where
  "sample_mapping =
     Aligned \<lparr>a_common =
       (new_common
         [new_readonly empty_slice 0, sample_regions ! 1, new_readonly empty_slice MM_STACK_START,
          sample_regions ! 2, sample_regions ! 0]
         default_Config V0 default_access_violation_handler)
       \<lparr>access_tracker := add_watched_range new_tracker (mk_range (MM_INPUT_START + 8) (MM_INPUT_START + 16))\<rparr>\<rparr>"

lemma sample_mapping_ok: "mapping_inv sample_mapping" "mapping_handler_ok sample_mapping" "sample_mapping \<noteq> Identity"
proof -
  have "find_misplaced (get_regions sample_mapping) 0 = None"
    by (simp add: sample_mapping_def new_common_def region_slot_div sample_regions_def
        new_readonly_def new_writable_def)
  then have "slots_ok (get_regions sample_mapping)" by (simp add: find_misplaced_None slots_ok_def)
  moreover have "list_all region_ok (get_regions sample_mapping)"
    by (simp add: sample_mapping_def new_common_def sample_regions_def new_readonly_def
        new_writable_def region_ok_def region_wf_def empty_slice_def)
  moreover have "\<forall>t. get_access_tracker sample_mapping = Some t \<longrightarrow> tracker_inv t"
    by (auto simp: sample_mapping_def get_access_tracker_def)
  ultimately show "mapping_inv sample_mapping"
    by (simp add: mapping_inv_def lookup_inv_def aligned_inv_def sample_mapping_def)
  show "mapping_handler_ok sample_mapping" "sample_mapping \<noteq> Identity"
    by (simp_all add: mapping_handler_ok_def sample_mapping_def new_common_def)
qed

theorem loads_recorded_witness:
  "mapping_log (snd (load 4 (\<lambda>_. 0) sample_mapping (MM_INPUT_START + 6) :: unit ProgramResult \<times> _)) =
     [(MM_INPUT_START + 6, 4)]"
proof -
  have "mapping_log sample_mapping = []"
    "mapping_watched sample_mapping = [mk_range (MM_INPUT_START + 8) (MM_INPUT_START + 16)]"
    by (simp_all add: mapping_log_def mapping_watched_def get_access_tracker_def sample_mapping_def
        add_watched_range_def range_is_empty_def new_tracker_def get_forbidden_accesses_def)
  moreover have "reads_forbidden [mk_range (MM_INPUT_START + 8) (MM_INPUT_START + 16)] (MM_INPUT_START + 6) 4"
    by (simp add: reads_forbidden_def touches_iff_overlap range_is_empty_def saturating_add_def)
  ultimately show ?thesis
    using loads_recorded [OF sample_mapping_ok(1), of 4 "\<lambda>_. 0" "MM_INPUT_START + 6", THEN conjunct1] by simp
qed

lemma sample_find_heap:
  "map_with_access_violation_handler sample_mapping t (MM_HEAP_START + 4) 2 =
     (Ok 0x3004 :: unit ProgramResult, sample_mapping)"
proof -
  have "aligned_find_region m (MM_HEAP_START + 4) = Some (3, sample_regions ! 2)"
    if "sample_mapping = Aligned m" for m
    using that by (auto simp: aligned_find_region_Some region_slot_div sample_mapping_def new_common_def)
  moreover have "vm_to_host (sample_regions ! 2) t (MM_HEAP_START + 4) 2 = Some 0x3004"
    by (simp add: sample_regions_def new_writable_def vm_to_host_def saturating_sub_def
        checked_add_def saturating_add_def)
  ultimately show ?thesis
    by (cases sample_mapping) (simp_all add: map_with_access_violation_handler_def sample_mapping_def)
qed

lemma sample_store:
  "store 2 mem sample_mapping 0xabcd1234 (MM_HEAP_START + 4) =
     (Ok 0x3004 :: unit ProgramResult, sample_mapping, write_bytes mem 0x3004 [0x34, 0x12])"
proof -
  have "take 2 (to_le_bytes (0xabcd1234 :: u64)) = [0x34, 0x12]" by code_simp
  then show ?thesis by (simp only: store_def) (simp add: sample_find_heap [simplified])
qed

theorem store_in_bounds_witness:
  "case store 2 (\<lambda>_. 0) sample_mapping 0xabcd1234 (MM_HEAP_START + 4) of (res :: unit ProgramResult, m', mem') \<Rightarrow>
     mapping_inv m' \<and> res = Ok 0x3004 \<and> (\<forall>x. unat x < 0x3004 \<or> 0x3006 \<le> unat x \<longrightarrow> mem' x = 0)"
  using store_in_bounds [OF sample_mapping_ok _ sample_store [of "\<lambda>_. 0"]] sample_store [of "\<lambda>_. 0"]
  by auto

theorem store_then_load_witness:
  "case store 2 (\<lambda>_. 0) sample_mapping 0xabcd1234 (MM_HEAP_START + 4) of (res :: unit ProgramResult, m', mem') \<Rightarrow>
     fst (load 2 mem' m' (MM_HEAP_START + 4)) = (Ok 0x1234 :: unit ProgramResult)"
  using store_then_load [OF sample_mapping_ok _ sample_store [of "\<lambda>_. 0"]] sample_store [of "\<lambda>_. 0"]
  by simp

theorem load_in_bounds_witness:
  "\<exists>m'. load 2 (\<lambda>_. 7) sample_mapping (MM_HEAP_START + 4) = (Ok 0x707 :: unit ProgramResult, m') \<and> mapping_inv m'"
proof -
  let ?m = "track_access sample_mapping (MM_HEAP_START + 4) 2"
  have "?m = sample_mapping"
    by (simp add: track_access_def sample_mapping_def check_access_def add_watched_range_def
        range_is_empty_def new_tracker_def saturating_add_def)
  then have l: "load 2 (\<lambda>_. 7) sample_mapping (MM_HEAP_START + 4) = (Ok 0x707 :: unit ProgramResult, sample_mapping)"
    using sample_find_heap [of Load]
    by (simp add: load_def read_bytes_def upt_rec push_bit_eq_mult)
  show ?thesis using load_in_bounds [OF sample_mapping_ok _ l] l by auto
qed

end
