(* ===== verification/Detector.thy ===== *)
theory Detector
  imports Ebpf Accounts
begin

text \<open>
  The detection library, \<open>gobble-lib/src/lib.rs\<close>: from the shape of the instructions of a
  transaction to the byte offsets, in the instructions sysvar, of the forbidden bytes of one
  instruction's data.  \<open>usize\<close> is a 64-bit word that wraps.

  The sysvar is written by \<open>construct_instructions_data\<close> of another crate.  What the library relies
  on is the layout its documentation states, \<open>documented_layout\<close> here.
\<close>

section \<open>Configuration\<close>

record DetectionConfig =
  instruction_index :: usize
  forbidden_ranges :: "usize range list"

definition default_DetectionConfig :: DetectionConfig where
  "default_DetectionConfig = \<lparr>instruction_index = 0, forbidden_ranges = [mk_range 8 16]\<rparr>"

definition new_DetectionConfig :: "usize \<Rightarrow> usize \<Rightarrow> usize \<Rightarrow> DetectionConfig" where
  "new_DetectionConfig index forbidden_start forbidden_end =
     \<lparr>instruction_index = index, forbidden_ranges = [mk_range forbidden_start forbidden_end]\<rparr>"

definition with_ranges :: "usize \<Rightarrow> usize range list \<Rightarrow> DetectionConfig" where
  "with_ranges index rs = \<lparr>instruction_index = index, forbidden_ranges = rs\<rparr>"

record DetectionResult =
  execution_success :: bool
  forbidden_access_detected :: bool
  detected_accesses :: "(u64 \<times> usize) list"
  logs :: "string list"

record GobbleDetector =
  detector_config :: DetectionConfig

definition new_GobbleDetector :: "DetectionConfig \<Rightarrow> GobbleDetector" where
  "new_GobbleDetector cfg = \<lparr>detector_config = cfg\<rparr>"

definition with_default_config :: GobbleDetector where
  "with_default_config = new_GobbleDetector default_DetectionConfig"

record InstructionInfo =
  num_accounts :: usize
  data_len :: usize

definition new_InstructionInfo :: "usize \<Rightarrow> usize \<Rightarrow> InstructionInfo" where
  "new_InstructionInfo n k = \<lparr>num_accounts = n, data_len = k\<rparr>"

section \<open>Offsets\<close>

datatype DetectError =
    InvalidInstructionIndex usize nat
  | RangeExceedsData "usize range" usize

text \<open>What the loop adds for an instruction before the target.\<close>

fun skip_instructions :: "usize \<Rightarrow> InstructionInfo list \<Rightarrow> usize" where
  "skip_instructions offset [] = offset"
| "skip_instructions offset (instr # instrs) =
     skip_instructions (offset + 2 + num_accounts instr * 33 + 32 + 2 + data_len instr) instrs"

fun push_offsets ::
  "usize \<Rightarrow> usize \<Rightarrow> usize range list \<Rightarrow> (usize range list, DetectError) result"
where
  "push_offsets offset n [] = Ok []"
| "push_offsets offset n (r # rs) =
     (if range_end r > n then Err (RangeExceedsData r n)
      else and_then (push_offsets offset n rs) (\<lambda>offs.
        Ok (mk_range (offset + range_start r) (offset + range_end r) # offs)))"

definition calculate_forbidden_sysvar_offsets ::
  "GobbleDetector \<Rightarrow> InstructionInfo list \<Rightarrow> (usize range list, DetectError) result"
where
  "calculate_forbidden_sysvar_offsets d instructions =
     (let index = instruction_index (detector_config d) in
      if unat index \<ge> length instructions
      then Err (InvalidInstructionIndex index (length instructions))
      else
        let target = instructions ! unat index;
            offset = 2 + 2 * of_nat (length instructions);
            offset = skip_instructions offset (take (unat index) instructions);
            offset = offset + 2 + num_accounts target * 33 + 32 + 2
        in push_offsets offset (data_len target) (forbidden_ranges (detector_config d)))"

definition calculate_forbidden_vm_ranges ::
  "GobbleDetector \<Rightarrow> InstructionInfo list \<Rightarrow> (u64 range list, DetectError) result"
where
  "calculate_forbidden_vm_ranges d instructions =
     and_then (calculate_forbidden_sysvar_offsets d instructions) (\<lambda>offs.
       Ok (map (\<lambda>r. mk_range (MM_INPUT_START + range_start r) (MM_INPUT_START + range_end r)) offs))"

section \<open>The layout of the sysvar\<close>

record SysvarInstruction =
  si_metas :: "(u8 \<times> Pubkey) list"
  si_program_id :: Pubkey
  si_data :: "u8 list"

definition u16_bytes :: "nat \<Rightarrow> u8 list" where
  "u16_bytes n = to_le_bytes (of_nat n :: u16)"

definition layout_instruction :: "SysvarInstruction \<Rightarrow> u8 list" where
  "layout_instruction ix =
     u16_bytes (length (si_metas ix)) @ concat (map (\<lambda>(flags, key). flags # key) (si_metas ix))
       @ si_program_id ix @ u16_bytes (length (si_data ix)) @ si_data ix"

text \<open>
  The documented layout: the number of instructions, a table of as many offsets, the instructions;
  something may follow (the index of the current instruction does).
\<close>

definition documented_layout :: "SysvarInstruction list \<Rightarrow> u8 list \<Rightarrow> bool" where
  "documented_layout ixs bytes \<longleftrightarrow>
     (\<exists>table rest. length table = 2 * length ixs
        \<and> bytes = u16_bytes (length ixs) @ table @ concat (map layout_instruction ixs) @ rest)"

definition keys_ok :: "SysvarInstruction \<Rightarrow> bool" where
  "keys_ok ix \<longleftrightarrow> length (si_program_id ix) = 32 \<and> list_all (\<lambda>(_, key). length key = 32) (si_metas ix)"

definition info_of :: "SysvarInstruction \<Rightarrow> InstructionInfo" where
  "info_of ix = new_InstructionInfo (of_nat (length (si_metas ix))) (of_nat (length (si_data ix)))"

lemma length_u16_bytes [simp]: "length (u16_bytes n) = 2"
  by (simp add: u16_bytes_def length_to_le_bytes)

lemma length_metas:
  "list_all (\<lambda>(_, key). length key = 32) ms \<Longrightarrow> length (concat (map (\<lambda>(flags, key). flags # key) ms)) = 33 * length ms"
  by (induction ms) auto

lemma length_layout_instruction:
  "keys_ok ix \<Longrightarrow> length (layout_instruction ix) = 36 + 33 * length (si_metas ix) + length (si_data ix)"
  by (simp add: layout_instruction_def keys_ok_def length_metas)

lemma skip_instructions_offset:
  "list_all keys_ok ixs \<Longrightarrow>
   skip_instructions offset (map info_of ixs) = offset + of_nat (length (concat (map layout_instruction ixs)))"
  by (induction ixs arbitrary: offset)
     (simp_all add: info_of_def new_InstructionInfo_def length_layout_instruction algebra_simps)

lemma push_offsets_Ok:
  "push_offsets offset n rs = Ok offs \<longleftrightarrow>
     list_all (\<lambda>r. range_end r \<le> n) rs
     \<and> offs = map (\<lambda>r. mk_range (offset + range_start r) (offset + range_end r)) rs"
  by (induction rs arbitrary: offs) (auto simp: and_then_Ok_iff not_less)

text \<open>Where the data of instruction \<open>i\<close> begins.\<close>

definition data_offset :: "SysvarInstruction list \<Rightarrow> nat \<Rightarrow> nat" where
  "data_offset ixs i =
     2 + 2 * length ixs + length (concat (map layout_instruction (take i ixs))) + 36 + 33 * length (si_metas (ixs ! i))"

lemma layout_data:
  assumes "documented_layout ixs bytes" "list_all keys_ok ixs" "i < length ixs"
  shows "take (length (si_data (ixs ! i))) (drop (data_offset ixs i) bytes) = si_data (ixs ! i)"
    and "data_offset ixs i + length (si_data (ixs ! i)) \<le> length bytes"
proof -
  let ?ix = "ixs ! i"
  let ?pre = "concat (map layout_instruction (take i ixs))"
  obtain table rest where b: "length table = 2 * length ixs"
    "bytes = u16_bytes (length ixs) @ table @ concat (map layout_instruction ixs) @ rest"
    using assms(1) by (auto simp: documented_layout_def)
  have "concat (map layout_instruction ixs) = concat (map layout_instruction (take i ixs @ ?ix # drop (Suc i) ixs))"
    by (rule arg_cong [OF id_take_nth_drop [OF assms(3)]])
  then have split: "concat (map layout_instruction ixs) =
      ?pre @ layout_instruction ?ix @ concat (map layout_instruction (drop (Suc i) ixs))"
    by simp
  let ?h = "u16_bytes (length (si_metas ?ix)) @ concat (map (\<lambda>(flags, key). flags # key) (si_metas ?ix))
      @ si_program_id ?ix @ u16_bytes (length (si_data ?ix))"
  have ok: "keys_ok ?ix" using assms(2,3) by (simp add: list_all_length)
  have h: "length ?h = 36 + 33 * length (si_metas ?ix)" using ok by (simp add: keys_ok_def length_metas)
  have "bytes = (u16_bytes (length ixs) @ table @ ?pre @ ?h) @ si_data ?ix
      @ concat (map layout_instruction (drop (Suc i) ixs)) @ rest"
    unfolding b(2) split by (simp add: layout_instruction_def)
  moreover have "length (u16_bytes (length ixs) @ table @ ?pre @ ?h) = data_offset ixs i"
    using b(1) h by (simp add: data_offset_def)
  ultimately obtain us vs where us: "bytes = us @ si_data ?ix @ vs" "length us = data_offset ixs i" by blast
  show "take (length (si_data ?ix)) (drop (data_offset ixs i) bytes) = si_data ?ix"
    unfolding us(1) us(2) [symmetric] by simp
  show "data_offset ixs i + length (si_data ?ix) \<le> length bytes"
    unfolding us(1) us(2) [symmetric] by simp
qed

lemma calculated_offsets:
  assumes "list_all keys_ok ixs" "unat (instruction_index (detector_config d)) < length ixs"
  shows "calculate_forbidden_sysvar_offsets d (map info_of ixs) =
    push_offsets (of_nat (data_offset ixs (unat (instruction_index (detector_config d)))))
      (of_nat (length (si_data (ixs ! unat (instruction_index (detector_config d)))))) (forbidden_ranges (detector_config d))"
proof -
  let ?i = "unat (instruction_index (detector_config d))"
  have "list_all keys_ok (take ?i ixs)" using assms(1) by (auto simp: list_all_iff dest: in_set_takeD)
  then have "skip_instructions (2 + 2 * of_nat (length ixs)) (take ?i (map info_of ixs)) =
      2 + 2 * of_nat (length ixs) + of_nat (length (concat (map layout_instruction (take ?i ixs))))"
    by (simp only: take_map skip_instructions_offset)
  then have "skip_instructions (2 + 2 * of_nat (length ixs)) (take ?i (map info_of ixs))
      + 2 + num_accounts (info_of (ixs ! ?i)) * 33 + 32 + 2 = of_nat (data_offset ixs ?i)"
    by (simp add: data_offset_def info_of_def new_InstructionInfo_def algebra_simps)
  moreover have "data_len (info_of (ixs ! ?i)) = of_nat (length (si_data (ixs ! ?i)))"
    by (simp add: info_of_def new_InstructionInfo_def)
  ultimately show ?thesis
    using assms(2) by (simp add: calculate_forbidden_sysvar_offsets_def Let_def)
qed

lemma unat_offset: "k + unat x < 2 ^ 64 \<Longrightarrow> unat (of_nat k + (x :: u64)) = k + unat x"
proof -
  assume "k + unat x < 2 ^ 64"
  then have "unat (of_nat (k + unat x) :: u64) = k + unat x" by (rule unat_of_nat_u64)
  moreover have "(of_nat (k + unat x) :: u64) = of_nat k + x" by simp
  ultimately show ?thesis by (simp only:)
qed

lemma offsets_in_layout:
  assumes "documented_layout ixs bytes" "list_all keys_ok ixs" "length bytes < 2 ^ 64"
    and "calculate_forbidden_sysvar_offsets d (map info_of ixs) = Ok offs"
    and "k < length (forbidden_ranges (detector_config d))" "forbidden_ranges (detector_config d) ! k = r"
    and "range_start r \<le> range_end r"
  shows "length offs = length (forbidden_ranges (detector_config d))
    \<and> (\<exists>secret. slice_get (si_data (ixs ! unat (instruction_index (detector_config d))))
                    (unat (range_start r)) (unat (range_end r)) = Some secret
          \<and> slice_get bytes (unat (range_start (offs ! k))) (unat (range_end (offs ! k))) = Some secret)"
proof -
  let ?i = "unat (instruction_index (detector_config d))"
  let ?data = "si_data (ixs ! ?i)"
  let ?o = "data_offset ixs ?i"
  have i: "?i < length ixs"
    using assms(4) by (auto simp: calculate_forbidden_sysvar_offsets_def Let_def split: if_splits)
  note data = layout_data [OF assms(1,2) i]
  have offs: "list_all (\<lambda>r. range_end r \<le> of_nat (length ?data)) (forbidden_ranges (detector_config d))"
    "offs = map (\<lambda>r. mk_range (of_nat ?o + range_start r) (of_nat ?o + range_end r)) (forbidden_ranges (detector_config d))"
    using assms(4) unfolding calculated_offsets [OF assms(2) i] push_offsets_Ok by simp_all
  have len: "unat (of_nat (length ?data) :: usize) = length ?data" "unat (of_nat ?o :: usize) = ?o"
    using data(2) assms(3) by (simp_all add: unat_of_nat_u64)
  have r_end: "unat (range_end r) \<le> length ?data"
    using offs(1) assms(5,6) len(1) by (auto simp: list_all_length word_le_nat_alt)
  have r_start: "unat (range_start r) \<le> unat (range_end r)" using assms(7) by (simp add: word_le_nat_alt)
  have k: "offs ! k = mk_range (of_nat ?o + range_start r) (of_nat ?o + range_end r)"
    using assms(5,6) offs(2) by simp
  have ends: "unat (of_nat ?o + range_start r) = ?o + unat (range_start r)"
    "unat (of_nat ?o + range_end r) = ?o + unat (range_end r)"
    using r_start r_end data(2) assms(3) by (intro unat_offset, linarith)+
  let ?secret = "take (unat (range_end r) - unat (range_start r)) (drop (unat (range_start r)) ?data)"
  have "?secret = take (unat (range_end r) - unat (range_start r))
      (drop (unat (range_start r)) (take (length ?data) (drop ?o bytes)))"
    by (simp only: data(1))
  also have "\<dots> = take (unat (range_end r) - unat (range_start r)) (drop (?o + unat (range_start r)) bytes)"
    using r_end by (simp add: drop_take add.commute)
  finally have "slice_get bytes (?o + unat (range_start r)) (?o + unat (range_end r)) = Some ?secret"
    using r_start r_end data(2) by (simp add: slice_get_def)
  moreover have "slice_get ?data (unat (range_start r)) (unat (range_end r)) = Some ?secret"
    using r_start r_end by (simp add: slice_get_def)
  moreover have "length offs = length (forbidden_ranges (detector_config d))" by (simp add: offs(2))
  ultimately show ?thesis unfolding k mk_range_sel ends by blast
qed

section \<open>Properties\<close>

text \<open>
  C9: the detector watches the right bytes.  For a sysvar in the documented layout, the offsets
  computed from the shapes of the instructions alone are, range by range, where the forbidden bytes
  of the chosen instruction's data lie in the sysvar.
\<close>

theorem offsets_point_at_data:
  assumes "documented_layout ixs bytes" "list_all keys_ok ixs" "length bytes < 2 ^ 64"
    and "calculate_forbidden_sysvar_offsets d (map info_of ixs) = Ok offs"
    and "k < length (forbidden_ranges (detector_config d))" "forbidden_ranges (detector_config d) ! k = r"
    and "range_start r \<le> range_end r"
  shows "length offs = length (forbidden_ranges (detector_config d))
    \<and> (\<exists>secret. slice_get (si_data (ixs ! unat (instruction_index (detector_config d))))
                    (unat (range_start r)) (unat (range_end r)) = Some secret
          \<and> slice_get bytes (unat (range_start (offs ! k))) (unat (range_end (offs ! k))) = Some secret)"
  by (rule offsets_in_layout [OF assms])

text \<open>
  C35: the detector refuses a configuration exactly when the instruction does not exist or a range
  ends behind its data; it does not look at where a range starts.
\<close>

theorem detector_accepts_iff:
  "(\<exists>offs. calculate_forbidden_sysvar_offsets d instructions = Ok offs) \<longleftrightarrow>
     unat (instruction_index (detector_config d)) < length instructions
     \<and> list_all (\<lambda>r. range_end r \<le> data_len (instructions ! unat (instruction_index (detector_config d))))
         (forbidden_ranges (detector_config d))"
  by (auto simp: calculate_forbidden_sysvar_offsets_def Let_def push_offsets_Ok)

text \<open>Two instructions: one with one account and two bytes of data, one with three bytes.\<close>

definition sample_ixs :: "SysvarInstruction list" where
  "sample_ixs =
     [\<lparr>si_metas = [(1, replicate 32 7)], si_program_id = replicate 32 8, si_data = [10, 11]\<rparr>,
      \<lparr>si_metas = [], si_program_id = replicate 32 9, si_data = [20, 21, 22]\<rparr>]"

definition sample_sysvar :: "u8 list" where
  "sample_sysvar = u16_bytes 2 @ [6, 0, 77, 0] @ concat (map layout_instruction sample_ixs) @ [0, 0]"

theorem offsets_point_at_data_witness:
  "\<exists>offs. calculate_forbidden_sysvar_offsets (new_GobbleDetector (new_DetectionConfig 1 1 3)) (map info_of sample_ixs) = Ok offs
     \<and> slice_get sample_sysvar (unat (range_start (offs ! 0))) (unat (range_end (offs ! 0))) = Some [21, 22]"
proof -
  let ?d = "new_GobbleDetector (new_DetectionConfig 1 1 3)"
  have layout: "documented_layout sample_ixs sample_sysvar"
    unfolding documented_layout_def sample_sysvar_def
    by (rule exI [of _ "[6, 0, 77, 0]"], rule exI [of _ "[0, 0]"]) (simp add: sample_ixs_def numeral_2_eq_2)
  have keys: "list_all keys_ok sample_ixs" by (simp add: sample_ixs_def keys_ok_def)
  have len: "length sample_sysvar < 2 ^ 64"
    by (simp add: sample_sysvar_def sample_ixs_def layout_instruction_def)
  have offs: "calculate_forbidden_sysvar_offsets ?d (map info_of sample_ixs) = Ok [mk_range 114 116]"
    by (simp add: calculate_forbidden_sysvar_offsets_def new_GobbleDetector_def new_DetectionConfig_def sample_ixs_def
        info_of_def new_InstructionInfo_def)
  have "slice_get (si_data (sample_ixs ! 1)) 1 3 = Some [21, 22]" by (simp add: sample_ixs_def slice_get_def)
  with offsets_point_at_data [OF layout keys len offs, of 0 "mk_range 1 3"] offs show ?thesis
    by (auto simp add: new_GobbleDetector_def new_DetectionConfig_def)
qed

end
