(* ===== verification/Budget.thy ===== *)
theory Budget
  imports Prelude
begin

text \<open>
  What an execution may use and what it costs: \<open>agave/program-runtime/src/execution_budget.rs\<close>, the
  feature set of \<open>agave/svm-feature-set/src/lib.rs\<close>, and the log of
  \<open>agave/svm-log-collector/src/lib.rs\<close>.  The heap length of the \<open>solana_program_entrypoint\<close> crate
  is a parameter.
\<close>

section \<open>Budget and cost\<close>

definition MAX_INSTRUCTION_STACK_DEPTH :: nat where
  "MAX_INSTRUCTION_STACK_DEPTH = 5"

definition MAX_INSTRUCTION_STACK_DEPTH_SIMD_0268 :: nat where
  "MAX_INSTRUCTION_STACK_DEPTH_SIMD_0268 = 9"

definition get_max_instruction_stack_depth :: "bool \<Rightarrow> nat" where
  "get_max_instruction_stack_depth simd_0268_active =
     (if simd_0268_active then MAX_INSTRUCTION_STACK_DEPTH_SIMD_0268 else MAX_INSTRUCTION_STACK_DEPTH)"

definition DEFAULT_INVOCATION_COST :: u64 where
  "DEFAULT_INVOCATION_COST = 1000"

definition INVOKE_UNITS_COST_SIMD_0339 :: u64 where
  "INVOKE_UNITS_COST_SIMD_0339 = 946"

definition get_invoke_unit_cost :: "bool \<Rightarrow> u64" where
  "get_invoke_unit_cost simd_0339_active =
     (if simd_0339_active then INVOKE_UNITS_COST_SIMD_0339 else DEFAULT_INVOCATION_COST)"

definition MAX_CALL_DEPTH :: usize where
  "MAX_CALL_DEPTH = 64"

definition STACK_FRAME_SIZE :: usize where
  "STACK_FRAME_SIZE = 4096"

definition MAX_COMPUTE_UNIT_LIMIT :: u32 where
  "MAX_COMPUTE_UNIT_LIMIT = 1400000"

definition DEFAULT_HEAP_COST :: u64 where
  "DEFAULT_HEAP_COST = 8"

definition MAX_HEAP_FRAME_BYTES :: u32 where
  "MAX_HEAP_FRAME_BYTES = 256 * 1024"

record SVMTransactionExecutionBudget =
  compute_unit_limit :: u64
  max_instruction_stack_depth :: nat
  max_instruction_trace_length :: nat
  sha256_max_slices :: u64
  eb_max_call_depth :: usize
  eb_stack_frame_size :: usize
  heap_size :: u32

definition new_ExecutionBudget :: "u32 \<Rightarrow> bool \<Rightarrow> SVMTransactionExecutionBudget" where
  "new_ExecutionBudget heap_length simd_0268_active =
     \<lparr>compute_unit_limit = ucast MAX_COMPUTE_UNIT_LIMIT,
      max_instruction_stack_depth = get_max_instruction_stack_depth simd_0268_active,
      max_instruction_trace_length = 64,
      sha256_max_slices = 20000,
      eb_max_call_depth = MAX_CALL_DEPTH,
      eb_stack_frame_size = STACK_FRAME_SIZE,
      heap_size = heap_length\<rparr>"

record SVMTransactionExecutionCost =
  log_64_units :: u64
  create_program_address_units :: u64
  invoke_units :: u64
  sha256_base_cost :: u64
  sha256_byte_cost :: u64
  log_pubkey_units :: u64
  cpi_bytes_per_unit :: u64
  sysvar_base_cost :: u64
  secp256k1_recover_cost :: u64
  syscall_base_cost :: u64
  curve25519_edwards_validate_point_cost :: u64
  curve25519_edwards_add_cost :: u64
  curve25519_edwards_subtract_cost :: u64
  curve25519_edwards_multiply_cost :: u64
  curve25519_edwards_msm_base_cost :: u64
  curve25519_edwards_msm_incremental_cost :: u64
  curve25519_ristretto_validate_point_cost :: u64
  curve25519_ristretto_add_cost :: u64
  curve25519_ristretto_subtract_cost :: u64
  curve25519_ristretto_multiply_cost :: u64
  curve25519_ristretto_msm_base_cost :: u64
  curve25519_ristretto_msm_incremental_cost :: u64
  heap_cost :: u64
  mem_op_base_cost :: u64
  alt_bn128_g1_addition_cost :: u64
  alt_bn128_g2_addition_cost :: u64
  alt_bn128_g1_multiplication_cost :: u64
  alt_bn128_g2_multiplication_cost :: u64
  alt_bn128_pairing_one_pair_cost_first :: u64
  alt_bn128_pairing_one_pair_cost_other :: u64
  big_modular_exponentiation_base_cost :: u64
  big_modular_exponentiation_cost_divisor :: u64
  poseidon_cost_coefficient_a :: u64
  poseidon_cost_coefficient_c :: u64
  get_remaining_compute_units_cost :: u64
  alt_bn128_g1_compress :: u64
  alt_bn128_g1_decompress :: u64
  alt_bn128_g2_compress :: u64
  alt_bn128_g2_decompress :: u64
  bls12_381_g1_add_cost :: u64
  bls12_381_g2_add_cost :: u64
  bls12_381_g1_subtract_cost :: u64
  bls12_381_g2_subtract_cost :: u64
  bls12_381_g1_multiply_cost :: u64
  bls12_381_g2_multiply_cost :: u64
  bls12_381_g1_decompress_cost :: u64
  bls12_381_g2_decompress_cost :: u64
  bls12_381_g1_validate_cost :: u64
  bls12_381_g2_validate_cost :: u64
  bls12_381_one_pair_cost :: u64
  bls12_381_additional_pair_cost :: u64

definition default_ExecutionCost :: "bool \<Rightarrow> SVMTransactionExecutionCost" where
  "default_ExecutionCost simd_0339_active =
     \<lparr>log_64_units = 100,
      create_program_address_units = 1500,
      invoke_units = get_invoke_unit_cost simd_0339_active,
      sha256_base_cost = 85,
      sha256_byte_cost = 1,
      log_pubkey_units = 100,
      cpi_bytes_per_unit = 250,
      sysvar_base_cost = 100,
      secp256k1_recover_cost = 25000,
      syscall_base_cost = 100,
      curve25519_edwards_validate_point_cost = 159,
      curve25519_edwards_add_cost = 473,
      curve25519_edwards_subtract_cost = 475,
      curve25519_edwards_multiply_cost = 2177,
      curve25519_edwards_msm_base_cost = 2273,
      curve25519_edwards_msm_incremental_cost = 758,
      curve25519_ristretto_validate_point_cost = 169,
      curve25519_ristretto_add_cost = 521,
      curve25519_ristretto_subtract_cost = 519,
      curve25519_ristretto_multiply_cost = 2208,
      curve25519_ristretto_msm_base_cost = 2303,
      curve25519_ristretto_msm_incremental_cost = 788,
      heap_cost = DEFAULT_HEAP_COST,
      mem_op_base_cost = 10,
      alt_bn128_g1_addition_cost = 334,
      alt_bn128_g2_addition_cost = 535,
      alt_bn128_g1_multiplication_cost = 3840,
      alt_bn128_g2_multiplication_cost = 15670,
      alt_bn128_pairing_one_pair_cost_first = 36364,
      alt_bn128_pairing_one_pair_cost_other = 12121,
      big_modular_exponentiation_base_cost = 190,
      big_modular_exponentiation_cost_divisor = 2,
      poseidon_cost_coefficient_a = 61,
      poseidon_cost_coefficient_c = 542,
      get_remaining_compute_units_cost = 100,
      alt_bn128_g1_compress = 30,
      alt_bn128_g1_decompress = 398,
      alt_bn128_g2_compress = 86,
      alt_bn128_g2_decompress = 13610,
      bls12_381_g1_add_cost = 128,
      bls12_381_g2_add_cost = 203,
      bls12_381_g1_subtract_cost = 129,
      bls12_381_g2_subtract_cost = 204,
      bls12_381_g1_multiply_cost = 4627,
      bls12_381_g2_multiply_cost = 8255,
      bls12_381_g1_decompress_cost = 2100,
      bls12_381_g2_decompress_cost = 3050,
      bls12_381_g1_validate_cost = 1565,
      bls12_381_g2_validate_cost = 1968,
      bls12_381_one_pair_cost = 25445,
      bls12_381_additional_pair_cost = 13023\<rparr>"

text \<open>\<open>checked_pow(2)\<close> and \<open>checked_mul\<close>.\<close>

definition checked_mul :: "u64 \<Rightarrow> u64 \<Rightarrow> u64 option" where
  "checked_mul a b = (if unat a * unat b < 2 ^ 64 then Some (a * b) else None)"

definition poseidon_cost :: "SVMTransactionExecutionCost \<Rightarrow> u64 \<Rightarrow> u64 option" where
  "poseidon_cost c nr_inputs =
     (case checked_mul nr_inputs nr_inputs of
        None \<Rightarrow> None
      | Some squared_inputs \<Rightarrow>
          (case checked_mul (poseidon_cost_coefficient_a c) squared_inputs of
             None \<Rightarrow> None
           | Some mul_result \<Rightarrow> checked_add mul_result (poseidon_cost_coefficient_c c)))"

section \<open>Features\<close>

record SVMFeatureSet =
  move_precompile_verification_to_svm :: bool
  stricter_abi_and_runtime_constraints :: bool
  account_data_direct_mapping :: bool
  enable_bpf_loader_set_authority_checked_ix :: bool
  enable_loader_v4 :: bool
  deplete_cu_meter_on_vm_failure :: bool
  abort_on_invalid_curve :: bool
  blake3_syscall_enabled :: bool
  curve25519_syscall_enabled :: bool
  disable_deploy_of_alloc_free_syscall :: bool
  disable_fees_sysvar :: bool
  disable_sbpf_v0_execution :: bool
  enable_alt_bn128_compression_syscall :: bool
  enable_alt_bn128_syscall :: bool
  enable_big_mod_exp_syscall :: bool
  enable_get_epoch_stake_syscall :: bool
  enable_poseidon_syscall :: bool
  enable_sbpf_v1_deployment_and_execution :: bool
  enable_sbpf_v2_deployment_and_execution :: bool
  enable_sbpf_v3_deployment_and_execution :: bool
  get_sysvar_syscall_enabled :: bool
  last_restart_slot_sysvar :: bool
  reenable_sbpf_v0_execution :: bool
  remaining_compute_units_syscall_enabled :: bool
  remove_bpf_loader_incorrect_program_id :: bool
  move_stake_and_move_lamports_ixs :: bool
  stake_raise_minimum_delegation_to_1_sol :: bool
  deprecate_legacy_vote_ixs :: bool
  simplify_alt_bn128_syscall_error_codes :: bool
  fix_alt_bn128_multiplication_input_length :: bool
  increase_tx_account_lock_limit :: bool
  enable_extend_program_checked :: bool
  formalize_loaded_transaction_data_size :: bool
  disable_zk_elgamal_proof_program :: bool
  reenable_zk_elgamal_proof_program :: bool
  delay_commission_updates :: bool
  raise_cpi_nesting_limit_to_8 :: bool
  provide_instruction_data_offset_in_vm_r2 :: bool
  increase_cpi_account_info_limit :: bool
  vote_state_v4 :: bool
  poseidon_enforce_padding :: bool
  fix_alt_bn128_pairing_length_check :: bool
  alt_bn128_little_endian :: bool
  create_account_allow_prefund :: bool
  bls_pubkey_management_in_vote_account :: bool
  enable_alt_bn128_g2_syscalls :: bool
  commission_rate_in_basis_points :: bool
  custom_commission_collector :: bool
  enable_bls12_381_syscall :: bool
  block_revenue_sharing :: bool
  vote_account_initialize_v2 :: bool

definition all_enabled :: SVMFeatureSet where
  "all_enabled =
     \<lparr>move_precompile_verification_to_svm = True,
      stricter_abi_and_runtime_constraints = True,
      account_data_direct_mapping = True,
      enable_bpf_loader_set_authority_checked_ix = True,
      enable_loader_v4 = True,
      deplete_cu_meter_on_vm_failure = True,
      abort_on_invalid_curve = True,
      blake3_syscall_enabled = True,
      curve25519_syscall_enabled = True,
      disable_deploy_of_alloc_free_syscall = True,
      disable_fees_sysvar = True,
      disable_sbpf_v0_execution = True,
      enable_alt_bn128_compression_syscall = True,
      enable_alt_bn128_syscall = True,
      enable_big_mod_exp_syscall = True,
      enable_get_epoch_stake_syscall = True,
      enable_poseidon_syscall = True,
      enable_sbpf_v1_deployment_and_execution = True,
      enable_sbpf_v2_deployment_and_execution = True,
      enable_sbpf_v3_deployment_and_execution = True,
      get_sysvar_syscall_enabled = True,
      last_restart_slot_sysvar = True,
      reenable_sbpf_v0_execution = True,
      remaining_compute_units_syscall_enabled = True,
      remove_bpf_loader_incorrect_program_id = True,
      move_stake_and_move_lamports_ixs = True,
      stake_raise_minimum_delegation_to_1_sol = True,
      deprecate_legacy_vote_ixs = True,
      simplify_alt_bn128_syscall_error_codes = True,
      fix_alt_bn128_multiplication_input_length = True,
      increase_tx_account_lock_limit = True,
      enable_extend_program_checked = True,
      formalize_loaded_transaction_data_size = True,
      disable_zk_elgamal_proof_program = True,
      reenable_zk_elgamal_proof_program = True,
      delay_commission_updates = True,
      raise_cpi_nesting_limit_to_8 = True,
      provide_instruction_data_offset_in_vm_r2 = True,
      increase_cpi_account_info_limit = True,
      vote_state_v4 = True,
      poseidon_enforce_padding = True,
      fix_alt_bn128_pairing_length_check = True,
      alt_bn128_little_endian = True,
      create_account_allow_prefund = True,
      bls_pubkey_management_in_vote_account = True,
      enable_alt_bn128_g2_syscalls = True,
      commission_rate_in_basis_points = True,
      custom_commission_collector = True,
      enable_bls12_381_syscall = True,
      block_revenue_sharing = True,
      vote_account_initialize_v2 = True\<rparr>"

section \<open>Log collector\<close>

text \<open>A message is the list of its bytes.\<close>

record LogCollector =
  messages :: "string list"
  bytes_written :: usize
  bytes_limit :: "usize option"
  limit_warning :: bool

definition LOG_MESSAGES_BYTES_LIMIT :: usize where
  "LOG_MESSAGES_BYTES_LIMIT = 10 * 1000"

definition default_LogCollector :: LogCollector where
  "default_LogCollector =
     \<lparr>messages = [], bytes_written = 0, bytes_limit = Some LOG_MESSAGES_BYTES_LIMIT,
      limit_warning = False\<rparr>"

definition log :: "LogCollector \<Rightarrow> string \<Rightarrow> LogCollector" where
  "log lc message =
     (case bytes_limit lc of
        None \<Rightarrow> lc\<lparr>messages := messages lc @ [message]\<rparr>
      | Some limit \<Rightarrow>
          let written = saturating_add (bytes_written lc) (of_nat (length message)) in
          if written \<ge> limit then
            if \<not> limit_warning lc
            then lc\<lparr>limit_warning := True, messages := messages lc @ [''Log truncated'']\<rparr>
            else lc
          else lc\<lparr>bytes_written := written, messages := messages lc @ [message]\<rparr>)"

definition new_ref_with_limit :: "usize option \<Rightarrow> LogCollector" where
  "new_ref_with_limit limit = default_LogCollector\<lparr>bytes_limit := limit\<rparr>"

end
