(* ===== verification/Heap_Allocator.thy ===== *)
theory Heap_Allocator
  imports Prelude
begin

text \<open>
  \<open>BpfAllocator\<close> of \<open>agave/program-runtime/src/invoke_context.rs\<close>: the bump allocator behind the
  allocation system call.
\<close>

section \<open>Heap allocator\<close>

record BpfAllocator =
  alloc_len :: u64
  alloc_pos :: u64

record Layout =
  layout_size :: u64
  layout_align :: u64

definition new_BpfAllocator :: "u64 \<Rightarrow> BpfAllocator" where
  "new_BpfAllocator n = \<lparr>alloc_len = n, alloc_pos = 0\<rparr>"

text \<open>\<open>(pos as *const u8).align_offset(align)\<close>: bytes up to the next multiple.\<close>

definition align_offset :: "u64 \<Rightarrow> u64 \<Rightarrow> u64" where
  "align_offset pos align = of_nat ((unat align - unat pos mod unat align) mod unat align)"

text \<open>\<open>heap_start\<close> is \<open>MM_HEAP_START\<close>; \<open>None\<close> is \<open>AllocErr\<close>.\<close>

definition alloc :: "u64 \<Rightarrow> BpfAllocator \<Rightarrow> Layout \<Rightarrow> BpfAllocator \<times> u64 option" where
  "alloc heap_start a layout =
     (let bytes_to_align = align_offset (alloc_pos a) (layout_align layout) in
      if saturating_add (saturating_add (alloc_pos a) bytes_to_align) (layout_size layout) \<le> alloc_len a
      then
        let a = a\<lparr>alloc_pos := saturating_add (alloc_pos a) bytes_to_align\<rparr>;
            addr = saturating_add heap_start (alloc_pos a);
            a = a\<lparr>alloc_pos := saturating_add (alloc_pos a) (layout_size layout)\<rparr>
        in (a, Some addr)
      else (a, None))"

section \<open>Allocations\<close>

lemma align_offset_spec:
  assumes "0 < align"
  shows "unat (align_offset pos align) < unat align"
    and "unat align dvd unat pos + unat (align_offset pos align)"
proof -
  let ?m = "unat align" and ?p = "unat pos"
  have m: "0 < ?m" using assms by (simp add: word_less_nat_alt)
  let ?o = "(?m - ?p mod ?m) mod ?m"
  have "?o < ?m" using m by simp
  then have "?o < 2 ^ 64" using unat_u64_less [of align] by simp
  then have o: "unat (align_offset pos align) = ?o"
    unfolding align_offset_def by (rule unat_of_nat_u64)
  then show "unat (align_offset pos align) < ?m" using m by simp
  have "(?p + ?o) mod ?m = (?p mod ?m + (?m - ?p mod ?m)) mod ?m"
    by (simp only: mod_add_left_eq mod_add_right_eq)
  also have "?p mod ?m + (?m - ?p mod ?m) = ?m" using m by (simp add: less_imp_le)
  finally have "(?p + ?o) mod ?m = 0" by (simp only: mod_self)
  then show "?m dvd ?p + unat (align_offset pos align)" unfolding o by (rule mod_0_imp_dvd)
qed

lemma alloc_Some:
  assumes "alloc h a l = (a', Some addr)" "unat h + unat (alloc_len a) < 2 ^ 64" "0 < layout_align l"
    and "unat (alloc_len a) < 2 ^ 64 - 1"
  shows "unat h + unat (alloc_pos a) \<le> unat addr" "unat (layout_align l) dvd unat addr - unat h"
    and "unat addr + unat (layout_size l) = unat h + unat (alloc_pos a')"
    and "unat (alloc_pos a') \<le> unat (alloc_len a)" "alloc_len a' = alloc_len a"
proof -
  let ?o = "align_offset (alloc_pos a) (layout_align l)"
  have le: "saturating_add (saturating_add (alloc_pos a) ?o) (layout_size l) \<le> alloc_len a"
    and r: "alloc_len a' = alloc_len a" "addr = saturating_add h (saturating_add (alloc_pos a) ?o)"
    "alloc_pos a' = saturating_add (saturating_add (alloc_pos a) ?o) (layout_size l)"
    using assms(1) by (auto simp: alloc_def Let_def split: if_splits)
  have sum: "unat (alloc_pos a) + unat ?o + unat (layout_size l) \<le> unat (alloc_len a)"
    using le assms(4) by (simp add: word_le_nat_alt unat_saturating_add min_def split: if_splits)
  then have p: "unat (saturating_add (alloc_pos a) ?o) = unat (alloc_pos a) + unat ?o"
    "unat (alloc_pos a') = unat (alloc_pos a) + unat ?o + unat (layout_size l)"
    using unat_u64_less [of "alloc_len a"] by (simp_all add: r(3) unat_saturating_add)
  have ad: "unat addr = unat h + unat (alloc_pos a) + unat ?o"
    using sum assms(2) p by (simp add: r(2) unat_saturating_add)
  show "unat h + unat (alloc_pos a) \<le> unat addr" "unat addr + unat (layout_size l) = unat h + unat (alloc_pos a')"
    "unat (alloc_pos a') \<le> unat (alloc_len a)" "alloc_len a' = alloc_len a"
    using ad p(2) sum r(1) by simp_all
  show "unat (layout_align l) dvd unat addr - unat h"
    using align_offset_spec(2) [OF assms(3), of "alloc_pos a"] ad by simp
qed

text \<open>The blocks that a sequence of requests is given.\<close>

fun alloc_seq :: "u64 \<Rightarrow> BpfAllocator \<Rightarrow> Layout list \<Rightarrow> (u64 \<times> Layout) list" where
  "alloc_seq h a [] = []"
| "alloc_seq h a (l # ls) =
     (case alloc h a l of
        (a', Some addr) \<Rightarrow> (addr, l) # alloc_seq h a' ls
      | (a', None) \<Rightarrow> alloc_seq h a' ls)"

lemma alloc_None: "alloc h a l = (a', None) \<Longrightarrow> a' = a"
  by (auto simp: alloc_def Let_def split: if_splits)

definition blocks_in :: "u64 \<Rightarrow> nat \<Rightarrow> u64 \<Rightarrow> (u64 \<times> Layout) list \<Rightarrow> bool" where
  "blocks_in h from n bs \<longleftrightarrow>
     (\<forall>(addr, l) \<in> set bs.
        unat h + from \<le> unat addr \<and> unat (layout_align l) dvd unat addr - unat h
        \<and> unat addr + unat (layout_size l) \<le> unat h + unat n)
     \<and> sorted_wrt (\<lambda>(addr, l) (addr', l'). unat addr + unat (layout_size l) \<le> unat addr') bs"

lemma blocks_in_Cons:
  assumes "blocks_in h from' n bs" "unat h + from \<le> unat addr" "unat (layout_align l) dvd unat addr - unat h"
    and "unat addr + unat (layout_size l) = unat h + from'" "from' \<le> unat n"
  shows "blocks_in h from n ((addr, l) # bs)"
  using assms by (fastforce simp: blocks_in_def)

lemma alloc_seq_spec:
  assumes "unat h + unat (alloc_len a) < 2 ^ 64" "unat (alloc_len a) < 2 ^ 64 - 1"
    and "\<forall>l \<in> set ls. 0 < layout_align l" "unat (alloc_pos a) \<le> unat (alloc_len a)"
  shows "blocks_in h (unat (alloc_pos a)) (alloc_len a) (alloc_seq h a ls)"
  using assms
proof (induction ls arbitrary: a)
  case (Cons l ls)
  obtain a' r where al: "alloc h a l = (a', r)" by fastforce
  show ?case
  proof (cases r)
    case None
    then have "alloc_seq h a (l # ls) = alloc_seq h a ls" using al alloc_None by auto
    then show ?thesis using Cons by simp
  next
    case (Some addr)
    have "alloc_seq h a (l # ls) = (addr, l) # alloc_seq h a' ls" using al Some by simp
    moreover have s: "unat h + unat (alloc_pos a) \<le> unat addr" "unat (layout_align l) dvd unat addr - unat h"
      "unat addr + unat (layout_size l) = unat h + unat (alloc_pos a')"
      "unat (alloc_pos a') \<le> unat (alloc_len a)" "alloc_len a' = alloc_len a"
      using alloc_Some [OF al [unfolded Some]] Cons.prems by simp_all
    moreover have "blocks_in h (unat (alloc_pos a')) (alloc_len a') (alloc_seq h a' ls)"
      by (rule Cons.IH) (use Cons.prems s in simp_all)
    ultimately show ?thesis by (auto intro: blocks_in_Cons)
  qed
qed (simp add: blocks_in_def)

text \<open>
  C32: the blocks handed out by the heap allocator lie in the heap, are aligned as asked, and do not
  overlap: each begins at or after the end of the ones before it.
\<close>

theorem allocations_disjoint:
  assumes "unat h + unat n < 2 ^ 64" "unat n < 2 ^ 64 - 1" "\<forall>l \<in> set ls. 0 < layout_align l"
  shows "(\<forall>(addr, l) \<in> set (alloc_seq h (new_BpfAllocator n) ls).
            unat h \<le> unat addr \<and> unat (layout_align l) dvd unat addr - unat h
            \<and> unat addr + unat (layout_size l) \<le> unat h + unat n)
    \<and> sorted_wrt (\<lambda>(addr, l) (addr', l'). unat addr + unat (layout_size l) \<le> unat addr')
        (alloc_seq h (new_BpfAllocator n) ls)"
  using alloc_seq_spec [of h "new_BpfAllocator n" ls] assms by (simp add: new_BpfAllocator_def blocks_in_def)

theorem allocations_disjoint_witness:
  "map fst (alloc_seq 0x300000000 (new_BpfAllocator 32)
      [\<lparr>layout_size = 3, layout_align = 1\<rparr>, \<lparr>layout_size = 8, layout_align = 8\<rparr>,
       \<lparr>layout_size = 64, layout_align = 8\<rparr>]) = [0x300000000, 0x300000008]
   \<and> (3 :: nat) \<le> 8"
proof -
  let ?ls = "[\<lparr>layout_size = 3, layout_align = 1\<rparr>, \<lparr>layout_size = 8, layout_align = 8\<rparr>,
       \<lparr>layout_size = 64, layout_align = 8\<rparr>]"
  have e: "alloc_seq 0x300000000 (new_BpfAllocator 32) ?ls =
      [(0x300000000, \<lparr>layout_size = 3, layout_align = 1\<rparr>), (0x300000008, \<lparr>layout_size = 8, layout_align = 8\<rparr>)]"
    by (simp add: alloc_def new_BpfAllocator_def align_offset_def saturating_add_def)
  have "unat (0x300000000 :: u64) + 3 \<le> unat (0x300000008 :: u64)"
    using allocations_disjoint [where h = "0x300000000" and n = 32 and ls = ?ls, unfolded e] by simp
  then show ?thesis unfolding e by simp
qed

end
