(* ===== verification/Verifier.thy ===== *)
theory Verifier
  imports Program
begin

text \<open>
  \<open>sbpf/src/verifier.rs\<close>: the checks that a program passes before it is run.

  The big \<open>match\<close> of \<open>RequisiteVerifier::verify\<close> is a table of its arms in source order, an opcode,
  the arm's guard and what the arm checks; the first arm whose opcode and guard fit is taken.
  Program counters are naturals; a slice has fewer than \<open>2 ^ 63\<close> bytes, so the source's \<open>usize\<close>
  arithmetic on them does not wrap.  \<open>None\<close> is a panic of \<open>get_insn\<close>.
\<close>

unbundle bit_operations_syntax

section \<open>Checks\<close>

definition check_prog_len :: "u8 list \<Rightarrow> (unit, VerifierError) result" where
  "check_prog_len prog =
     (if length prog mod INSN_SIZE \<noteq> 0 then Err ProgramLengthNotMultiple
      else if prog = [] then Err NoProgram
      else Ok ())"

definition check_imm_nonzero :: "Insn \<Rightarrow> nat \<Rightarrow> (unit, VerifierError) result" where
  "check_imm_nonzero insn insn_ptr =
     (if imm insn = 0 then Err (DivisionByZero (of_nat insn_ptr)) else Ok ())"

definition check_imm_endian :: "Insn \<Rightarrow> nat \<Rightarrow> (unit, VerifierError) result" where
  "check_imm_endian insn insn_ptr =
     (if imm insn = 16 \<or> imm insn = 32 \<or> imm insn = 64 then Ok ()
      else Err (UnsupportedLEBEArgument (of_nat insn_ptr)))"

definition check_imm_aligned :: "Insn \<Rightarrow> nat \<Rightarrow> i64 \<Rightarrow> (unit, VerifierError) result" where
  "check_imm_aligned insn insn_ptr alignment =
     (if imm insn AND (alignment - 1) = 0 then Ok ()
      else Err (UnalignedImmediate (of_nat insn_ptr)))"

definition check_load_dw :: "u8 list \<Rightarrow> nat \<Rightarrow> (unit, VerifierError) result option" where
  "check_load_dw prog insn_ptr =
     (if (insn_ptr + 1) * INSN_SIZE \<ge> length prog then Some (Err LDDWCannotBeLast)
      else
        map_option
          (\<lambda>next_insn.
             if opc next_insn \<noteq> 0 then Err (IncompleteLDDW (of_nat insn_ptr)) else Ok ())
          (get_insn prog (of_nat (insn_ptr + 1))))"

text \<open>The \<open>isize\<close> sum is exact: the counter is small and the offset has 16 bits.\<close>

definition check_jmp_offset ::
  "u8 list \<Rightarrow> nat \<Rightarrow> nat range \<Rightarrow> (unit, VerifierError) result option"
where
  "check_jmp_offset prog insn_ptr program_range =
     (case get_insn prog (of_nat insn_ptr) of
        None \<Rightarrow> None
      | Some insn \<Rightarrow>
          let dst_insn_ptr = int insn_ptr + 1 + sint (off insn) in
          if dst_insn_ptr < 0 \<or> \<not> range_contains program_range (nat dst_insn_ptr)
          then Some (Err (JumpOutOfCode (word_of_int dst_insn_ptr) (of_nat insn_ptr)))
          else
            map_option
              (\<lambda>dst_insn.
                 if opc dst_insn = 0
                 then Err (JumpToMiddleOfLDDW (word_of_int dst_insn_ptr) (of_nat insn_ptr))
                 else Ok ())
              (get_insn prog (word_of_int dst_insn_ptr)))"

definition check_registers ::
  "Insn \<Rightarrow> bool \<Rightarrow> nat \<Rightarrow> SBPFVersion \<Rightarrow> (unit, VerifierError) result"
where
  "check_registers insn store insn_ptr v =
     (if src insn > 10 then Err (InvalidSourceRegister (of_nat insn_ptr))
      else if dst insn \<le> 9 \<or> (dst insn = 10 \<and> store) then Ok ()
      else if dst insn = 10 \<and> \<not> store \<and> manual_stack_frame_bump v \<and> opc insn = ADD64_IMM then Ok ()
      else if dst insn = 10 \<and> \<not> store then Err (CannotWriteR10 (of_nat insn_ptr))
      else Err (InvalidDestinationRegister (of_nat insn_ptr)))"

definition check_imm_shift :: "Insn \<Rightarrow> nat \<Rightarrow> u64 \<Rightarrow> (unit, VerifierError) result" where
  "check_imm_shift insn insn_ptr imm_bits =
     (let shift_by = imm insn in
      if sint (imm insn) < 0 \<or> shift_by \<ge> imm_bits
      then Err (ShiftWithOverflow shift_by imm_bits (of_nat insn_ptr))
      else Ok ())"

definition check_callx_register :: "Insn \<Rightarrow> nat \<Rightarrow> SBPFVersion \<Rightarrow> (unit, VerifierError) result" where
  "check_callx_register insn insn_ptr v =
     (let reg = (if callx_uses_src_reg v then uint (src insn)
                 else if callx_uses_dst_reg v then uint (dst insn)
                 else sint (imm insn))
      in if \<not> (0 \<le> reg \<and> reg < 10) then Err (InvalidRegister (of_nat insn_ptr)) else Ok ())"

section \<open>The arms of the match\<close>

datatype insn_check =
    NoCheck
  | MarkStore
  | CheckLoadDw
  | CheckImmNonzero
  | CheckImmShift u64
  | CheckImmEndian
  | CheckImmAligned i64
  | CheckJmpOffset
  | CheckCallxRegister

definition arms_ld :: "SBPFVersion \<Rightarrow> (u8 \<times> bool \<times> insn_check) list" where
  "arms_ld v =
     [(LD_DW_IMM, \<not> disable_lddw v, CheckLoadDw)]"

definition arms_ldx :: "SBPFVersion \<Rightarrow> (u8 \<times> bool \<times> insn_check) list" where
  "arms_ldx v =
     [(LD_B_REG, \<not> move_memory_instruction_classes v, NoCheck),
      (LD_H_REG, \<not> move_memory_instruction_classes v, NoCheck),
      (LD_W_REG, \<not> move_memory_instruction_classes v, NoCheck),
      (LD_DW_REG, \<not> move_memory_instruction_classes v, NoCheck)]"

definition arms_st :: "SBPFVersion \<Rightarrow> (u8 \<times> bool \<times> insn_check) list" where
  "arms_st v =
     [(ST_B_IMM, \<not> move_memory_instruction_classes v, MarkStore),
      (ST_H_IMM, \<not> move_memory_instruction_classes v, MarkStore),
      (ST_W_IMM, \<not> move_memory_instruction_classes v, MarkStore),
      (ST_DW_IMM, \<not> move_memory_instruction_classes v, MarkStore)]"

definition arms_stx :: "SBPFVersion \<Rightarrow> (u8 \<times> bool \<times> insn_check) list" where
  "arms_stx v =
     [(ST_B_REG, \<not> move_memory_instruction_classes v, MarkStore),
      (ST_H_REG, \<not> move_memory_instruction_classes v, MarkStore),
      (ST_W_REG, \<not> move_memory_instruction_classes v, MarkStore),
      (ST_DW_REG, \<not> move_memory_instruction_classes v, MarkStore)]"

definition arms_alu32_load :: "SBPFVersion \<Rightarrow> (u8 \<times> bool \<times> insn_check) list" where
  "arms_alu32_load v =
     [(ADD32_IMM, True, NoCheck),
      (ADD32_REG, True, NoCheck),
      (SUB32_IMM, True, NoCheck),
      (SUB32_REG, True, NoCheck),
      (MUL32_IMM, \<not> enable_pqr v, NoCheck),
      (MUL32_REG, \<not> enable_pqr v, NoCheck),
      (LD_1B_REG, move_memory_instruction_classes v, NoCheck),
      (DIV32_IMM, \<not> enable_pqr v, CheckImmNonzero),
      (DIV32_REG, \<not> enable_pqr v, NoCheck),
      (LD_2B_REG, move_memory_instruction_classes v, NoCheck),
      (OR32_IMM, True, NoCheck),
      (OR32_REG, True, NoCheck),
      (AND32_IMM, True, NoCheck),
      (AND32_REG, True, NoCheck),
      (LSH32_IMM, True, CheckImmShift 32),
      (LSH32_REG, True, NoCheck),
      (RSH32_IMM, True, CheckImmShift 32),
      (RSH32_REG, True, NoCheck),
      (NEG32, \<not> disable_neg v, NoCheck),
      (LD_4B_REG, move_memory_instruction_classes v, NoCheck),
      (MOD32_IMM, \<not> enable_pqr v, CheckImmNonzero),
      (MOD32_REG, \<not> enable_pqr v, NoCheck),
      (LD_8B_REG, move_memory_instruction_classes v, NoCheck),
      (XOR32_IMM, True, NoCheck),
      (XOR32_REG, True, NoCheck),
      (MOV32_IMM, True, NoCheck),
      (MOV32_REG, True, NoCheck),
      (ARSH32_IMM, True, CheckImmShift 32),
      (ARSH32_REG, True, NoCheck),
      (LE, \<not> disable_le v, CheckImmEndian),
      (BE, True, CheckImmEndian)]"

definition arms_alu64_store :: "SBPFVersion \<Rightarrow> Insn \<Rightarrow> (u8 \<times> bool \<times> insn_check) list" where
  "arms_alu64_store v insn =
     [(ADD64_IMM, dst insn = of_nat FRAME_PTR_REG \<and> manual_stack_frame_bump v, CheckImmAligned 64),
      (ADD64_IMM, True, NoCheck),
      (ADD64_REG, True, NoCheck),
      (SUB64_IMM, True, NoCheck),
      (SUB64_REG, True, NoCheck),
      (MUL64_IMM, \<not> enable_pqr v, NoCheck),
      (ST_1B_IMM, move_memory_instruction_classes v, MarkStore),
      (MUL64_REG, \<not> enable_pqr v, NoCheck),
      (ST_1B_REG, move_memory_instruction_classes v, MarkStore),
      (DIV64_IMM, \<not> enable_pqr v, CheckImmNonzero),
      (ST_2B_IMM, move_memory_instruction_classes v, MarkStore),
      (DIV64_REG, \<not> enable_pqr v, NoCheck),
      (ST_2B_REG, move_memory_instruction_classes v, MarkStore),
      (OR64_IMM, True, NoCheck),
      (OR64_REG, True, NoCheck),
      (AND64_IMM, True, NoCheck),
      (AND64_REG, True, NoCheck),
      (LSH64_IMM, True, CheckImmShift 64),
      (LSH64_REG, True, NoCheck),
      (RSH64_IMM, True, CheckImmShift 64),
      (RSH64_REG, True, NoCheck),
      (ST_4B_IMM, move_memory_instruction_classes v, MarkStore),
      (NEG64, \<not> disable_neg v, NoCheck),
      (ST_4B_REG, move_memory_instruction_classes v, MarkStore),
      (MOD64_IMM, \<not> enable_pqr v, CheckImmNonzero),
      (ST_8B_IMM, move_memory_instruction_classes v, MarkStore),
      (MOD64_REG, \<not> enable_pqr v, NoCheck),
      (ST_8B_REG, move_memory_instruction_classes v, MarkStore),
      (XOR64_IMM, True, NoCheck),
      (XOR64_REG, True, NoCheck),
      (MOV64_IMM, True, NoCheck),
      (MOV64_REG, True, NoCheck),
      (ARSH64_IMM, True, CheckImmShift 64),
      (ARSH64_REG, True, NoCheck),
      (HOR64_IMM, disable_lddw v, NoCheck)]"

definition arms_pqr :: "SBPFVersion \<Rightarrow> (u8 \<times> bool \<times> insn_check) list" where
  "arms_pqr v =
     [(LMUL32_IMM, enable_pqr v, NoCheck),
      (LMUL32_REG, enable_pqr v, NoCheck),
      (LMUL64_IMM, enable_pqr v, NoCheck),
      (LMUL64_REG, enable_pqr v, NoCheck),
      (UHMUL64_IMM, enable_pqr v, NoCheck),
      (UHMUL64_REG, enable_pqr v, NoCheck),
      (SHMUL64_IMM, enable_pqr v, NoCheck),
      (SHMUL64_REG, enable_pqr v, NoCheck),
      (UDIV32_IMM, enable_pqr v, CheckImmNonzero),
      (UDIV32_REG, enable_pqr v, NoCheck),
      (UDIV64_IMM, enable_pqr v, CheckImmNonzero),
      (UDIV64_REG, enable_pqr v, NoCheck),
      (UREM32_IMM, enable_pqr v, CheckImmNonzero),
      (UREM32_REG, enable_pqr v, NoCheck),
      (UREM64_IMM, enable_pqr v, CheckImmNonzero),
      (UREM64_REG, enable_pqr v, NoCheck),
      (SDIV32_IMM, enable_pqr v, CheckImmNonzero),
      (SDIV32_REG, enable_pqr v, NoCheck),
      (SDIV64_IMM, enable_pqr v, CheckImmNonzero),
      (SDIV64_REG, enable_pqr v, NoCheck),
      (SREM32_IMM, enable_pqr v, CheckImmNonzero),
      (SREM32_REG, enable_pqr v, NoCheck),
      (SREM64_IMM, enable_pqr v, CheckImmNonzero),
      (SREM64_REG, enable_pqr v, NoCheck)]"

definition arms_jmp32 :: "SBPFVersion \<Rightarrow> (u8 \<times> bool \<times> insn_check) list" where
  "arms_jmp32 v =
     [(JEQ32_IMM, enable_jmp32 v, CheckJmpOffset),
      (JEQ32_REG, enable_jmp32 v, CheckJmpOffset),
      (JGT32_IMM, enable_jmp32 v, CheckJmpOffset),
      (JGT32_REG, enable_jmp32 v, CheckJmpOffset),
      (JGE32_IMM, enable_jmp32 v, CheckJmpOffset),
      (JGE32_REG, enable_jmp32 v, CheckJmpOffset),
      (JLT32_IMM, enable_jmp32 v, CheckJmpOffset),
      (JLT32_REG, enable_jmp32 v, CheckJmpOffset),
      (JLE32_IMM, enable_jmp32 v, CheckJmpOffset),
      (JLE32_REG, enable_jmp32 v, CheckJmpOffset),
      (JSET32_IMM, enable_jmp32 v, CheckJmpOffset),
      (JSET32_REG, enable_jmp32 v, CheckJmpOffset),
      (JNE32_IMM, enable_jmp32 v, CheckJmpOffset),
      (JNE32_REG, enable_jmp32 v, CheckJmpOffset),
      (JSGT32_IMM, enable_jmp32 v, CheckJmpOffset),
      (JSGT32_REG, enable_jmp32 v, CheckJmpOffset),
      (JSGE32_IMM, enable_jmp32 v, CheckJmpOffset),
      (JSGE32_REG, enable_jmp32 v, CheckJmpOffset),
      (JSLT32_IMM, enable_jmp32 v, CheckJmpOffset),
      (JSLT32_REG, enable_jmp32 v, CheckJmpOffset),
      (JSLE32_IMM, enable_jmp32 v, CheckJmpOffset),
      (JSLE32_REG, enable_jmp32 v, CheckJmpOffset)]"

definition arms_jmp64 :: "SBPFVersion \<Rightarrow> (u8 \<times> bool \<times> insn_check) list" where
  "arms_jmp64 v =
     [(JA, True, CheckJmpOffset),
      (JEQ64_IMM, True, CheckJmpOffset),
      (JEQ64_REG, True, CheckJmpOffset),
      (JGT64_IMM, True, CheckJmpOffset),
      (JGT64_REG, True, CheckJmpOffset),
      (JGE64_IMM, True, CheckJmpOffset),
      (JGE64_REG, True, CheckJmpOffset),
      (JLT64_IMM, True, CheckJmpOffset),
      (JLT64_REG, True, CheckJmpOffset),
      (JLE64_IMM, True, CheckJmpOffset),
      (JLE64_REG, True, CheckJmpOffset),
      (JSET64_IMM, True, CheckJmpOffset),
      (JSET64_REG, True, CheckJmpOffset),
      (JNE64_IMM, True, CheckJmpOffset),
      (JNE64_REG, True, CheckJmpOffset),
      (JSGT64_IMM, True, CheckJmpOffset),
      (JSGT64_REG, True, CheckJmpOffset),
      (JSGE64_IMM, True, CheckJmpOffset),
      (JSGE64_REG, True, CheckJmpOffset),
      (JSLT64_IMM, True, CheckJmpOffset),
      (JSLT64_REG, True, CheckJmpOffset),
      (JSLE64_IMM, True, CheckJmpOffset),
      (JSLE64_REG, True, CheckJmpOffset),
      (CALL_IMM, True, NoCheck),
      (CALL_REG, True, CheckCallxRegister),
      (EXIT, True, NoCheck)]"

definition verifier_arms :: "SBPFVersion \<Rightarrow> Insn \<Rightarrow> (u8 \<times> bool \<times> insn_check) list" where
  "verifier_arms v insn =
     arms_ld v
       @ arms_ldx v
       @ arms_st v
       @ arms_stx v
       @ arms_alu32_load v
       @ arms_alu64_store v insn
       @ arms_pqr v
       @ arms_jmp32 v
       @ arms_jmp64 v"

lemmas verifier_arms_defs =
  verifier_arms_def arms_ld_def arms_ldx_def arms_st_def arms_stx_def arms_alu32_load_def arms_alu64_store_def arms_pqr_def arms_jmp32_def arms_jmp64_def

text \<open>
  What an arm does: \<open>None\<close> for a panic, else an error or the \<open>store\<close> flag and the program counter,
  which the wide load moves to its second slot.
\<close>

fun run_check ::
  "insn_check \<Rightarrow> u8 list \<Rightarrow> SBPFVersion \<Rightarrow> Insn \<Rightarrow> nat
     \<Rightarrow> (bool \<times> nat, VerifierError) result option"
where
  "run_check NoCheck prog v insn insn_ptr = Some (Ok (False, insn_ptr))"
| "run_check MarkStore prog v insn insn_ptr = Some (Ok (True, insn_ptr))"
| "run_check CheckLoadDw prog v insn insn_ptr =
     map_option (\<lambda>res. and_then res (\<lambda>_. Ok (False, insn_ptr + 1))) (check_load_dw prog insn_ptr)"
| "run_check CheckImmNonzero prog v insn insn_ptr =
     Some (and_then (check_imm_nonzero insn insn_ptr) (\<lambda>_. Ok (False, insn_ptr)))"
| "run_check (CheckImmShift imm_bits) prog v insn insn_ptr =
     Some (and_then (check_imm_shift insn insn_ptr imm_bits) (\<lambda>_. Ok (False, insn_ptr)))"
| "run_check CheckImmEndian prog v insn insn_ptr =
     Some (and_then (check_imm_endian insn insn_ptr) (\<lambda>_. Ok (False, insn_ptr)))"
| "run_check (CheckImmAligned alignment) prog v insn insn_ptr =
     Some (and_then (check_imm_aligned insn insn_ptr alignment) (\<lambda>_. Ok (False, insn_ptr)))"
| "run_check CheckJmpOffset prog v insn insn_ptr =
     map_option (\<lambda>res. and_then res (\<lambda>_. Ok (False, insn_ptr)))
       (check_jmp_offset prog insn_ptr (mk_range 0 (length prog div INSN_SIZE)))"
| "run_check CheckCallxRegister prog v insn insn_ptr =
     Some (and_then (check_callx_register insn insn_ptr v) (\<lambda>_. Ok (False, insn_ptr)))"

section \<open>The verifier\<close>

text \<open>One round of the loop; the result is the next program counter.\<close>

definition verify_insn ::
  "u8 list \<Rightarrow> SBPFVersion \<Rightarrow> nat \<Rightarrow> (nat, VerifierError) result option"
where
  "verify_insn prog v insn_ptr =
     (case get_insn prog (of_nat insn_ptr) of
        None \<Rightarrow> None
      | Some insn \<Rightarrow>
          (case first_arm (verifier_arms v insn) (opc insn) of
             None \<Rightarrow> Some (Err (UnknownOpCode (opc insn) (of_nat insn_ptr)))
           | Some check \<Rightarrow>
               map_option
                 (\<lambda>res. and_then res (\<lambda>(store, insn_ptr).
                    and_then (check_registers insn store insn_ptr v) (\<lambda>_. Ok (insn_ptr + 1))))
                 (run_check check prog v insn insn_ptr)))"

lemma run_check_progress: "run_check c prog v insn p = Some (Ok (store, p')) \<Longrightarrow> p \<le> p'"
  by (cases c) (auto simp: and_then_Ok_iff)

lemma verify_insn_progress: "verify_insn prog v p = Some (Ok p') \<Longrightarrow> p < p'"
  by (auto simp: verify_insn_def and_then_Ok_iff dest!: run_check_progress split: option.splits)

function verify_loop :: "u8 list \<Rightarrow> SBPFVersion \<Rightarrow> nat \<Rightarrow> (nat, VerifierError) result option" where
  "verify_loop prog v insn_ptr =
     (if (insn_ptr + 1) * INSN_SIZE \<le> length prog then
        (case verify_insn prog v insn_ptr of
           None \<Rightarrow> None
         | Some (Err e) \<Rightarrow> Some (Err e)
         | Some (Ok insn_ptr) \<Rightarrow> verify_loop prog v insn_ptr)
      else Some (Ok insn_ptr))"
  by pat_completeness auto
termination
  by (relation "measure (\<lambda>(prog, _, insn_ptr). length prog - insn_ptr)")
     (auto dest!: verify_insn_progress)

declare verify_loop.simps [simp del]

definition verify :: "u8 list \<Rightarrow> Config \<Rightarrow> SBPFVersion \<Rightarrow> (unit, VerifierError) result option" where
  "verify prog cfg v =
     (case check_prog_len prog of
        Err e \<Rightarrow> Some (Err e)
      | Ok _ \<Rightarrow>
          map_option
            (\<lambda>res. and_then res (\<lambda>insn_ptr.
               if insn_ptr \<noteq> length prog div INSN_SIZE
               then Err (JumpOutOfCode (of_nat insn_ptr) (of_nat insn_ptr))
               else Ok ()))
            (verify_loop prog v 0))"

section \<open>What the verifier accepts\<close>

text \<open>
  The specification, with no control flow in it: the instruction at a program counter, the places
  where an instruction starts (the second slot of a wide load is none), and what has to hold of
  each instruction.
\<close>

definition insn_count :: "u8 list \<Rightarrow> nat" where
  "insn_count prog = length prog div 8"

definition insn_at :: "u8 list \<Rightarrow> nat \<Rightarrow> Insn" where
  "insn_at prog p = insn_of_bytes (of_nat p) (take 8 (drop (8 * p) prog))"

definition is_lddw :: "u8 list \<Rightarrow> SBPFVersion \<Rightarrow> nat \<Rightarrow> bool" where
  "is_lddw prog v p \<longleftrightarrow> opc (insn_at prog p) = LD_DW_IMM \<and> \<not> disable_lddw v"

inductive_set insn_starts :: "u8 list \<Rightarrow> SBPFVersion \<Rightarrow> nat set"
  for prog :: "u8 list" and v :: SBPFVersion
where
  first: "0 \<in> insn_starts prog v"
| wide: "p \<in> insn_starts prog v \<Longrightarrow> p < insn_count prog \<Longrightarrow> is_lddw prog v p \<Longrightarrow>
     p + 2 \<in> insn_starts prog v"
| single: "p \<in> insn_starts prog v \<Longrightarrow> p < insn_count prog \<Longrightarrow> \<not> is_lddw prog v p \<Longrightarrow>
     p + 1 \<in> insn_starts prog v"

definition jump_target :: "u8 list \<Rightarrow> nat \<Rightarrow> int" where
  "jump_target prog p = int p + 1 + sint (off (insn_at prog p))"

fun check_holds :: "insn_check \<Rightarrow> u8 list \<Rightarrow> SBPFVersion \<Rightarrow> nat \<Rightarrow> bool" where
  "check_holds NoCheck prog v p \<longleftrightarrow> True"
| "check_holds MarkStore prog v p \<longleftrightarrow> True"
| "check_holds CheckLoadDw prog v p \<longleftrightarrow> p + 1 < insn_count prog \<and> opc (insn_at prog (p + 1)) = 0"
| "check_holds CheckImmNonzero prog v p \<longleftrightarrow> imm (insn_at prog p) \<noteq> 0"
| "check_holds (CheckImmShift bits) prog v p \<longleftrightarrow>
     0 \<le> sint (imm (insn_at prog p)) \<and> imm (insn_at prog p) < bits"
| "check_holds CheckImmEndian prog v p \<longleftrightarrow> imm (insn_at prog p) \<in> {16, 32, 64}"
| "check_holds (CheckImmAligned al) prog v p \<longleftrightarrow> imm (insn_at prog p) AND (al - 1) = 0"
| "check_holds CheckJmpOffset prog v p \<longleftrightarrow>
     0 \<le> jump_target prog p \<and> jump_target prog p < int (insn_count prog)
     \<and> opc (insn_at prog (nat (jump_target prog p))) \<noteq> 0"
| "check_holds CheckCallxRegister prog v p \<longleftrightarrow>
     is_ok (check_callx_register (insn_at prog p) p v)"

definition registers_ok :: "Insn \<Rightarrow> bool \<Rightarrow> SBPFVersion \<Rightarrow> bool" where
  "registers_ok insn store v \<longleftrightarrow>
     src insn \<le> 10 \<and>
     (dst insn \<le> 9 \<or> dst insn = 10 \<and> (store \<or> manual_stack_frame_bump v \<and> opc insn = ADD64_IMM))"

definition insn_accepted :: "u8 list \<Rightarrow> SBPFVersion \<Rightarrow> nat \<Rightarrow> bool" where
  "insn_accepted prog v p \<longleftrightarrow>
     (let insn = insn_at prog p in
      case first_arm (verifier_arms v insn) (opc insn) of
        None \<Rightarrow> False
      | Some c \<Rightarrow> check_holds c prog v p \<and> registers_ok insn (c = MarkStore) v)"

subsection \<open>The checks decide the specification\<close>

lemma insn_count_less: "slice_len_ok prog \<Longrightarrow> p < insn_count prog \<Longrightarrow> p < 2 ^ 60"
  by (simp add: insn_count_def slice_len_ok_def)

lemma get_insn_at:
  assumes "slice_len_ok prog" "p < insn_count prog"
  shows "get_insn prog (of_nat p) = Some (insn_at prog p)"
proof -
  have p: "unat (of_nat p :: u64) = p"
    using insn_count_less [OF assms] by (simp add: unat_of_nat_u64)
  have "8 * unat (of_nat p :: u64) + 8 \<le> length prog"
    using assms(2) unfolding p by (simp add: insn_count_def)
  from get_insn_inside [OF assms(1) this] show ?thesis unfolding get_insn_def insn_at_def p .
qed

lemma check_load_dw_iff:
  assumes "slice_len_ok prog" "length prog = 8 * insn_count prog"
  shows "check_load_dw prog p \<noteq> None"
    and "check_load_dw prog p = Some (Ok ()) \<longleftrightarrow> p + 1 < insn_count prog \<and> opc (insn_at prog (p + 1)) = 0"
  using get_insn_at [OF assms(1), of "p + 1"] assms(2) by (auto simp: check_load_dw_def)

lemma check_jmp_offset_iff:
  assumes "slice_len_ok prog" "p < insn_count prog"
  shows "check_jmp_offset prog p (mk_range 0 (length prog div 8)) \<noteq> None"
    and "check_jmp_offset prog p (mk_range 0 (length prog div 8)) = Some (Ok ()) \<longleftrightarrow>
      check_holds CheckJmpOffset prog v p"
proof -
  define t where "t = jump_target prog p"
  have t: "int p + 1 + sint (off (insn_at prog p)) = t" by (simp add: t_def jump_target_def)
  have insn: "get_insn prog (of_nat p) = Some (insn_at prog p)" using get_insn_at [OF assms] .
  have target: "get_insn prog (word_of_int t) = Some (insn_at prog (nat t))"
    if "0 \<le> t" "t < int (insn_count prog)"
    using get_insn_at [OF assms(1), of "nat t"] that by (simp add: of_nat_nat)
  have eq: "check_jmp_offset prog p (mk_range 0 (length prog div 8)) =
      (if t < 0 \<or> \<not> nat t < insn_count prog
       then Some (Err (JumpOutOfCode (word_of_int t) (of_nat p)))
       else map_option
         (\<lambda>dst_insn. if opc dst_insn = 0 then Err (JumpToMiddleOfLDDW (word_of_int t) (of_nat p)) else Ok ())
         (get_insn prog (word_of_int t)))"
    by (simp add: check_jmp_offset_def insn t range_contains_def insn_count_def Let_def)
  have holds: "check_holds CheckJmpOffset prog v p \<longleftrightarrow>
      0 \<le> t \<and> t < int (insn_count prog) \<and> opc (insn_at prog (nat t)) \<noteq> 0"
    by (simp add: t_def)
  show "check_jmp_offset prog p (mk_range 0 (length prog div 8)) \<noteq> None"
    "check_jmp_offset prog p (mk_range 0 (length prog div 8)) = Some (Ok ()) \<longleftrightarrow>
      check_holds CheckJmpOffset prog v p"
  proof -
    show "check_jmp_offset prog p (mk_range 0 (length prog div 8)) \<noteq> None"
      unfolding eq using target by (auto simp: not_less nat_less_iff)
    show "check_jmp_offset prog p (mk_range 0 (length prog div 8)) = Some (Ok ()) \<longleftrightarrow>
      check_holds CheckJmpOffset prog v p"
      unfolding holds eq using target by (cases "0 \<le> t \<and> t < int (insn_count prog)") (auto simp: nat_less_iff)
  qed
qed

lemma check_registers_iff:
  "check_registers insn store p v = Ok () \<longleftrightarrow> registers_ok insn store v"
  by (auto simp: check_registers_def registers_ok_def not_less)

lemma run_check_iff:
  assumes "slice_len_ok prog" "length prog = 8 * insn_count prog" "p < insn_count prog"
  shows "run_check c prog v (insn_at prog p) p \<noteq> None"
    and "run_check c prog v (insn_at prog p) p = Some (Ok (st, q)) \<longleftrightarrow>
      check_holds c prog v p \<and> st = (c = MarkStore) \<and> q = (if c = CheckLoadDw then p + 1 else p)"
proof -
  show "run_check c prog v (insn_at prog p) p \<noteq> None"
    using check_load_dw_iff(1) [OF assms(1,2)] check_jmp_offset_iff(1) [OF assms(1,3)] by (cases c) auto
  show "run_check c prog v (insn_at prog p) p = Some (Ok (st, q)) \<longleftrightarrow>
      check_holds c prog v p \<and> st = (c = MarkStore) \<and> q = (if c = CheckLoadDw then p + 1 else p)"
  proof (cases c)
    case CheckLoadDw
    then show ?thesis using check_load_dw_iff [OF assms(1,2), of p]
      by (cases "check_load_dw prog p") (auto simp: and_then_Ok_iff)
  next
    case CheckJmpOffset
    then show ?thesis using check_jmp_offset_iff(1) [OF assms(1,3)] check_jmp_offset_iff(2) [OF assms(1,3), of v]
      by (cases "check_jmp_offset prog p (mk_range 0 (length prog div 8))") (auto simp: and_then_Ok_iff)
  next
    case CheckCallxRegister
    then show ?thesis by (cases "check_callx_register (insn_at prog p) p v") auto
  qed (auto simp: and_then_Ok_iff check_imm_nonzero_def check_imm_shift_def check_imm_endian_def
      check_imm_aligned_def not_less not_le Let_def)
qed

lemma load_dw_arm: "first_arm (verifier_arms v insn) x = Some CheckLoadDw \<longleftrightarrow> x = LD_DW_IMM \<and> \<not> disable_lddw v"
proof
  assume "first_arm (verifier_arms v insn) x = Some CheckLoadDw"
  from first_arm_mem [OF this] show "x = LD_DW_IMM \<and> \<not> disable_lddw v"
    by (simp add: verifier_arms_defs)
next
  assume "x = LD_DW_IMM \<and> \<not> disable_lddw v"
  then show "first_arm (verifier_arms v insn) x = Some CheckLoadDw"
    by (simp add: verifier_arms_def arms_ld_def)
qed

definition next_start :: "u8 list \<Rightarrow> SBPFVersion \<Rightarrow> nat \<Rightarrow> nat" where
  "next_start prog v p = (if is_lddw prog v p then p + 2 else p + 1)"

lemma verify_insn_iff:
  assumes "slice_len_ok prog" "length prog = 8 * insn_count prog" "p < insn_count prog"
  shows "verify_insn prog v p \<noteq> None"
    and "verify_insn prog v p = Some (Ok q) \<longleftrightarrow> insn_accepted prog v p \<and> q = next_start prog v p"
proof -
  let ?insn = "insn_at prog p"
  note insn = get_insn_at [OF assms(1,3)]
  have regs: "(\<exists>u. check_registers ?insn st p' v = Ok u) \<longleftrightarrow> registers_ok ?insn st v" for st p'
    using check_registers_iff [of ?insn st p' v] by auto
  show "verify_insn prog v p \<noteq> None"
    using run_check_iff(1) [OF assms] by (simp add: verify_insn_def insn split: option.split)
  show "verify_insn prog v p = Some (Ok q) \<longleftrightarrow> insn_accepted prog v p \<and> q = next_start prog v p"
  proof (cases "first_arm (verifier_arms v ?insn) (opc ?insn)")
    case None
    then show ?thesis by (simp add: verify_insn_def insn insn_accepted_def)
  next
    case (Some c)
    have lddw: "c = CheckLoadDw \<longleftrightarrow> is_lddw prog v p"
      using load_dw_arm [of v ?insn "opc ?insn"] Some by (auto simp: is_lddw_def)
    have "verify_insn prog v p = Some (Ok q) \<longleftrightarrow>
        (\<exists>st p'. run_check c prog v ?insn p = Some (Ok (st, p')) \<and> registers_ok ?insn st v \<and> q = p' + 1)"
      using Some regs by (fastforce simp: verify_insn_def insn and_then_Ok_iff)
    then show ?thesis using Some lddw
      by (auto simp: run_check_iff(2) [OF assms] insn_accepted_def next_start_def)
  qed
qed

lemma insn_starts_next:
  "p \<in> insn_starts prog v \<Longrightarrow> p < insn_count prog \<Longrightarrow> next_start prog v p \<in> insn_starts prog v"
  unfolding next_start_def using wide [of p prog v] single [of p prog v] by (simp only: split: if_split) blast

lemma insn_starts_prev:
  assumes "q \<in> insn_starts prog v" "0 < q"
  obtains p where "p \<in> insn_starts prog v" "p < insn_count prog" "q = next_start prog v p" "p < q"
  using assms by (cases rule: insn_starts.cases) (auto simp: next_start_def)

text \<open>There is no start strictly between a start and the next.\<close>

lemma insn_starts_chain:
  "p \<in> insn_starts prog v \<Longrightarrow> q \<in> insn_starts prog v \<Longrightarrow> p < q \<Longrightarrow> next_start prog v p \<le> q"
proof (induction "p + q" arbitrary: p q rule: less_induct)
  case less
  obtain q' where q': "q' \<in> insn_starts prog v" "q = next_start prog v q'" "q' < q"
    using less.prems by (auto elim: insn_starts_prev)
  consider "p = q'" | "p < q'" | "q' < p" by linarith
  then show ?case
  proof cases
    case 2
    then show ?thesis using less.hyps [of p q'] less.prems q' by simp
  next
    case 3
    then show ?thesis using less.hyps [of q' p] less.prems q' by simp
  qed (use q' in simp)
qed

lemma verify_loop_iff:
  assumes "slice_len_ok prog" "length prog = 8 * insn_count prog"
  shows "p \<in> insn_starts prog v \<Longrightarrow> p \<le> insn_count prog \<Longrightarrow>
    verify_loop prog v p \<noteq> None \<and>
    (verify_loop prog v p = Some (Ok q) \<longleftrightarrow>
      q = insn_count prog \<and>
      (\<forall>r \<in> insn_starts prog v. p \<le> r \<and> r < insn_count prog \<longrightarrow> insn_accepted prog v r))"
proof (induction "insn_count prog - p" arbitrary: p rule: less_induct)
  case less
  show ?case
  proof (cases "p < insn_count prog")
    case False
    then have "verify_loop prog v p = Some (Ok p)" using assms(2) by (subst verify_loop.simps) simp
    with False less.prems show ?thesis by auto
  next
    case p: True
    note insn = verify_insn_iff [OF assms p, of v]
    have loop: "verify_loop prog v p = (case verify_insn prog v p of None \<Rightarrow> None
        | Some (Err e) \<Rightarrow> Some (Err e) | Some (Ok p') \<Rightarrow> verify_loop prog v p')"
      using p assms(2) by (subst verify_loop.simps) simp
    have later: "p \<le> r \<longleftrightarrow> r = p \<or> next_start prog v p \<le> r" if "r \<in> insn_starts prog v" for r
      using insn_starts_chain [OF less.prems(1) that] by (cases "p < r") (auto simp: next_start_def)
    show ?thesis
    proof (cases "insn_accepted prog v p")
      case False
      then have "verify_insn prog v p \<noteq> Some (Ok x)" for x using insn(2) by simp
      with insn(1) have "\<exists>e. verify_loop prog v p = Some (Err e)"
        unfolding loop by (auto split: option.splits result.splits)
      with False less.prems p show ?thesis by auto
    next
      case True
      have "verify_loop prog v p = verify_loop prog v (next_start prog v p)"
        unfolding loop using insn(2) [of "next_start prog v p"] True by simp
      moreover have "next_start prog v p \<le> insn_count prog"
        using True p load_dw_arm [of v "insn_at prog p" "opc (insn_at prog p)"]
        by (auto simp: next_start_def is_lddw_def insn_accepted_def Let_def split: option.splits)
      moreover have "insn_count prog - next_start prog v p < insn_count prog - p"
        using p by (auto simp: next_start_def)
      ultimately show ?thesis
        using less.hyps [of "next_start prog v p"] insn_starts_next [OF less.prems(1) p] True p later
          less.prems(1) by auto
    qed
  qed
qed

lemma verify_char:
  assumes "slice_len_ok prog"
  shows "verify prog cfg v \<noteq> None"
    and "verify prog cfg v = Some (Ok ()) \<longleftrightarrow>
      prog \<noteq> [] \<and> 8 dvd length prog \<and>
      (\<forall>p \<in> insn_starts prog v. p < insn_count prog \<longrightarrow> insn_accepted prog v p)"
proof -
  have n: "length prog = 8 * insn_count prog" if "8 dvd length prog"
    using that by (auto simp: insn_count_def)
  note loop = verify_loop_iff [OF assms n, of 0 v, OF _ first]
  have len: "check_prog_len prog = Ok () \<longleftrightarrow> prog \<noteq> [] \<and> 8 dvd length prog"
    by (auto simp: check_prog_len_def dvd_eq_mod_eq_0)
  show "verify prog cfg v \<noteq> None"
    using loop len by (auto simp: verify_def split: result.splits)
  show "verify prog cfg v = Some (Ok ()) \<longleftrightarrow>
      prog \<noteq> [] \<and> 8 dvd length prog \<and>
      (\<forall>p \<in> insn_starts prog v. p < insn_count prog \<longrightarrow> insn_accepted prog v p)"
  proof (cases "check_prog_len prog")
    case (Err e)
    then show ?thesis using len by (auto simp: verify_def)
  next
    case (Ok u)
    then have d: "prog \<noteq> []" "8 dvd length prog" using len by auto
    then show ?thesis using Ok loop [OF d(2)]
      by (auto simp: verify_def and_then_Ok_iff insn_count_def [symmetric])
  qed
qed

text \<open>
  C12: the verifier never panics, and it accepts a program exactly when it is a nonempty whole number
  of instructions each of which, the second slots of wide loads apart, is known to the version, has
  valid registers, and passes the check of its arm of the \<open>match\<close>; jumps stay inside the program
  and do not land on the second slot of a wide load.
\<close>

theorem verify_iff:
  assumes "slice_len_ok prog"
  shows "verify prog cfg v \<noteq> None
    \<and> (verify prog cfg v = Some (Ok ()) \<longleftrightarrow>
      prog \<noteq> [] \<and> 8 dvd length prog \<and>
      (\<forall>p \<in> insn_starts prog v. p < insn_count prog \<longrightarrow> insn_accepted prog v p))"
  using verify_char [OF assms] ..

definition sample_prog :: "u8 list" where
  "sample_prog =
     [0xb7, 0, 0, 0, 7, 0, 0, 0,
      0x95, 0, 0, 0, 0, 0, 0, 0]"

lemma sample_prog_verifies: "verify sample_prog default_Config V0 = Some (Ok ())"
  by code_simp

theorem verify_iff_witness:
  "insn_accepted sample_prog V0 0 \<and> opc (insn_at sample_prog 0) = MOV64_IMM"
proof -
  have "slice_len_ok sample_prog" by (simp add: sample_prog_def slice_len_ok_def)
  from verify_iff [OF this, of default_Config V0, THEN conjunct2] sample_prog_verifies insn_starts.first
  have "insn_accepted sample_prog V0 0" by (auto simp: insn_count_def sample_prog_def)
  moreover have "opc (insn_at sample_prog 0) = MOV64_IMM"
    by (simp add: insn_at_def insn_of_bytes_def sample_prog_def opcode_values)
  ultimately show ?thesis by blast
qed

end
