(* ===== verification/Vm.thy ===== *)
theory Vm
  imports Memory_Mapping Verifier
begin

text \<open>
  The state of the virtual machine (\<open>EbpfVm\<close>, \<open>CallFrame\<close> of \<open>sbpf/src/vm.rs\<close>), the executable it
  runs (\<open>Executable\<close> of \<open>sbpf/src/elf.rs\<close>), and the operations on watched memory ranges.

  Type parameters: \<open>'c\<close> the context object, \<open>'f\<close> a builtin function pointer, \<open>'x\<close> the error object
  of a system call.  What the machine needs of them is an \<open>Env\<close>: the two methods of the trait
  \<open>ContextObject\<close> and, for each function pointer, the Rust function behind it.  The host memory that
  the regions point into is a component of the machine.
\<close>

section \<open>Executable\<close>

datatype Section =
    Owned usize "u8 list"
  | Borrowed usize "nat range"

record 'f Executable =
  elf_bytes :: "u8 list"
  sbpf_version :: SBPFVersion
  ro_section :: Section
  text_section_vaddr :: u64
  text_section_range :: "nat range"
  entry_pc :: usize
  function_registry :: "usize FunctionRegistry"
  loader :: "'f BuiltinProgram"

definition exe_get_config :: "'f Executable \<Rightarrow> Config option" where
  "exe_get_config e = get_config (loader e)"

definition get_sbpf_version :: "'f Executable \<Rightarrow> SBPFVersion" where
  "get_sbpf_version e = sbpf_version e"

text \<open>\<open>None\<close> is the panic of a slice out of bounds.\<close>

definition get_text_bytes :: "'f Executable \<Rightarrow> (u64 \<times> u8 list) option" where
  "get_text_bytes e =
     map_option (\<lambda>text. (text_section_vaddr e, text))
       (slice_get (elf_bytes e) (range_start (text_section_range e)) (range_end (text_section_range e)))"

definition get_ro_section :: "'f Executable \<Rightarrow> u8 list option" where
  "get_ro_section e =
     (case ro_section e of
        Owned _ bytes \<Rightarrow> Some bytes
      | Borrowed _ byte_range \<Rightarrow> slice_get (elf_bytes e) (range_start byte_range) (range_end byte_range))"

definition get_entrypoint_instruction_offset :: "'f Executable \<Rightarrow> usize" where
  "get_entrypoint_instruction_offset e = entry_pc e"

definition get_loader :: "'f Executable \<Rightarrow> 'f BuiltinProgram" where
  "get_loader e = loader e"

definition exe_get_function_registry :: "'f Executable \<Rightarrow> usize FunctionRegistry" where
  "exe_get_function_registry e = function_registry e"

text \<open>\<open>Executable::verify::<RequisiteVerifier>\<close>.\<close>

definition exe_verify :: "'f Executable \<Rightarrow> (unit, 'x EbpfError) result option" where
  "exe_verify e =
     (case (get_text_bytes e, exe_get_config e) of
        (Some (_, text), Some cfg) \<Rightarrow>
          map_option
            (\<lambda>res. case res of Ok _ \<Rightarrow> Ok () | Err err \<Rightarrow> Err (VerifierError err))
            (verify text cfg (get_sbpf_version e))
      | _ \<Rightarrow> None)"

text \<open>The outer \<open>None\<close> is the panic of \<open>get_config\<close> on a loader that is none.\<close>

definition new_from_text_bytes ::
  "(u8 list \<Rightarrow> u32) \<Rightarrow> u8 list \<Rightarrow> 'f BuiltinProgram \<Rightarrow> SBPFVersion \<Rightarrow> usize FunctionRegistry
     \<Rightarrow> ('f Executable, ElfError) result option"
where
  "new_from_text_bytes hash text_bytes ldr v registry =
     map_option
       (\<lambda>res. and_then res (\<lambda>(registry, pc).
          Ok \<lparr>elf_bytes = text_bytes,
              sbpf_version = v,
              ro_section =
                Borrowed (if enable_lower_rodata_vaddr v then MM_RODATA_START else MM_BYTECODE_START)
                  (mk_range 0 (length text_bytes)),
              text_section_vaddr = MM_BYTECODE_START,
              text_section_range = mk_range 0 (length text_bytes),
              entry_pc = pc,
              function_registry = registry,
              loader = ldr\<rparr>))
       (case lookup_by_name registry entrypoint_name of
          Some (_, pc) \<Rightarrow> Some (Ok (registry, pc))
        | None \<Rightarrow>
            (case register_function_hashed_legacy hash registry ldr (\<not> static_syscalls v)
                    entrypoint_name 0 of
               None \<Rightarrow> None
             | Some (registry, Ok _) \<Rightarrow> Some (Ok (registry, 0))
             | Some (_, Err err) \<Rightarrow> Some (Err err)))"

section \<open>Machine\<close>

record CallFrame =
  caller_saved_registers :: "u64 list"
  frame_pointer :: u64
  target_pc :: u64

definition default_CallFrame :: CallFrame where
  "default_CallFrame =
     \<lparr>caller_saved_registers = replicate SCRATCH_REGS 0, frame_pointer = 0, target_pc = 0\<rparr>"

record ('c, 'f, 'x) EbpfVm =
  call_depth :: u64
  context_object_pointer :: 'c
  previous_instruction_meter :: u64
  due_insn_count :: u64
  stopwatch_numerator :: u64
  stopwatch_denominator :: u64
  registers :: "u64 list"
  program_result :: "'x ProgramResult"
  memory_mapping :: MemoryMapping
  call_frames :: "CallFrame list"
  vm_loader :: "'f BuiltinProgram"
  register_trace :: "u64 list list"
  host :: host_memory

text \<open>\<open>stack_len\<close> is the length of the stack slice; \<open>None\<close> is the panic of \<open>get_config\<close>.\<close>

definition new_vm ::
  "'f BuiltinProgram \<Rightarrow> SBPFVersion \<Rightarrow> 'c \<Rightarrow> MemoryMapping \<Rightarrow> usize \<Rightarrow> host_memory
     \<Rightarrow> ('c, 'f, 'x) EbpfVm option"
where
  "new_vm ldr v context_object mapping stack_len mem =
     map_option
       (\<lambda>cfg.
          let frame_ptr =
                saturating_add MM_STACK_START
                  (if \<not> manual_stack_frame_bump v then stack_frame_size cfg else stack_len);
              mapping = (if \<not> enable_address_translation cfg then new_identity else mapping)
          in \<lparr>call_depth = 0,
              context_object_pointer = context_object,
              previous_instruction_meter = 0,
              due_insn_count = 0,
              stopwatch_numerator = 0,
              stopwatch_denominator = 0,
              registers = (replicate 12 0)[FRAME_PTR_REG := frame_ptr],
              program_result = Ok 0,
              memory_mapping = mapping,
              call_frames = replicate (unat (max_call_depth cfg)) default_CallFrame,
              vm_loader = ldr,
              register_trace = [],
              host = mem\<rparr>)
       (get_config ldr)"

section \<open>Watched ranges\<close>

text \<open>An operation on the tracker, if the mapping has one.\<close>

definition on_tracker ::
  "(MemoryAccessTracker \<Rightarrow> MemoryAccessTracker) \<Rightarrow> ('c, 'f, 'x) EbpfVm \<Rightarrow> ('c, 'f, 'x) EbpfVm"
where
  "on_tracker f m =
     m\<lparr>memory_mapping :=
         map_common (\<lambda>c. c\<lparr>access_tracker := f (access_tracker c)\<rparr>) (memory_mapping m)\<rparr>"

definition add_watched_memory_range ::
  "('c, 'f, 'x) EbpfVm \<Rightarrow> u64 range \<Rightarrow> ('c, 'f, 'x) EbpfVm"
where
  "add_watched_memory_range m rg = on_tracker (\<lambda>t. add_watched_range t rg) m"

definition add_watched_memory_ranges ::
  "('c, 'f, 'x) EbpfVm \<Rightarrow> u64 range list \<Rightarrow> ('c, 'f, 'x) EbpfVm"
where
  "add_watched_memory_ranges m ranges = on_tracker (\<lambda>t. add_watched_ranges t ranges) m"

definition has_forbidden_memory_accesses :: "('c, 'f, 'x) EbpfVm \<Rightarrow> bool" where
  "has_forbidden_memory_accesses m =
     (case get_access_tracker (memory_mapping m) of
        None \<Rightarrow> False | Some t \<Rightarrow> has_forbidden_accesses t)"

definition get_forbidden_memory_accesses :: "('c, 'f, 'x) EbpfVm \<Rightarrow> (u64 \<times> usize) list" where
  "get_forbidden_memory_accesses m =
     (case get_access_tracker (memory_mapping m) of
        None \<Rightarrow> [] | Some t \<Rightarrow> get_forbidden_accesses t)"

definition get_watched_memory_ranges :: "('c, 'f, 'x) EbpfVm \<Rightarrow> u64 range list" where
  "get_watched_memory_ranges m =
     (case get_access_tracker (memory_mapping m) of
        None \<Rightarrow> [] | Some t \<Rightarrow> get_watched_ranges t)"

definition reset_access_tracker :: "('c, 'f, 'x) EbpfVm \<Rightarrow> ('c, 'f, 'x) EbpfVm" where
  "reset_access_tracker m = on_tracker reset_tracker m"

definition clear_access_tracker :: "('c, 'f, 'x) EbpfVm \<Rightarrow> ('c, 'f, 'x) EbpfVm" where
  "clear_access_tracker m = on_tracker clear_tracker m"

section \<open>Context object and builtin functions\<close>

record ('c, 'f, 'x) Env =
  consume :: "'c \<Rightarrow> u64 \<Rightarrow> 'c"
  get_remaining :: "'c \<Rightarrow> u64"
  rust :: "'f \<Rightarrow> 'c \<Rightarrow> u64 list \<Rightarrow> MemoryMapping \<Rightarrow> host_memory
     \<Rightarrow> (u64, 'x) result \<times> 'c \<times> MemoryMapping \<times> host_memory"

text \<open>
  The adapter that \<open>declare_builtin_function!\<close> (\<open>sbpf/src/program.rs\<close>) puts around a Rust function.
  \<open>None\<close> is the panic of \<open>get_config\<close>.
\<close>

definition builtin_vm ::
  "('c, 'f, 'x) Env \<Rightarrow> 'f \<Rightarrow> ('c, 'f, 'x) EbpfVm \<Rightarrow> u64 list \<Rightarrow> ('c, 'f, 'x) EbpfVm option"
where
  "builtin_vm env f m args =
     (case get_config (vm_loader m) of
        None \<Rightarrow> None
      | Some cfg \<Rightarrow>
          let ctx = (if enable_instruction_meter cfg
                     then consume env (context_object_pointer m)
                            (previous_instruction_meter m - due_insn_count m)
                     else context_object_pointer m);
              (res, ctx, mapping, mem) = rust env f ctx args (memory_mapping m) (host m);
              m = m\<lparr>context_object_pointer := ctx, memory_mapping := mapping, host := mem,
                    program_result :=
                      (case res of Ok x \<Rightarrow> Ok x | Err e \<Rightarrow> Err (SyscallError e))\<rparr>
          in Some (if enable_instruction_meter cfg
                   then m\<lparr>previous_instruction_meter := get_remaining env (context_object_pointer m)\<rparr>
                   else m))"

definition invoke_function ::
  "('c, 'f, 'x) Env \<Rightarrow> 'f \<Rightarrow> ('c, 'f, 'x) EbpfVm \<Rightarrow> ('c, 'f, 'x) EbpfVm option"
where
  "invoke_function env f m = builtin_vm env f m (map (\<lambda>i. registers m ! i) [1, 2, 3, 4, 5])"

end
