(* ===== verification/Invoke_Context.thy ===== *)
theory Invoke_Context
  imports Lamports Budget Heap_Allocator Vm
begin

text \<open>
  \<open>InvokeContext\<close> of \<open>agave/program-runtime/src/invoke_context.rs\<close>: the compute meter, the stack of
  system call contexts that goes with the instruction stack, the privilege checks of a cross-program
  invocation, and the run of one instruction.

  Parameters: \<open>show_key\<close> is the \<open>Display\<close> of a key; the program cache is the function that \<open>find\<close>
  computes; the builtin programs are the functions of an \<open>Env\<close>.  Timing measurements, the sysvar
  cache and the callbacks into the bank are left out.
\<close>

section \<open>Errors of system calls\<close>

datatype MemoryTranslationError = TranslationUnalignedPointer | TranslationInvalidLength

datatype SyscallErrorKind =
    InvalidString "u8 list"
  | Abort
  | PanicAt string u64 u64
  | InvokeContextBorrowFailed
  | MalformedSignerSeed "u8 list"
  | BadSeeds
  | ProgramNotSupported Pubkey
  | UnalignedPointer
  | TooManySigners
  | InstructionTooLarge usize usize
  | TooManyAccounts
  | CopyOverlapping
  | ReturnDataTooLarge u64 u64
  | TooManySlices
  | InvalidLength
  | MaxInstructionDataLenExceeded u64 u64
  | MaxInstructionAccountsExceeded u64 u64
  | MaxInstructionAccountInfosExceeded u64 u64
  | InvalidAttribute
  | InvalidPointer
  | SyscallArithmeticOverflow

text \<open>\<open>Box<dyn Error>\<close> with the types that the modelled code puts into it.\<close>

datatype BoxedError =
    BoxInstruction InstructionError
  | BoxSyscall SyscallErrorKind
  | BoxMemory MemoryTranslationError
  | BoxEbpf "BoxedError EbpfError"

section \<open>State\<close>

record SerializedAccountMetadata =
  original_data_len :: nat
  vm_data_addr :: u64
  vm_key_addr :: u64
  vm_lamports_addr :: u64
  vm_owner_addr :: u64

record SyscallContext =
  allocator :: BpfAllocator
  accounts_metadata :: "SerializedAccountMetadata list"

record InvokeContext =
  transaction_context :: TransactionContext
  feature_set :: SVMFeatureSet
  compute_budget :: SVMTransactionExecutionBudget
  execution_cost :: SVMTransactionExecutionCost
  compute_meter :: u64
  log_collector :: "LogCollector option"
  syscall_context :: "SyscallContext option list"
  register_traces :: "(nat \<times> u64 list list) list"
  forbidden_sysvar_data_ranges :: "usize range list"
  forbidden_memory_accesses :: "(u64 \<times> usize) list"

definition new_InvokeContext ::
  "TransactionContext \<Rightarrow> SVMFeatureSet \<Rightarrow> LogCollector option \<Rightarrow> SVMTransactionExecutionBudget
     \<Rightarrow> SVMTransactionExecutionCost \<Rightarrow> InvokeContext"
where
  "new_InvokeContext tc features log_coll budget cost =
     \<lparr>transaction_context = tc,
      feature_set = features,
      compute_budget = budget,
      execution_cost = cost,
      compute_meter = compute_unit_limit budget,
      log_collector = log_coll,
      syscall_context = [],
      register_traces = [],
      forbidden_sysvar_data_ranges = [],
      forbidden_memory_accesses = []\<rparr>"

definition set_forbidden_sysvar_data_ranges ::
  "InvokeContext \<Rightarrow> usize range list \<Rightarrow> InvokeContext"
where
  "set_forbidden_sysvar_data_ranges ic ranges = ic\<lparr>forbidden_sysvar_data_ranges := ranges\<rparr>"

definition ic_get_forbidden_memory_accesses :: "InvokeContext \<Rightarrow> (u64 \<times> usize) list" where
  "ic_get_forbidden_memory_accesses ic = forbidden_memory_accesses ic"

section \<open>Meter and log\<close>

definition ic_consume :: "InvokeContext \<Rightarrow> u64 \<Rightarrow> InvokeContext" where
  "ic_consume ic amount = ic\<lparr>compute_meter := saturating_sub (compute_meter ic) amount\<rparr>"

definition ic_get_remaining :: "InvokeContext \<Rightarrow> u64" where
  "ic_get_remaining ic = compute_meter ic"

definition consume_checked :: "InvokeContext \<Rightarrow> u64 \<Rightarrow> InvokeContext \<times> (unit, BoxedError) result" where
  "consume_checked ic amount =
     (let exceeded = compute_meter ic < amount;
          ic = ic\<lparr>compute_meter := saturating_sub (compute_meter ic) amount\<rparr>
      in if exceeded then (ic, Err (BoxInstruction ComputationalBudgetExceeded)) else (ic, Ok ()))"

definition mock_set_remaining :: "InvokeContext \<Rightarrow> u64 \<Rightarrow> InvokeContext" where
  "mock_set_remaining ic remaining = ic\<lparr>compute_meter := remaining\<rparr>"

definition ic_msg :: "InvokeContext \<Rightarrow> string \<Rightarrow> InvokeContext" where
  "ic_msg ic message = ic\<lparr>log_collector := map_option (\<lambda>lc. log lc message) (log_collector ic)\<rparr>"

text \<open>
  \<open>Display\<close> and \<open>{:#x}\<close> of a number.  The \<open>Display\<close> of keys and errors and the base64 encoding come
  from other crates.
\<close>

fun show_nat :: "nat \<Rightarrow> string" where
  "show_nat n = (if n < 10 then [] else show_nat (n div 10)) @ [char_of (48 + n mod 10)]"

definition hex_digit :: "nat \<Rightarrow> char" where
  "hex_digit n = char_of (if n < 10 then 48 + n else 87 + n)"

fun hex_digits :: "nat \<Rightarrow> string" where
  "hex_digits n = (if n < 16 then [] else hex_digits (n div 16)) @ [hex_digit (n mod 16)]"

definition show_hex :: "u64 \<Rightarrow> string" where
  "show_hex w = ''0x'' @ hex_digits (unat w)"

declare show_nat.simps [simp del] hex_digits.simps [simp del]

record 'e Display =
  show_key :: "Pubkey \<Rightarrow> string"
  show_err :: "'e \<Rightarrow> string"
  show_base64 :: "u8 list \<Rightarrow> string"

text \<open>\<open>stable_log\<close>.\<close>

definition program_invoke :: "'e Display \<Rightarrow> InvokeContext \<Rightarrow> Pubkey \<Rightarrow> nat \<Rightarrow> InvokeContext" where
  "program_invoke d ic program_id invoke_depth =
     ic_msg ic (''Program '' @ show_key d program_id @ '' invoke ['' @ show_nat invoke_depth @ '']'')"

definition program_log :: "InvokeContext \<Rightarrow> string \<Rightarrow> InvokeContext" where
  "program_log ic message = ic_msg ic (''Program log: '' @ message)"

definition program_data :: "'e Display \<Rightarrow> InvokeContext \<Rightarrow> u8 list list \<Rightarrow> InvokeContext" where
  "program_data d ic slices =
     ic_msg ic (''Program data: '' @
       (case map (show_base64 d) slices of [] \<Rightarrow> [] | s # ss \<Rightarrow> s @ concat (map (\<lambda>s. '' '' @ s) ss)))"

definition program_return :: "'e Display \<Rightarrow> InvokeContext \<Rightarrow> Pubkey \<Rightarrow> u8 list \<Rightarrow> InvokeContext" where
  "program_return d ic program_id bytes =
     ic_msg ic (''Program return: '' @ show_key d program_id @ '' '' @ show_base64 d bytes)"

definition program_success :: "'e Display \<Rightarrow> InvokeContext \<Rightarrow> Pubkey \<Rightarrow> InvokeContext" where
  "program_success d ic program_id = ic_msg ic (''Program '' @ show_key d program_id @ '' success'')"

definition program_failure :: "'e Display \<Rightarrow> InvokeContext \<Rightarrow> Pubkey \<Rightarrow> 'e \<Rightarrow> InvokeContext" where
  "program_failure d ic program_id err =
     ic_msg ic (''Program '' @ show_key d program_id @ '' failed: '' @ show_err d err)"

section \<open>System call contexts\<close>

definition set_syscall_context ::
  "InvokeContext \<Rightarrow> SyscallContext \<Rightarrow> InvokeContext \<times> (unit, InstructionError) result"
where
  "set_syscall_context ic sc =
     (if syscall_context ic = [] then (ic, Err CallDepth)
      else (ic\<lparr>syscall_context := butlast (syscall_context ic) @ [Some sc]\<rparr>, Ok ()))"

definition get_syscall_context :: "InvokeContext \<Rightarrow> (SyscallContext, InstructionError) result" where
  "get_syscall_context ic =
     (if syscall_context ic = [] then Err CallDepth else ok_or (last (syscall_context ic)) CallDepth)"

definition insert_register_trace :: "InvokeContext \<Rightarrow> u64 list list \<Rightarrow> InvokeContext" where
  "insert_register_trace ic trace =
     (if trace = [] then ic
      else case get_current_instruction_context (transaction_context ic) of
             Err _ \<Rightarrow> ic
           | Ok ins \<Rightarrow> ic\<lparr>register_traces := register_traces ic @ [(get_index_in_trace ins, trace)]\<rparr>)"

definition get_stack_height :: "InvokeContext \<Rightarrow> nat" where
  "get_stack_height ic = get_instruction_stack_height (transaction_context ic)"

definition get_check_aligned :: "Sdk \<Rightarrow> InvokeContext \<Rightarrow> bool" where
  "get_check_aligned sdk ic =
     (case and_then (get_current_instruction_context (transaction_context ic))
             (get_program_owner (transaction_context ic)) of
        Ok owner_key \<Rightarrow> owner_key \<noteq> bpf_loader_deprecated_id sdk
      | Err _ \<Rightarrow> True)"

section \<open>Invocation stack\<close>

text \<open>Whether an instruction runs a given program; errors count as no.\<close>

definition runs_program ::
  "TransactionContext \<Rightarrow> Pubkey \<Rightarrow> (InstructionContext, InstructionError) result \<Rightarrow> bool"
where
  "runs_program tc program_id ins =
     (case and_then ins (get_program_key tc) of Ok k \<Rightarrow> k = program_id | Err _ \<Rightarrow> False)"

definition ic_push :: "Sdk \<Rightarrow> InvokeContext \<Rightarrow> InvokeContext \<times> (unit, InstructionError) result" where
  "ic_push sdk ic =
     (let tc = transaction_context ic in
      case get_instruction_context_at_index_in_trace tc (get_instruction_trace_length tc) of
        Err e \<Rightarrow> (ic, Err e)
      | Ok ins \<Rightarrow>
          (case get_program_key tc ins of
             Err _ \<Rightarrow> (ic, Err UnsupportedProgramId)
           | Ok program_id \<Rightarrow>
               let contains = list_ex (\<lambda>level. runs_program tc program_id
                                  (get_instruction_context_at_nesting_level tc level))
                                [0..<get_instruction_stack_height tc];
                   is_last = runs_program tc program_id (get_current_instruction_context tc)
               in if get_instruction_stack_height tc \<noteq> 0 \<and> contains \<and> \<not> is_last
                  then (ic, Err ReentrancyNotAllowed)
                  else
                    let (tc, res) = tc_push sdk tc
                    in (ic\<lparr>syscall_context := syscall_context ic @ [None], transaction_context := tc\<rparr>, res)))"

definition ic_pop :: "InvokeContext \<Rightarrow> InvokeContext \<times> (unit, InstructionError) result" where
  "ic_pop ic =
     (let (tc, res) = tc_pop (transaction_context ic)
      in (ic\<lparr>syscall_context := butlast (syscall_context ic), transaction_context := tc\<rparr>, res))"

end
