(* ===== verification/Cli.thy ===== *)
theory Cli
  imports Detector Invoke_Context
begin

text \<open>
  The command line tool, \<open>gobble/src/main.rs\<close>: the syntax of forbidden ranges, address lookup
  tables, the instructions sysvar account, the accounts of the transaction, and the programs behind
  upgradeable program accounts.

  A Rust string is its list of code points.  RPC answers, the methods of \<open>SanitizedMessage\<close> and the
  serialiser of the sysvar are arguments.
\<close>

section \<open>Forbidden ranges\<close>

type_synonym str = "nat list"

definition chr :: "char \<Rightarrow> nat" where
  "chr c = of_char c"

text \<open>\<open>char::is_whitespace\<close>: the Unicode property \<open>White_Space\<close>.\<close>

definition is_whitespace :: "nat \<Rightarrow> bool" where
  "is_whitespace c \<longleftrightarrow>
     9 \<le> c \<and> c \<le> 13 \<or> c = 0x20 \<or> c = 0x85 \<or> c = 0xA0 \<or> c = 0x1680 \<or> 0x2000 \<le> c \<and> c \<le> 0x200A
     \<or> c = 0x2028 \<or> c = 0x2029 \<or> c = 0x202F \<or> c = 0x205F \<or> c = 0x3000"

definition trim :: "str \<Rightarrow> str" where
  "trim s = rev (dropWhile is_whitespace (rev (dropWhile is_whitespace s)))"

text \<open>\<open>str::split\<close> on a character: always at least one piece.\<close>

fun split_on :: "nat \<Rightarrow> str \<Rightarrow> str list" where
  "split_on c [] = [[]]"
| "split_on c (x # xs) =
     (if x = c then [] # split_on c xs
      else (x # List.hd (split_on c xs)) # List.tl (split_on c xs))"

text \<open>\<open>usize::from_str\<close>: an optional plus sign and decimal digits, without overflow.\<close>

fun parse_digits :: "nat \<Rightarrow> str \<Rightarrow> usize option" where
  "parse_digits acc [] = Some (of_nat acc)"
| "parse_digits acc (c # cs) =
     (if chr (CHR ''0'') \<le> c \<and> c \<le> chr (CHR ''9'') \<and> acc * 10 + (c - chr (CHR ''0'')) < 2 ^ 64
      then parse_digits (acc * 10 + (c - chr (CHR ''0''))) cs else None)"

definition parse_usize :: "str \<Rightarrow> usize option" where
  "parse_usize s =
     (let digits = (case s of [] \<Rightarrow> [] | c # cs \<Rightarrow> if c = chr (CHR ''+'') \<and> cs \<noteq> [] then cs else s)
      in if digits = [] then None else parse_digits 0 digits)"

datatype CliError =
    InvalidRangeFormat str
  | InvalidRangeStart str
  | InvalidRangeEnd str
  | TableNotFound Pubkey
  | TableIndexOutOfBounds Pubkey u8 nat
  | RpcFailure string

definition parse_range :: "str \<Rightarrow> (usize range, CliError) result" where
  "parse_range r =
     (let parts = split_on (chr (CHR ''-'')) (trim r) in
      if length parts \<noteq> 2 then Err (InvalidRangeFormat r)
      else
        case parse_usize (parts ! 0) of
          None \<Rightarrow> Err (InvalidRangeStart (parts ! 0))
        | Some a \<Rightarrow>
            (case parse_usize (parts ! 1) of
               None \<Rightarrow> Err (InvalidRangeEnd (parts ! 1))
             | Some b \<Rightarrow> Ok (mk_range a b)))"

text \<open>\<open>collect\<close> into a \<open>Result\<close>: the first error wins.\<close>

fun collect_results :: "('a \<Rightarrow> ('b, 'e) result) \<Rightarrow> 'a list \<Rightarrow> ('b list, 'e) result" where
  "collect_results f [] = Ok []"
| "collect_results f (x # xs) =
     and_then (f x) (\<lambda>y. and_then (collect_results f xs) (\<lambda>ys. Ok (y # ys)))"

definition parse_ranges :: "str \<Rightarrow> (usize range list, CliError) result" where
  "parse_ranges s = collect_results parse_range (split_on (chr (CHR '','')) s)"

section \<open>Address lookup tables\<close>

definition META_SIZE :: nat where
  "META_SIZE = 56"

definition parse_alt_addresses :: "u8 list \<Rightarrow> Pubkey list" where
  "parse_alt_addresses bytes =
     (if length bytes < META_SIZE then [] else fst (chunks_exact 32 (drop META_SIZE bytes)))"

record MessageAddressTableLookup =
  lookup_account_key :: Pubkey
  writable_indexes :: "u8 list"
  readonly_indexes :: "u8 list"

record LoadedAddresses =
  loaded_writable :: "Pubkey list"
  loaded_readonly :: "Pubkey list"

definition lookup_indexes ::
  "Pubkey \<Rightarrow> Pubkey list \<Rightarrow> u8 list \<Rightarrow> (Pubkey list, CliError) result"
where
  "lookup_indexes table addresses =
     collect_results (\<lambda>idx.
       if unat idx < length addresses then Ok (addresses ! unat idx)
       else Err (TableIndexOutOfBounds table idx (length addresses)))"

fun resolve_tables ::
  "(MessageAddressTableLookup \<times> AccountSharedData option) list \<Rightarrow> LoadedAddresses
     \<Rightarrow> (LoadedAddresses, CliError) result"
where
  "resolve_tables [] loaded = Ok loaded"
| "resolve_tables ((lookup, None) # tables) loaded = Err (TableNotFound (lookup_account_key lookup))"
| "resolve_tables ((lookup, Some account) # tables) loaded =
     (let addresses = parse_alt_addresses (asd_data account) in
      and_then (lookup_indexes (lookup_account_key lookup) addresses (writable_indexes lookup)) (\<lambda>ws.
        and_then (lookup_indexes (lookup_account_key lookup) addresses (readonly_indexes lookup)) (\<lambda>rs.
          resolve_tables tables
            \<lparr>loaded_writable = loaded_writable loaded @ ws, loaded_readonly = loaded_readonly loaded @ rs\<rparr>)))"

definition resolve_address_lookups ::
  "(Pubkey list \<Rightarrow> (AccountSharedData option list, CliError) result) \<Rightarrow> MessageAddressTableLookup list
     \<Rightarrow> (LoadedAddresses, CliError) result"
where
  "resolve_address_lookups fetch_accounts lookups =
     (if lookups = [] then Ok \<lparr>loaded_writable = [], loaded_readonly = []\<rparr>
      else
        and_then (fetch_accounts (map lookup_account_key lookups)) (\<lambda>alt_accounts.
          resolve_tables (zip lookups alt_accounts) \<lparr>loaded_writable = [], loaded_readonly = []\<rparr>))"

section \<open>The instructions sysvar\<close>

record CompiledInstruction =
  program_id_index :: u8
  ci_accounts :: "u8 list"
  ci_data :: "u8 list"

record SanitizedMessage =
  account_keys :: "Pubkey list"
  instructions :: "CompiledInstruction list"
  message_is_signer :: "nat \<Rightarrow> bool"
  message_is_writable :: "nat \<Rightarrow> bool"

record BorrowedAccountMeta =
  bam_is_signer :: bool
  bam_is_writable :: bool
  bam_pubkey :: Pubkey

record BorrowedInstruction =
  bi_accounts :: "BorrowedAccountMeta list"
  bi_data :: "u8 list"
  bi_program_id :: Pubkey

text \<open>An index outside the account keys is the panic of \<open>unwrap\<close>.\<close>

definition decompile_instruction :: "SanitizedMessage \<Rightarrow> CompiledInstruction \<Rightarrow> BorrowedInstruction option" where
  "decompile_instruction msg ix =
     Option.bind (nth_get (account_keys msg) (unat (program_id_index ix))) (\<lambda>program_id.
       Option.bind (those (map (\<lambda>i. map_option (\<lambda>key.
           \<lparr>bam_is_signer = message_is_signer msg (unat i), bam_is_writable = message_is_writable msg (unat i),
            bam_pubkey = key\<rparr>) (nth_get (account_keys msg) (unat i))) (ci_accounts ix))) (\<lambda>metas.
         Some \<lparr>bi_accounts = metas, bi_data = ci_data ix, bi_program_id = program_id\<rparr>))"

definition construct_instructions_account ::
  "(BorrowedInstruction list \<Rightarrow> u8 list) \<Rightarrow> Sdk \<Rightarrow> SanitizedMessage \<Rightarrow> AccountSharedData option"
where
  "construct_instructions_account construct_instructions_data sdk msg =
     map_option (\<lambda>decompiled.
       \<lparr>asd_lamports = 0, asd_data = construct_instructions_data decompiled, asd_owner = sysvar_id sdk,
        asd_executable = False, asd_rent_epoch = 0, asd_shared = False\<rparr>)
       (those (map (decompile_instruction msg) (instructions msg)))"

definition default_AccountSharedData :: AccountSharedData where
  "default_AccountSharedData =
     \<lparr>asd_lamports = 0, asd_data = [], asd_owner = default_Pubkey, asd_executable = False,
      asd_rent_epoch = 0, asd_shared = False\<rparr>"

text \<open>Step 5 of \<open>main\<close>.\<close>

definition transaction_accounts ::
  "Sdk \<Rightarrow> AccountSharedData \<Rightarrow> Pubkey list \<Rightarrow> AccountSharedData option list \<Rightarrow> (Pubkey \<times> AccountSharedData) list"
where
  "transaction_accounts sdk instructions_account keys fetched =
     map (\<lambda>(key, maybe_account).
       (key,
        if key = instructions_id sdk then instructions_account
        else case maybe_account of Some account \<Rightarrow> account | None \<Rightarrow> default_AccountSharedData))
       (zip keys fetched)"

text \<open>Step 6 of \<open>main\<close>: the shapes of the instructions.\<close>

definition instruction_infos :: "SanitizedMessage \<Rightarrow> InstructionInfo list" where
  "instruction_infos msg =
     map (\<lambda>ix. new_InstructionInfo (of_nat (length (ci_accounts ix))) (of_nat (length (ci_data ix))))
       (instructions msg)"

section \<open>Upgradeable programs\<close>

text \<open>The key of the program data account that an executable program account names.\<close>

definition programdata_key :: "Sdk \<Rightarrow> AccountSharedData \<Rightarrow> Pubkey option" where
  "programdata_key sdk account =
     (let bytes = asd_data account in
      if asd_executable account \<and> asd_owner account = bpf_loader_upgradeable_id sdk \<and> length bytes \<ge> 36
           \<and> (from_le_bytes (take 4 bytes) :: u32) = 2
      then Some (take 32 (drop 4 bytes)) else None)"

definition upgradeable_programs ::
  "Sdk \<Rightarrow> (Pubkey \<times> AccountSharedData option) list \<Rightarrow> (Pubkey \<times> Pubkey) list"
where
  "upgradeable_programs sdk accts =
     List.map_filter (\<lambda>(key, maybe_account).
       map_option (Pair key) (Option.bind maybe_account (programdata_key sdk))) accts"

definition PROGRAMDATA_HEADER :: nat where
  "PROGRAMDATA_HEADER = 45"

definition programdata_elf :: "AccountSharedData \<Rightarrow> u8 list option" where
  "programdata_elf programdata =
     (if length (asd_data programdata) > PROGRAMDATA_HEADER
      then Some (drop PROGRAMDATA_HEADER (asd_data programdata)) else None)"

text \<open>
  The program cache, as far as the tool fills it: \<open>load_entry\<close> is \<open>ProgramCacheEntry::new\<close>, an entry
  that does not load is skipped with a warning.
\<close>

definition replenish :: "(Pubkey \<rightharpoonup> 'e) \<Rightarrow> Pubkey \<Rightarrow> 'e option \<Rightarrow> (Pubkey \<rightharpoonup> 'e)" where
  "replenish cache_map program_id entry = (case entry of None \<Rightarrow> cache_map | Some e \<Rightarrow> cache_map(program_id \<mapsto> e))"

definition build_program_cache ::
  "Sdk \<Rightarrow> (Pubkey \<times> 'e) list \<Rightarrow> (Pubkey \<Rightarrow> u8 list \<Rightarrow> 'e option) \<Rightarrow> (Pubkey \<times> AccountSharedData) list
     \<Rightarrow> (Pubkey \<rightharpoonup> 'e)"
where
  "build_program_cache sdk builtins load_entry executable_accounts =
     fold (\<lambda>(program_id, account) programs.
       if program_id \<in> set (map fst builtins) then programs
       else if asd_owner account = bpf_loader_id sdk \<or> asd_owner account = bpf_loader_deprecated_id sdk
       then replenish programs program_id (load_entry (asd_owner account) (asd_data account))
       else programs)
       executable_accounts
       (fold (\<lambda>(program_id, e) programs. programs(program_id \<mapsto> e)) builtins Map.empty)"

definition load_upgradeable_programs ::
  "Sdk \<Rightarrow> (Pubkey list \<Rightarrow> (AccountSharedData option list, CliError) result)
     \<Rightarrow> (Pubkey \<Rightarrow> u8 list \<Rightarrow> 'e option) \<Rightarrow> (Pubkey \<rightharpoonup> 'e) \<Rightarrow> (Pubkey \<times> AccountSharedData option) list
     \<Rightarrow> (Pubkey \<rightharpoonup> 'e, CliError) result"
where
  "load_upgradeable_programs sdk fetch_accounts load_entry programs accts =
     (let upgradeable = upgradeable_programs sdk accts in
      if upgradeable = [] then Ok programs
      else and_then (fetch_accounts (map snd upgradeable)) (\<lambda>programdata_accounts.
        Ok (fold (\<lambda>(program_id, maybe_programdata) programs.
              replenish programs program_id
                (Option.bind (Option.bind maybe_programdata programdata_elf)
                   (load_entry (bpf_loader_upgradeable_id sdk))))
              (zip (map fst upgradeable) programdata_accounts) programs)))"

section \<open>Printing ranges\<close>

definition print_usize :: "usize \<Rightarrow> str" where
  "print_usize w = map chr (show_nat (unat w))"

definition print_range :: "usize range \<Rightarrow> str" where
  "print_range r = print_usize (range_start r) @ [chr (CHR ''-'')] @ print_usize (range_end r)"

fun print_ranges :: "usize range list \<Rightarrow> str" where
  "print_ranges [] = []"
| "print_ranges [r] = print_range r"
| "print_ranges (r # rs) = print_range r @ [chr (CHR '','')] @ print_ranges rs"

lemma split_on_plain: "c \<notin> set xs \<Longrightarrow> split_on c xs = [xs]"
  by (induction xs) auto

lemma split_on_sep: "c \<notin> set xs \<Longrightarrow> split_on c (xs @ c # ys) = xs # split_on c ys"
  by (induction xs) auto

declare show_nat.simps [simp del]

lemma chr_digit: "d < 10 \<Longrightarrow> chr (char_of (48 + d)) = 48 + d"
  by (simp add: chr_def)

lemma show_nat_digits: "\<forall>c \<in> set (map chr (show_nat n)). 48 \<le> c \<and> c \<le> 57"
proof (induction n rule: less_induct)
  case (less n)
  have "48 \<le> chr (char_of (48 + n mod 10)) \<and> chr (char_of (48 + n mod 10)) \<le> 57"
    using chr_digit [of "n mod 10"] by simp
  then show ?case
    using less [of "n div 10"] by (subst show_nat.simps) auto
qed

lemma show_nat_nonempty: "show_nat n \<noteq> []"
  by (subst show_nat.simps) simp

lemma parse_digits_append:
  "parse_digits acc (xs @ ys) =
     (case parse_digits acc xs of None \<Rightarrow> None | Some v \<Rightarrow> parse_digits (unat v) ys)" if "acc < 2 ^ 64"
  using that
proof (induction xs arbitrary: acc)
  case Nil
  then show ?case by (simp add: unat_of_nat_u64)
qed auto

lemma parse_show_nat: "n < 2 ^ 64 \<Longrightarrow> parse_digits 0 (map chr (show_nat n)) = Some (of_nat n)"
proof (induction n rule: less_induct)
  case (less n)
  have d: "chr (char_of (48 + n mod 10)) = 48 + n mod 10" by (rule chr_digit) simp
  have z: "chr (CHR ''0'') = 48" "chr (CHR ''9'') = 57" by (simp_all add: chr_def)
  show ?case
  proof (cases "n < 10")
    case True
    then show ?thesis using less.prems d by (subst show_nat.simps) (simp add: z)
  next
    case False
    then have IH: "parse_digits 0 (map chr (show_nat (n div 10))) = Some (of_nat (n div 10))"
      using less.IH [of "n div 10"] less.prems by simp
    have u: "unat (of_nat (n div 10) :: u64) = n div 10" using less.prems by (intro unat_of_nat_u64) simp
    show ?thesis
      using False less.prems d
      by (subst show_nat.simps) (simp add: parse_digits_append IH u z)
  qed
qed

lemma parse_print_usize: "parse_usize (print_usize w) = Some w"
proof -
  have dig: "\<forall>c \<in> set (print_usize w). 48 \<le> c \<and> c \<le> 57" unfolding print_usize_def by (rule show_nat_digits)
  have ne: "print_usize w \<noteq> []" using show_nat_nonempty by (simp add: print_usize_def)
  then obtain c cs where p: "print_usize w = c # cs" by (cases "print_usize w") auto
  have "c \<noteq> chr (CHR ''+'')" using dig p by (simp add: chr_def)
  then have "parse_usize (print_usize w) = parse_digits 0 (print_usize w)"
    by (simp add: parse_usize_def p)
  also have "\<dots> = Some w"
    unfolding print_usize_def using parse_show_nat [of "unat w"] unat_u64_less [of w] by simp
  finally show ?thesis .
qed

lemma print_usize_plain:
  "chr (CHR ''-'') \<notin> set (print_usize w)" "chr (CHR '','') \<notin> set (print_usize w)"
  "c \<in> set (print_usize w) \<Longrightarrow> \<not> is_whitespace c" "print_usize w \<noteq> []"
  using show_nat_digits [of "unat w"] show_nat_nonempty [of "unat w"]
  by (fastforce simp: print_usize_def chr_def is_whitespace_def)+

lemma trim_print_range: "trim (print_range r) = print_range r"
proof -
  have "List.hd (print_range r) \<in> set (print_usize (range_start r))"
    "List.hd (rev (print_range r)) \<in> set (print_usize (range_end r))"
    using print_usize_plain(4) by (simp_all add: print_range_def hd_append hd_rev last_in_set)
  then have "\<not> is_whitespace (List.hd (print_range r))" "\<not> is_whitespace (List.hd (rev (print_range r)))"
    using print_usize_plain(3) by blast+
  moreover have "dropWhile is_whitespace xs = xs" if "\<not> is_whitespace (List.hd xs)" for xs
    using that by (cases xs) auto
  ultimately show ?thesis by (simp add: trim_def)
qed

lemma parse_print_range: "parse_range (print_range r) = Ok r"
proof -
  have "split_on (chr (CHR ''-'')) (print_range r) = [print_usize (range_start r), print_usize (range_end r)]"
    by (simp add: print_range_def split_on_sep split_on_plain print_usize_plain)
  then show ?thesis
    by (simp add: parse_range_def trim_print_range parse_print_usize mk_range_def)
qed

lemma print_range_no_comma: "chr (CHR '','') \<notin> set (print_range r)"
  using print_usize_plain(2) by (auto simp: print_range_def) (simp add: chr_def)

lemma decompile_shape:
  assumes "decompile_instruction msg ix = Some bi"
  shows "length (bi_accounts bi) = length (ci_accounts ix)" "bi_data bi = ci_data ix"
    and "list_all (\<lambda>key. length key = 32) (account_keys msg) \<Longrightarrow>
      length (bi_program_id bi) = 32 \<and> list_all (\<lambda>m. length (bam_pubkey m) = 32) (bi_accounts bi)"
proof -
  obtain program_id metas where bi: "nth_get (account_keys msg) (unat (program_id_index ix)) = Some program_id"
    "those (map (\<lambda>i. map_option (\<lambda>key.
       \<lparr>bam_is_signer = message_is_signer msg (unat i), bam_is_writable = message_is_writable msg (unat i),
        bam_pubkey = key\<rparr>) (nth_get (account_keys msg) (unat i))) (ci_accounts ix)) = Some metas"
    "bi = \<lparr>bi_accounts = metas, bi_data = ci_data ix, bi_program_id = program_id\<rparr>"
    using assms unfolding decompile_instruction_def by (auto simp: bind_eq_Some_conv)
  have those: "length metas = length is \<and> (\<forall>m \<in> set metas. bam_pubkey m \<in> set (account_keys msg))"
    if "those (map (\<lambda>i. map_option (\<lambda>key.
       \<lparr>bam_is_signer = message_is_signer msg (unat i), bam_is_writable = message_is_writable msg (unat i),
        bam_pubkey = key\<rparr>) (nth_get (account_keys msg) (unat i))) is) = Some metas" for "is" metas
    using that by (induction "is" arbitrary: metas) (auto simp: nth_get_def split: option.splits if_splits)
  show "length (bi_accounts bi) = length (ci_accounts ix)" "bi_data bi = ci_data ix"
    using those [OF bi(2)] bi(3) by simp_all
  assume keys: "list_all (\<lambda>key. length key = 32) (account_keys msg)"
  show "length (bi_program_id bi) = 32 \<and> list_all (\<lambda>m. length (bam_pubkey m) = 32) (bi_accounts bi)"
    using those [OF bi(2)] bi(1,3) keys by (auto simp: list_all_iff nth_get_def split: if_splits)
qed

text \<open>A decompiled instruction as the sysvar layout has it; \<open>flags\<close> is the byte for the privileges.\<close>

definition layout_of :: "(bool \<Rightarrow> bool \<Rightarrow> u8) \<Rightarrow> BorrowedInstruction \<Rightarrow> SysvarInstruction" where
  "layout_of flags bi =
     \<lparr>si_metas = map (\<lambda>m. (flags (bam_is_signer m) (bam_is_writable m), bam_pubkey m)) (bi_accounts bi),
      si_program_id = bi_program_id bi, si_data = bi_data bi\<rparr>"

lemma those_map_nth:
  "those (map f xs) = Some ys \<Longrightarrow> length ys = length xs \<and> (\<forall>i < length xs. f (xs ! i) = Some (ys ! i))"
proof (induction xs arbitrary: ys)
  case (Cons x xs)
  then obtain z zs where "f x = Some z" "those (map f xs) = Some zs" "ys = z # zs"
    by (auto split: option.splits)
  with Cons.IH [of zs] show ?case by (auto simp: nth_Cons split: nat.split)
qed simp

lemma decompiled_layout:
  assumes "those (map (decompile_instruction msg) (instructions msg)) = Some bis"
    and "list_all (\<lambda>key. length key = 32) (account_keys msg)"
  shows "map info_of (map (layout_of flags) bis) = instruction_infos msg"
    and "list_all keys_ok (map (layout_of flags) bis)" "length bis = length (instructions msg)"
    and "i < length (instructions msg) \<Longrightarrow> si_data (map (layout_of flags) bis ! i) = ci_data (instructions msg ! i)"
proof -
  have b: "length bis = length (instructions msg)"
    "\<And>i. i < length (instructions msg) \<Longrightarrow> decompile_instruction msg (instructions msg ! i) = Some (bis ! i)"
    using those_map_nth [OF assms(1)] by auto
  show "map info_of (map (layout_of flags) bis) = instruction_infos msg"
    using b decompile_shape(1,2) [OF b(2)]
    by (intro nth_equalityI) (simp_all add: info_of_def layout_of_def instruction_infos_def)
  show "list_all keys_ok (map (layout_of flags) bis)"
    using b decompile_shape(3) [OF b(2) assms(2)]
    by (auto simp: list_all_length keys_ok_def layout_of_def)
  show "length bis = length (instructions msg)" by (rule b(1))
  show "i < length (instructions msg) \<Longrightarrow> si_data (map (layout_of flags) bis ! i) = ci_data (instructions msg ! i)"
    using b decompile_shape(2) [OF b(2)] by (simp add: layout_of_def)
qed

section \<open>Properties\<close>

text \<open>
  C36: the range syntax of the command line is unambiguous: a nonempty list of ranges, printed with
  decimal numbers, dashes and commas, is parsed back to the same list.
\<close>

theorem parse_print_ranges:
  "rs \<noteq> [] \<Longrightarrow> parse_ranges (print_ranges rs) = Ok rs"
  unfolding parse_ranges_def
  by (induction rs rule: print_ranges.induct)
     (auto simp: split_on_sep split_on_plain print_range_no_comma parse_print_range)

theorem parse_print_ranges_witness:
  "parse_ranges (map chr ''8-16,20-24'') = Ok [mk_range 8 16, mk_range 20 24]"
proof -
  have "print_ranges [mk_range 8 16, mk_range 20 24] = map chr ''8-16,20-24''"
    by (simp add: print_range_def print_usize_def show_nat.simps chr_def)
  then show ?thesis using parse_print_ranges [of "[mk_range 8 16, mk_range 20 24]"] by simp
qed

text \<open>
  C8: the tool watches the bytes the user named.  If the serialiser of the sysvar writes the
  documented layout, then in the data of the sysvar account that the tool builds from the message,
  the offsets it computes from the same message hold the bytes of the user's ranges in the chosen
  instruction's data.
\<close>

theorem cli_offsets_point_at_data:
  assumes serialiser: "\<And>bis. documented_layout (map (layout_of flags) bis) (construct_instructions_data bis)"
    and "construct_instructions_account construct_instructions_data sdk msg = Some account"
    and "list_all (\<lambda>key. length key = 32) (account_keys msg)" "length (asd_data account) < 2 ^ 64"
    and "calculate_forbidden_sysvar_offsets (new_GobbleDetector (with_ranges index rs)) (instruction_infos msg) = Ok offs"
    and "k < length rs" "range_start (rs ! k) \<le> range_end (rs ! k)"
  shows "length offs = length rs
    \<and> (\<exists>secret. slice_get (ci_data (instructions msg ! unat index))
                    (unat (range_start (rs ! k))) (unat (range_end (rs ! k))) = Some secret
         \<and> slice_get (asd_data account) (unat (range_start (offs ! k))) (unat (range_end (offs ! k))) = Some secret)"
proof -
  obtain bis where bis: "those (map (decompile_instruction msg) (instructions msg)) = Some bis"
    "asd_data account = construct_instructions_data bis"
    using assms(2) by (auto simp: construct_instructions_account_def)
  note lay = decompiled_layout(1,2) [OF bis(1) assms(3), of flags] decompiled_layout(4) [OF bis(1) assms(3), where flags = flags]
  let ?ixs = "map (layout_of flags) bis"
  let ?d = "new_GobbleDetector (with_ranges index rs)"
  have d: "instruction_index (detector_config ?d) = index" "forbidden_ranges (detector_config ?d) = rs"
    by (simp_all add: new_GobbleDetector_def with_ranges_def)
  have doc: "documented_layout ?ixs (asd_data account)" unfolding bis(2) by (rule serialiser)
  have offs: "calculate_forbidden_sysvar_offsets ?d (map info_of ?ixs) = Ok offs" unfolding lay(1) by (rule assms(5))
  have i: "unat index < length (instructions msg)"
    using assms(5) d by (auto simp: calculate_forbidden_sysvar_offsets_def instruction_infos_def Let_def split: if_splits)
  show ?thesis
    using offsets_in_layout [OF doc lay(2) assms(4) offs, of k "rs ! k"] assms(6,7)
    unfolding d lay(3) [OF i] by blast
qed

text \<open>A serialiser in the documented layout, and a message with two instructions.\<close>

definition sample_flags :: "bool \<Rightarrow> bool \<Rightarrow> u8" where
  "sample_flags s w = (if s then 1 else 0) + (if w then 2 else 0)"

definition sample_serialiser :: "BorrowedInstruction list \<Rightarrow> u8 list" where
  "sample_serialiser bis =
     u16_bytes (length bis) @ replicate (2 * length bis) 0
       @ concat (map layout_instruction (map (layout_of sample_flags) bis)) @ [0, 0]"

definition sample_message :: SanitizedMessage where
  "sample_message =
     \<lparr>account_keys = [replicate 32 1, replicate 32 2],
      instructions =
        [\<lparr>program_id_index = 1, ci_accounts = [0], ci_data = [5, 6, 7, 8]\<rparr>,
         \<lparr>program_id_index = 1, ci_accounts = [], ci_data = []\<rparr>],
      message_is_signer = \<lambda>i. i = 0, message_is_writable = \<lambda>i. i = 0\<rparr>"

theorem cli_offsets_point_at_data_witness:
  "\<exists>account offs. construct_instructions_account sample_serialiser sample_sdk sample_message = Some account
     \<and> calculate_forbidden_sysvar_offsets (new_GobbleDetector (with_ranges 0 [mk_range 1 3]))
         (instruction_infos sample_message) = Ok offs
     \<and> slice_get (asd_data account) (unat (range_start (offs ! 0))) (unat (range_end (offs ! 0))) = Some [6, 7]"
proof -
  have layout: "documented_layout (map (layout_of sample_flags) bis) (sample_serialiser bis)" for bis
    unfolding documented_layout_def sample_serialiser_def
    by (rule exI [of _ "replicate (2 * length bis) 0"], rule exI [of _ "[0, 0]"]) simp
  obtain account where a: "construct_instructions_account sample_serialiser sample_sdk sample_message = Some account"
    "length (asd_data account) < 2 ^ 64"
    by (simp add: construct_instructions_account_def sample_message_def decompile_instruction_def nth_get_def
        sample_serialiser_def layout_of_def layout_instruction_def)
  have keys: "list_all (\<lambda>key. length key = 32) (account_keys sample_message)" by (simp add: sample_message_def)
  have offs: "calculate_forbidden_sysvar_offsets (new_GobbleDetector (with_ranges 0 [mk_range 1 3]))
      (instruction_infos sample_message) = Ok [mk_range 76 78]"
    by (simp add: calculate_forbidden_sysvar_offsets_def new_GobbleDetector_def with_ranges_def sample_message_def
        instruction_infos_def new_InstructionInfo_def)
  have "slice_get (ci_data (instructions sample_message ! 0)) 1 3 = Some [6, 7]"
    by (simp add: sample_message_def slice_get_def)
  with cli_offsets_point_at_data [OF layout a(1) keys a(2) offs, of 0] a(1) offs show ?thesis by auto
qed

end
