(* ===== verification/Aligned_Memory.thy ===== *)
theory Aligned_Memory
  imports Ebpf
begin

text \<open>
  Byte buffers with a fixed capacity: \<open>AlignedVec\<close> and \<open>AlignedMemory\<close> of
  \<open>sbpf/src/aligned_memory.rs\<close>.  A buffer owns the block the allocator gave it, the whole capacity,
  of which the first \<open>length\<close> bytes are in use.  An unchecked write that runs past the capacity makes
  the block longer than the capacity, which \<open>memory_inv\<close> rules out.

  The allocator is an argument: for a size, the address and the bytes found there; it never runs out
  of memory.  \<open>None\<close> is the panic of \<open>expect\<close> on a size that no \<open>Layout\<close> can have.
\<close>

section \<open>Operations\<close>

record Allocator =
  alloc_ptr :: "nat \<Rightarrow> u64"
  alloc_bytes :: "nat \<Rightarrow> nat \<Rightarrow> u8"

record AlignedVec =
  av_ptr :: u64
  av_length :: nat
  av_capacity :: nat
  block :: "u8 list"

definition empty_AlignedVec :: AlignedVec where
  "empty_AlignedVec = \<lparr>av_ptr = of_nat HOST_ALIGN, av_length = 0, av_capacity = 0, block = []\<rparr>"

text \<open>\<open>Layout::from_size_align(max_len, ALIGN)\<close>: rounded up to the alignment, the size is at most \<open>isize::MAX\<close>.\<close>

definition layout_fits :: "nat \<Rightarrow> bool" where
  "layout_fits max_len \<longleftrightarrow> max_len + (HOST_ALIGN - 1) < 2 ^ 63"

definition new_AlignedVec :: "Allocator \<Rightarrow> nat \<Rightarrow> bool \<Rightarrow> AlignedVec option" where
  "new_AlignedVec al max_len zeroed =
     (if max_len = 0 then Some empty_AlignedVec
      else if layout_fits max_len
      then Some \<lparr>av_ptr = alloc_ptr al max_len, av_length = 0, av_capacity = max_len,
                 block = (if zeroed then replicate max_len 0 else map (alloc_bytes al max_len) [0..<max_len])\<rparr>
      else None)"

definition av_as_slice :: "AlignedVec \<Rightarrow> u8 list" where
  "av_as_slice v = take (av_length v) (block v)"

definition av_set_len :: "AlignedVec \<Rightarrow> nat \<Rightarrow> AlignedVec" where
  "av_set_len v new_len = v\<lparr>av_length := new_len\<rparr>"

text \<open>Bytes stored at the offset of \<open>write_ptr\<close>.\<close>

definition write_at :: "AlignedVec \<Rightarrow> nat \<Rightarrow> u8 list \<Rightarrow> AlignedVec" where
  "write_at v pos bytes = v\<lparr>block := take pos (block v) @ bytes @ drop (pos + length bytes) (block v)\<rparr>"

definition write_ptr :: "AlignedVec \<Rightarrow> nat" where
  "write_ptr v = av_length v"

definition write_ptr_for :: "AlignedVec \<Rightarrow> nat \<Rightarrow> (nat \<times> nat) option" where
  "write_ptr_for v n =
     (let new_len = av_length v + n
      in if new_len < 2 ^ 64 \<and> new_len \<le> av_capacity v then Some (write_ptr v, new_len) else None)"

record AlignedMemory =
  mem_vec :: AlignedVec
  zero_up_to_max_len :: bool

definition from_slice :: "Allocator \<Rightarrow> u8 list \<Rightarrow> AlignedMemory option" where
  "from_slice al bytes =
     map_option (\<lambda>v. \<lparr>mem_vec = av_set_len (write_at v 0 bytes) (length bytes), zero_up_to_max_len = False\<rparr>)
       (new_AlignedVec al (length bytes) False)"

definition with_capacity :: "Allocator \<Rightarrow> nat \<Rightarrow> AlignedMemory option" where
  "with_capacity al max_len =
     map_option (\<lambda>v. \<lparr>mem_vec = v, zero_up_to_max_len = False\<rparr>) (new_AlignedVec al max_len False)"

definition with_capacity_zeroed :: "Allocator \<Rightarrow> nat \<Rightarrow> AlignedMemory option" where
  "with_capacity_zeroed al max_len =
     map_option (\<lambda>v. \<lparr>mem_vec = v, zero_up_to_max_len = True\<rparr>) (new_AlignedVec al max_len True)"

definition zero_filled :: "Allocator \<Rightarrow> nat \<Rightarrow> AlignedMemory option" where
  "zero_filled al max_len =
     map_option (\<lambda>v. \<lparr>mem_vec = av_set_len v max_len, zero_up_to_max_len = True\<rparr>) (new_AlignedVec al max_len True)"

definition mem_len :: "AlignedMemory \<Rightarrow> nat" where
  "mem_len m = av_length (mem_vec m)"

definition as_slice :: "AlignedMemory \<Rightarrow> u8 list" where
  "as_slice m = av_as_slice (mem_vec m)"

text \<open>What a caller stores through \<open>as_slice_mut\<close>.\<close>

definition update_slice :: "AlignedMemory \<Rightarrow> (u8 list \<Rightarrow> u8 list) \<Rightarrow> AlignedMemory" where
  "update_slice m f = m\<lparr>mem_vec := write_at (mem_vec m) 0 (f (as_slice m))\<rparr>"

text \<open>\<open>None\<close> is the I/O error of a buffer that is too small.\<close>

definition mem_fill_write :: "AlignedMemory \<Rightarrow> nat \<Rightarrow> u8 \<Rightarrow> AlignedMemory option" where
  "mem_fill_write m num b =
     (case write_ptr_for (mem_vec m) num of
        None \<Rightarrow> None
      | Some (pos, new_len) \<Rightarrow>
          let v = (if zero_up_to_max_len m \<and> b = 0 then mem_vec m
                   else write_at (mem_vec m) pos (replicate num b))
          in Some (m\<lparr>mem_vec := av_set_len v new_len\<rparr>))"

definition write_all_unchecked :: "AlignedMemory \<Rightarrow> u8 list \<Rightarrow> AlignedMemory" where
  "write_all_unchecked m bytes =
     (let pos = av_length (mem_vec m);
          new_len = min (pos + length bytes) (2 ^ 64 - 1)
      in m\<lparr>mem_vec := av_set_len (write_at (mem_vec m) pos bytes) new_len\<rparr>)"

text \<open>A scalar of type \<open>T\<close> is its little-endian bytes.\<close>

definition write_unchecked :: "AlignedMemory \<Rightarrow> 'a::len word \<Rightarrow> AlignedMemory" where
  "write_unchecked m x = write_all_unchecked m (to_le_bytes x)"

definition io_write :: "AlignedMemory \<Rightarrow> u8 list \<Rightarrow> (AlignedMemory \<times> nat) option" where
  "io_write m buf =
     (case write_ptr_for (mem_vec m) (length buf) of
        None \<Rightarrow> None
      | Some (pos, new_len) \<Rightarrow>
          Some (m\<lparr>mem_vec := av_set_len (write_at (mem_vec m) pos buf) new_len\<rparr>, length buf))"

definition is_memory_aligned :: "u64 \<Rightarrow> u64 \<Rightarrow> bool" where
  "is_memory_aligned p align \<longleftrightarrow> align \<noteq> 0 \<and> p mod align = 0"

section \<open>The buffer as a list\<close>

text \<open>
  The invariant: the block is as long as the capacity, the used part lies in it, and if the buffer
  promises zeros behind the used part, they are there.
\<close>

definition memory_inv :: "AlignedMemory \<Rightarrow> bool" where
  "memory_inv m \<longleftrightarrow>
     length (block (mem_vec m)) = av_capacity (mem_vec m) \<and> mem_len m \<le> av_capacity (mem_vec m)
     \<and> av_capacity (mem_vec m) < 2 ^ 64
     \<and> (zero_up_to_max_len m \<longrightarrow>
          drop (mem_len m) (block (mem_vec m)) = replicate (av_capacity (mem_vec m) - mem_len m) 0)"

lemmas aligned_memory_defs = memory_inv_def mem_len_def as_slice_def av_as_slice_def av_set_len_def write_at_def

text \<open>The address of a new block; an empty one has a dangling address.\<close>

definition block_ptr :: "Allocator \<Rightarrow> nat \<Rightarrow> u64" where
  "block_ptr al n = (if n = 0 then of_nat HOST_ALIGN else alloc_ptr al n)"

lemma new_AlignedVec_panics: "new_AlignedVec al n z = None \<longleftrightarrow> \<not> layout_fits n"
  by (simp add: new_AlignedVec_def layout_fits_def HOST_ALIGN_def)

lemma new_AlignedVec_fits:
  "layout_fits n \<Longrightarrow> \<exists>v. new_AlignedVec al n z = Some v \<and> av_length v = 0 \<and> av_capacity v = n \<and> length (block v) = n
     \<and> (z \<longrightarrow> block v = replicate n 0) \<and> av_ptr v = block_ptr al n"
  by (cases "n = 0") (simp_all add: new_AlignedVec_def empty_AlignedVec_def block_ptr_def)

lemma layout_fits_bound: "layout_fits n \<Longrightarrow> n < 2 ^ 63"
  by (simp add: layout_fits_def)

lemma layout_fitsI: "n < 2 ^ 62 \<Longrightarrow> layout_fits n"
  by (simp add: layout_fits_def HOST_ALIGN_def)

lemma constructors_fit:
  assumes "layout_fits n"
  shows "\<exists>m. with_capacity al n = Some m \<and> memory_inv m \<and> as_slice m = [] \<and> av_capacity (mem_vec m) = n
      \<and> av_ptr (mem_vec m) = block_ptr al n \<and> \<not> zero_up_to_max_len m"
    and "\<exists>m. with_capacity_zeroed al n = Some m \<and> memory_inv m \<and> as_slice m = []"
    and "\<exists>m. zero_filled al n = Some m \<and> memory_inv m \<and> as_slice m = replicate n 0
      \<and> av_ptr (mem_vec m) = block_ptr al n"
  using new_AlignedVec_fits [OF assms, of al False] new_AlignedVec_fits [OF assms, of al True] layout_fits_bound [OF assms]
  by (auto simp: with_capacity_def with_capacity_zeroed_def zero_filled_def aligned_memory_defs)

lemma from_slice_fits:
  assumes "layout_fits (length bytes)"
  shows "\<exists>m. from_slice al bytes = Some m \<and> memory_inv m \<and> as_slice m = bytes"
  using new_AlignedVec_fits [OF assms, of al False] layout_fits_bound [OF assms]
  by (auto simp: from_slice_def aligned_memory_defs)

lemma constructors_panic:
  "with_capacity al n = None \<longleftrightarrow> \<not> layout_fits n" "zero_filled al n = None \<longleftrightarrow> \<not> layout_fits n"
  by (simp_all add: with_capacity_def zero_filled_def new_AlignedVec_panics)

lemma length_as_slice: "memory_inv m \<Longrightarrow> length (as_slice m) = mem_len m"
  by (simp add: aligned_memory_defs)

lemma take_drop_write:
  "pos \<le> length xs \<Longrightarrow> take (pos + length bs) (take pos xs @ bs @ drop (pos + length bs) xs) = take pos xs @ bs"
  by simp

lemma write_all_unchecked_append:
  assumes "memory_inv m" "mem_len m + length bytes \<le> av_capacity (mem_vec m)"
  shows "memory_inv (write_all_unchecked m bytes)" "as_slice (write_all_unchecked m bytes) = as_slice m @ bytes"
    and "av_capacity (mem_vec (write_all_unchecked m bytes)) = av_capacity (mem_vec m)"
    and "av_ptr (mem_vec (write_all_unchecked m bytes)) = av_ptr (mem_vec m)"
proof -
  have min: "min (av_length (mem_vec m) + length bytes) (2 ^ 64 - 1) = av_length (mem_vec m) + length bytes"
    using assms by (simp add: memory_inv_def mem_len_def)
  have z: "drop (av_length (mem_vec m) + length bytes) (block (mem_vec m))
      = replicate (av_capacity (mem_vec m) - (av_length (mem_vec m) + length bytes)) 0" if "zero_up_to_max_len m"
  proof -
    have "drop (length bytes) (drop (av_length (mem_vec m)) (block (mem_vec m)))
        = replicate (av_capacity (mem_vec m) - av_length (mem_vec m) - length bytes) 0"
      using assms(1) that by (simp add: memory_inv_def mem_len_def)
    then show ?thesis by (simp add: add.commute)
  qed
  show "memory_inv (write_all_unchecked m bytes)"
    using assms z unfolding write_all_unchecked_def min Let_def
    by (simp add: memory_inv_def mem_len_def av_set_len_def write_at_def)
  show "as_slice (write_all_unchecked m bytes) = as_slice m @ bytes"
    using assms unfolding write_all_unchecked_def min Let_def by (simp add: aligned_memory_defs)
qed (simp_all add: write_all_unchecked_def av_set_len_def write_at_def Let_def)

lemma fill_write_append:
  assumes "memory_inv m"
  shows "mem_len m + num > av_capacity (mem_vec m) \<Longrightarrow> mem_fill_write m num b = None"
    and "mem_len m + num \<le> av_capacity (mem_vec m) \<Longrightarrow>
      \<exists>m'. mem_fill_write m num b = Some m' \<and> memory_inv m' \<and> as_slice m' = as_slice m @ replicate num b
        \<and> av_capacity (mem_vec m') = av_capacity (mem_vec m) \<and> av_ptr (mem_vec m') = av_ptr (mem_vec m)"
proof -
  let ?v = "mem_vec m"
  show "mem_len m + num > av_capacity ?v \<Longrightarrow> mem_fill_write m num b = None"
    by (simp add: mem_fill_write_def write_ptr_for_def mem_len_def)
  assume room: "mem_len m + num \<le> av_capacity ?v"
  have ptr: "write_ptr_for ?v num = Some (av_length ?v, av_length ?v + num)"
    using room assms by (simp add: write_ptr_for_def write_ptr_def memory_inv_def mem_len_def)
  show "\<exists>m'. mem_fill_write m num b = Some m' \<and> memory_inv m' \<and> as_slice m' = as_slice m @ replicate num b
      \<and> av_capacity (mem_vec m') = av_capacity ?v \<and> av_ptr (mem_vec m') = av_ptr ?v"
  proof (cases "zero_up_to_max_len m \<and> b = 0")
    case True
    have d: "drop (av_length ?v) (block ?v) = replicate (av_capacity ?v - av_length ?v) 0"
      using True assms by (simp add: memory_inv_def mem_len_def)
    have "block ?v = take (av_length ?v) (block ?v) @ replicate (av_capacity ?v - av_length ?v) 0"
      using append_take_drop_id [of "av_length ?v" "block ?v"] unfolding d by simp
    moreover have "av_capacity ?v - av_length ?v = num + (av_capacity ?v - (av_length ?v + num))"
      using room by (simp add: mem_len_def)
    ultimately obtain u where u: "block ?v = u @ replicate num 0 @ replicate (av_capacity ?v - (av_length ?v + num)) 0"
      "u = take (av_length ?v) (block ?v)" by (metis replicate_add)
    have "length u = av_length ?v" using u(2) assms by (simp add: memory_inv_def mem_len_def)
    then have "take (av_length ?v + num) (block ?v) = u @ replicate num 0"
      "drop (av_length ?v + num) (block ?v) = replicate (av_capacity ?v - (av_length ?v + num)) 0"
      by (subst u(1), simp)+
    with True ptr room assms u(2) show ?thesis by (simp add: mem_fill_write_def aligned_memory_defs)
  next
    case False
    then have "mem_fill_write m num b = Some (write_all_unchecked m (replicate num b))"
      using ptr room assms
      by (auto simp: mem_fill_write_def write_all_unchecked_def memory_inv_def mem_len_def Let_def)
    with write_all_unchecked_append [OF assms, of "replicate num b"] room show ?thesis by simp
  qed
qed

lemma io_write_append:
  assumes "memory_inv m"
  shows "io_write m buf =
    (if mem_len m + length buf \<le> av_capacity (mem_vec m) then Some (write_all_unchecked m buf, length buf) else None)"
  using assms
  by (auto simp: io_write_def write_all_unchecked_def write_ptr_for_def write_ptr_def memory_inv_def mem_len_def Let_def)

lemma update_slice_inv:
  assumes "memory_inv m" "\<And>bytes. length (f bytes) = length bytes"
  shows "memory_inv (update_slice m f)" "as_slice (update_slice m f) = f (as_slice m)"
    and "mem_len (update_slice m f) = mem_len m"
  using assms by (auto simp: update_slice_def aligned_memory_defs)

end
