(* ===== verification/Serialization.thy ===== *)
theory Serialization
  imports Aligned_Memory Invoke_Context
begin

text \<open>
  The parameters of a program in guest memory, \<open>program-runtime/src/serialization.rs\<close>: the
  instruction's accounts and data are written into one buffer, or mapped in place, before a program
  runs, and what the program changed is read back afterwards.

  Two formats (aligned, and unaligned for the deprecated loader) times three modes: everything in one
  region; a region per account (\<open>stricter_abi_and_runtime_constraints\<close>); and regions that point at
  the account's own bytes (\<open>account_data_direct_mapping\<close>).

  The constants of \<open>solana_program_entrypoint\<close> and \<open>solana_system_interface\<close> are the record
  \<open>Entrypoint\<close>.  \<open>data_ptr\<close> is the host address of an account's bytes.  An outer \<open>None\<close> is a panic of
  \<open>unwrap\<close> or of the allocation of the buffer.
\<close>

section \<open>Regions of accounts\<close>

record Entrypoint =
  max_permitted_data_increase :: nat
  bpf_align_of_u128 :: nat
  non_dup_marker :: u8
  max_permitted_data_length :: nat

type_synonym data_address = "TransactionAccounts \<Rightarrow> nat \<Rightarrow> u64"

definition modify_memory_region_of_account ::
  "TransactionAccounts \<Rightarrow> BorrowedInstructionAccount \<Rightarrow> MemoryRegion \<Rightarrow> MemoryRegion"
where
  "modify_memory_region_of_account ta account region =
     (let region = region\<lparr>len := of_nat (length (get_data ta account))\<rparr>
      in if is_ok (can_data_be_changed ta account)
         then region\<lparr>writable := True, access_violation_handler_payload := Some (get_index_in_transaction account)\<rparr>
         else region\<lparr>writable := False, access_violation_handler_payload := None\<rparr>)"

definition account_slice :: "data_address \<Rightarrow> TransactionAccounts \<Rightarrow> BorrowedInstructionAccount \<Rightarrow> Slice" where
  "account_slice data_ptr ta account =
     \<lparr>as_ptr = data_ptr ta (ba_index account), slice_len = of_nat (length (get_data ta account))\<rparr>"

definition create_memory_region_of_account ::
  "data_address \<Rightarrow> TransactionAccounts \<Rightarrow> BorrowedInstructionAccount \<Rightarrow> u64
     \<Rightarrow> TransactionAccounts \<times> (MemoryRegion, InstructionError) result"
where
  "create_memory_region_of_account data_ptr ta account addr =
     (let changeable = is_ok (can_data_be_changed ta account);
          (ta, region) =
            (if changeable \<and> \<not> ba_is_shared ta account
             then try_then (with_data_mut ta account (\<lambda>bytes. bytes)) (\<lambda>ta _.
                    (ta, Ok (new_writable (account_slice data_ptr ta account) addr)))
             else (ta, Ok (new_readonly (account_slice data_ptr ta account) addr)))
      in try_then (ta, region) (\<lambda>ta region.
           (ta, Ok (if changeable
                    then region\<lparr>access_violation_handler_payload := Some (get_index_in_transaction account)\<rparr>
                    else region))))"

datatype SerializeAccount =
    Account IndexOfAccount BorrowedInstructionAccount
  | Duplicate IndexOfAccount

section \<open>The serializer\<close>

record Serializer =
  buffer :: AlignedMemory
  ser_regions :: "MemoryRegion list"
  vaddr :: u64
  region_start :: nat
  is_loader_v1 :: bool
  ser_stricter_abi :: bool
  ser_direct_mapping :: bool

definition new_Serializer :: "Allocator \<Rightarrow> nat \<Rightarrow> u64 \<Rightarrow> bool \<Rightarrow> bool \<Rightarrow> bool \<Rightarrow> Serializer option" where
  "new_Serializer al n start_addr loader_v1 stricter_abi direct_mapping =
     map_option (\<lambda>m.
       \<lparr>buffer = m, ser_regions = [], vaddr = start_addr, region_start = 0,
        is_loader_v1 = loader_v1, ser_stricter_abi = stricter_abi, ser_direct_mapping = direct_mapping\<rparr>)
       (with_capacity al n)"

definition ser_fill_write :: "Serializer \<Rightarrow> nat \<Rightarrow> u8 \<Rightarrow> Serializer option" where
  "ser_fill_write s num b = map_option (\<lambda>m. s\<lparr>buffer := m\<rparr>) (mem_fill_write (buffer s) num b)"

definition write_vaddr :: "Serializer \<Rightarrow> u64" where
  "write_vaddr s =
     saturating_sub (saturating_add (vaddr s) (of_nat (mem_len (buffer s)))) (of_nat (region_start s))"

definition ser_write :: "Serializer \<Rightarrow> 'a::len word \<Rightarrow> Serializer \<times> u64" where
  "ser_write s x = (s\<lparr>buffer := write_unchecked (buffer s) x\<rparr>, write_vaddr s)"

definition ser_write_all :: "Serializer \<Rightarrow> u8 list \<Rightarrow> Serializer \<times> u64" where
  "ser_write_all s bytes = (s\<lparr>buffer := write_all_unchecked (buffer s) bytes\<rparr>, write_vaddr s)"

definition push_region :: "Serializer \<Rightarrow> Serializer option" where
  "push_region s =
     (let range_end = mem_len (buffer s) in
      if region_start s \<le> range_end then
        let n = range_end - region_start s;
            slice = \<lparr>as_ptr = av_ptr (mem_vec (buffer s)) + of_nat (region_start s), slice_len = of_nat n\<rparr>
        in Some (s\<lparr>ser_regions := ser_regions s @ [new_writable slice (vaddr s)],
                   region_start := range_end, vaddr := vaddr s + of_nat n\<rparr>)
      else None)"

definition finish :: "Serializer \<Rightarrow> (AlignedMemory \<times> MemoryRegion list) option" where
  "finish s = map_option (\<lambda>s. (buffer s, ser_regions s)) (push_region s)"

text \<open>What \<open>(n as *const u8).align_offset(align)\<close> computes.\<close>

definition offset_to_align :: "nat \<Rightarrow> nat \<Rightarrow> nat" where
  "offset_to_align n align = (align - n mod align) mod align"

text \<open>The state of a serialization that may fail or panic.\<close>

type_synonym 'a ser = "(TransactionAccounts \<times> Serializer \<times> ('a, InstructionError) result) option"

fun ser_then :: "'a ser \<Rightarrow> (TransactionAccounts \<Rightarrow> Serializer \<Rightarrow> 'a \<Rightarrow> 'b ser) \<Rightarrow> 'b ser" where
  "ser_then None f = None"
| "ser_then (Some (ta, s, Err e)) f = Some (ta, s, Err e)"
| "ser_then (Some (ta, s, Ok x)) f = f ta s x"

definition fill_or_invalid :: "TransactionAccounts \<Rightarrow> Serializer \<Rightarrow> nat \<Rightarrow> unit ser" where
  "fill_or_invalid ta s num =
     (case ser_fill_write s num 0 of
        None \<Rightarrow> Some (ta, s, Err InvalidArgument)
      | Some s \<Rightarrow> Some (ta, s, Ok ()))"

text \<open>The address space set aside for an account's data.\<close>

definition address_space_reserved :: "Entrypoint \<Rightarrow> bool \<Rightarrow> nat \<Rightarrow> nat" where
  "address_space_reserved ep loader_v1 n =
     (if \<not> loader_v1 then min (n + max_permitted_data_increase ep) (2 ^ 64 - 1) else n)"

text \<open>The three parts of \<open>write_account\<close> in the stricter modes: data, region, padding.\<close>

definition write_account_data ::
  "Entrypoint \<Rightarrow> TransactionAccounts \<Rightarrow> Serializer \<Rightarrow> BorrowedInstructionAccount \<Rightarrow> unit ser"
where
  "write_account_data ep ta s account =
     (if \<not> ser_direct_mapping s then
        let s = fst (ser_write_all s (get_data ta account)) in
        if \<not> is_loader_v1 s then fill_or_invalid ta s (max_permitted_data_increase ep) else Some (ta, s, Ok ())
      else Some (ta, s, Ok ()))"

definition write_account_region ::
  "Entrypoint \<Rightarrow> data_address \<Rightarrow> TransactionAccounts \<Rightarrow> Serializer \<Rightarrow> BorrowedInstructionAccount \<Rightarrow> unit ser"
where
  "write_account_region ep data_ptr ta s account =
     (let reserved_space = address_space_reserved ep (is_loader_v1 s) (length (get_data ta account)) in
      if reserved_space > 0 then
        if \<not> ser_direct_mapping s then
          map_option (\<lambda>s.
            (ta, s\<lparr>ser_regions := (ser_regions s)[length (ser_regions s) - 1 :=
                      modify_memory_region_of_account ta account (List.last (ser_regions s))]\<rparr>, Ok ()))
            (push_region s)
        else
          (case create_memory_region_of_account data_ptr ta account (vaddr s) of
             (ta, Err e) \<Rightarrow> Some (ta, s, Err e)
           | (ta, Ok region) \<Rightarrow>
               Some (ta, s\<lparr>vaddr := vaddr s + of_nat reserved_space, ser_regions := ser_regions s @ [region]\<rparr>, Ok ()))
      else Some (ta, s, Ok ()))"

definition write_account_padding ::
  "Entrypoint \<Rightarrow> TransactionAccounts \<Rightarrow> Serializer \<Rightarrow> BorrowedInstructionAccount \<Rightarrow> unit ser"
where
  "write_account_padding ep ta s account =
     (if \<not> is_loader_v1 s then
        let align_offset = offset_to_align (length (get_data ta account)) (bpf_align_of_u128 ep) in
        if \<not> ser_direct_mapping s then fill_or_invalid ta s align_offset
        else
          ser_then (fill_or_invalid ta s (bpf_align_of_u128 ep)) (\<lambda>ta s _.
            Some (ta, s\<lparr>region_start := region_start s + (bpf_align_of_u128 ep - align_offset)\<rparr>, Ok ()))
      else Some (ta, s, Ok ()))"

definition write_account ::
  "Entrypoint \<Rightarrow> data_address \<Rightarrow> TransactionAccounts \<Rightarrow> Serializer \<Rightarrow> BorrowedInstructionAccount \<Rightarrow> u64 ser"
where
  "write_account ep data_ptr ta s account =
     (if \<not> ser_stricter_abi s then
        let addr = saturating_add (vaddr s) (of_nat (mem_len (buffer s)));
            s = fst (ser_write_all s (get_data ta account))
        in if \<not> is_loader_v1 s then
             ser_then
               (fill_or_invalid ta s
                  (max_permitted_data_increase ep
                     + offset_to_align (length (get_data ta account)) (bpf_align_of_u128 ep)))
               (\<lambda>ta s _. Some (ta, s, Ok addr))
           else Some (ta, s, Ok addr)
      else
        case push_region s of
          None \<Rightarrow> None
        | Some s \<Rightarrow>
            let addr = vaddr s in
            ser_then (write_account_data ep ta s account) (\<lambda>ta s _.
              ser_then (write_account_region ep data_ptr ta s account) (\<lambda>ta s _.
                ser_then (write_account_padding ep ta s account) (\<lambda>ta s _.
                  Some (ta, s, Ok addr)))))"

section \<open>The unaligned format\<close>

definition fields_len_unaligned :: nat where
  "fields_len_unaligned = 1 + 1 + 32 + 8 + 8 + 32 + 1 + 8"

fun account_size_unaligned :: "TransactionAccounts \<Rightarrow> bool \<Rightarrow> bool \<Rightarrow> SerializeAccount \<Rightarrow> nat" where
  "account_size_unaligned ta stricter_abi direct_mapping (Duplicate _) = 1"
| "account_size_unaligned ta stricter_abi direct_mapping (Account _ account) =
     1 + fields_len_unaligned
       + (if \<not> (stricter_abi \<and> direct_mapping) then length (get_data ta account) else 0)"

definition size_unaligned ::
  "TransactionAccounts \<Rightarrow> bool \<Rightarrow> bool \<Rightarrow> SerializeAccount list \<Rightarrow> u8 list \<Rightarrow> nat"
where
  "size_unaligned ta stricter_abi direct_mapping accts ix_data =
     8 + sum_list (map (account_size_unaligned ta stricter_abi direct_mapping) accts)
       + (8 + length ix_data + 32)"

text \<open>\<open>get_key\<close> panics if the account does not exist.\<close>

definition serialize_account_unaligned ::
  "Entrypoint \<Rightarrow> data_address \<Rightarrow> TransactionAccounts \<Rightarrow> Serializer \<Rightarrow> BorrowedInstructionAccount
     \<Rightarrow> SerializedAccountMetadata ser"
where
  "serialize_account_unaligned ep data_ptr ta s account =
     (case get_key ta account of
        None \<Rightarrow> None
      | Some key \<Rightarrow>
          let s = fst (ser_write s (non_dup_marker ep));
              s = fst (ser_write s (as_u8 (ba_is_signer account)));
              s = fst (ser_write s (as_u8 (ba_is_writable account)));
              (s, key_addr) = ser_write_all s key;
              (s, lamports_addr) = ser_write s (get_lamports ta account);
              s = fst (ser_write s (of_nat (length (get_data ta account)) :: u64))
          in ser_then (write_account ep data_ptr ta s account) (\<lambda>ta s data_addr.
               let (s, owner_addr) = ser_write_all s (get_owner ta account);
                   s = fst (ser_write s (as_u8 (ba_is_executable ta account)));
                   s = fst (ser_write s (- 1 :: u64))
               in Some (ta, s, Ok
                    \<lparr>original_data_len = length (get_data ta account), vm_data_addr = data_addr,
                     vm_key_addr = key_addr, vm_lamports_addr = lamports_addr, vm_owner_addr = owner_addr\<rparr>)))"

text \<open>
  The loop over the accounts.  An account is released when its turn is over; an error releases the
  ones that were not reached.
\<close>

definition drop_account :: "TransactionAccounts \<Rightarrow> SerializeAccount \<Rightarrow> TransactionAccounts" where
  "drop_account ta a =
     (case a of Duplicate _ \<Rightarrow> ta | Account _ account \<Rightarrow> drop_AccountRefMut ta (get_index_in_transaction account))"

fun serialize_accounts ::
  "(TransactionAccounts \<Rightarrow> Serializer \<Rightarrow> BorrowedInstructionAccount \<Rightarrow> SerializedAccountMetadata ser)
     \<Rightarrow> (Serializer \<Rightarrow> IndexOfAccount \<Rightarrow> Serializer)
     \<Rightarrow> SerializedAccountMetadata list \<Rightarrow> TransactionAccounts \<Rightarrow> Serializer \<Rightarrow> SerializeAccount list
     \<Rightarrow> SerializedAccountMetadata list ser"
where
  "serialize_accounts one dup metas ta s [] = Some (ta, s, Ok metas)"
| "serialize_accounts one dup metas ta s (Duplicate pos # accts) =
     (case nth_get metas (unat pos) of
        None \<Rightarrow> None
      | Some meta \<Rightarrow> serialize_accounts one dup (metas @ [meta]) ta (dup s pos) accts)"
| "serialize_accounts one dup metas ta s (Account i account # accts) =
     (case one ta s account of
        None \<Rightarrow> None
      | Some (ta, s, Err e) \<Rightarrow> Some (fold (\<lambda>a ta. drop_account ta a) (Account i account # accts) ta, s, Err e)
      | Some (ta, s, Ok meta) \<Rightarrow>
          serialize_accounts one dup (metas @ [meta]) (drop_account ta (Account i account)) s accts)"

type_synonym serialized = "AlignedMemory \<times> MemoryRegion list \<times> SerializedAccountMetadata list \<times> u64"

type_synonym serialization =
  "(TransactionAccounts \<times> (serialized, InstructionError) result) option"

text \<open>Instruction data, program id and the end of both formats.\<close>

definition serialize_tail ::
  "SerializedAccountMetadata list ser \<Rightarrow> u8 list \<Rightarrow> Pubkey \<Rightarrow> serialization"
where
  "serialize_tail r ix_data program_id =
     (case r of
        None \<Rightarrow> None
      | Some (ta, s, Err e) \<Rightarrow> Some (ta, Err e)
      | Some (ta, s, Ok metas) \<Rightarrow>
          let s = fst (ser_write s (of_nat (length ix_data) :: u64));
              (s, instruction_data_offset) = ser_write_all s ix_data;
              s = fst (ser_write_all s program_id)
          in map_option (\<lambda>(mem, rs). (ta, Ok (mem, rs, metas, instruction_data_offset))) (finish s))"

definition serialize_parameters_unaligned ::
  "Entrypoint \<Rightarrow> Allocator \<Rightarrow> data_address \<Rightarrow> TransactionAccounts \<Rightarrow> SerializeAccount list \<Rightarrow> u8 list
     \<Rightarrow> Pubkey \<Rightarrow> bool \<Rightarrow> bool \<Rightarrow> serialization"
where
  "serialize_parameters_unaligned ep al data_ptr ta accts ix_data program_id stricter_abi direct_mapping =
     (case new_Serializer al (size_unaligned ta stricter_abi direct_mapping accts ix_data)
             MM_INPUT_START True stricter_abi direct_mapping of
        None \<Rightarrow> None
      | Some s \<Rightarrow>
          let s = fst (ser_write s (of_nat (length accts) :: u64))
          in serialize_tail
               (serialize_accounts (serialize_account_unaligned ep data_ptr)
                  (\<lambda>s pos. fst (ser_write s (ucast pos :: u8))) [] ta s accts)
               ix_data program_id)"

section \<open>The aligned format\<close>

definition fields_len_aligned :: nat where
  "fields_len_aligned = 1 + 1 + 1 + 4 + 32 + 32 + 8 + 8 + 8"

fun account_size_aligned :: "Entrypoint \<Rightarrow> TransactionAccounts \<Rightarrow> bool \<Rightarrow> bool \<Rightarrow> SerializeAccount \<Rightarrow> nat" where
  "account_size_aligned ep ta stricter_abi direct_mapping (Duplicate _) = 1 + 7"
| "account_size_aligned ep ta stricter_abi direct_mapping (Account _ account) =
     1 + fields_len_aligned
       + (if \<not> (stricter_abi \<and> direct_mapping)
          then length (get_data ta account) + max_permitted_data_increase ep
                 + offset_to_align (length (get_data ta account)) (bpf_align_of_u128 ep)
          else bpf_align_of_u128 ep)"

definition size_aligned ::
  "Entrypoint \<Rightarrow> TransactionAccounts \<Rightarrow> bool \<Rightarrow> bool \<Rightarrow> SerializeAccount list \<Rightarrow> u8 list \<Rightarrow> nat"
where
  "size_aligned ep ta stricter_abi direct_mapping accts ix_data =
     8 + sum_list (map (account_size_aligned ep ta stricter_abi direct_mapping) accts)
       + (8 + length ix_data + 32)"

definition serialize_account_aligned ::
  "Entrypoint \<Rightarrow> data_address \<Rightarrow> TransactionAccounts \<Rightarrow> Serializer \<Rightarrow> BorrowedInstructionAccount
     \<Rightarrow> SerializedAccountMetadata ser"
where
  "serialize_account_aligned ep data_ptr ta s account =
     (case get_key ta account of
        None \<Rightarrow> None
      | Some key \<Rightarrow>
          let s = fst (ser_write s (non_dup_marker ep));
              s = fst (ser_write s (as_u8 (ba_is_signer account)));
              s = fst (ser_write s (as_u8 (ba_is_writable account)));
              s = fst (ser_write s (as_u8 (ba_is_executable ta account)));
              s = fst (ser_write_all s [0, 0, 0, 0]);
              (s, key_addr) = ser_write_all s key;
              (s, owner_addr) = ser_write_all s (get_owner ta account);
              (s, lamports_addr) = ser_write s (get_lamports ta account);
              s = fst (ser_write s (of_nat (length (get_data ta account)) :: u64))
          in ser_then (write_account ep data_ptr ta s account) (\<lambda>ta s data_addr.
               let s = fst (ser_write s (- 1 :: u64))
               in Some (ta, s, Ok
                    \<lparr>original_data_len = length (get_data ta account), vm_data_addr = data_addr,
                     vm_key_addr = key_addr, vm_lamports_addr = lamports_addr, vm_owner_addr = owner_addr\<rparr>)))"

definition serialize_parameters_aligned ::
  "Entrypoint \<Rightarrow> Allocator \<Rightarrow> data_address \<Rightarrow> TransactionAccounts \<Rightarrow> SerializeAccount list \<Rightarrow> u8 list
     \<Rightarrow> Pubkey \<Rightarrow> bool \<Rightarrow> bool \<Rightarrow> serialization"
where
  "serialize_parameters_aligned ep al data_ptr ta accts ix_data program_id stricter_abi direct_mapping =
     (case new_Serializer al (size_aligned ep ta stricter_abi direct_mapping accts ix_data)
             MM_INPUT_START False stricter_abi direct_mapping of
        None \<Rightarrow> None
      | Some s \<Rightarrow>
          let s = fst (ser_write s (of_nat (length accts) :: u64))
          in serialize_tail
               (serialize_accounts (serialize_account_aligned ep data_ptr)
                  (\<lambda>s pos. fst (ser_write_all (fst (ser_write s (ucast pos :: u8))) [0, 0, 0, 0, 0, 0, 0]))
                  [] ta s accts)
               ix_data program_id)"

section \<open>Serializing the current instruction\<close>

text \<open>The borrowed accounts of the instruction, in order; an error of a borrow is a panic.\<close>

fun collect_accounts ::
  "TransactionContext \<Rightarrow> InstructionContext \<Rightarrow> nat list \<Rightarrow> (TransactionContext \<times> SerializeAccount list) option"
where
  "collect_accounts tc ic [] = Some (tc, [])"
| "collect_accounts tc ic (i # is) =
     (case is_instruction_account_duplicate ic (of_nat i) of
        Err _ \<Rightarrow> None
      | Ok (Some index) \<Rightarrow>
          map_option (\<lambda>(tc, accts). (tc, Duplicate index # accts)) (collect_accounts tc ic is)
      | Ok None \<Rightarrow>
          (case try_borrow_instruction_account tc ic (of_nat i) of
             Err _ \<Rightarrow> None
           | Ok (tc, account) \<Rightarrow>
               map_option (\<lambda>(tc, accts). (tc, Account (of_nat i) account # accts)) (collect_accounts tc ic is)))"

definition serialize_parameters ::
  "Sdk \<Rightarrow> Entrypoint \<Rightarrow> Allocator \<Rightarrow> data_address \<Rightarrow> TransactionContext \<Rightarrow> InstructionContext \<Rightarrow> bool \<Rightarrow> bool
     \<Rightarrow> (TransactionContext \<times> (serialized, InstructionError) result) option"
where
  "serialize_parameters sdk ep al data_ptr tc ic stricter_abi direct_mapping =
     (let n = get_number_of_instruction_accounts ic in
      if n > of_nat MAX_ACCOUNTS_PER_INSTRUCTION then Some (tc, Err MaxAccountsExceeded)
      else
        case get_program_key tc ic of
          Err e \<Rightarrow> Some (tc, Err e)
        | Ok program_id \<Rightarrow>
            (case get_program_owner tc ic of
               Err e \<Rightarrow> Some (tc, Err e)
             | Ok program_owner \<Rightarrow>
                 (case collect_accounts tc ic [0..<unat n] of
                    None \<Rightarrow> None
                  | Some (tc, accts) \<Rightarrow>
                      map_option (\<lambda>(ta, r). (tc\<lparr>accounts := ta\<rparr>, r))
                        (if program_owner = bpf_loader_deprecated_id sdk
                         then serialize_parameters_unaligned ep al data_ptr (accounts tc) accts
                                (get_instruction_data ic) program_id stricter_abi direct_mapping
                         else serialize_parameters_aligned ep al data_ptr (accounts tc) accts
                                (get_instruction_data ic) program_id stricter_abi direct_mapping))))"

section \<open>Reading the parameters back\<close>

text \<open>\<open>buffer.get(start..end)\<close> with a saturated end, decoded.\<close>

definition get_u64 :: "u8 list \<Rightarrow> nat \<Rightarrow> u64 option" where
  "get_u64 bytes start = map_option from_le_bytes (slice_get bytes start (min (start + 8) (2 ^ 64 - 1)))"

definition update_lamports ::
  "TransactionAccounts \<Rightarrow> BorrowedInstructionAccount \<Rightarrow> u64 \<Rightarrow> TransactionAccounts \<times> (unit, InstructionError) result"
where
  "update_lamports ta account lamports =
     (if get_lamports ta account \<noteq> lamports then set_lamports ta account lamports else (ta, Ok ()))"

text \<open>The data of an account in the three modes; \<open>post_len\<close> is its new length.\<close>

definition update_data ::
  "bool \<Rightarrow> bool \<Rightarrow> u8 list \<Rightarrow> nat \<Rightarrow> TransactionAccounts \<Rightarrow> BorrowedInstructionAccount \<Rightarrow> nat
     \<Rightarrow> TransactionAccounts \<times> (unit, InstructionError) result"
where
  "update_data stricter_abi direct_mapping bytes start ta account post_len =
     (if \<not> stricter_abi then
        (case slice_get bytes start (start + post_len) of
           None \<Rightarrow> (ta, Err InvalidArgument)
         | Some new_data \<Rightarrow>
             (case can_data_be_resized ta account post_len of
                Ok _ \<Rightarrow> set_data_from_slice ta account new_data
              | Err err \<Rightarrow> if get_data ta account \<noteq> new_data then (ta, Err err) else (ta, Ok ())))
      else if \<not> direct_mapping \<and> is_ok (can_data_be_changed ta account) then
        (case slice_get bytes start (start + post_len) of
           None \<Rightarrow> (ta, Err InvalidArgument)
         | Some new_data \<Rightarrow> set_data_from_slice ta account new_data)
      else if length (get_data ta account) \<noteq> post_len then set_data_length ta account post_len
      else (ta, Ok ()))"

text \<open>
  One account: the pos after it and the result.  \<open>None\<close> is the panic of a key of the wrong length
  in \<open>set_owner\<close>.
\<close>

definition deserialize_account_unaligned ::
  "bool \<Rightarrow> bool \<Rightarrow> u8 list \<Rightarrow> TransactionAccounts \<Rightarrow> BorrowedInstructionAccount \<Rightarrow> nat \<Rightarrow> nat
     \<Rightarrow> (TransactionAccounts \<times> (nat, InstructionError) result) option"
where
  "deserialize_account_unaligned stricter_abi direct_mapping bytes ta account pre_len start =
     Some (let start = start + 1 + 1 + 32 in
       case get_u64 bytes start of
         None \<Rightarrow> (ta, Err InvalidArgument)
       | Some lamports \<Rightarrow>
           try_then (update_lamports ta account lamports) (\<lambda>ta _.
             let start = start + (8 + 8) in
             try_then (update_data stricter_abi direct_mapping bytes start ta account pre_len) (\<lambda>ta _.
               let start = (if \<not> (stricter_abi \<and> direct_mapping) then start + pre_len else start)
               in (ta, Ok (start + (32 + 1 + 8))))))"

definition deserialize_account_aligned ::
  "Entrypoint \<Rightarrow> bool \<Rightarrow> bool \<Rightarrow> u8 list \<Rightarrow> TransactionAccounts \<Rightarrow> BorrowedInstructionAccount \<Rightarrow> nat \<Rightarrow> nat
     \<Rightarrow> (TransactionAccounts \<times> (nat, InstructionError) result) option"
where
  "deserialize_account_aligned ep stricter_abi direct_mapping bytes ta account pre_len start =
     (let start = start + (1 + 1 + 1 + 4 + 32) in
      case slice_get bytes start (start + 32) of
        None \<Rightarrow> Some (ta, Err InvalidArgument)
      | Some owner \<Rightarrow>
          let start = start + 32 in
          case get_u64 bytes start of
            None \<Rightarrow> Some (ta, Err InvalidArgument)
          | Some lamports \<Rightarrow>
              (case update_lamports ta account lamports of
                 (ta, Err e) \<Rightarrow> Some (ta, Err e)
               | (ta, Ok _) \<Rightarrow>
                   let start = start + 8 in
                   case get_u64 bytes start of
                     None \<Rightarrow> Some (ta, Err InvalidArgument)
                   | Some post_len \<Rightarrow>
                       let start = start + 8; post_len = unat post_len in
                       if post_len - pre_len > max_permitted_data_increase ep
                          \<or> post_len > max_permitted_data_length ep
                       then Some (ta, Err InvalidRealloc)
                       else
                         case update_data stricter_abi direct_mapping bytes start ta account post_len of
                           (ta, Err e) \<Rightarrow> Some (ta, Err e)
                         | (ta, Ok _) \<Rightarrow>
                             let start = start +
                                   (if \<not> (stricter_abi \<and> direct_mapping)
                                    then min (min (pre_len + max_permitted_data_increase ep) (2 ^ 64 - 1)
                                           + offset_to_align pre_len (bpf_align_of_u128 ep)) (2 ^ 64 - 1)
                                    else bpf_align_of_u128 ep);
                                 start = start + 8
                             in if get_owner ta account \<noteq> owner
                                then map_option (\<lambda>(ta, r). (ta, and_then r (\<lambda>_. Ok start))) (set_owner ta account owner)
                                else Some (ta, Ok start)))"

text \<open>The loop over the accounts; an account is borrowed for its turn only.\<close>

fun deserialize_accounts ::
  "(TransactionAccounts \<Rightarrow> BorrowedInstructionAccount \<Rightarrow> nat \<Rightarrow> nat
      \<Rightarrow> (TransactionAccounts \<times> (nat, InstructionError) result) option)
     \<Rightarrow> nat \<Rightarrow> InstructionContext \<Rightarrow> (nat \<times> nat) list \<Rightarrow> nat \<Rightarrow> TransactionContext
     \<Rightarrow> (TransactionContext \<times> (unit, InstructionError) result) option"
where
  "deserialize_accounts one dup_len ic [] start tc = Some (tc, Ok ())"
| "deserialize_accounts one dup_len ic ((i, pre_len) # is) start tc =
     (case is_instruction_account_duplicate ic (of_nat i) of
        Err e \<Rightarrow> Some (tc, Err e)
      | Ok (Some _) \<Rightarrow> deserialize_accounts one dup_len ic is (start + 1 + dup_len) tc
      | Ok None \<Rightarrow>
          (case try_borrow_instruction_account tc ic (of_nat i) of
             Err e \<Rightarrow> Some (tc, Err e)
           | Ok (tc, account) \<Rightarrow>
               (case one (accounts tc) account pre_len (start + 1) of
                  None \<Rightarrow> None
                | Some (ta, r) \<Rightarrow>
                    let tc = tc\<lparr>accounts := drop_AccountRefMut ta (get_index_in_transaction account)\<rparr>
                    in case r of
                         Err e \<Rightarrow> Some (tc, Err e)
                       | Ok start \<Rightarrow> deserialize_accounts one dup_len ic is start tc)))"

definition deserialize_parameters_unaligned ::
  "TransactionContext \<Rightarrow> InstructionContext \<Rightarrow> bool \<Rightarrow> bool \<Rightarrow> u8 list \<Rightarrow> nat list
     \<Rightarrow> (TransactionContext \<times> (unit, InstructionError) result) option"
where
  "deserialize_parameters_unaligned tc ic stricter_abi direct_mapping bytes account_lengths =
     deserialize_accounts (deserialize_account_unaligned stricter_abi direct_mapping bytes) 0 ic
       (zip [0..<unat (get_number_of_instruction_accounts ic)] account_lengths) 8 tc"

definition deserialize_parameters_aligned ::
  "Entrypoint \<Rightarrow> TransactionContext \<Rightarrow> InstructionContext \<Rightarrow> bool \<Rightarrow> bool \<Rightarrow> u8 list \<Rightarrow> nat list
     \<Rightarrow> (TransactionContext \<times> (unit, InstructionError) result) option"
where
  "deserialize_parameters_aligned ep tc ic stricter_abi direct_mapping bytes account_lengths =
     deserialize_accounts (deserialize_account_aligned ep stricter_abi direct_mapping bytes) 7 ic
       (zip [0..<unat (get_number_of_instruction_accounts ic)] account_lengths) 8 tc"

definition deserialize_parameters ::
  "Sdk \<Rightarrow> Entrypoint \<Rightarrow> TransactionContext \<Rightarrow> InstructionContext \<Rightarrow> bool \<Rightarrow> bool \<Rightarrow> u8 list
     \<Rightarrow> SerializedAccountMetadata list \<Rightarrow> (TransactionContext \<times> (unit, InstructionError) result) option"
where
  "deserialize_parameters sdk ep tc ic stricter_abi direct_mapping bytes metas =
     (case get_program_owner tc ic of
        Err e \<Rightarrow> Some (tc, Err e)
      | Ok program_owner \<Rightarrow>
          let account_lengths = map original_data_len metas in
          if program_owner = bpf_loader_deprecated_id sdk
          then deserialize_parameters_unaligned tc ic stricter_abi direct_mapping bytes account_lengths
          else deserialize_parameters_aligned ep tc ic stricter_abi direct_mapping bytes account_lengths)"

end
