(* ===== verification/Serialization_Layout.thy ===== *)
theory Serialization_Layout
  imports Serialization
begin

text \<open>
  What the serializer writes: the bytes of both formats as plain lists, and the proof that the buffer
  ends up holding exactly them, so that the size computed beforehand is the size used.
\<close>

section \<open>Contents of accounts\<close>

text \<open>Serialization borrows and touches accounts but leaves what they hold.\<close>

definition content :: "TransactionAccountView \<Rightarrow> Pubkey \<times> Pubkey \<times> u64 \<times> u8 list \<times> bool" where
  "content v = (shared_key (abi_account v), view_owner v, view_lamports v, view_data v, view_executable v)"

definition same_contents :: "TransactionAccounts \<Rightarrow> TransactionAccounts \<Rightarrow> bool" where
  "same_contents ta ta' \<longleftrightarrow>
     accounts_inv ta' \<and> accounts_len ta' = accounts_len ta \<and> ta_resize_delta ta' = ta_resize_delta ta
     \<and> ta_lamports_delta ta' = ta_lamports_delta ta
     \<and> (\<forall>i < accounts_len ta. content (view_at ta' i) = content (view_at ta i))"

lemma same_contents_refl: "accounts_inv ta \<Longrightarrow> same_contents ta ta"
  by (simp add: same_contents_def)

lemma same_contents_trans: "same_contents a b \<Longrightarrow> same_contents b c \<Longrightarrow> same_contents a c"
  by (simp add: same_contents_def)

lemma same_contents_sym: "accounts_inv a \<Longrightarrow> same_contents a b \<Longrightarrow> same_contents b a"
  by (simp add: same_contents_def)

lemma same_contents_fields:
  assumes "same_contents ta ta'" "ba_index ba < accounts_len ta"
  shows "get_data ta' ba = get_data ta ba" "get_owner ta' ba = get_owner ta ba"
    and "get_lamports ta' ba = get_lamports ta ba" "ba_is_executable ta' ba = ba_is_executable ta ba"
  using assms
  by (auto simp: same_contents_def content_def get_data_def get_owner_def get_lamports_def ba_is_executable_def)

lemma account_key_view:
  "account_key ta i = (if unat i < accounts_len ta then Some (shared_key (abi_account (view_at ta (unat i)))) else None)"
  by (auto simp: account_key_def nth_get_def accounts_len_def view_at_def)

lemma same_contents_key:
  assumes "same_contents ta ta'"
  shows "account_key ta' i = account_key ta i"
  using assms by (auto simp: account_key_view same_contents_def content_def)

lemma same_contents_put_view:
  assumes "accounts_inv ta" "i < accounts_len ta" "content v = content (view_at ta i)"
    and "vs_len (shared_payload (abi_account v)) = of_nat (length (view_data v))"
  shows "same_contents ta (put_view ta i v)"
proof -
  have at: "view_at (put_view ta i v) j = (if j = i then v else view_at ta j)" for j
    using assms(1,2) view_at_put_view [of i ta v] by (simp add: accounts_inv_def accounts_len_def)
  show ?thesis
    using assms unfolding same_contents_def accounts_inv_def at
    by (simp add: accounts_len_def put_view_def)
qed

lemma same_contents_bookkeeping:
  assumes "accounts_inv ta" "length cs = accounts_len ta" "length fl = accounts_len ta"
  shows "same_contents ta (ta\<lparr>borrow_counters := cs\<rparr>)" "same_contents ta (ta\<lparr>touched_flags := fl\<rparr>)"
  using assms by (auto simp: same_contents_def accounts_inv_def accounts_len_def view_at_def)

lemma drop_same_contents:
  assumes "accounts_inv ta" "unat i < accounts_len ta"
  shows "same_contents ta (drop_AccountRefMut ta i)"
proof -
  let ?v = "view_at ta (unat i)"
  let ?t = "put_view ta (unat i) (sync_len ?v (of_nat (payload_len (private_fields ?v))))"
  have t: "same_contents ta ?t"
    using assms by (intro same_contents_put_view) (simp_all add: content_def payload_len_def view_data_def [symmetric])
  then have "accounts_inv ?t" "length (borrow_counters ?t) = accounts_len ?t"
    by (auto simp: same_contents_def accounts_inv_def)
  then have "same_contents ?t (?t\<lparr>borrow_counters := (borrow_counters ?t)[unat i := c]\<rparr>)" for c
    by (intro same_contents_bookkeeping(1) [of _ _ "touched_flags ?t"]) (auto simp: accounts_inv_def)
  from same_contents_trans [OF t this] show ?thesis by (simp add: drop_AccountRefMut_def Let_def)
qed

lemma touch_same_contents:
  assumes "borrowable ta ba"
  shows "\<exists>ta'. ba_touch ta ba = (ta', Ok ()) \<and> same_contents ta ta' \<and> borrow_counters ta' = borrow_counters ta"
proof -
  obtain fl where "ba_touch ta ba = (ta\<lparr>touched_flags := fl\<rparr>, Ok ())" "length fl = accounts_len ta"
    using touch_fields [OF assms] by blast
  then show ?thesis
    using same_contents_bookkeeping(2) [of ta "borrow_counters ta"] assms
    by (auto simp: borrowable_def accounts_inv_def)
qed

lemma touch_data_same_contents:
  assumes b: "borrowable ta ba" and ok: "can_data_be_changed ta ba = Ok ()"
  shows "\<exists>ta'. with_data_mut ta ba (\<lambda>bytes. bytes) = (ta', Ok ()) \<and> same_contents ta ta' \<and> borrow_counters ta' = borrow_counters ta"
proof -
  obtain t where t: "ba_touch ta ba = (t, Ok ())" "same_contents ta t" "borrow_counters t = borrow_counters ta"
    using touch_same_contents [OF b] by blast
  have inv: "accounts_inv t" and i: "ba_index ba < accounts_len t"
    using t(2) b by (auto simp: same_contents_def borrowable_def)
  then have len: "ba_index ba < length (shared_account_fields t)" "ba_index ba < length (private_account_fields t)"
    by (auto simp: accounts_inv_def accounts_len_def)
  let ?v = "put_data (ba_view t ba) (get_data t ba)"
  have get: "view_data (ba_view (make_data_mut t ba) ba) = get_data t ba"
    using put_view_twice(3) [OF len] by (simp add: get_data_def)
  have "with_data_mut ta ba (\<lambda>bytes. bytes) = (put_view t (ba_index ba) ?v, Ok ())"
    using ok t(1) put_view_twice(1) [OF len] by (simp add: with_data_mut_def write_data_as_mut_slice_def get Let_def)
  moreover have "same_contents t (put_view t (ba_index ba) ?v)"
    using inv i by (intro same_contents_put_view) (auto simp: content_def get_data_def accounts_inv_def)
  ultimately show ?thesis using same_contents_trans [OF t(2)] t(3) by (auto simp: put_view_def)
qed

section \<open>Appending to the buffer\<close>

abbreviation written :: "Serializer \<Rightarrow> u8 list" where
  "written s \<equiv> as_slice (buffer s)"

definition ser_put :: "Serializer \<Rightarrow> u8 list \<Rightarrow> Serializer" where
  "ser_put s bytes = s\<lparr>buffer := write_all_unchecked (buffer s) bytes\<rparr>"

definition fits_in :: "Serializer \<Rightarrow> nat \<Rightarrow> bool" where
  "fits_in s n \<longleftrightarrow>
     memory_inv (buffer s) \<and> \<not> zero_up_to_max_len (buffer s) \<and> mem_len (buffer s) + n \<le> av_capacity (mem_vec (buffer s))"

lemma ser_write_put:
  "ser_write s x = (ser_put s (to_le_bytes x), write_vaddr s)"
  "ser_write_all s bytes = (ser_put s bytes, write_vaddr s)"
  by (simp_all add: ser_write_def ser_write_all_def ser_put_def write_unchecked_def)

lemma ser_put_fields [simp]:
  "ser_regions (ser_put s bs) = ser_regions s" "vaddr (ser_put s bs) = vaddr s"
  "region_start (ser_put s bs) = region_start s" "is_loader_v1 (ser_put s bs) = is_loader_v1 s"
  "ser_stricter_abi (ser_put s bs) = ser_stricter_abi s" "ser_direct_mapping (ser_put s bs) = ser_direct_mapping s"
  "av_ptr (mem_vec (buffer (ser_put s bs))) = av_ptr (mem_vec (buffer s))"
  "av_capacity (mem_vec (buffer (ser_put s bs))) = av_capacity (mem_vec (buffer s))"
  "zero_up_to_max_len (buffer (ser_put s bs)) = zero_up_to_max_len (buffer s)"
  by (simp_all add: ser_put_def write_all_unchecked_def av_set_len_def write_at_def Let_def)

lemma ser_put_buffer:
  assumes "fits_in s (length bs)"
  shows "written (ser_put s bs) = written s @ bs" "memory_inv (buffer (ser_put s bs))"
    and "mem_len (buffer (ser_put s bs)) = mem_len (buffer s) + length bs"
proof -
  have m: "memory_inv (buffer s)" "mem_len (buffer s) + length bs \<le> av_capacity (mem_vec (buffer s))"
    using assms by (auto simp: fits_in_def)
  note w = write_all_unchecked_append [OF m]
  show "written (ser_put s bs) = written s @ bs" "memory_inv (buffer (ser_put s bs))"
    using w by (simp_all add: ser_put_def)
  then show "mem_len (buffer (ser_put s bs)) = mem_len (buffer s) + length bs"
    using length_as_slice [of "buffer (ser_put s bs)"] length_as_slice [OF m(1)] by simp
qed

lemma fits_in_put: "fits_in s (length bs + n) \<Longrightarrow> fits_in (ser_put s bs) n"
  using ser_put_buffer [of s bs] by (auto simp: fits_in_def)

lemma fits_in_mono: "fits_in s n \<Longrightarrow> k \<le> n \<Longrightarrow> fits_in s k"
  by (simp add: fits_in_def)

lemma ser_put_put:
  assumes "fits_in s (length a + length b)"
  shows "ser_put (ser_put s a) b = ser_put s (a @ b)"
proof -
  let ?v = "mem_vec (buffer s)"
  have l: "length (block ?v) = av_capacity ?v" "av_length ?v + (length a + length b) \<le> av_capacity ?v"
    "av_capacity ?v < 2 ^ 64"
    using assms by (auto simp: fits_in_def memory_inv_def mem_len_def)
  have "av_length ?v \<le> length (block ?v)" using l by simp
  with l show ?thesis
    by (simp add: ser_put_def write_all_unchecked_def write_at_def av_set_len_def Let_def min_absorb1
        drop_append ac_simps)
qed

lemma fill_is_put:
  assumes "fits_in s n"
  shows "fill_or_invalid ta s n = Some (ta, ser_put s (replicate n 0), Ok ())"
  using assms
  by (simp add: fill_or_invalid_def ser_fill_write_def ser_put_def mem_fill_write_def write_ptr_for_def write_ptr_def
      fits_in_def memory_inv_def mem_len_def write_all_unchecked_def Let_def min_absorb1)

section \<open>The formats\<close>

definition account_body :: "Entrypoint \<Rightarrow> bool \<Rightarrow> bool \<Rightarrow> bool \<Rightarrow> u8 list \<Rightarrow> u8 list" where
  "account_body ep loader_v1 stricter_abi direct_mapping bytes =
     (if stricter_abi \<and> direct_mapping then (if loader_v1 then [] else replicate (bpf_align_of_u128 ep) 0)
      else bytes @ (if loader_v1 then []
              else replicate (max_permitted_data_increase ep + offset_to_align (length bytes) (bpf_align_of_u128 ep)) 0))"

text \<open>
  Where the guest finds an account's data: a region of its own, over the buffer or over the account's
  bytes.
\<close>

definition data_seen ::
  "data_address \<Rightarrow> TransactionAccounts \<Rightarrow> Serializer \<Rightarrow> BorrowedInstructionAccount \<Rightarrow> u64 \<Rightarrow> bool"
where
  "data_seen data_ptr ta s account addr \<longleftrightarrow>
     (\<exists>r \<in> set (ser_regions s).
        vm_addr r = addr \<and> vm_gap_shift r = 63 \<and> len r = of_nat (length (get_data ta account))
        \<and> (if ser_direct_mapping s
           then \<exists>t. same_contents ta t \<and> host_addr r = data_ptr t (ba_index account)
           else \<exists>pos. host_addr r = av_ptr (mem_vec (buffer s)) + of_nat pos
                  \<and> pos + length (get_data ta account) \<le> length (written s)
                  \<and> take (length (get_data ta account)) (drop pos (written s)) = get_data ta account))"

definition data_pending ::
  "TransactionAccounts \<Rightarrow> Serializer \<Rightarrow> BorrowedInstructionAccount \<Rightarrow> u64 \<Rightarrow> bool"
where
  "data_pending ta s account addr \<longleftrightarrow>
     (\<exists>pos. addr = saturating_add (vaddr s) (of_nat pos)
        \<and> pos + length (get_data ta account) \<le> length (written s)
        \<and> take (length (get_data ta account)) (drop pos (written s)) = get_data ta account)"

text \<open>One serializer state follows another when the buffer, the regions and the address only grow.\<close>

definition follows :: "Serializer \<Rightarrow> u8 list \<Rightarrow> Serializer \<Rightarrow> bool" where
  "follows s bytes s' \<longleftrightarrow>
     written s' = written s @ bytes \<and> memory_inv (buffer s') \<and> \<not> zero_up_to_max_len (buffer s')
     \<and> av_ptr (mem_vec (buffer s')) = av_ptr (mem_vec (buffer s))
     \<and> av_capacity (mem_vec (buffer s')) = av_capacity (mem_vec (buffer s))
     \<and> is_loader_v1 s' = is_loader_v1 s \<and> ser_stricter_abi s' = ser_stricter_abi s
     \<and> ser_direct_mapping s' = ser_direct_mapping s
     \<and> region_start s' \<le> mem_len (buffer s')
     \<and> (\<exists>rs. ser_regions s' = ser_regions s @ rs)
     \<and> (\<not> ser_stricter_abi s \<longrightarrow> ser_regions s' = ser_regions s \<and> vaddr s' = vaddr s \<and> region_start s' = region_start s)"

lemma follows_put:
  "fits_in s (length bs) \<Longrightarrow> region_start s \<le> mem_len (buffer s) \<Longrightarrow> follows s bs (ser_put s bs)"
  by (simp add: follows_def ser_put_buffer) (simp add: fits_in_def)

lemma follows_trans: "follows s a s' \<Longrightarrow> follows s' b s'' \<Longrightarrow> follows s (a @ b) s''"
  by (auto simp: follows_def)

lemma follows_fits:
  assumes "follows s bs s'" "fits_in s (length bs + n)"
  shows "fits_in s' n" "region_start s' \<le> mem_len (buffer s')"
proof -
  have "mem_len (buffer s') = mem_len (buffer s) + length bs"
    using assms length_as_slice [of "buffer s"] length_as_slice [of "buffer s'"] by (simp add: follows_def fits_in_def)
  then show "fits_in s' n" "region_start s' \<le> mem_len (buffer s')"
    using assms by (auto simp: follows_def fits_in_def)
qed

lemma data_seen_follows: "data_seen dp ta s account addr \<Longrightarrow> follows s bs s' \<Longrightarrow> data_seen dp ta s' account addr"
  unfolding data_seen_def follows_def by (fastforce simp: Bex_def)

lemma data_pending_follows:
  "data_pending ta s account addr \<Longrightarrow> follows s bs s' \<Longrightarrow> \<not> ser_stricter_abi s \<Longrightarrow> data_pending ta s' account addr"
  unfolding data_pending_def follows_def by force

lemma push_region_follows:
  assumes "fits_in s 0" "region_start s \<le> mem_len (buffer s)" "ser_stricter_abi s"
  shows "\<exists>s' slice. push_region s = Some s' \<and> follows s [] s' \<and> region_start s' = mem_len (buffer s)
    \<and> buffer s' = buffer s \<and> ser_regions s' = ser_regions s @ [new_writable slice (vaddr s)]
    \<and> as_ptr slice = av_ptr (mem_vec (buffer s)) + of_nat (region_start s)"
  using assms by (auto simp: push_region_def Let_def follows_def fits_in_def)

text \<open>The outcome of \<open>write_account\<close>, and of each of its parts, on a borrowed account.\<close>

definition account_written ::
  "Entrypoint \<Rightarrow> data_address \<Rightarrow> TransactionAccounts \<Rightarrow> Serializer \<Rightarrow> BorrowedInstructionAccount \<Rightarrow> u64 ser \<Rightarrow> bool"
where
  "account_written ep data_ptr ta s account r \<longleftrightarrow>
     (\<exists>ta' s' addr. r = Some (ta', s', Ok addr) \<and> same_contents ta ta' \<and> borrow_counters ta' = borrow_counters ta
        \<and> follows s (account_body ep (is_loader_v1 s) (ser_stricter_abi s) (ser_direct_mapping s) (get_data ta account)) s'
        \<and> (if ser_stricter_abi s
           then get_data ta account \<noteq> [] \<longrightarrow> data_seen data_ptr ta s' account addr
           else data_pending ta s' account addr))"

lemma write_account_plain:
  assumes b: "borrowable ta account" and rs: "region_start s \<le> mem_len (buffer s)" and mode: "\<not> ser_stricter_abi s"
    and room: "fits_in s (length (account_body ep (is_loader_v1 s) False (ser_direct_mapping s) (get_data ta account)))"
  shows "account_written ep dp ta s account (write_account ep dp ta s account)"
proof -
  let ?d = "get_data ta account"
  let ?b = "account_body ep (is_loader_v1 s) False (ser_direct_mapping s) ?d"
  have "write_account ep dp ta s account =
      Some (ta, ser_put s ?b, Ok (saturating_add (vaddr s) (of_nat (mem_len (buffer s)))))"
    using mode room
    by (cases "is_loader_v1 s") (simp_all add: write_account_def ser_write_put Let_def fill_is_put fits_in_put account_body_def ser_put_put)
  moreover have f: "follows s ?b (ser_put s ?b)" by (rule follows_put [OF room rs])
  moreover have "length (written s) = mem_len (buffer s)" using room by (simp add: fits_in_def length_as_slice)
  then have "data_pending ta (ser_put s ?b) account (saturating_add (vaddr s) (of_nat (mem_len (buffer s))))"
    using ser_put_buffer(1) [OF room]
    by (auto simp: data_pending_def account_body_def intro!: exI [of _ "mem_len (buffer s)"])
  ultimately show ?thesis
    using same_contents_refl [OF borrowable_inv [OF b]] mode by (auto simp: account_written_def)
qed

lemma take_drop_middle: "take (length xs) (drop (length us) (us @ xs @ vs)) = xs"
  by simp

lemma write_region_copied:
  assumes room: "fits_in s 0" and rs: "region_start s \<le> mem_len (buffer s)"
    and mode: "ser_stricter_abi s" "\<not> ser_direct_mapping s"
    and tail: "written s = us @ get_data ta account @ vs" "region_start s = length us"
  shows "\<exists>s'. write_account_region ep dp ta s account = Some (ta, s', Ok ()) \<and> follows s [] s'
    \<and> (get_data ta account \<noteq> [] \<longrightarrow> data_seen dp ta s' account (vaddr s))"
proof (cases "address_space_reserved ep (is_loader_v1 s) (length (get_data ta account)) > 0")
  case False
  then have "get_data ta account = []" by (auto simp: address_space_reserved_def min_def split: if_splits)
  moreover have "follows s [] s" using room rs by (simp add: follows_def fits_in_def)
  ultimately show ?thesis using False by (simp add: write_account_region_def)
next
  case True
  obtain s1 slice where s1: "push_region s = Some s1" "follows s [] s1" "buffer s1 = buffer s"
    "ser_regions s1 = ser_regions s @ [new_writable slice (vaddr s)]"
    "as_ptr slice = av_ptr (mem_vec (buffer s)) + of_nat (region_start s)"
    using push_region_follows [OF room rs mode(1)] by blast
  let ?r = "modify_memory_region_of_account ta account (new_writable slice (vaddr s))"
  let ?s = "s1\<lparr>ser_regions := ser_regions s @ [?r]\<rparr>"
  have r: "vm_addr ?r = vaddr s" "vm_gap_shift ?r = 63" "len ?r = of_nat (length (get_data ta account))"
    "host_addr ?r = av_ptr (mem_vec (buffer s)) + of_nat (length us)"
    using s1(5) tail(2) by (simp_all add: modify_memory_region_of_account_def new_writable_def Let_def)
  have "write_account_region ep dp ta s account = Some (ta, ?s, Ok ())"
    using True mode s1(1,4) by (simp add: write_account_region_def Let_def)
  moreover have "follows s [] ?s" using s1(2) mode by (simp add: follows_def)
  moreover have "data_seen dp ta ?s account (vaddr s)"
  proof -
    have "ser_direct_mapping ?s = ser_direct_mapping s" using s1(2) by (simp add: follows_def)
    moreover have "length us + length (get_data ta account) \<le> length (written ?s)"
      "take (length (get_data ta account)) (drop (length us) (written ?s)) = get_data ta account"
      by (simp_all add: s1(3) tail(1))
    ultimately show ?thesis using r mode s1(3) unfolding data_seen_def by (intro bexI [of _ ?r]) auto
  qed
  ultimately show ?thesis by blast
qed

lemma write_account_copied:
  assumes b: "borrowable ta account" and rs: "region_start s \<le> mem_len (buffer s)"
    and mode: "ser_stricter_abi s" "\<not> ser_direct_mapping s"
    and room: "fits_in s (length (account_body ep (is_loader_v1 s) True False (get_data ta account)))"
  shows "account_written ep dp ta s account (write_account ep dp ta s account)"
proof -
  let ?d = "get_data ta account"
  let ?inc = "if is_loader_v1 s then [] else replicate (max_permitted_data_increase ep) (0 :: u8)"
  let ?pad = "if is_loader_v1 s then [] else replicate (offset_to_align (length ?d) (bpf_align_of_u128 ep)) (0 :: u8)"
  have body: "account_body ep (is_loader_v1 s) True False ?d = (?d @ ?inc) @ ?pad"
    by (simp add: account_body_def replicate_add)
  obtain s1 slice where s1: "push_region s = Some s1" "follows s [] s1" "region_start s1 = mem_len (buffer s)" "buffer s1 = buffer s"
    using push_region_follows [OF fits_in_mono [OF room] rs mode(1)] by auto
  have m1: "is_loader_v1 s1 = is_loader_v1 s" "ser_stricter_abi s1" "\<not> ser_direct_mapping s1"
    using s1(2) mode by (simp_all add: follows_def)
  have room1: "fits_in s1 (length (?d @ ?inc) + length ?pad)"
    using room s1(4) by (simp add: fits_in_def body)
  have data: "write_account_data ep ta s1 account = Some (ta, ser_put s1 (?d @ ?inc), Ok ())"
    using m1 room1 by (simp add: write_account_data_def ser_write_put Let_def fill_is_put fits_in_put fits_in_mono ser_put_put)
  let ?s2 = "ser_put s1 (?d @ ?inc)"
  have f2: "follows s1 (?d @ ?inc) ?s2" using room1 s1(3,4) by (intro follows_put) (auto intro: fits_in_mono)
  have len: "length (written s) = mem_len (buffer s)" using room by (simp add: fits_in_def length_as_slice)
  have w2: "written ?s2 = written s @ ?d @ ?inc" using f2 s1(4) by (simp add: follows_def)
  obtain s3 where s3: "write_account_region ep dp ta ?s2 account = Some (ta, s3, Ok ())" "follows ?s2 [] s3"
    "?d \<noteq> [] \<Longrightarrow> data_seen dp ta s3 account (vaddr s1)"
    using write_region_copied [of ?s2 "written s" ta account ?inc ep dp] follows_fits(1) [OF f2 room1]
      follows_fits(2) [OF f2 room1] w2 m1 s1(3) len by (auto intro: fits_in_mono)
  have m3: "is_loader_v1 s3 = is_loader_v1 s" "\<not> ser_direct_mapping s3" using s3(2) m1 by (simp_all add: follows_def)
  have room3: "fits_in s3 (length ?pad)" "region_start s3 \<le> mem_len (buffer s3)"
    using follows_fits [OF s3(2), of "length ?pad"] follows_fits(1) [OF f2 room1] by simp_all
  have pad: "write_account_padding ep ta s3 account = Some (ta, ser_put s3 ?pad, Ok ())" if "\<not> is_loader_v1 s"
    using m3 room3(1) that by (simp add: write_account_padding_def Let_def fill_is_put)
  have pad': "write_account_padding ep ta s3 account = Some (ta, s3, Ok ())" if "is_loader_v1 s"
    using m3 that by (simp add: write_account_padding_def)
  obtain s4 where s4: "write_account_padding ep ta s3 account = Some (ta, s4, Ok ())" "follows s3 ?pad s4"
    using pad pad' follows_put [OF room3] room3 by (cases "is_loader_v1 s") (auto simp: follows_def fits_in_def)
  have "write_account ep dp ta s account = Some (ta, s4, Ok (vaddr s1))"
    using mode s1(1) data s3(1) s4(1) by (simp add: write_account_def Let_def)
  moreover have "follows s ((?d @ ?inc) @ ?pad) s4"
    using follows_trans [OF s1(2) follows_trans [OF follows_trans [OF f2 s3(2)] s4(2)]] by simp
  moreover have "?d \<noteq> [] \<longrightarrow> data_seen dp ta s4 account (vaddr s1)" using s3(3) data_seen_follows [OF _ s4(2)] by blast
  ultimately show ?thesis
    using mode same_contents_refl [OF borrowable_inv [OF b]] by (simp add: account_written_def body)
qed

lemma create_region_same_contents:
  assumes "borrowable ta account"
  shows "\<exists>ta' r. create_memory_region_of_account dp ta account addr = (ta', Ok r) \<and> same_contents ta ta'
    \<and> borrow_counters ta' = borrow_counters ta \<and> vm_addr r = addr \<and> vm_gap_shift r = 63
    \<and> len r = of_nat (length (get_data ta account)) \<and> host_addr r = dp ta' (ba_index account)
    \<and> access_violation_handler_payload r =
        (if is_ok (can_data_be_changed ta account) then Some (get_index_in_transaction account) else None)
    \<and> (writable r \<longrightarrow> is_ok (can_data_be_changed ta account))"
proof (cases "is_ok (can_data_be_changed ta account) \<and> \<not> ba_is_shared ta account")
  case True
  then have "can_data_be_changed ta account = Ok ()" by (cases "can_data_be_changed ta account") auto
  from touch_data_same_contents [OF assms this] obtain t
    where t: "with_data_mut ta account (\<lambda>bytes. bytes) = (t, Ok ())" "same_contents ta t" "borrow_counters t = borrow_counters ta"
    by blast
  have "get_data t account = get_data ta account"
    using same_contents_fields(1) [OF t(2)] assms by (simp add: borrowable_def)
  with True t show ?thesis
    by (simp add: create_memory_region_of_account_def new_writable_def account_slice_def)
next
  case False
  then show ?thesis
    using same_contents_refl [OF borrowable_inv [OF assms]]
    by (auto simp: create_memory_region_of_account_def new_readonly_def account_slice_def)
qed

lemma write_region_direct:
  assumes b: "borrowable ta account" and room: "fits_in s 0" and rs: "region_start s \<le> mem_len (buffer s)"
    and mode: "ser_stricter_abi s" "ser_direct_mapping s"
  shows "\<exists>ta' s'. write_account_region ep dp ta s account = Some (ta', s', Ok ()) \<and> follows s [] s'
    \<and> same_contents ta ta' \<and> borrow_counters ta' = borrow_counters ta
    \<and> region_start s' = region_start s \<and> buffer s' = buffer s
    \<and> (get_data ta account \<noteq> [] \<longrightarrow> data_seen dp ta s' account (vaddr s))"
proof (cases "address_space_reserved ep (is_loader_v1 s) (length (get_data ta account)) > 0")
  case False
  then have "get_data ta account = []" by (auto simp: address_space_reserved_def min_def split: if_splits)
  moreover have "follows s [] s" using room rs by (simp add: follows_def fits_in_def)
  ultimately show ?thesis
    using False same_contents_refl [OF borrowable_inv [OF b]] by (simp add: write_account_region_def)
next
  case True
  let ?n = "address_space_reserved ep (is_loader_v1 s) (length (get_data ta account))"
  obtain t r where r: "create_memory_region_of_account dp ta account (vaddr s) = (t, Ok r)" "same_contents ta t"
    "borrow_counters t = borrow_counters ta" "vm_addr r = vaddr s" "vm_gap_shift r = 63"
    "len r = of_nat (length (get_data ta account))" "host_addr r = dp t (ba_index account)"
    using create_region_same_contents [OF b] by blast
  let ?s = "s\<lparr>vaddr := vaddr s + of_nat ?n, ser_regions := ser_regions s @ [r]\<rparr>"
  have "write_account_region ep dp ta s account = Some (t, ?s, Ok ())"
    using True mode r(1) by (simp add: write_account_region_def Let_def)
  moreover have "follows s [] ?s" using room rs mode by (simp add: follows_def fits_in_def)
  moreover have "data_seen dp ta ?s account (vaddr s)"
    using r mode unfolding data_seen_def by (intro bexI [of _ r]) auto
  ultimately show ?thesis using r(2,3) by auto
qed

lemma follows_skip:
  assumes "follows s bs s'" "region_start s' + k \<le> mem_len (buffer s')" "ser_stricter_abi s"
  shows "follows s bs (s'\<lparr>region_start := region_start s' + k\<rparr>)"
  using assms by (simp add: follows_def)

lemma write_account_direct:
  assumes b: "borrowable ta account" and rs: "region_start s \<le> mem_len (buffer s)"
    and mode: "ser_stricter_abi s" "ser_direct_mapping s"
    and room: "fits_in s (length (account_body ep (is_loader_v1 s) True True (get_data ta account)))"
  shows "account_written ep dp ta s account (write_account ep dp ta s account)"
proof -
  let ?pad = "if is_loader_v1 s then [] else replicate (bpf_align_of_u128 ep) (0 :: u8)"
  let ?k = "bpf_align_of_u128 ep - offset_to_align (length (get_data ta account)) (bpf_align_of_u128 ep)"
  have body: "account_body ep (is_loader_v1 s) True True (get_data ta account) = ?pad" by (simp add: account_body_def)
  obtain s1 slice where s1: "push_region s = Some s1" "follows s [] s1" "region_start s1 = mem_len (buffer s)" "buffer s1 = buffer s"
    using push_region_follows [OF fits_in_mono [OF room] rs mode(1)] by auto
  have m1: "is_loader_v1 s1 = is_loader_v1 s" "ser_stricter_abi s1" "ser_direct_mapping s1"
    using s1(2) mode by (simp_all add: follows_def)
  have room1: "fits_in s1 (length ?pad)" using room s1(4) by (simp add: fits_in_def body)
  have "fits_in s1 0" "region_start s1 \<le> mem_len (buffer s1)" using room1 s1(3,4) by (auto intro: fits_in_mono)
  from write_region_direct [OF b this m1(2,3), of ep dp] obtain t s3 where s3:
    "write_account_region ep dp ta s1 account = Some (t, s3, Ok ())" "follows s1 [] s3" "same_contents ta t"
    "borrow_counters t = borrow_counters ta" "region_start s3 = mem_len (buffer s)" "buffer s3 = buffer s"
    "get_data ta account \<noteq> [] \<longrightarrow> data_seen dp ta s3 account (vaddr s1)"
    using s1(3,4) by auto
  have m3: "is_loader_v1 s3 = is_loader_v1 s" "ser_direct_mapping s3" "ser_stricter_abi s3"
    using s3(2) m1 by (simp_all add: follows_def)
  have len: "get_data t account = get_data ta account"
    using same_contents_fields(1) [OF s3(3)] b by (simp add: borrowable_def)
  have room3: "fits_in s3 (length ?pad)" using room1 s1(4) s3(6) by (simp add: fits_in_def)
  have "\<exists>s4. write_account_padding ep t s3 account = Some (t, s4, Ok ()) \<and> follows s3 ?pad s4"
  proof (cases "is_loader_v1 s")
    case True
    then show ?thesis using m3 room3 s3(5,6) by (simp add: write_account_padding_def follows_def fits_in_def)
  next
    case False
    then have room4: "fits_in s3 (length (replicate (bpf_align_of_u128 ep) (0 :: u8)))" using room3 by simp
    let ?s = "ser_put s3 (replicate (bpf_align_of_u128 ep) 0)"
    have "write_account_padding ep t s3 account = Some (t, ?s\<lparr>region_start := region_start ?s + ?k\<rparr>, Ok ())"
      using False m3 room4 len by (simp add: write_account_padding_def Let_def fill_is_put)
    moreover have "region_start ?s + ?k \<le> mem_len (buffer ?s)"
      using s3(5,6) ser_put_buffer(3) [OF room4] by simp
    ultimately show ?thesis
      using False follows_skip [OF follows_put [OF room4]] s3(5,6) m3(3) by simp
  qed
  then obtain s4 where s4: "write_account_padding ep t s3 account = Some (t, s4, Ok ())" "follows s3 ?pad s4" by blast
  have "write_account ep dp ta s account = Some (t, s4, Ok (vaddr s1))"
    using mode m1 s1(1) s3(1) s4(1) by (simp add: write_account_def write_account_data_def Let_def)
  moreover have "follows s ?pad s4"
    using follows_trans [OF s1(2) follows_trans [OF s3(2) s4(2)]] by simp
  moreover have "get_data ta account \<noteq> [] \<longrightarrow> data_seen dp ta s4 account (vaddr s1)"
    using s3(7) data_seen_follows [OF _ s4(2)] by blast
  ultimately show ?thesis
    using mode s3(3,4) by (simp add: account_written_def body)
qed

lemma write_account_spec:
  assumes "borrowable ta account" "region_start s \<le> mem_len (buffer s)"
    and "fits_in s (length (account_body ep (is_loader_v1 s) (ser_stricter_abi s) (ser_direct_mapping s) (get_data ta account)))"
  shows "account_written ep dp ta s account (write_account ep dp ta s account)"
  using assms write_account_plain [of ta account s ep dp] write_account_copied [of ta account s ep dp]
    write_account_direct [of ta account s ep dp]
  by (cases "ser_stricter_abi s"; cases "ser_direct_mapping s") (simp_all add: account_body_def)

section \<open>Accounts in both formats\<close>

definition key_of :: "TransactionAccounts \<Rightarrow> BorrowedInstructionAccount \<Rightarrow> Pubkey" where
  "key_of ta account = the (get_key ta account)"

definition header_aligned :: "Entrypoint \<Rightarrow> TransactionAccounts \<Rightarrow> BorrowedInstructionAccount \<Rightarrow> u8 list" where
  "header_aligned ep ta account =
     [non_dup_marker ep, as_u8 (ba_is_signer account), as_u8 (ba_is_writable account),
      as_u8 (ba_is_executable ta account), 0, 0, 0, 0] @ key_of ta account"

definition account_bytes_aligned ::
  "Entrypoint \<Rightarrow> bool \<Rightarrow> bool \<Rightarrow> TransactionAccounts \<Rightarrow> BorrowedInstructionAccount \<Rightarrow> u8 list"
where
  "account_bytes_aligned ep stricter_abi direct_mapping ta account =
     header_aligned ep ta account @ get_owner ta account @ to_le_bytes (get_lamports ta account)
       @ to_le_bytes (of_nat (length (get_data ta account)) :: u64)
       @ account_body ep False stricter_abi direct_mapping (get_data ta account) @ to_le_bytes (- 1 :: u64)"

definition header_unaligned :: "Entrypoint \<Rightarrow> TransactionAccounts \<Rightarrow> BorrowedInstructionAccount \<Rightarrow> u8 list" where
  "header_unaligned ep ta account =
     [non_dup_marker ep, as_u8 (ba_is_signer account), as_u8 (ba_is_writable account)] @ key_of ta account"

definition account_bytes_unaligned ::
  "Entrypoint \<Rightarrow> bool \<Rightarrow> bool \<Rightarrow> TransactionAccounts \<Rightarrow> BorrowedInstructionAccount \<Rightarrow> u8 list"
where
  "account_bytes_unaligned ep stricter_abi direct_mapping ta account =
     header_unaligned ep ta account @ to_le_bytes (get_lamports ta account)
       @ to_le_bytes (of_nat (length (get_data ta account)) :: u64)
       @ account_body ep True stricter_abi direct_mapping (get_data ta account)
       @ get_owner ta account @ as_u8 (ba_is_executable ta account) # to_le_bytes (- 1 :: u64)"

text \<open>What is needed of an account to be serialized and read back.\<close>

definition serializable :: "Entrypoint \<Rightarrow> TransactionAccounts \<Rightarrow> BorrowedInstructionAccount \<Rightarrow> bool" where
  "serializable ep ta account \<longleftrightarrow>
     borrowable ta account \<and> length (key_of ta account) = 32 \<and> length (get_owner ta account) = 32
     \<and> length (get_data ta account) \<le> MAX_ACCOUNT_DATA_LEN
     \<and> length (get_data ta account) \<le> max_permitted_data_length ep
     \<and> - (2 ^ 63) \<le> ta_resize_delta ta \<and> ta_resize_delta ta \<le> MAX_ACCOUNT_DATA_GROWTH_PER_TRANSACTION"

lemma to_le_bytes_u8 [simp]: "to_le_bytes (x :: u8) = [x]"
  by (simp add: to_le_bytes_def)

lemma get_key_key_of: "borrowable ta account \<Longrightarrow> get_key ta account = Some (key_of ta account)"
  by (simp add: key_of_def get_key_def account_key_view borrowable_def)

lemma same_contents_bytes:
  assumes "same_contents ta ta'" "ba_index account < accounts_len ta"
  shows "key_of ta' account = key_of ta account"
    and "account_bytes_aligned ep st di ta' account = account_bytes_aligned ep st di ta account"
    and "account_bytes_unaligned ep st di ta' account = account_bytes_unaligned ep st di ta account"
proof -
  show key: "key_of ta' account = key_of ta account"
    by (simp add: key_of_def get_key_def same_contents_key [OF assms(1)])
  show "account_bytes_aligned ep st di ta' account = account_bytes_aligned ep st di ta account"
    "account_bytes_unaligned ep st di ta' account = account_bytes_unaligned ep st di ta account"
    by (simp_all only: account_bytes_aligned_def account_bytes_unaligned_def header_aligned_def header_unaligned_def
        key same_contents_fields [OF assms])
qed

lemma same_contents_borrowable: "same_contents ta ta' \<Longrightarrow> borrowable ta account \<Longrightarrow> borrowable ta' account"
  by (simp add: same_contents_def borrowable_def)

lemma same_contents_serializable:
  assumes "same_contents ta ta'" "serializable ep ta account"
  shows "serializable ep ta' account"
proof -
  have "ba_index account < accounts_len ta" using assms(2) by (simp add: serializable_def borrowable_def)
  with assms show ?thesis
    unfolding serializable_def
    by (simp add: same_contents_bytes(1) same_contents_fields same_contents_borrowable)
       (simp add: same_contents_def)
qed

lemma length_account_bytes:
  assumes "serializable ep ta account"
  shows "length (account_bytes_aligned ep st di ta account) = account_size_aligned ep ta st di (Account i account)"
    and "length (account_bytes_unaligned ep st di ta account) = account_size_unaligned ta st di (Account i account)"
  using assms
  by (simp_all add: account_bytes_aligned_def header_aligned_def account_bytes_unaligned_def header_unaligned_def
      serializable_def fields_len_aligned_def fields_len_unaligned_def account_body_def)

text \<open>The outcome of serializing one account.\<close>

definition one_written ::
  "data_address \<Rightarrow> TransactionAccounts \<Rightarrow> Serializer \<Rightarrow> BorrowedInstructionAccount \<Rightarrow> u8 list
     \<Rightarrow> SerializedAccountMetadata ser \<Rightarrow> bool"
where
  "one_written data_ptr ta s account bytes r \<longleftrightarrow>
     (\<exists>ta' s' meta. r = Some (ta', s', Ok meta) \<and> same_contents ta ta' \<and> borrow_counters ta' = borrow_counters ta
        \<and> follows s bytes s' \<and> original_data_len meta = length (get_data ta account)
        \<and> (if ser_stricter_abi s
           then get_data ta account \<noteq> [] \<longrightarrow> data_seen data_ptr ta s' account (vm_data_addr meta)
           else data_pending ta s' account (vm_data_addr meta)))"

lemma one_written_around:
  assumes room: "fits_in s (length us + (length body + length vs))" and rs: "region_start s \<le> mem_len (buffer s)"
    and r: "account_written ep dp ta (ser_put s us) account r"
    and body: "body = account_body ep (is_loader_v1 s) (ser_stricter_abi s) (ser_direct_mapping s) (get_data ta account)"
    and k: "\<And>ta' s' addr. same_contents ta ta' \<Longrightarrow> fits_in s' (length vs) \<Longrightarrow>
      \<exists>meta. k ta' s' addr = Some (ta', ser_put s' vs, Ok meta)
        \<and> original_data_len meta = length (get_data ta account) \<and> vm_data_addr meta = addr"
  shows "one_written dp ta s account (us @ body @ vs) (ser_then r k)"
proof -
  obtain t s' addr where w: "r = Some (t, s', Ok addr)" "same_contents ta t" "borrow_counters t = borrow_counters ta"
    "follows (ser_put s us) body s'"
    "if ser_stricter_abi s then get_data ta account \<noteq> [] \<longrightarrow> data_seen dp ta s' account addr
     else data_pending ta s' account addr"
    using r unfolding account_written_def ser_put_fields body by blast
  have f1: "follows s us (ser_put s us)" using room rs by (intro follows_put) (auto intro: fits_in_mono)
  have room': "fits_in s' (length vs)" "region_start s' \<le> mem_len (buffer s')"
    using follows_fits [OF w(4) follows_fits(1) [OF f1 room]] by simp_all
  obtain meta where meta: "k t s' addr = Some (t, ser_put s' vs, Ok meta)"
    "original_data_len meta = length (get_data ta account)" "vm_data_addr meta = addr"
    using k [OF w(2) room'(1)] by blast
  have f3: "follows s' vs (ser_put s' vs)" by (rule follows_put [OF room'])
  have "follows s (us @ body @ vs) (ser_put s' vs)"
    using follows_trans [OF f1 follows_trans [OF w(4) f3]] .
  moreover have "\<not> ser_stricter_abi s \<Longrightarrow> \<not> ser_stricter_abi s'" using w(4) by (simp add: follows_def)
  ultimately show ?thesis
    using w(1-3,5) meta data_seen_follows [OF _ f3] data_pending_follows [OF _ f3]
    by (auto simp: one_written_def split: if_splits)
qed

lemma serialize_account_aligned_written:
  assumes ok: "serializable ep ta account" and rs: "region_start s \<le> mem_len (buffer s)" and v1: "\<not> is_loader_v1 s"
    and room: "fits_in s (length (account_bytes_aligned ep (ser_stricter_abi s) (ser_direct_mapping s) ta account))"
  shows "one_written dp ta s account (account_bytes_aligned ep (ser_stricter_abi s) (ser_direct_mapping s) ta account)
    (serialize_account_aligned ep dp ta s account)"
proof -
  let ?body = "account_body ep False (ser_stricter_abi s) (ser_direct_mapping s) (get_data ta account)"
  let ?us = "header_aligned ep ta account @ get_owner ta account @ to_le_bytes (get_lamports ta account)
    @ to_le_bytes (of_nat (length (get_data ta account)) :: u64)"
  let ?vs = "to_le_bytes (- 1 :: u64)"
  have b: "borrowable ta account" and len: "length (key_of ta account) = 32" "length (get_owner ta account) = 32"
    using ok by (auto simp: serializable_def)
  have bytes: "account_bytes_aligned ep (ser_stricter_abi s) (ser_direct_mapping s) ta account = ?us @ ?body @ ?vs"
    by (simp add: account_bytes_aligned_def)
  have room': "fits_in s (length ?us + (length ?body + length ?vs))" using room unfolding bytes by (simp add: add.assoc)
  have fits: "n \<le> length ?us \<Longrightarrow> fits_in s n" for n by (rule fits_in_mono [OF room']) simp
  let ?h = "take 8 (header_aligned ep ta account)"
  have "serialize_account_aligned ep dp ta s account =
      ser_then (write_account ep dp ta (ser_put s ?us) account) (\<lambda>ta' s' data_addr. Some (ta', ser_put s' ?vs, Ok
        \<lparr>original_data_len = length (get_data ta' account), vm_data_addr = data_addr,
         vm_key_addr = write_vaddr (ser_put s ?h),
         vm_lamports_addr = write_vaddr (ser_put s (header_aligned ep ta account @ get_owner ta account)),
         vm_owner_addr = write_vaddr (ser_put s (header_aligned ep ta account))\<rparr>))"
    unfolding serialize_account_aligned_def get_key_key_of [OF b] option.case
    by (simp add: ser_write_put ser_put_put fits header_aligned_def len Let_def)
  moreover have "account_written ep dp ta (ser_put s ?us) account (write_account ep dp ta (ser_put s ?us) account)"
  proof (rule write_account_spec [OF b])
    show "region_start (ser_put s ?us) \<le> mem_len (buffer (ser_put s ?us))"
      using rs ser_put_buffer(3) [OF fits [OF order.refl]] by simp
    show "fits_in (ser_put s ?us) (length (account_body ep (is_loader_v1 (ser_put s ?us)) (ser_stricter_abi (ser_put s ?us))
        (ser_direct_mapping (ser_put s ?us)) (get_data ta account)))"
      using v1 fits_in_put [OF room'] by (simp add: fits_in_mono)
  qed
  ultimately show ?thesis
    unfolding bytes using v1 b
    by (simp only:) (rule one_written_around [OF room' rs],
        auto simp: borrowable_def same_contents_fields(1))
qed

lemma serialize_account_unaligned_written:
  assumes ok: "serializable ep ta account" and rs: "region_start s \<le> mem_len (buffer s)" and v1: "is_loader_v1 s"
    and room: "fits_in s (length (account_bytes_unaligned ep (ser_stricter_abi s) (ser_direct_mapping s) ta account))"
  shows "one_written dp ta s account (account_bytes_unaligned ep (ser_stricter_abi s) (ser_direct_mapping s) ta account)
    (serialize_account_unaligned ep dp ta s account)"
proof -
  let ?body = "account_body ep True (ser_stricter_abi s) (ser_direct_mapping s) (get_data ta account)"
  let ?us = "header_unaligned ep ta account @ to_le_bytes (get_lamports ta account)
    @ to_le_bytes (of_nat (length (get_data ta account)) :: u64)"
  let ?vs = "get_owner ta account @ as_u8 (ba_is_executable ta account) # to_le_bytes (- 1 :: u64)"
  have b: "borrowable ta account" and len: "length (key_of ta account) = 32" "length (get_owner ta account) = 32"
    and i: "ba_index account < accounts_len ta"
    using ok by (auto simp: serializable_def borrowable_def)
  have bytes: "account_bytes_unaligned ep (ser_stricter_abi s) (ser_direct_mapping s) ta account = ?us @ ?body @ ?vs"
    by (simp add: account_bytes_unaligned_def)
  have room': "fits_in s (length ?us + (length ?body + length ?vs))" using room unfolding bytes by (simp add: add.assoc)
  have fits: "n \<le> length ?us \<Longrightarrow> fits_in s n" for n by (rule fits_in_mono [OF room']) simp
  let ?k = "\<lambda>ta' s' data_addr.
      let (s', owner_addr) = ser_write_all s' (get_owner ta' account);
          s' = fst (ser_write s' (as_u8 (ba_is_executable ta' account)));
          s' = fst (ser_write s' (- 1 :: u64))
      in Some (ta', s', Ok
        \<lparr>original_data_len = length (get_data ta' account), vm_data_addr = data_addr,
         vm_key_addr = write_vaddr (ser_put s (take 3 (header_unaligned ep ta account))),
         vm_lamports_addr = write_vaddr (ser_put s (header_unaligned ep ta account)), vm_owner_addr = owner_addr\<rparr>)"
  have k: "\<exists>meta. ?k ta' s' addr = Some (ta', ser_put s' ?vs, Ok meta)
      \<and> original_data_len meta = length (get_data ta account) \<and> vm_data_addr meta = addr"
    if "same_contents ta ta'" "fits_in s' (length ?vs)" for ta' s' addr
  proof -
    have "fits_in s' n" if "n \<le> length ?vs" for n using \<open>fits_in s' (length ?vs)\<close> that by (rule fits_in_mono)
    then show ?thesis using len by (simp add: same_contents_fields [OF that(1) i] ser_write_put Let_def ser_put_put)
  qed
  have "serialize_account_unaligned ep dp ta s account = ser_then (write_account ep dp ta (ser_put s ?us) account) ?k"
    unfolding serialize_account_unaligned_def get_key_key_of [OF b] option.case
    by (simp add: ser_write_put ser_put_put fits header_unaligned_def len Let_def)
  moreover have "account_written ep dp ta (ser_put s ?us) account (write_account ep dp ta (ser_put s ?us) account)"
  proof (rule write_account_spec [OF b])
    show "region_start (ser_put s ?us) \<le> mem_len (buffer (ser_put s ?us))"
      using rs ser_put_buffer(3) [OF fits [OF order.refl]] by simp
    show "fits_in (ser_put s ?us) (length (account_body ep (is_loader_v1 (ser_put s ?us)) (ser_stricter_abi (ser_put s ?us))
        (ser_direct_mapping (ser_put s ?us)) (get_data ta account)))"
      using v1 fits_in_put [OF room'] by (simp add: fits_in_mono)
  qed
  ultimately show ?thesis
    unfolding bytes using v1 k by (simp only:) (rule one_written_around [OF room' rs], simp_all)
qed

end
