(* ===== verification/Serialization_Roundtrip.thy ===== *)
theory Serialization_Roundtrip
  imports Serialization_Layout
begin

text \<open>
  Reading back what was written.  The locale \<open>account_format\<close> is what the two formats have in common;
  inside it the loops over the accounts are shown to produce the format's layout and to read it back
  without a change to any account.
\<close>

section \<open>Reading one account\<close>

lemma slice_get_middle: "slice_get (us @ xs @ vs) (length us) (length us + length xs) = Some xs"
  by (simp add: slice_get_def)

lemma slice_get_at:
  "bytes = us @ xs @ vs \<Longrightarrow> a = length us \<Longrightarrow> b = length us + length xs \<Longrightarrow> slice_get bytes a b = Some xs"
  by (simp add: slice_get_def)

lemma get_u64_at:
  assumes "bytes = us @ to_le_bytes (x :: u64) @ vs" "a = length us" "length bytes < 2 ^ 64"
  shows "get_u64 bytes a = Some x"
proof -
  have "slice_get bytes a (min (a + 8) (2 ^ 64 - 1)) = Some (to_le_bytes x)"
    using assms by (intro slice_get_at [of _ us _ vs]) (simp_all add: min_def)
  then show ?thesis by (simp add: get_u64_def from_le_to_le_bytes)
qed

lemma clamp_id: "- (2 ^ 63) \<le> x \<Longrightarrow> x < 2 ^ 63 \<Longrightarrow> clamp 64 x = x"
  by (simp add: clamp_def)

lemma resize_same_length:
  assumes "serializable ep ta account"
  shows "can_data_be_resized ta account (length (get_data ta account)) = can_data_be_changed ta account"
    and "ba_update_accounts_resize_delta ta account (length (get_data ta account)) = ta"
proof -
  have d: "- (2 ^ 63) \<le> ta_resize_delta ta" "ta_resize_delta ta < 2 ^ 63"
    "ta_resize_delta ta \<le> MAX_ACCOUNT_DATA_GROWTH_PER_TRANSACTION" "length (get_data ta account) \<le> MAX_ACCOUNT_DATA_LEN"
    using assms
    by (auto simp: serializable_def MAX_ACCOUNT_DATA_GROWTH_PER_TRANSACTION_def MAX_ACCOUNT_DATA_LEN_def)
  have c: "clamp 64 (ta_resize_delta ta + clamp 64 0) = ta_resize_delta ta"
    using clamp_id [OF d(1,2)] by (simp add: clamp_id [of 0])
  have "accounts_can_data_be_resized ta (length (get_data ta account)) (length (get_data ta account)) = Ok ()"
    using d(3,4) c by (simp add: accounts_can_data_be_resized_def Let_def)
  then show "can_data_be_resized ta account (length (get_data ta account)) = can_data_be_changed ta account"
    by (simp add: can_data_be_resized_def)
  show "ba_update_accounts_resize_delta ta account (length (get_data ta account)) = ta"
    using c by (simp add: ba_update_accounts_resize_delta_def update_accounts_resize_delta_def)
qed

lemma set_same_data:
  assumes ok: "serializable ep ta account" and change: "can_data_be_changed ta account = Ok ()"
  shows "\<exists>ta'. set_data_from_slice ta account (get_data ta account) = (ta', Ok ()) \<and> same_contents ta ta'
    \<and> borrow_counters ta' = borrow_counters ta"
proof -
  have b: "borrowable ta account" using ok by (simp add: serializable_def)
  obtain t where t: "ba_touch ta account = (t, Ok ())" "same_contents ta t" "borrow_counters t = borrow_counters ta"
    using touch_same_contents [OF b] by blast
  have i: "ba_index account < accounts_len ta" using b by (simp add: borrowable_def)
  have d: "get_data t account = get_data ta account" by (rule same_contents_fields(1) [OF t(2) i])
  have u: "ba_update_accounts_resize_delta t account (length (get_data ta account)) = t"
    using resize_same_length(2) [OF same_contents_serializable [OF t(2) ok]] d by simp
  let ?v = "view_set_data_from_slice (ba_view t account) (get_data ta account)"
  have "set_data_from_slice ta account (get_data ta account) = (put_view t (ba_index account) ?v, Ok ())"
    using change t(1) u by (simp add: set_data_from_slice_def resize_same_length(1) [OF ok])
  moreover have "same_contents t (put_view t (ba_index account) ?v)"
    using t(2) i d
    by (intro same_contents_put_view)
       (auto simp: same_contents_def view_set_data_from_slice_def content_def get_data_def)
  ultimately show ?thesis using same_contents_trans [OF t(2)] t(3) by (auto simp: put_view_def)
qed

lemma update_same_data:
  assumes ok: "serializable ep ta account"
    and copy: "\<not> (st \<and> di) \<Longrightarrow> slice_get bytes start (start + length (get_data ta account)) = Some (get_data ta account)"
  shows "\<exists>ta'. update_data st di bytes start ta account (length (get_data ta account)) = (ta', Ok ())
    \<and> same_contents ta ta' \<and> borrow_counters ta' = borrow_counters ta"
proof (cases "can_data_be_changed ta account")
  case (Ok x)
  moreover have "same_contents ta ta" using ok by (intro same_contents_refl) (simp add: serializable_def borrowable_def)
  ultimately show ?thesis
    using set_same_data [OF ok] copy
    by (cases "st \<and> di") (auto simp: update_data_def resize_same_length(1) [OF ok])
next
  case (Err e)
  moreover have "same_contents ta ta" using ok by (intro same_contents_refl) (simp add: serializable_def borrowable_def)
  ultimately show ?thesis
    using copy by (auto simp: update_data_def resize_same_length(1) [OF ok])
qed

text \<open>The outcome of reading one account back.\<close>

definition one_read ::
  "TransactionAccounts \<Rightarrow> nat \<Rightarrow> (TransactionAccounts \<times> (nat, InstructionError) result) option \<Rightarrow> bool"
where
  "one_read ta end_pos r \<longleftrightarrow>
     (\<exists>ta'. r = Some (ta', Ok end_pos) \<and> same_contents ta ta' \<and> borrow_counters ta' = borrow_counters ta)"

lemma deserialize_account_unaligned_read:
  assumes ok: "serializable ep ta account" and small: "length bytes < 2 ^ 64"
    and bytes: "bytes = us @ account_bytes_unaligned ep st di ta account @ vs"
  shows "one_read ta (length us + length (account_bytes_unaligned ep st di ta account))
    (deserialize_account_unaligned st di bytes ta account (length (get_data ta account)) (length us + 1))"
proof -
  let ?h = "header_unaligned ep ta account"
  let ?d = "get_data ta account"
  let ?b = "account_body ep True st di ?d"
  let ?l = "to_le_bytes (get_lamports ta account)"
  let ?n = "to_le_bytes (of_nat (length ?d) :: u64)"
  let ?t = "get_owner ta account @ as_u8 (ba_is_executable ta account) # to_le_bytes (- 1 :: u64)"
  have h: "length ?h = 35" and o: "length (get_owner ta account) = 32"
    using ok by (simp_all add: serializable_def header_unaligned_def)
  have lam: "get_u64 bytes (35 + length us) = Some (get_lamports ta account)"
    using h small
    by (intro get_u64_at [of _ "us @ ?h" _ "?n @ ?b @ ?t @ vs"]) (simp_all add: bytes account_bytes_unaligned_def)
  have data: "slice_get bytes (51 + length us) (51 + length us + length ?d) = Some ?d" if "\<not> (st \<and> di)"
    using h that
    by (intro slice_get_at [of _ "us @ ?h @ ?l @ ?n" _ "?t @ vs"])
       (auto simp add: bytes account_bytes_unaligned_def account_body_def)
  obtain t where t: "update_data st di bytes (51 + length us) ta account (length ?d) = (t, Ok ())"
    "same_contents ta t" "borrow_counters t = borrow_counters ta"
    using update_same_data [OF ok data] by blast
  have "length (account_bytes_unaligned ep st di ta account) = (if \<not> (st \<and> di) then 92 + length ?d else 92)"
    using h o by (simp add: account_bytes_unaligned_def account_body_def)
  then show ?thesis
    using lam t by (simp add: one_read_def deserialize_account_unaligned_def update_lamports_def Let_def)
qed

lemma deserialize_account_aligned_read:
  assumes ok: "serializable ep ta account" and small: "length bytes < 2 ^ 64"
    and bytes: "bytes = us @ account_bytes_aligned ep st di ta account @ vs"
  shows "one_read ta (length us + length (account_bytes_aligned ep st di ta account))
    (deserialize_account_aligned ep st di bytes ta account (length (get_data ta account)) (length us + 1))"
proof -
  let ?h = "header_aligned ep ta account"
  let ?o = "get_owner ta account"
  let ?d = "get_data ta account"
  let ?b = "account_body ep False st di ?d"
  let ?l = "to_le_bytes (get_lamports ta account)"
  let ?n = "to_le_bytes (of_nat (length ?d) :: u64)"
  let ?t = "to_le_bytes (- 1 :: u64)"
  let ?pad = "max_permitted_data_increase ep + offset_to_align (length ?d) (bpf_align_of_u128 ep)"
  have h: "length ?h = 40" and o: "length ?o = 32" and max: "length ?d \<le> max_permitted_data_length ep"
    using ok by (simp_all add: serializable_def header_aligned_def)
  have owner: "slice_get bytes (40 + length us) (72 + length us) = Some ?o"
    using h o by (intro slice_get_at [of _ "us @ ?h" _ "?l @ ?n @ ?b @ ?t @ vs"]) (simp_all add: bytes account_bytes_aligned_def)
  have lam: "get_u64 bytes (72 + length us) = Some (get_lamports ta account)"
    using h o small
    by (intro get_u64_at [of _ "us @ ?h @ ?o" _ "?n @ ?b @ ?t @ vs"]) (simp_all add: bytes account_bytes_aligned_def)
  have post: "get_u64 bytes (80 + length us) = Some (of_nat (length ?d))"
    using h o small
    by (intro get_u64_at [of _ "us @ ?h @ ?o @ ?l" _ "?b @ ?t @ vs"]) (simp_all add: bytes account_bytes_aligned_def)
  have data: "slice_get bytes (88 + length us) (88 + length us + length ?d) = Some ?d" if "\<not> (st \<and> di)"
    using h o that
    by (intro slice_get_at [of _ "us @ ?h @ ?o @ ?l @ ?n" _ "replicate ?pad 0 @ ?t @ vs"])
       (auto simp add: bytes account_bytes_aligned_def account_body_def)
  obtain t where t: "update_data st di bytes (88 + length us) ta account (length ?d) = (t, Ok ())"
    "same_contents ta t" "borrow_counters t = borrow_counters ta"
    using update_same_data [OF ok data] by blast
  have u: "unat (of_nat (length ?d) :: u64) = length ?d"
    using ok by (intro unat_of_nat_u64) (simp add: serializable_def MAX_ACCOUNT_DATA_LEN_def)
  have fit: "length ?d + ?pad < 2 ^ 64" if "\<not> (st \<and> di)"
    using small that by (auto simp: bytes account_bytes_aligned_def account_body_def)
  have own: "get_owner t account = ?o"
    using same_contents_fields(2) [OF t(2)] ok by (simp add: serializable_def borrowable_def)
  have "length (account_bytes_aligned ep st di ta account) =
      (if \<not> (st \<and> di) then 96 + (length ?d + ?pad) else 96 + bpf_align_of_u128 ep)"
    using h o by (simp add: account_bytes_aligned_def account_body_def)
  then show ?thesis
    using owner lam post t u max own fit
    by (cases "st \<and> di")
       (auto simp add: one_read_def deserialize_account_aligned_def update_lamports_def Let_def min_def)
qed

section \<open>Borrowed accounts\<close>

text \<open>What \<open>collect_accounts\<close> makes of the instruction account at an index.\<close>

definition describes :: "InstructionContext \<Rightarrow> nat \<Rightarrow> SerializeAccount \<Rightarrow> bool" where
  "describes ic i a \<longleftrightarrow>
     (case is_instruction_account_duplicate ic (of_nat i) of
        Err _ \<Rightarrow> False
      | Ok (Some index) \<Rightarrow> a = Duplicate index
      | Ok None \<Rightarrow>
          (\<exists>ia. nth_get (instruction_accounts ic) (unat (of_nat i :: u16)) = Some ia
             \<and> a = Account (of_nat i) \<lparr>ba_instruction_account = ia,
                     index_in_transaction_of_instruction_program = ic_program_account_index ic\<rparr>))"

fun borrowed :: "SerializeAccount list \<Rightarrow> nat list" where
  "borrowed [] = []"
| "borrowed (Duplicate _ # as) = borrowed as"
| "borrowed (Account _ a # as) = ba_index a # borrowed as"

definition lend :: "nat list \<Rightarrow> BorrowCounter list \<Rightarrow> BorrowCounter list" where
  "lend js cs = fold (\<lambda>j cs. cs[j := - 1]) js cs"

definition return_all :: "nat list \<Rightarrow> BorrowCounter list \<Rightarrow> BorrowCounter list" where
  "return_all js cs = fold (\<lambda>j cs. cs[j := release_borrow_mut (cs ! j)]) js cs"

lemma length_lend [simp]: "length (lend js cs) = length cs"
  by (induction js arbitrary: cs) (simp_all add: lend_def)

lemma length_return_all [simp]: "length (return_all js cs) = length cs"
  by (induction js arbitrary: cs) (simp_all add: return_all_def)

lemma lend_nth: "i < length cs \<Longrightarrow> lend js cs ! i = (if i \<in> set js then - 1 else cs ! i)"
  by (induction js arbitrary: cs) (simp_all add: lend_def nth_list_update)

lemma return_all_nth:
  "distinct js \<Longrightarrow> i < length cs \<Longrightarrow> return_all js cs ! i = (if i \<in> set js then release_borrow_mut (cs ! i) else cs ! i)"
  by (induction js arbitrary: cs) (auto simp add: return_all_def nth_list_update, metis nth_list_update_neq)

lemma release_lent: "release_borrow_mut (- 1) = 0"
  by (simp add: release_borrow_mut_def clamp_def)

lemma lend_return:
  assumes "distinct js" "\<forall>j \<in> set js. j < length cs \<and> cs ! j = 0"
  shows "return_all js (lend js cs) = cs"
  using assms by (intro nth_equalityI) (auto simp: return_all_nth lend_nth release_lent)

lemma borrow_mut_free:
  assumes "try_borrow_mut ta i = Ok ta'"
  shows "unat i < length (borrow_counters ta)" "borrow_counters ta ! unat i = 0"
    and "ta' = ta\<lparr>borrow_counters := (borrow_counters ta)[unat i := - 1]\<rparr>"
  using assms
  by (auto simp: try_borrow_mut_def and_then_Ok_iff ok_or_def nth_get_def counter_try_borrow_mut_def is_writing_def
      is_reading_def clamp_def split: if_splits option.splits)

lemma borrow_mut_ok:
  assumes "unat i < length (borrow_counters ta)" "borrow_counters ta ! unat i = 0"
  shows "try_borrow_mut ta i = Ok (ta\<lparr>borrow_counters := (borrow_counters ta)[unat i := - 1]\<rparr>)"
  using assms
  by (simp add: try_borrow_mut_def ok_or_def nth_get_def counter_try_borrow_mut_def is_writing_def is_reading_def clamp_def)

lemma collect_accounts_borrowed:
  assumes "collect_accounts tc ic is = Some (tc', accts)"
  shows "list_all2 (describes ic) is accts \<and> distinct (borrowed accts)
    \<and> (\<forall>j \<in> set (borrowed accts). j < length (borrow_counters (accounts tc)) \<and> borrow_counters (accounts tc) ! j = 0)
    \<and> tc' = tc\<lparr>accounts := (accounts tc)\<lparr>borrow_counters := lend (borrowed accts) (borrow_counters (accounts tc))\<rparr>\<rparr>"
  using assms
proof (induction "is" arbitrary: tc accts)
  case Nil
  then show ?case by (simp add: lend_def)
next
  case (Cons i "is")
  from Cons.prems consider
    (dup) index as where "is_instruction_account_duplicate ic (of_nat i) = Ok (Some index)"
      "collect_accounts tc ic is = Some (tc', as)" "accts = Duplicate index # as"
  | (account) t a as where "is_instruction_account_duplicate ic (of_nat i) = Ok None"
      "try_borrow_instruction_account tc ic (of_nat i) = Ok (t, a)" "collect_accounts t ic is = Some (tc', as)"
      "accts = Account (of_nat i) a # as"
    by (auto split: result.splits option.splits)
  then show ?case
  proof cases
    case dup
    then show ?thesis using Cons.IH [OF dup(2)] by (simp add: describes_def)
  next
    case account
    obtain ia ta where b: "nth_get (instruction_accounts ic) (unat (of_nat i :: u16)) = Some ia"
      "try_borrow_mut (accounts tc) (index_in_transaction ia) = Ok ta" "t = tc\<lparr>accounts := ta\<rparr>"
      "a = \<lparr>ba_instruction_account = ia, index_in_transaction_of_instruction_program = ic_program_account_index ic\<rparr>"
      using account(2)
      by (auto simp: try_borrow_instruction_account_def and_then_Ok_iff ok_or_def split: option.splits)
    have j: "ba_index a = unat (index_in_transaction ia)" by (simp add: b(4) get_index_in_transaction_def)
    note free = borrow_mut_free [OF b(2), folded j]
    note IH = Cons.IH [OF account(3)]
    have "describes ic i (Account (of_nat i) a)" using account(1) b(1,4) by (simp add: describes_def)
    moreover have "ba_index a \<notin> set (borrowed as)" using IH b(3) free by auto
    moreover have "cs[ba_index a := - 1] ! k = 0 \<Longrightarrow> k < length cs \<Longrightarrow> cs ! k = 0" for cs :: "BorrowCounter list" and k
      by (cases "k = ba_index a") auto
    ultimately show ?thesis
      using IH free b(3) account(4) by (auto simp: lend_def)
  qed
qed

section \<open>What the formats have in common\<close>

text \<open>The data of an account is, or will be, where its metadata says.\<close>

definition placed ::
  "data_address \<Rightarrow> TransactionAccounts \<Rightarrow> Serializer \<Rightarrow> BorrowedInstructionAccount \<Rightarrow> u64 \<Rightarrow> bool"
where
  "placed data_ptr ta s account addr \<longleftrightarrow>
     (if ser_stricter_abi s then get_data ta account \<noteq> [] \<longrightarrow> data_seen data_ptr ta s account addr
      else data_pending ta s account addr)"

lemma placed_follows: "placed dp ta s a addr \<Longrightarrow> follows s bs s' \<Longrightarrow> placed dp ta s' a addr"
  using data_seen_follows [of dp ta s a addr bs s'] data_pending_follows [of ta s a addr bs s']
  by (auto simp: placed_def follows_def split: if_splits)

lemma placed_same:
  assumes "same_contents ta ta'" "ba_index a < accounts_len ta" "placed dp ta' s a addr"
  shows "placed dp ta s a addr"
  using assms(3) same_contents_trans [OF assms(1)]
  by (auto simp: placed_def data_seen_def data_pending_def same_contents_fields [OF assms(1,2)] split: if_splits)

fun layout_account ::
  "(BorrowedInstructionAccount \<Rightarrow> u8 list) \<Rightarrow> (IndexOfAccount \<Rightarrow> u8 list) \<Rightarrow> SerializeAccount \<Rightarrow> u8 list"
where
  "layout_account f g (Account _ a) = f a"
| "layout_account f g (Duplicate i) = g i"

definition layout_accounts ::
  "(BorrowedInstructionAccount \<Rightarrow> u8 list) \<Rightarrow> (IndexOfAccount \<Rightarrow> u8 list) \<Rightarrow> SerializeAccount list \<Rightarrow> u8 list"
where
  "layout_accounts f g as = concat (map (layout_account f g) as)"

text \<open>Metadata for a list of accounts: one entry each, duplicates repeat an earlier one.\<close>

definition metas_for ::
  "data_address \<Rightarrow> TransactionAccounts \<Rightarrow> Serializer \<Rightarrow> SerializeAccount list \<Rightarrow> SerializedAccountMetadata list \<Rightarrow> bool"
where
  "metas_for dp ta s as metas \<longleftrightarrow>
     length metas = length as
     \<and> (\<forall>k i a. k < length as \<longrightarrow> as ! k = Account i a \<longrightarrow>
          original_data_len (metas ! k) = length (get_data ta a) \<and> placed dp ta s a (vm_data_addr (metas ! k)))
     \<and> (\<forall>k i. k < length as \<longrightarrow> as ! k = Duplicate i \<longrightarrow> metas ! k = metas ! unat i)"

lemma metas_for_follows: "metas_for dp ta s as metas \<Longrightarrow> follows s bs s' \<Longrightarrow> metas_for dp ta s' as metas"
  using placed_follows unfolding metas_for_def by blast

lemma metas_for_snoc:
  assumes "metas_for dp ta s as metas"
  shows "original_data_len meta = length (get_data ta a) \<Longrightarrow> placed dp ta s a (vm_data_addr meta) \<Longrightarrow>
      \<forall>k i. k < length as \<longrightarrow> as ! k = Duplicate i \<longrightarrow> unat i < length as \<Longrightarrow>
      metas_for dp ta s (as @ [Account i a]) (metas @ [meta])"
    and "unat j < length as \<Longrightarrow> \<forall>k i. k < length as \<longrightarrow> as ! k = Duplicate i \<longrightarrow> unat i < length as \<Longrightarrow>
      metas_for dp ta s (as @ [Duplicate j]) (metas @ [metas ! unat j])"
  using assms unfolding metas_for_def
  by (auto simp: nth_append less_Suc_eq)

definition backward :: "SerializeAccount list \<Rightarrow> bool" where
  "backward as \<longleftrightarrow> (\<forall>k i. k < length as \<longrightarrow> as ! k = Duplicate i \<longrightarrow> unat i < k)"

lemma backward_prefix: "backward (as @ bs) \<Longrightarrow> backward as"
  unfolding backward_def by (metis length_append nth_append trans_less_add1)

lemma backward_snoc: "backward (as @ [Duplicate i]) \<Longrightarrow> unat i < length as"
  unfolding backward_def by (metis length_append_singleton lessI nth_append_length)

locale account_format =
  fixes one :: "TransactionAccounts \<Rightarrow> Serializer \<Rightarrow> BorrowedInstructionAccount \<Rightarrow> SerializedAccountMetadata ser"
    and dup :: "Serializer \<Rightarrow> IndexOfAccount \<Rightarrow> Serializer"
    and de_one :: "u8 list \<Rightarrow> TransactionAccounts \<Rightarrow> BorrowedInstructionAccount \<Rightarrow> nat \<Rightarrow> nat
      \<Rightarrow> (TransactionAccounts \<times> (nat, InstructionError) result) option"
    and dup_len :: nat
    and bytes_of :: "TransactionAccounts \<Rightarrow> BorrowedInstructionAccount \<Rightarrow> u8 list"
    and dup_bytes :: "IndexOfAccount \<Rightarrow> u8 list"
    and mode :: "Serializer \<Rightarrow> bool"
    and ep :: Entrypoint
    and dp :: data_address
  assumes bytes_same: "same_contents ta ta' \<Longrightarrow> ba_index a < accounts_len ta \<Longrightarrow> bytes_of ta' a = bytes_of ta a"
    and one_ok: "mode s \<Longrightarrow> serializable ep ta a \<Longrightarrow> region_start s \<le> mem_len (buffer s) \<Longrightarrow>
      fits_in s (length (bytes_of ta a)) \<Longrightarrow> one_written dp ta s a (bytes_of ta a) (one ta s a)"
    and dup_ok: "region_start s \<le> mem_len (buffer s) \<Longrightarrow> fits_in s (length (dup_bytes i)) \<Longrightarrow> follows s (dup_bytes i) (dup s i)"
    and dup_length: "length (dup_bytes i) = 1 + dup_len"
    and mode_follows: "mode s \<Longrightarrow> follows s bs s' \<Longrightarrow> mode s'"
    and de_ok: "serializable ep ta a \<Longrightarrow> length bytes < 2 ^ 64 \<Longrightarrow> bytes = us @ bytes_of ta a @ vs \<Longrightarrow>
      one_read ta (length us + length (bytes_of ta a)) (de_one bytes ta a (length (get_data ta a)) (length us + 1))"
begin

abbreviation laid_out_accounts :: "TransactionAccounts \<Rightarrow> SerializeAccount list \<Rightarrow> u8 list" where
  "laid_out_accounts ta \<equiv> layout_accounts (bytes_of ta) dup_bytes"

lemma layout_same:
  assumes "same_contents ta ta'" "\<forall>i a. Account i a \<in> set as \<longrightarrow> ba_index a < accounts_len ta"
  shows "laid_out_accounts ta' as = laid_out_accounts ta as"
  using assms(2)
proof (induction "as")
  case (Cons x xs)
  then show ?case using bytes_same [OF assms(1)] by (cases x) (auto simp: layout_accounts_def)
qed (simp add: layout_accounts_def)

lemma account_written:
  assumes "mode s" "region_start s \<le> mem_len (buffer s)" "fits_in s (length (bytes_of ta a) + n)" "serializable ep ta a"
    and same: "same_contents ta t" and metas: "metas_for dp ta s before metas"
    and bw: "\<forall>k i. k < length before \<longrightarrow> before ! k = Duplicate i \<longrightarrow> unat i < length before"
  shows "\<exists>t1 s1 meta. one t s a = Some (t1, s1, Ok meta) \<and> follows s (bytes_of ta a) s1
    \<and> same_contents ta (drop_AccountRefMut t1 (get_index_in_transaction a))
    \<and> metas_for dp ta s1 (before @ [Account i a]) (metas @ [meta])
    \<and> borrow_counters (drop_AccountRefMut t1 (get_index_in_transaction a)) = return_all [ba_index a] (borrow_counters t)"
proof -
  have i: "ba_index a < accounts_len ta" using assms(4) by (simp add: serializable_def borrowable_def)
  have b: "bytes_of t a = bytes_of ta a" by (rule bytes_same [OF same i])
  have d: "get_data t a = get_data ta a" by (rule same_contents_fields(1) [OF same i])
  have "one_written dp t s a (bytes_of t a) (one t s a)"
    using assms(1-3) b same_contents_serializable [OF same assms(4)] by (intro one_ok) (auto intro: fits_in_mono)
  then obtain t1 s1 meta where w: "one t s a = Some (t1, s1, Ok meta)" "same_contents t t1"
    "borrow_counters t1 = borrow_counters t" "follows s (bytes_of ta a) s1"
    "original_data_len meta = length (get_data ta a)" "placed dp t s1 a (vm_data_addr meta)"
    unfolding one_written_def b d placed_def by (auto simp: follows_def)
  have t1: "same_contents ta t1" by (rule same_contents_trans [OF same w(2)])
  have "unat (get_index_in_transaction a) < accounts_len t1" using i t1 by (simp add: same_contents_def)
  then have drop: "same_contents ta (drop_AccountRefMut t1 (get_index_in_transaction a))"
    using t1 by (intro same_contents_trans [OF t1 drop_same_contents]) (auto simp: same_contents_def)
  have "metas_for dp ta s1 (before @ [Account i a]) (metas @ [meta])"
    using metas_for_snoc(1) [OF metas_for_follows [OF metas w(4)] w(5) _ bw] placed_same [OF same i w(6)] by simp
  moreover have "borrow_counters (drop_AccountRefMut t1 (get_index_in_transaction a)) = return_all [ba_index a] (borrow_counters t)"
    using w(3) by (simp add: drop_AccountRefMut_def return_all_def put_view_def Let_def)
  ultimately show ?thesis using w(1,4) drop by blast
qed

lemma accounts_written:
  assumes "mode s" "region_start s \<le> mem_len (buffer s)" "fits_in s (length (laid_out_accounts ta as) + n)"
    and "\<forall>i a. Account i a \<in> set as \<longrightarrow> serializable ep ta a" "same_contents ta t"
    and "metas_for dp ta s before metas" "backward (before @ as)"
  shows "\<exists>t' s' metas'. serialize_accounts one dup metas t s as = Some (t', s', Ok metas') \<and> same_contents ta t'
    \<and> follows s (laid_out_accounts ta as) s' \<and> metas_for dp ta s' (before @ as) metas'
    \<and> borrow_counters t' = return_all (borrowed as) (borrow_counters t)"
  using assms
proof (induction "as" arbitrary: s t before metas)
  case Nil
  then have "follows s [] s" by (simp add: follows_def fits_in_def)
  with Nil show ?case by (simp add: layout_accounts_def return_all_def)
next
  case (Cons x xs)
  have bw: "backward (before @ [x])" "\<forall>k i. k < length before \<longrightarrow> before ! k = Duplicate i \<longrightarrow> unat i < length before"
    using backward_prefix [of "before @ [x]" xs] backward_prefix [of before "x # xs"] Cons.prems(7)
    unfolding backward_def by (simp_all, meson less_trans)
  have lm: "length metas = length before" using Cons.prems(6) by (simp add: metas_for_def)
  have step: ?case if s1: "follows s (layout_account (bytes_of ta) dup_bytes x) s1"
    and t1: "same_contents ta t1" "borrow_counters t1 = return_all (borrowed [x]) (borrow_counters t)"
    and m1: "metas_for dp ta s1 (before @ [x]) metas1"
    and eq: "serialize_accounts one dup metas t s (x # xs) = serialize_accounts one dup metas1 t1 s1 xs" for s1 t1 metas1
  proof -
    have room: "fits_in s (length (layout_account (bytes_of ta) dup_bytes x) + (length (laid_out_accounts ta xs) + n))"
      using Cons.prems(3) by (simp add: layout_accounts_def add.assoc)
    have "\<exists>t' s' metas'. serialize_accounts one dup metas1 t1 s1 xs = Some (t', s', Ok metas') \<and> same_contents ta t'
      \<and> follows s1 (laid_out_accounts ta xs) s' \<and> metas_for dp ta s' ((before @ [x]) @ xs) metas'
      \<and> borrow_counters t' = return_all (borrowed xs) (borrow_counters t1)"
      using Cons.prems(1,4,7) mode_follows [OF _ s1] follows_fits [OF s1 room] t1(1) m1
      by (intro Cons.IH) auto
    then obtain t' s' metas' where r: "serialize_accounts one dup metas1 t1 s1 xs = Some (t', s', Ok metas')"
      "same_contents ta t'" "follows s1 (laid_out_accounts ta xs) s'" "metas_for dp ta s' ((before @ [x]) @ xs) metas'"
      "borrow_counters t' = return_all (borrowed xs) (borrow_counters t1)"
      by blast
    have "follows s (laid_out_accounts ta (x # xs)) s'"
      using follows_trans [OF s1 r(3)] by (simp add: layout_accounts_def)
    moreover have "borrow_counters t' = return_all (borrowed (x # xs)) (borrow_counters t)"
      using r(5) t1(2) by (cases x) (simp_all add: return_all_def)
    moreover have "metas_for dp ta s' (before @ x # xs) metas'" using r(4) by simp
    ultimately show ?thesis unfolding eq using r(1,2) by blast
  qed
  show ?case
  proof (cases x)
    case (Duplicate j)
    then have j: "unat j < length before" using bw(1) backward_snoc by simp
    have "follows s (dup_bytes j) (dup s j)"
      using Cons.prems(2,3) Duplicate by (intro dup_ok) (auto simp: layout_accounts_def intro: fits_in_mono)
    moreover have "metas_for dp ta (dup s j) (before @ [Duplicate j]) (metas @ [metas ! unat j])"
      using metas_for_snoc(2) [OF metas_for_follows [OF Cons.prems(6) calculation] j bw(2)] .
    ultimately show ?thesis
      using Duplicate j lm Cons.prems(5)
      by (intro step [of "dup s j" t "metas @ [metas ! unat j]"]) (simp_all add: return_all_def nth_get_def)
  next
    case (Account i a)
    then have ok: "serializable ep ta a" using Cons.prems(4) by auto
    have "fits_in s (length (bytes_of ta a) + (length (laid_out_accounts ta xs) + n))"
      using Cons.prems(3) Account by (simp add: layout_accounts_def add.assoc)
    from account_written [OF Cons.prems(1,2) this ok Cons.prems(5,6) bw(2), of i]
    obtain t1 s1 meta where w: "one t s a = Some (t1, s1, Ok meta)" "follows s (bytes_of ta a) s1"
      "same_contents ta (drop_AccountRefMut t1 (get_index_in_transaction a))"
      "metas_for dp ta s1 (before @ [Account i a]) (metas @ [meta])"
      "borrow_counters (drop_AccountRefMut t1 (get_index_in_transaction a)) = return_all [ba_index a] (borrow_counters t)"
      by blast
    then show ?thesis
      using Account by (intro step [of s1 "drop_AccountRefMut t1 (get_index_in_transaction a)" "metas @ [meta]"]) (simp_all add: drop_account_def)
  qed
qed

lemma accounts_read:
  assumes "list_all2 (describes ic) is as" "\<forall>i a. Account i a \<in> set as \<longrightarrow> serializable ep ta a"
    and "same_contents ta (accounts tc)" "\<forall>j \<in> set (borrowed as). borrow_counters (accounts tc) ! j = 0"
    and "list_all2 (\<lambda>x n. \<forall>i a. x = Account i a \<longrightarrow> n = length (get_data ta a)) as lens"
    and "bytes = us @ laid_out_accounts ta as @ vs" "length bytes < 2 ^ 64"
  shows "\<exists>tc'. deserialize_accounts (de_one bytes) dup_len ic (zip is lens) (length us) tc = Some (tc', Ok ())
    \<and> same_contents ta (accounts tc') \<and> tc' = tc\<lparr>accounts := accounts tc'\<rparr>
    \<and> borrow_counters (accounts tc') = borrow_counters (accounts tc)"
  using assms
proof (induction "is" arbitrary: "as" lens us tc)
  case Nil
  then show ?case by simp
next
  case (Cons i "is")
  then obtain x xs n ns where x: "as = x # xs" "lens = n # ns" "describes ic i x" "list_all2 (describes ic) is xs"
    by (auto simp: list_all2_Cons1)
  show ?case
  proof (cases x)
    case (Duplicate j)
    have "\<exists>tc'. deserialize_accounts (de_one bytes) dup_len ic (zip is ns) (length (us @ dup_bytes j)) tc = Some (tc', Ok ())
        \<and> same_contents ta (accounts tc') \<and> tc' = tc\<lparr>accounts := accounts tc'\<rparr>
        \<and> borrow_counters (accounts tc') = borrow_counters (accounts tc)"
      using Cons.prems x Duplicate by (intro Cons.IH) (auto simp: layout_accounts_def)
    then show ?thesis
      using x Duplicate dup_length by (simp add: describes_def split: result.splits option.splits)
  next
    case (Account k a)
    then obtain ia where a: "is_instruction_account_duplicate ic (of_nat i) = Ok None"
      "nth_get (instruction_accounts ic) (unat (of_nat i :: u16)) = Some ia"
      "a = \<lparr>ba_instruction_account = ia, index_in_transaction_of_instruction_program = ic_program_account_index ic\<rparr>"
      using x(3) by (auto simp: describes_def split: result.splits option.splits)
    have ok: "serializable ep ta a" using Cons.prems(2) x(1) Account by auto
    then have ix: "ba_index a < accounts_len ta" by (simp add: serializable_def borrowable_def)
    let ?cs = "borrow_counters (accounts tc)"
    let ?t = "(accounts tc)\<lparr>borrow_counters := ?cs[ba_index a := - 1]\<rparr>"
    have len: "ba_index a < length ?cs" "length (touched_flags (accounts tc)) = accounts_len (accounts tc)"
      "length ?cs = accounts_len (accounts tc)" "accounts_inv (accounts tc)"
      using Cons.prems(3) ix by (auto simp: same_contents_def accounts_inv_def)
    have free: "?cs ! ba_index a = 0" using Cons.prems(4) x(1) Account by simp
    have j: "ba_index a = unat (index_in_transaction ia)" by (simp add: a(3) get_index_in_transaction_def)
    have borrow: "try_borrow_instruction_account tc ic (of_nat i) = Ok (tc\<lparr>accounts := ?t\<rparr>, a)"
      using a(2) borrow_mut_ok [of "index_in_transaction ia" "accounts tc"] len(1) free
      unfolding j by (simp add: try_borrow_instruction_account_def ok_or_def a(3))
    have t: "same_contents ta ?t"
      using same_contents_trans [OF Cons.prems(3) same_contents_bookkeeping(1) [OF len(4) _ len(2)]] len(3) by simp
    have d: "get_data ?t a = get_data ta a" "bytes_of ?t a = bytes_of ta a"
      using same_contents_fields(1) [OF t ix] bytes_same [OF t ix] by simp_all
    have n: "n = length (get_data ta a)" using Cons.prems(5) x(1,2) Account by simp
    have "one_read ?t (length us + length (bytes_of ta a)) (de_one bytes ?t a n (length us + 1))"
      using de_ok [OF same_contents_serializable [OF t ok] Cons.prems(7), of us "laid_out_accounts ta xs @ vs"]
        Cons.prems(6) x(1) Account unfolding d n by (simp add: layout_accounts_def)
    then obtain t2 where t2: "de_one bytes ?t a n (length us + 1) = Some (t2, Ok (length (us @ bytes_of ta a)))"
      "same_contents ?t t2" "borrow_counters t2 = ?cs[ba_index a := - 1]"
      by (auto simp: one_read_def)
    let ?u = "drop_AccountRefMut t2 (get_index_in_transaction a)"
    have s2: "same_contents ta t2" by (rule same_contents_trans [OF t t2(2)])
    then have u: "same_contents ta ?u"
      using ix by (intro same_contents_trans [OF s2 drop_same_contents]) (auto simp: same_contents_def)
    have cs: "borrow_counters ?u = ?cs"
      using t2(3) len(1) free release_lent
      by (simp add: drop_AccountRefMut_def put_view_def Let_def list_update_same_conv)
    have "\<exists>tc'. deserialize_accounts (de_one bytes) dup_len ic (zip is ns) (length (us @ bytes_of ta a)) (tc\<lparr>accounts := ?u\<rparr>)
          = Some (tc', Ok ())
        \<and> same_contents ta (accounts tc') \<and> tc' = (tc\<lparr>accounts := ?u\<rparr>)\<lparr>accounts := accounts tc'\<rparr>
        \<and> borrow_counters (accounts tc') = borrow_counters (accounts (tc\<lparr>accounts := ?u\<rparr>))"
      using Cons.prems x Account u cs by (intro Cons.IH) (auto simp: layout_accounts_def)
    then show ?thesis
      using x(2) a(1) borrow t2(1) cs by (simp add: Let_def)
  qed
qed

end

definition dup_aligned :: "IndexOfAccount \<Rightarrow> u8 list" where
  "dup_aligned pos = [ucast pos, 0, 0, 0, 0, 0, 0, 0]"

definition dup_unaligned :: "IndexOfAccount \<Rightarrow> u8 list" where
  "dup_unaligned pos = [ucast pos]"

definition in_mode :: "bool \<Rightarrow> bool \<Rightarrow> bool \<Rightarrow> Serializer \<Rightarrow> bool" where
  "in_mode loader_v1 st di s \<longleftrightarrow> is_loader_v1 s = loader_v1 \<and> ser_stricter_abi s = st \<and> ser_direct_mapping s = di"

lemma in_mode_follows: "in_mode v st di s \<Longrightarrow> follows s bs s' \<Longrightarrow> in_mode v st di s'"
  by (simp add: in_mode_def follows_def)

interpretation aligned: account_format "serialize_account_aligned ep dp"
  "\<lambda>s pos. fst (ser_write_all (fst (ser_write s (ucast pos :: u8))) [0, 0, 0, 0, 0, 0, 0])"
  "deserialize_account_aligned ep st di" 7 "account_bytes_aligned ep st di" dup_aligned "in_mode False st di" ep dp
  for ep dp st di
proof
  fix s i
  assume a: "region_start s \<le> mem_len (buffer s)" "fits_in s (length (dup_aligned i))"
  then have "fst (ser_write_all (fst (ser_write s (ucast i :: u8))) [0, 0, 0, 0, 0, 0, 0]) = ser_put s (dup_aligned i)"
    by (simp add: ser_write_put ser_put_put dup_aligned_def)
  with follows_put [OF a(2,1)]
  show "follows s (dup_aligned i) (fst (ser_write_all (fst (ser_write s (ucast i :: u8))) [0, 0, 0, 0, 0, 0, 0]))"
    by simp
next
  fix ta a bytes us vs
  assume "serializable ep ta a" "length bytes < 2 ^ 64" "bytes = us @ account_bytes_aligned ep st di ta a @ vs"
  then show "one_read ta (length us + length (account_bytes_aligned ep st di ta a))
      (deserialize_account_aligned ep st di bytes ta a (length (get_data ta a)) (length us + 1))"
    by (rule deserialize_account_aligned_read)
qed (auto simp: same_contents_bytes in_mode_def dup_aligned_def follows_def intro!: serialize_account_aligned_written)

interpretation unaligned: account_format "serialize_account_unaligned ep dp"
  "\<lambda>s pos. fst (ser_write s (ucast pos :: u8))"
  "deserialize_account_unaligned st di" 0 "account_bytes_unaligned ep st di" dup_unaligned "in_mode True st di" ep dp
  for ep dp st di
proof
  fix ta a bytes us vs
  assume "serializable ep ta a" "length bytes < 2 ^ 64" "bytes = us @ account_bytes_unaligned ep st di ta a @ vs"
  then show "one_read ta (length us + length (account_bytes_unaligned ep st di ta a))
      (deserialize_account_unaligned st di bytes ta a (length (get_data ta a)) (length us + 1))"
    by (rule deserialize_account_unaligned_read)
next
  fix s bs s'
  assume "in_mode True st di s" "follows s bs s'"
  then show "in_mode True st di s'" by (rule in_mode_follows)
qed (auto simp: same_contents_bytes in_mode_def dup_unaligned_def ser_write_put
    intro!: serialize_account_unaligned_written follows_put)

end
