(* ===== verification/Mem_Pool.thy ===== *)
theory Mem_Pool
  imports Aligned_Memory Budget
begin

text \<open>
  The pool of stacks and heaps, \<open>program-runtime/src/mem_pool.rs\<close>: memory is reused between
  executions and cleared when it comes back.  \<open>Pool\<close> is shown to be a bounded stack; the locale
  \<open>clean_pool\<close> says what a pool promises whose items are reset to a clean state.  An outer \<open>None\<close> is
  the panic of an allocation.
\<close>

section \<open>Operations\<close>

record 'a Pool =
  items :: "'a option list"
  next_empty :: nat

definition new_Pool :: "'a list \<Rightarrow> 'a Pool" where
  "new_Pool xs = \<lparr>items = map Some xs, next_empty = length xs\<rparr>"

definition pool_len :: "'a Pool \<Rightarrow> nat" where
  "pool_len p = length (items p)"

definition pool_get :: "'a Pool \<Rightarrow> 'a option \<times> 'a Pool" where
  "pool_get p =
     (if next_empty p = 0 then (None, p)
      else
        let p = p\<lparr>next_empty := next_empty p - 1\<rparr>
        in if next_empty p < pool_len p
           then (items p ! next_empty p, p\<lparr>items := (items p)[next_empty p := None]\<rparr>)
           else (None, p))"

definition pool_put :: "('a \<Rightarrow> 'a) \<Rightarrow> 'a Pool \<Rightarrow> 'a \<Rightarrow> bool \<times> 'a Pool" where
  "pool_put reset p x =
     (if next_empty p < pool_len p
      then (True, p\<lparr>items := (items p)[next_empty p := Some (reset x)], next_empty := next_empty p + 1\<rparr>)
      else (False, p))"

definition reset_memory :: "AlignedMemory \<Rightarrow> AlignedMemory" where
  "reset_memory m = update_slice m (\<lambda>bytes. replicate (length bytes) 0)"

record VmMemoryPool =
  stack_pool :: "AlignedMemory Pool"
  heap_pool :: "AlignedMemory Pool"

definition new_VmMemoryPool :: "Allocator \<Rightarrow> VmMemoryPool option" where
  "new_VmMemoryPool al =
     (case (zero_filled al (unat (STACK_FRAME_SIZE * MAX_CALL_DEPTH)), zero_filled al (unat MAX_HEAP_FRAME_BYTES)) of
        (Some stack, Some heap) \<Rightarrow>
          Some \<lparr>stack_pool = new_Pool (replicate MAX_INSTRUCTION_STACK_DEPTH stack),
                heap_pool = new_Pool (replicate MAX_INSTRUCTION_STACK_DEPTH heap)\<rparr>
      | _ \<Rightarrow> None)"

definition get_stack :: "Allocator \<Rightarrow> VmMemoryPool \<Rightarrow> nat \<Rightarrow> (AlignedMemory \<times> VmMemoryPool) option" where
  "get_stack al p n =
     (case pool_get (stack_pool p) of
        (Some m, q) \<Rightarrow> Some (m, p\<lparr>stack_pool := q\<rparr>)
      | (None, q) \<Rightarrow> map_option (\<lambda>m. (m, p\<lparr>stack_pool := q\<rparr>)) (zero_filled al n))"

definition put_stack :: "VmMemoryPool \<Rightarrow> AlignedMemory \<Rightarrow> bool \<times> VmMemoryPool" where
  "put_stack p m = (let (taken, q) = pool_put reset_memory (stack_pool p) m in (taken, p\<lparr>stack_pool := q\<rparr>))"

definition get_heap :: "Allocator \<Rightarrow> VmMemoryPool \<Rightarrow> u32 \<Rightarrow> (AlignedMemory \<times> VmMemoryPool) option" where
  "get_heap al p hs =
     (case pool_get (heap_pool p) of
        (Some m, q) \<Rightarrow> Some (m, p\<lparr>heap_pool := q\<rparr>)
      | (None, q) \<Rightarrow> map_option (\<lambda>m. (m, p\<lparr>heap_pool := q\<rparr>)) (zero_filled al (unat MAX_HEAP_FRAME_BYTES)))"

definition put_heap :: "VmMemoryPool \<Rightarrow> AlignedMemory \<Rightarrow> bool \<times> VmMemoryPool" where
  "put_heap p m = (let (taken, q) = pool_put reset_memory (heap_pool p) m in (taken, p\<lparr>heap_pool := q\<rparr>))"

section \<open>A bounded stack\<close>

text \<open>The slots below \<open>next_empty\<close> are filled, the others are empty.\<close>

definition pool_inv :: "'a Pool \<Rightarrow> bool" where
  "pool_inv p \<longleftrightarrow>
     next_empty p \<le> pool_len p \<and> (\<forall>i < pool_len p. items p ! i \<noteq> None \<longleftrightarrow> i < next_empty p)"

definition pooled :: "'a Pool \<Rightarrow> 'a list" where
  "pooled p = rev (map the (take (next_empty p) (items p)))"

lemma new_Pool_stack: "pool_inv (new_Pool xs)" "pooled (new_Pool xs) = rev xs" "pool_len (new_Pool xs) = length xs"
  by (simp_all add: pool_inv_def new_Pool_def pool_len_def pooled_def comp_def)

lemma pool_get_pop:
  assumes "pool_inv p"
  shows "fst (pool_get p) = (case pooled p of [] \<Rightarrow> None | x # _ \<Rightarrow> Some x)"
    and "pooled (snd (pool_get p)) = List.tl (pooled p)" "pool_inv (snd (pool_get p))"
    and "pool_len (snd (pool_get p)) = pool_len p"
proof -
  let ?n = "next_empty p - 1"
  consider (empty) "next_empty p = 0" | (some) y where "next_empty p = Suc ?n" "?n < pool_len p" "items p ! ?n = Some y"
  proof (cases "next_empty p")
    case (Suc k)
    then have "k < pool_len p" "items p ! k \<noteq> None" using assms by (auto simp: pool_inv_def)
    with Suc show ?thesis using some by auto
  qed simp
  then have "fst (pool_get p) = (case pooled p of [] \<Rightarrow> None | x # _ \<Rightarrow> Some x)
      \<and> pooled (snd (pool_get p)) = List.tl (pooled p) \<and> pool_inv (snd (pool_get p))
      \<and> pool_len (snd (pool_get p)) = pool_len p"
  proof cases
    case empty
    then show ?thesis using assms by (simp add: pool_get_def pooled_def)
  next
    case some
    have take: "take (next_empty p) (items p) = take ?n (items p) @ [Some y]"
      using some by (metis pool_len_def take_Suc_conv_app_nth)
    have get: "pool_get p = (Some y, p\<lparr>next_empty := ?n, items := (items p)[?n := None]\<rparr>)"
      using some by (simp add: pool_get_def pool_len_def Let_def)
    have "pool_inv (snd (pool_get p))"
      using assms some by (auto simp: get pool_inv_def pool_len_def nth_list_update)
    then show ?thesis unfolding get by (simp add: pooled_def take pool_len_def)
  qed
  then show "fst (pool_get p) = (case pooled p of [] \<Rightarrow> None | x # _ \<Rightarrow> Some x)"
    "pooled (snd (pool_get p)) = List.tl (pooled p)" "pool_inv (snd (pool_get p))"
    "pool_len (snd (pool_get p)) = pool_len p" by blast+
qed

lemma pool_put_push:
  assumes "pool_inv p"
  shows "pooled (snd (pool_put reset p x)) = (if length (pooled p) < pool_len p then reset x # pooled p else pooled p)"
    and "pool_inv (snd (pool_put reset p x))" "pool_len (snd (pool_put reset p x)) = pool_len p"
    and "fst (pool_put reset p x) \<longleftrightarrow> length (pooled p) < pool_len p"
proof -
  have "length (pooled p) = next_empty p" using assms by (simp add: pooled_def pool_inv_def pool_len_def)
  moreover have "take (Suc (next_empty p)) ((items p)[next_empty p := Some (reset x)])
      = take (next_empty p) (items p) @ [Some (reset x)]" if "next_empty p < pool_len p"
    using that by (simp add: pool_len_def take_Suc_conv_app_nth)
  ultimately show "pooled (snd (pool_put reset p x)) = (if length (pooled p) < pool_len p then reset x # pooled p else pooled p)"
    "fst (pool_put reset p x) \<longleftrightarrow> length (pooled p) < pool_len p"
    by (simp_all add: pool_put_def pooled_def)
  show "pool_inv (snd (pool_put reset p x))" "pool_len (snd (pool_put reset p x)) = pool_len p"
    using assms by (auto simp: pool_put_def pool_inv_def pool_len_def nth_list_update)
qed

section \<open>Clean items\<close>

definition clean_items :: "('a \<Rightarrow> bool) \<Rightarrow> 'a Pool \<Rightarrow> bool" where
  "clean_items clean p \<longleftrightarrow> pool_inv p \<and> list_all clean (pooled p)"

locale clean_pool =
  fixes reset :: "'a \<Rightarrow> 'a" and fits :: "'a \<Rightarrow> bool" and clean :: "'a \<Rightarrow> bool"
  assumes reset_clean: "fits x \<Longrightarrow> clean (reset x)"
begin

lemma new_clean: "list_all clean xs \<Longrightarrow> clean_items clean (new_Pool xs)"
  by (simp add: clean_items_def new_Pool_stack list_all_iff)

lemma get_clean:
  assumes "clean_items clean p"
  shows "clean_items clean (snd (pool_get p))" "fst (pool_get p) = Some x \<Longrightarrow> clean x"
  using assms pool_get_pop [of p] by (cases "pooled p"; simp add: clean_items_def)+

lemma put_clean:
  assumes "clean_items clean p" "fits x"
  shows "clean_items clean (snd (pool_put reset p x))"
  using assms pool_put_push [of p reset x] reset_clean by (simp add: clean_items_def)

end

definition sized :: "nat \<Rightarrow> AlignedMemory \<Rightarrow> bool" where
  "sized n m \<longleftrightarrow> memory_inv m \<and> mem_len m = n"

definition zeroed_memory :: "nat \<Rightarrow> AlignedMemory \<Rightarrow> bool" where
  "zeroed_memory n m \<longleftrightarrow> memory_inv m \<and> as_slice m = replicate n 0"

interpretation cleared: clean_pool reset_memory "sized n" "zeroed_memory n" for n
  by unfold_locales (simp add: sized_def zeroed_memory_def reset_memory_def update_slice_inv length_as_slice)

lemma zero_filled_zeroed: "layout_fits n \<Longrightarrow> \<exists>m. zero_filled al n = Some m \<and> zeroed_memory n m"
  using constructors_fit(3) by (fastforce simp: zeroed_memory_def)

abbreviation full_stack :: nat where
  "full_stack \<equiv> unat (STACK_FRAME_SIZE * MAX_CALL_DEPTH)"

abbreviation full_heap :: nat where
  "full_heap \<equiv> unat MAX_HEAP_FRAME_BYTES"

text \<open>
  What can happen to the pool: memory is handed out, and memory of full size comes back with
  whatever a program left in it.
\<close>

inductive pool_reached :: "Allocator \<Rightarrow> VmMemoryPool \<Rightarrow> bool" for al where
  "new_VmMemoryPool al = Some p \<Longrightarrow> pool_reached al p"
| "pool_reached al p \<Longrightarrow> get_stack al p full_stack = Some (m, p') \<Longrightarrow> pool_reached al p'"
| "pool_reached al p \<Longrightarrow> get_heap al p hs = Some (m, p') \<Longrightarrow> pool_reached al p'"
| "pool_reached al p \<Longrightarrow> sized full_stack m \<Longrightarrow> pool_reached al (snd (put_stack p m))"
| "pool_reached al p \<Longrightarrow> sized full_heap m \<Longrightarrow> pool_reached al (snd (put_heap p m))"

lemma full_sizes: "full_stack < 2 ^ 62" "full_heap < 2 ^ 62" "layout_fits full_stack" "layout_fits full_heap"
  by (simp_all add: STACK_FRAME_SIZE_def MAX_CALL_DEPTH_def MAX_HEAP_FRAME_BYTES_def layout_fits_def HOST_ALIGN_def)

lemma new_pool_clean:
  "\<exists>p. new_VmMemoryPool al = Some p
     \<and> clean_items (zeroed_memory full_stack) (stack_pool p) \<and> clean_items (zeroed_memory full_heap) (heap_pool p)"
  using zero_filled_zeroed [OF full_sizes(3), of al] zero_filled_zeroed [OF full_sizes(4), of al]
  by (auto simp: new_VmMemoryPool_def list_all_iff intro!: cleared.new_clean)

lemma pool_gets:
  assumes "clean_items (zeroed_memory full_stack) (stack_pool p)" "clean_items (zeroed_memory full_heap) (heap_pool p)"
  shows "\<exists>m q. get_stack al p full_stack = Some (m, p\<lparr>stack_pool := q\<rparr>) \<and> zeroed_memory full_stack m
      \<and> clean_items (zeroed_memory full_stack) q"
    and "\<exists>m q. get_heap al p hs = Some (m, p\<lparr>heap_pool := q\<rparr>) \<and> zeroed_memory full_heap m
      \<and> clean_items (zeroed_memory full_heap) q"
  using zero_filled_zeroed [OF full_sizes(3), of al] zero_filled_zeroed [OF full_sizes(4), of al]
    cleared.get_clean [OF assms(1)] cleared.get_clean [OF assms(2)]
  by (cases "pool_get (stack_pool p)"; cases "pool_get (heap_pool p)";
      auto simp: get_stack_def get_heap_def split: option.split)+

lemma pool_reached_clean:
  "pool_reached al p \<Longrightarrow>
     clean_items (zeroed_memory full_stack) (stack_pool p) \<and> clean_items (zeroed_memory full_heap) (heap_pool p)"
proof (induction rule: pool_reached.induct)
  case (1 p)
  then show ?case using new_pool_clean [of al] by auto
next
  case (2 p m p')
  then show ?case using pool_gets(1) [of p al] by auto
next
  case (3 p hs m p')
  then show ?case using pool_gets(2) [of p al hs] by auto
qed (auto simp: put_stack_def put_heap_def case_prod_beta cleared.put_clean)

section \<open>Property\<close>

text \<open>
  C25: no program sees what another program left in its stack or heap: in every state of the pool,
  stacks and heaps are handed out without a panic, and the memory is all zeros and has the full size.
\<close>

theorem pool_memory_zeroed:
  assumes "pool_reached al p"
  shows "(\<exists>m p'. get_stack al p full_stack = Some (m, p') \<and> as_slice m = replicate full_stack 0)
    \<and> (\<exists>m p'. get_heap al p hs = Some (m, p') \<and> as_slice m = replicate full_heap 0)"
  using pool_reached_clean [OF assms] pool_gets [of p al] by (fastforce simp: zeroed_memory_def)

definition sample_allocator :: Allocator where
  "sample_allocator = \<lparr>alloc_ptr = \<lambda>n. 0x1000, alloc_bytes = \<lambda>n i. 7\<rparr>"

text \<open>A stack is taken, comes back full of nines, and is taken again.\<close>

theorem pool_memory_zeroed_witness:
  "\<exists>p m q used. new_VmMemoryPool sample_allocator = Some p \<and> get_stack sample_allocator p full_stack = Some (m, q)
     \<and> from_slice sample_allocator (replicate full_stack 9) = Some used
     \<and> (\<exists>m' q'. get_stack sample_allocator (snd (put_stack q used)) full_stack = Some (m', q')
          \<and> as_slice m' = replicate full_stack 0)"
proof -
  obtain p where p: "new_VmMemoryPool sample_allocator = Some p" using new_pool_clean by blast
  then have r: "pool_reached sample_allocator p" by (rule pool_reached.intros)
  then obtain m q where q: "get_stack sample_allocator p full_stack = Some (m, q)"
    using pool_memory_zeroed by blast
  obtain used where u: "from_slice sample_allocator (replicate full_stack 9) = Some used" "memory_inv used"
    "as_slice used = replicate full_stack 9"
    using from_slice_fits [of "replicate full_stack 9" sample_allocator] full_sizes(3) by auto
  then have "sized full_stack used" using length_as_slice [of used] by (simp add: sized_def)
  then have "pool_reached sample_allocator (snd (put_stack q used))"
    using r q by (blast intro: pool_reached.intros)
  from pool_memory_zeroed [OF this] p q u(1) show ?thesis by blast
qed

end
