(* ===== verification/Guest_Parameters.thy ===== *)
theory Guest_Parameters
  imports Serialization_Roundtrip Mem_Pool
begin

text \<open>
  The parameters as a whole: the serialized buffer has the documented layout and exactly the size it
  was allocated with, the guest finds the data of each account at the address the metadata records,
  and reading the untouched buffer back changes no account.
\<close>

section \<open>The whole buffer\<close>

definition params_layout :: "nat \<Rightarrow> u8 list \<Rightarrow> u8 list \<Rightarrow> Pubkey \<Rightarrow> u8 list" where
  "params_layout count accts ix_data program_id =
     to_le_bytes (of_nat count :: u64) @ accts @ to_le_bytes (of_nat (length ix_data) :: u64) @ ix_data @ program_id"

text \<open>The state of the serializer just before \<open>finish\<close>, and what \<open>finish\<close> makes of it.\<close>

definition finished ::
  "data_address \<Rightarrow> TransactionAccounts \<Rightarrow> SerializeAccount list \<Rightarrow> bool \<Rightarrow> bool
     \<Rightarrow> AlignedMemory \<Rightarrow> MemoryRegion list \<Rightarrow> SerializedAccountMetadata list \<Rightarrow> bool"
where
  "finished dp ta as st di mem rs metas \<longleftrightarrow>
     (\<exists>s. finish s = Some (mem, rs) \<and> ser_stricter_abi s = st \<and> ser_direct_mapping s = di
        \<and> memory_inv (buffer s) \<and> metas_for dp ta s as metas
        \<and> (\<not> st \<longrightarrow> ser_regions s = [] \<and> vaddr s = MM_INPUT_START \<and> region_start s = 0))"

lemma new_Serializer_facts:
  assumes "new_Serializer al n addr v st di = Some s"
  shows "fits_in s n" "written s = []" "in_mode v st di s" "av_capacity (mem_vec (buffer s)) = n"
    "av_ptr (mem_vec (buffer s)) = block_ptr al n" "ser_regions s = []" "vaddr s = addr" "region_start s = 0"
    "ser_stricter_abi s = st" "ser_direct_mapping s = di"
proof -
  have "layout_fits n" using assms constructors_panic(1) [of al n] by (auto simp: new_Serializer_def)
  then obtain m where "with_capacity al n = Some m" "memory_inv m" "as_slice m = []" "av_capacity (mem_vec m) = n"
    "av_ptr (mem_vec m) = block_ptr al n" "\<not> zero_up_to_max_len m"
    using constructors_fit(1) by blast
  then show "fits_in s n" "written s = []" "in_mode v st di s" "av_capacity (mem_vec (buffer s)) = n"
    "av_ptr (mem_vec (buffer s)) = block_ptr al n" "ser_regions s = []" "vaddr s = addr" "region_start s = 0"
    "ser_stricter_abi s = st" "ser_direct_mapping s = di"
    using assms length_as_slice [of m] by (auto simp: new_Serializer_def fits_in_def in_mode_def)
qed

lemma new_Serializer_panics: "new_Serializer al n addr v st di = None \<longleftrightarrow> \<not> layout_fits n"
  by (simp add: new_Serializer_def constructors_panic)

context account_format
begin

lemma parameters_written:
  assumes new: "new_Serializer al n MM_INPUT_START v st di = Some s" and mode: "mode s"
    and n: "n = length (params_layout (length as) (laid_out_accounts ta as) ix_data program_id)"
    and ok: "accounts_inv ta" "\<forall>i a. Account i a \<in> set as \<longrightarrow> serializable ep ta a" "backward as"
    and s0: "s0 = fst (ser_write s (of_nat (length as) :: u64))"
  shows "\<exists>t mem rs metas off. serialize_tail (serialize_accounts one dup [] ta s0 as) ix_data program_id
        = Some (t, Ok (mem, rs, metas, off))
    \<and> same_contents ta t \<and> borrow_counters t = return_all (borrowed as) (borrow_counters ta)
    \<and> as_slice mem = params_layout (length as) (laid_out_accounts ta as) ix_data program_id
    \<and> memory_inv mem \<and> av_capacity (mem_vec mem) = n \<and> av_ptr (mem_vec mem) = block_ptr al n
    \<and> finished dp ta as st di mem rs metas"
proof -
  let ?s = s
  let ?count = "to_le_bytes (of_nat (length as) :: u64)"
  let ?ix = "to_le_bytes (of_nat (length ix_data) :: u64)"
  let ?rest = "?ix @ ix_data @ program_id"
  note new = new_Serializer_facts [OF new]
  have rs0: "region_start ?s \<le> mem_len (buffer ?s)" by (simp add: new)
  have total: "n = length ?count + (length (laid_out_accounts ta as) + length ?rest)"
    by (simp add: n params_layout_def)
  have f0: "follows ?s ?count s0"
    unfolding s0 ser_write_put fst_conv using new(1) total rs0 by (intro follows_put) (auto intro: fits_in_mono)
  have room0: "fits_in s0 (length (laid_out_accounts ta as) + length ?rest)" "region_start s0 \<le> mem_len (buffer s0)"
    using follows_fits [OF f0, of "length (laid_out_accounts ta as) + length ?rest"] new(1)
    unfolding total [symmetric] by simp_all
  have "metas_for dp ta s0 [] []" by (simp add: metas_for_def)
  from accounts_written [OF mode_follows [OF mode f0] room0(2,1) ok(2) same_contents_refl [OF ok(1)] this]
  obtain t s1 metas where w: "serialize_accounts one dup [] ta s0 as = Some (t, s1, Ok metas)" "same_contents ta t"
    "follows s0 (laid_out_accounts ta as) s1" "metas_for dp ta s1 as metas"
    "borrow_counters t = return_all (borrowed as) (borrow_counters ta)"
    using ok(3) by auto
  note room1 = follows_fits [OF w(3) room0(1)]
  have f1: "follows s1 ?rest (ser_put s1 ?rest)" by (rule follows_put [OF room1])
  have "follows ?s (?count @ laid_out_accounts ta as @ ?rest) (ser_put s1 ?rest)"
    using follows_trans [OF f0 follows_trans [OF w(3) f1]] .
  note f = this [unfolded follows_def]
  have puts: "fits_in s1 (length ?ix + length ix_data)" "fits_in s1 (length (?ix @ ix_data) + length program_id)"
    using room1(1) by (auto intro: fits_in_mono simp: add.assoc)
  have three: "ser_put (ser_put (ser_put s1 ?ix) ix_data) program_id = ser_put s1 ?rest"
    using ser_put_put [OF puts(1)] ser_put_put [OF puts(2)] by simp
  let ?e = "ser_put s1 ?rest"
  obtain e where e: "push_region ?e = Some e" "buffer e = buffer ?e"
    using f by (auto simp: push_region_def Let_def)
  have "serialize_tail (serialize_accounts one dup [] ta s0 as) ix_data program_id
      = Some (t, Ok (buffer ?e, ser_regions e, metas, write_vaddr (ser_put s1 ?ix)))"
    unfolding serialize_tail_def w(1) using e three by (simp add: ser_write_put finish_def Let_def)
  moreover have "as_slice (buffer ?e) = params_layout (length as) (laid_out_accounts ta as) ix_data program_id"
    using f new(2) by (simp add: params_layout_def)
  moreover have "finished dp ta as st di (buffer ?e) (ser_regions e) metas"
    unfolding finished_def
  proof (intro exI [of _ ?e] conjI impI)
    show "finish ?e = Some (buffer ?e, ser_regions e)" using e by (simp add: finish_def)
    show "metas_for dp ta ?e as metas" by (rule metas_for_follows [OF w(4) f1])
  qed (use f new in simp_all)
  ultimately show ?thesis using w(2,5) f new(4,5) by auto
qed

end

section \<open>Instructions that can be serialized\<close>

definition borrowed_account :: "InstructionContext \<Rightarrow> nat \<Rightarrow> BorrowedInstructionAccount" where
  "borrowed_account ic i =
     \<lparr>ba_instruction_account = instruction_accounts ic ! i,
      index_in_transaction_of_instruction_program = ic_program_account_index ic\<rparr>"

definition tx_index :: "InstructionContext \<Rightarrow> nat \<Rightarrow> nat" where
  "tx_index ic i = unat (index_in_transaction (instruction_accounts ic ! i))"

definition first_use :: "InstructionContext \<Rightarrow> nat \<Rightarrow> nat" where
  "first_use ic i = unat (dedup_map ic ! tx_index ic i)"

text \<open>
  The deduplication map names, for every account of the instruction, its first use; the accounts exist,
  are not borrowed and can be serialized.
\<close>

definition ready :: "Entrypoint \<Rightarrow> TransactionContext \<Rightarrow> InstructionContext \<Rightarrow> bool" where
  "ready ep tc ic \<longleftrightarrow>
     accounts_inv (accounts tc) \<and> length (instruction_accounts ic) \<le> MAX_ACCOUNTS_PER_INSTRUCTION
     \<and> (\<forall>i < length (instruction_accounts ic).
          tx_index ic i < length (dedup_map ic) \<and> first_use ic i \<le> i
          \<and> tx_index ic (first_use ic i) = tx_index ic i
          \<and> serializable ep (accounts tc) (borrowed_account ic i)
          \<and> borrow_counters (accounts tc) ! tx_index ic i = 0)"

definition accounts_of :: "InstructionContext \<Rightarrow> SerializeAccount list" where
  "accounts_of ic =
     map (\<lambda>i. if first_use ic i = i then Account (of_nat i) (borrowed_account ic i)
               else Duplicate (of_nat (first_use ic i))) [0..<length (instruction_accounts ic)]"

lemma ready_index:
  assumes "ready ep tc ic" "i < length (instruction_accounts ic)"
  shows "unat (of_nat i :: u16) = i" "unat (of_nat (first_use ic i) :: u16) = first_use ic i"
    and "ba_index (borrowed_account ic i) = tx_index ic i"
    and "is_instruction_account_duplicate ic (of_nat i) =
      Ok (if first_use ic i = i then None else Some (of_nat (first_use ic i)))"
proof -
  have small: "unat (of_nat k :: u16) = k" if "k \<le> i" for k
    using that assms by (simp add: ready_def MAX_ACCOUNTS_PER_INSTRUCTION_def unat_of_nat)
  have f: "first_use ic i \<le> i" "tx_index ic i < length (dedup_map ic)" using assms by (auto simp: ready_def)
  show u: "unat (of_nat i :: u16) = i" "unat (of_nat (first_use ic i) :: u16) = first_use ic i"
    using small f(1) by simp_all
  show "ba_index (borrowed_account ic i) = tx_index ic i"
    by (simp add: borrowed_account_def get_index_in_transaction_def tx_index_def)
  have "dedup_map ic ! tx_index ic i = of_nat (first_use ic i)" by (simp add: first_use_def)
  moreover have "first_use ic i < length (instruction_accounts ic)" using f(1) assms(2) by simp
  moreover have "of_nat (first_use ic i) = (of_nat i :: u16) \<longleftrightarrow> first_use ic i = i" using u by (metis)
  ultimately show "is_instruction_account_duplicate ic (of_nat i) =
      Ok (if first_use ic i = i then None else Some (of_nat (first_use ic i)))"
    using f(2) assms(2) u
    by (simp add: is_instruction_account_duplicate_def get_index_of_instruction_account_in_transaction_def
        get_index_of_account_in_instruction_def nth_get_def ok_or_def tx_index_def)
qed

lemma collect_ready:
  assumes r: "ready ep tc ic" and n: "n = length (instruction_accounts ic)" and m: "m \<le> n"
    and t: "length (borrow_counters (accounts t)) = accounts_len (accounts tc)"
    and free: "\<forall>i. m \<le> i \<longrightarrow> i < n \<longrightarrow> first_use ic i = i \<longrightarrow> borrow_counters (accounts t) ! tx_index ic i = 0"
  shows "\<exists>t'. collect_accounts t ic [m..<n] = Some (t', drop m (accounts_of ic))"
  using m t free
proof (induction "n - m" arbitrary: m t)
  case 0
  then show ?case by (simp add: accounts_of_def n)
next
  case (Suc d)
  then have lt: "m < n" by simp
  note ix = ready_index [OF r lt [unfolded n]]
  have up: "[m..<n] = m # [Suc m..<n]" using lt by (simp add: upt_conv_Cons)
  have dr: "drop m (accounts_of ic) = accounts_of ic ! m # drop (Suc m) (accounts_of ic)"
    using lt by (intro Cons_nth_drop_Suc [symmetric]) (simp add: accounts_of_def n)
  have at: "accounts_of ic ! m = (if first_use ic m = m then Account (of_nat m) (borrowed_account ic m)
      else Duplicate (of_nat (first_use ic m)))"
    using lt by (simp add: accounts_of_def n)
  have IH: "\<exists>t'. collect_accounts u ic [Suc m..<n] = Some (t', drop (Suc m) (accounts_of ic))"
    if "length (borrow_counters (accounts u)) = accounts_len (accounts tc)"
      "\<forall>i. Suc m \<le> i \<longrightarrow> i < n \<longrightarrow> first_use ic i = i \<longrightarrow> borrow_counters (accounts u) ! tx_index ic i = 0" for u
    using Suc.hyps lt that by (intro Suc.hyps) auto
  show ?case
  proof (cases "first_use ic m = m")
    case False
    then show ?thesis using IH [of t] Suc.prems ix(4) unfolding up dr at by auto
  next
    case True
    let ?u = "t\<lparr>accounts := (accounts t)\<lparr>borrow_counters := (borrow_counters (accounts t))[tx_index ic m := - 1]\<rparr>\<rparr>"
    have "tx_index ic m < length (borrow_counters (accounts t))"
      using r lt Suc.prems(2) ix(3) by (auto simp: ready_def n serializable_def borrowable_def)
    then have "try_borrow_instruction_account t ic (of_nat m) = Ok (?u, borrowed_account ic m)"
      using lt ix(1) borrow_mut_ok [of "index_in_transaction (instruction_accounts ic ! m)" "accounts t"] Suc.prems(3) True
      by (simp add: try_borrow_instruction_account_def nth_get_def ok_or_def n tx_index_def borrowed_account_def)
    moreover have "borrow_counters (accounts ?u) ! tx_index ic i = 0"
      if "Suc m \<le> i" "i < n" "first_use ic i = i" for i
    proof -
      have "tx_index ic i \<noteq> tx_index ic m" using that(1,3) True by (auto simp: first_use_def)
      then show ?thesis using Suc.prems(3) that by simp
    qed
    ultimately show ?thesis
      using IH [of ?u] Suc.prems(2) ix(4) True unfolding up dr at by auto
  qed
qed

lemma accounts_of_ready:
  assumes "ready ep tc ic"
  shows "length (accounts_of ic) = length (instruction_accounts ic)" "backward (accounts_of ic)"
    and "\<forall>i a. Account i a \<in> set (accounts_of ic) \<longrightarrow> serializable ep (accounts tc) a"
  using assms ready_index(2) [OF assms]
  by (auto simp: accounts_of_def backward_def ready_def le_neq_implies_less split: if_splits)

section \<open>Serializing an instruction\<close>

definition accounts_layout ::
  "Sdk \<Rightarrow> Entrypoint \<Rightarrow> bool \<Rightarrow> bool \<Rightarrow> Pubkey \<Rightarrow> TransactionAccounts \<Rightarrow> InstructionContext \<Rightarrow> u8 list"
where
  "accounts_layout sdk ep st di program_owner ta ic =
     (if program_owner = bpf_loader_deprecated_id sdk
      then layout_accounts (account_bytes_unaligned ep st di ta) dup_unaligned (accounts_of ic)
      else layout_accounts (account_bytes_aligned ep st di ta) dup_aligned (accounts_of ic))"

definition guest_layout ::
  "Sdk \<Rightarrow> Entrypoint \<Rightarrow> bool \<Rightarrow> bool \<Rightarrow> Pubkey \<Rightarrow> Pubkey \<Rightarrow> TransactionContext \<Rightarrow> InstructionContext \<Rightarrow> u8 list"
where
  "guest_layout sdk ep st di program_id program_owner tc ic =
     params_layout (length (instruction_accounts ic)) (accounts_layout sdk ep st di program_owner (accounts tc) ic)
       (instruction_data ic) program_id"

lemma sizes_of_layout:
  assumes "\<forall>i a. Account i a \<in> set as \<longrightarrow> serializable ep ta a"
  shows "length (layout_accounts (account_bytes_aligned ep st di ta) dup_aligned as) =
      sum_list (map (account_size_aligned ep ta st di) as)"
    and "length (layout_accounts (account_bytes_unaligned ep st di ta) dup_unaligned as) =
      sum_list (map (account_size_unaligned ta st di) as)"
proof -
  have a: "length (layout_account (account_bytes_aligned ep st di ta) dup_aligned x) = account_size_aligned ep ta st di x"
    "length (layout_account (account_bytes_unaligned ep st di ta) dup_unaligned x) = account_size_unaligned ta st di x"
    if "x \<in> set as" for x
  proof -
    show "length (layout_account (account_bytes_aligned ep st di ta) dup_aligned x) = account_size_aligned ep ta st di x"
    proof (cases x)
      case (Account i a)
      then show ?thesis using length_account_bytes(1) assms that by auto
    qed (simp add: dup_aligned_def)
    show "length (layout_account (account_bytes_unaligned ep st di ta) dup_unaligned x) = account_size_unaligned ta st di x"
    proof (cases x)
      case (Account i a)
      then show ?thesis using length_account_bytes(2) assms that by auto
    qed (simp add: dup_unaligned_def)
  qed
  show "length (layout_accounts (account_bytes_aligned ep st di ta) dup_aligned as) =
      sum_list (map (account_size_aligned ep ta st di) as)"
    unfolding layout_accounts_def length_concat map_map comp_def
    by (rule arg_cong [where f = sum_list], rule map_cong [OF refl], rule a(1))
  show "length (layout_accounts (account_bytes_unaligned ep st di ta) dup_unaligned as) =
      sum_list (map (account_size_unaligned ta st di) as)"
    unfolding layout_accounts_def length_concat map_map comp_def
    by (rule arg_cong [where f = sum_list], rule map_cong [OF refl], rule a(2))
qed

definition serialized_as ::
  "Allocator \<Rightarrow> data_address \<Rightarrow> TransactionContext \<Rightarrow> InstructionContext \<Rightarrow> bool \<Rightarrow> bool \<Rightarrow> u8 list
     \<Rightarrow> TransactionContext \<times> (serialized, InstructionError) result \<Rightarrow> bool"
where
  "serialized_as al dp tc ic st di bytes r \<longleftrightarrow>
     (\<exists>ta mem rs metas off. r = (tc\<lparr>accounts := ta\<rparr>, Ok (mem, rs, metas, off))
        \<and> same_contents (accounts tc) ta \<and> borrow_counters ta = borrow_counters (accounts tc)
        \<and> as_slice mem = bytes \<and> memory_inv mem \<and> av_capacity (mem_vec mem) = length bytes
        \<and> av_ptr (mem_vec mem) = block_ptr al (length bytes)
        \<and> finished dp (accounts tc) (accounts_of ic) st di mem rs metas)"

lemma finished_same:
  assumes "finished dp ta' as st di mem rs metas" "same_contents ta ta'"
    and "\<forall>i a. Account i a \<in> set as \<longrightarrow> ba_index a < accounts_len ta"
  shows "finished dp ta as st di mem rs metas"
proof -
  have "metas_for dp ta s as metas" if "metas_for dp ta' s as metas" for s
    using that assms(3) placed_same [OF assms(2)] same_contents_fields(1) [OF assms(2)]
    unfolding metas_for_def by (metis nth_mem)
  then show ?thesis using assms(1) unfolding finished_def by blast
qed

text \<open>The accounts while they are borrowed for serialization.\<close>

definition lent_accounts :: "TransactionContext \<Rightarrow> InstructionContext \<Rightarrow> TransactionAccounts" where
  "lent_accounts tc ic =
     (accounts tc)\<lparr>borrow_counters := lend (borrowed (accounts_of ic)) (borrow_counters (accounts tc))\<rparr>"

lemma collect_lent:
  assumes r: "ready ep tc ic"
  shows "collect_accounts tc ic [0..<unat (get_number_of_instruction_accounts ic)] =
      Some (tc\<lparr>accounts := lent_accounts tc ic\<rparr>, accounts_of ic)"
    and "same_contents (accounts tc) (lent_accounts tc ic)"
    and "\<forall>i a. Account i a \<in> set (accounts_of ic) \<longrightarrow> serializable ep (lent_accounts tc ic) a"
    and "return_all (borrowed (accounts_of ic)) (borrow_counters (lent_accounts tc ic)) = borrow_counters (accounts tc)"
proof -
  let ?n = "length (instruction_accounts ic)"
  have n: "?n \<le> 255" "accounts_inv (accounts tc)" using r by (auto simp: ready_def MAX_ACCOUNTS_PER_INSTRUCTION_def)
  have un: "unat (get_number_of_instruction_accounts ic) = ?n"
    using n(1) by (simp add: get_number_of_instruction_accounts_def unat_of_nat)
  obtain tc' where tc': "collect_accounts tc ic [0..<?n] = Some (tc', accounts_of ic)"
    using collect_ready [OF r refl, of 0 tc] n(2) r by (auto simp: ready_def accounts_inv_def)
  note c = collect_accounts_borrowed [OF tc']
  have "tc' = tc\<lparr>accounts := lent_accounts tc ic\<rparr>" using c by (auto simp: lent_accounts_def)
  with tc' show "collect_accounts tc ic [0..<unat (get_number_of_instruction_accounts ic)] =
      Some (tc\<lparr>accounts := lent_accounts tc ic\<rparr>, accounts_of ic)"
    unfolding un by simp
  show same: "same_contents (accounts tc) (lent_accounts tc ic)" unfolding lent_accounts_def
    using n(2) by (intro same_contents_bookkeeping(1) [of _ _ "touched_flags (accounts tc)"]) (auto simp: accounts_inv_def)
  show "\<forall>i a. Account i a \<in> set (accounts_of ic) \<longrightarrow> serializable ep (lent_accounts tc ic) a"
    using accounts_of_ready(3) [OF r] same_contents_serializable [OF same] by blast
  have "return_all (borrowed (accounts_of ic)) (lend (borrowed (accounts_of ic)) (borrow_counters (accounts tc))) = borrow_counters (accounts tc)"
    using c by (intro lend_return) auto
  then show "return_all (borrowed (accounts_of ic)) (borrow_counters (lent_accounts tc ic)) = borrow_counters (accounts tc)"
    by (simp add: lent_accounts_def)
qed

abbreviation serialize_lent ::
  "Sdk \<Rightarrow> Entrypoint \<Rightarrow> Allocator \<Rightarrow> data_address \<Rightarrow> bool \<Rightarrow> bool \<Rightarrow> Pubkey \<Rightarrow> Pubkey \<Rightarrow> TransactionContext \<Rightarrow> InstructionContext
     \<Rightarrow> serialization"
where
  "serialize_lent sdk ep al dp st di program_id program_owner tc ic \<equiv>
     (if program_owner = bpf_loader_deprecated_id sdk
      then serialize_parameters_unaligned ep al dp (lent_accounts tc ic) (accounts_of ic) (instruction_data ic) program_id st di
      else serialize_parameters_aligned ep al dp (lent_accounts tc ic) (accounts_of ic) (instruction_data ic) program_id st di)"

text \<open>The layout over the lent accounts, and that the buffer is allocated with its length.\<close>

lemma lent_layout:
  fixes program_owner :: Pubkey and sdk :: Sdk and st di :: bool
  assumes r: "ready ep tc ic" and key: "length program_id = 32"
  defines "bytes \<equiv> guest_layout sdk ep st di program_id program_owner tc ic"
    and "aligned_bytes \<equiv> layout_accounts (account_bytes_aligned ep st di (lent_accounts tc ic)) dup_aligned (accounts_of ic)"
    and "unaligned_bytes \<equiv> layout_accounts (account_bytes_unaligned ep st di (lent_accounts tc ic)) dup_unaligned (accounts_of ic)"
  shows "bytes = params_layout (length (accounts_of ic))
      (if program_owner = bpf_loader_deprecated_id sdk then unaligned_bytes else aligned_bytes) (instruction_data ic) program_id"
    and "length bytes = (if program_owner = bpf_loader_deprecated_id sdk
      then size_unaligned (lent_accounts tc ic) st di (accounts_of ic) (instruction_data ic)
      else size_aligned ep (lent_accounts tc ic) st di (accounts_of ic) (instruction_data ic))"
proof -
  note lent = collect_lent [OF r] and acc = accounts_of_ready [OF r]
  have idx: "\<forall>i a. Account i a \<in> set (accounts_of ic) \<longrightarrow> ba_index a < accounts_len (accounts tc)"
    using acc(3) by (auto simp: serializable_def borrowable_def)
  have lay: "aligned_bytes = layout_accounts (account_bytes_aligned ep st di (accounts tc)) dup_aligned (accounts_of ic)"
    "unaligned_bytes = layout_accounts (account_bytes_unaligned ep st di (accounts tc)) dup_unaligned (accounts_of ic)"
    unfolding aligned_bytes_def unaligned_bytes_def
    using aligned.layout_same [OF lent(2) idx] unaligned.layout_same [OF lent(2) idx] by auto
  show b: "bytes = params_layout (length (accounts_of ic))
      (if program_owner = bpf_loader_deprecated_id sdk then unaligned_bytes else aligned_bytes) (instruction_data ic) program_id"
    by (cases "program_owner = bpf_loader_deprecated_id sdk")
      (simp_all add: bytes_def guest_layout_def accounts_layout_def lay acc(1))
  show "length bytes = (if program_owner = bpf_loader_deprecated_id sdk
      then size_unaligned (lent_accounts tc ic) st di (accounts_of ic) (instruction_data ic)
      else size_aligned ep (lent_accounts tc ic) st di (accounts_of ic) (instruction_data ic))"
    using sizes_of_layout [OF lent(3), of st di] key
    unfolding b by (simp add: size_aligned_def size_unaligned_def params_layout_def aligned_bytes_def unaligned_bytes_def)
qed

lemma serialize_lent_written:
  assumes r: "ready ep tc ic" and key: "length program_id = 32"
    and small: "layout_fits (length (guest_layout sdk ep st di program_id program_owner tc ic))"
  defines "bytes \<equiv> guest_layout sdk ep st di program_id program_owner tc ic"
  shows "\<exists>t mem rs metas off. serialize_lent sdk ep al dp st di program_id program_owner tc ic = Some (t, Ok (mem, rs, metas, off))
      \<and> same_contents (lent_accounts tc ic) t
      \<and> borrow_counters t = return_all (borrowed (accounts_of ic)) (borrow_counters (lent_accounts tc ic))
      \<and> as_slice mem = bytes \<and> memory_inv mem \<and> av_capacity (mem_vec mem) = length bytes
      \<and> av_ptr (mem_vec mem) = block_ptr al (length bytes)
      \<and> finished dp (lent_accounts tc ic) (accounts_of ic) st di mem rs metas"
proof -
  note lent = collect_lent [OF r] and acc = accounts_of_ready [OF r]
  note lay = lent_layout [OF r key, where st = st and di = di and sdk = sdk and program_owner = program_owner, folded bytes_def]
  have inv: "accounts_inv (lent_accounts tc ic)" using lent(2) by (simp add: same_contents_def)
  have new: "\<exists>s. new_Serializer al (length bytes) MM_INPUT_START v st di = Some s" for v
    using small new_Serializer_panics [of al "length bytes" MM_INPUT_START v st di] by (auto simp: bytes_def)
  show ?thesis
  proof (cases "program_owner = bpf_loader_deprecated_id sdk")
    case True
    obtain s where s: "new_Serializer al (length bytes) MM_INPUT_START True st di = Some s" using new by blast
    show ?thesis
      using unaligned.parameters_written [OF s new_Serializer_facts(3) [OF s] _ inv lent(3) acc(2) refl,
          where ix_data = "instruction_data ic" and program_id = program_id and dp = dp] lay True s
      by (simp add: serialize_parameters_unaligned_def Let_def)
  next
    case False
    obtain s where s: "new_Serializer al (length bytes) MM_INPUT_START False st di = Some s" using new by blast
    show ?thesis
      using aligned.parameters_written [OF s new_Serializer_facts(3) [OF s] _ inv lent(3) acc(2) refl,
          where ix_data = "instruction_data ic" and program_id = program_id and dp = dp] lay False s
      by (simp add: serialize_parameters_aligned_def Let_def)
  qed
qed

lemma serialize_lent_panics:
  assumes "ready ep tc ic" "length program_id = 32"
    and "\<not> layout_fits (length (guest_layout sdk ep st di program_id program_owner tc ic))"
  shows "serialize_lent sdk ep al dp st di program_id program_owner tc ic = None"
  using assms lent_layout(2) [OF assms(1,2), of sdk st di program_owner]
  by (auto simp: serialize_parameters_unaligned_def serialize_parameters_aligned_def Let_def new_Serializer_panics [THEN iffD2])

lemma serialize_start:
  assumes r: "ready ep tc ic" and key: "get_program_key tc ic = Ok program_id" and own: "get_program_owner tc ic = Ok program_owner"
  shows "serialize_parameters sdk ep al dp tc ic st di =
    map_option (\<lambda>(ta, r). (tc\<lparr>accounts := ta\<rparr>, r)) (serialize_lent sdk ep al dp st di program_id program_owner tc ic)"
proof -
  have "length (instruction_accounts ic) \<le> 255" using r by (simp add: ready_def MAX_ACCOUNTS_PER_INSTRUCTION_def)
  then have "unat (get_number_of_instruction_accounts ic) \<le> 255"
    by (simp add: get_number_of_instruction_accounts_def unat_of_nat)
  then show ?thesis
    using key own collect_lent(1) [OF r]
    by (simp add: serialize_parameters_def word_less_nat_alt MAX_ACCOUNTS_PER_INSTRUCTION_def get_instruction_data_def)
qed

lemma serialize_ready:
  assumes r: "ready ep tc ic" and key: "get_program_key tc ic = Ok program_id" "length program_id = 32"
    and own: "get_program_owner tc ic = Ok program_owner"
    and small: "layout_fits (length (guest_layout sdk ep st di program_id program_owner tc ic))"
  shows "\<exists>r. serialize_parameters sdk ep al dp tc ic st di = Some r
    \<and> serialized_as al dp tc ic st di (guest_layout sdk ep st di program_id program_owner tc ic) r"
proof -
  let ?as = "accounts_of ic" and ?ta = "lent_accounts tc ic"
  let ?bytes = "guest_layout sdk ep st di program_id program_owner tc ic"
  note lent = collect_lent [OF r]
  obtain t mem rs metas off where w: "serialize_lent sdk ep al dp st di program_id program_owner tc ic = Some (t, Ok (mem, rs, metas, off))"
    "same_contents ?ta t" "borrow_counters t = return_all (borrowed ?as) (borrow_counters ?ta)" "as_slice mem = ?bytes" "memory_inv mem"
    "av_capacity (mem_vec mem) = length ?bytes" "av_ptr (mem_vec mem) = block_ptr al (length ?bytes)"
    "finished dp ?ta ?as st di mem rs metas"
    using serialize_lent_written [OF r key(2) small, of al dp] by blast
  have idx: "\<forall>i a. Account i a \<in> set ?as \<longrightarrow> ba_index a < accounts_len (accounts tc)"
    using accounts_of_ready(3) [OF r] by (auto simp: serializable_def borrowable_def)
  have "serialize_parameters sdk ep al dp tc ic st di = Some (tc\<lparr>accounts := t\<rparr>, Ok (mem, rs, metas, off))"
    unfolding serialize_start [OF r key(1) own] w(1) by simp
  then show ?thesis
    using same_contents_trans [OF lent(2) w(2)] w(3-7) lent(4) finished_same [OF w(8) lent(2) idx] unfolding serialized_as_def by metis
qed

text \<open>A buffer that no layout can have is a panic; so a result means that the layout fits.\<close>

lemma serialize_panics:
  assumes "ready ep tc ic" "get_program_key tc ic = Ok program_id" "length program_id = 32"
    and "get_program_owner tc ic = Ok program_owner"
    and "\<not> layout_fits (length (guest_layout sdk ep st di program_id program_owner tc ic))"
  shows "serialize_parameters sdk ep al dp tc ic st di = None"
  unfolding serialize_start [OF assms(1,2,4)] serialize_lent_panics [OF assms(1,3,5)] by simp

lemma serialize_result:
  assumes "ready ep tc ic" "get_program_key tc ic = Ok program_id" "length program_id = 32"
    and "get_program_owner tc ic = Ok program_owner" "serialize_parameters sdk ep al dp tc ic st di = Some r"
  shows "serialized_as al dp tc ic st di (guest_layout sdk ep st di program_id program_owner tc ic) r"
    and "length (guest_layout sdk ep st di program_id program_owner tc ic) < 2 ^ 63"
proof -
  have fits: "layout_fits (length (guest_layout sdk ep st di program_id program_owner tc ic))"
    using serialize_panics [OF assms(1-4)] assms(5) by fastforce
  then show "serialized_as al dp tc ic st di (guest_layout sdk ep st di program_id program_owner tc ic) r"
    using serialize_ready [OF assms(1-4) fits, of al dp] assms(5) by simp
  show "length (guest_layout sdk ep st di program_id program_owner tc ic) < 2 ^ 63" by (rule layout_fits_bound [OF fits])
qed

section \<open>What the guest sees\<close>

definition holds :: "host_memory \<Rightarrow> u64 \<Rightarrow> u8 list \<Rightarrow> bool" where
  "holds hm p bytes \<longleftrightarrow> unat p + length bytes < 2 ^ 64 \<and> read_bytes hm p (length bytes) = bytes"

text \<open>
  One region translates every access inside the range of \<open>bytes\<close> at guest address \<open>addr\<close>, and the
  host memory there holds the right piece.
\<close>

definition region_shows :: "host_memory \<Rightarrow> MemoryRegion \<Rightarrow> u64 \<Rightarrow> u8 list \<Rightarrow> bool" where
  "region_shows hm r addr bytes \<longleftrightarrow>
     (\<forall>x n. addr \<le> x \<longrightarrow> unat (x - addr) + n \<le> length bytes \<longrightarrow>
        (\<exists>h. vm_to_host r Load x (of_nat n) = Some h \<and> read_bytes hm h n = take n (drop (unat (x - addr)) bytes)))"

definition data_visible :: "host_memory \<Rightarrow> MemoryRegion list \<Rightarrow> u64 \<Rightarrow> u8 list \<Rightarrow> bool" where
  "data_visible hm rs addr bytes \<longleftrightarrow> bytes = [] \<or> (\<exists>r \<in> set rs. region_shows hm r addr bytes)"

lemma read_bytes_piece:
  assumes "read_bytes hm p (length bytes) = bytes" "k + n \<le> length bytes"
  shows "read_bytes hm (p + of_nat k) n = take n (drop k bytes)"
proof (rule nth_equalityI)
  fix i assume "i < length (read_bytes hm (p + of_nat k) n)"
  then have i: "i < n" by (simp add: read_bytes_def)
  then have "bytes ! (k + i) = hm (p + of_nat (k + i))"
    using arg_cong [OF assms(1), of "\<lambda>xs. xs ! (k + i)"] assms(2) by (simp add: read_bytes_def)
  then show "read_bytes hm (p + of_nat k) n ! i = take n (drop k bytes) ! i"
    using i assms(2) by (simp add: read_bytes_def add.assoc)
qed (use assms(2) in \<open>simp add: read_bytes_def\<close>)

lemma translated_inside:
  assumes r: "vm_gap_shift r = 63" "vm_addr r \<le> x" and n: "unat (x - vm_addr r) + n \<le> unat (len r)"
    and host: "unat (host_addr r) + unat (len r) < 2 ^ 64"
  shows "vm_to_host r Load x (of_nat n) = Some (host_addr r + (x - vm_addr r))"
proof -
  let ?o = "x - vm_addr r"
  have small: "n < 2 ^ 64" using n unat_u64_less [of "len r"] by simp
  then have un: "unat (of_nat n :: u64) = n" by (rule unat_of_nat_u64)
  have "unat ?o + n < 2 ^ 64" using n unat_u64_less [of "len r"] by simp
  then have sum: "unat (?o + of_nat n) = unat ?o + n" using un by (simp add: unat_word_ariths)
  have "checked_add ?o (of_nat n) = Some (?o + of_nat n)"
    using sum by (simp add: checked_add_def word_le_nat_alt)
  moreover have "?o + of_nat n \<le> len r" using n sum by (simp add: word_le_nat_alt)
  moreover have "saturating_add (host_addr r) ?o = host_addr r + ?o"
  proof -
    have "unat (host_addr r + ?o) = unat (host_addr r) + unat ?o" using n host by (subst unat_add_lem [symmetric]) simp
    then show ?thesis by (simp add: saturating_add_def word_le_nat_alt)
  qed
  ultimately show ?thesis
    using r by (simp add: vm_to_host_def saturating_sub_def not_less)
qed

lemma region_shows_piece:
  assumes r: "vm_gap_shift r = 63" "vm_addr r \<le> addr" "unat (addr - vm_addr r) = k"
    and host: "holds hm (host_addr r) whole" "unat (len r) = length whole"
    and bytes: "take (length bytes) (drop k whole) = bytes" "k + length bytes \<le> length whole"
  shows "region_shows hm r addr bytes"
  unfolding region_shows_def
proof (intro allI impI)
  fix x n assume x: "addr \<le> x" "unat (x - addr) + n \<le> length bytes"
  have off: "unat (x - vm_addr r) = k + unat (x - addr)" "vm_addr r \<le> x"
    using r(2,3) x(1) by (simp_all add: unat_sub word_le_nat_alt)
  have h: "read_bytes hm (host_addr r) (length whole) = whole" "unat (host_addr r) + unat (len r) < 2 ^ 64"
    using host by (auto simp: holds_def)
  have in_whole: "unat (x - vm_addr r) + n \<le> length whole" using off x(2) bytes(2) by linarith
  have "vm_to_host r Load x (of_nat n) = Some (host_addr r + of_nat (unat (x - vm_addr r)))"
    using translated_inside [OF r(1) off(2) _ h(2), of n] in_whole host(2) by simp
  moreover have "read_bytes hm (host_addr r + of_nat (unat (x - vm_addr r))) n = take n (drop (unat (x - addr)) bytes)"
  proof -
    have "take n (drop (unat (x - vm_addr r)) whole) = take n (drop (unat (x - addr)) (take (length bytes) (drop k whole)))"
      using x(2) by (simp add: off(1) drop_take add.commute min_def)
    then show ?thesis using read_bytes_piece [OF h(1) in_whole] bytes(1) by simp
  qed
  ultimately show "\<exists>h. vm_to_host r Load x (of_nat n) = Some h \<and> read_bytes hm h n = take n (drop (unat (x - addr)) bytes)"
    by blast
qed

lemma holds_piece:
  assumes "holds hm p whole" "k + n \<le> length whole"
  shows "holds hm (p + of_nat k) (take n (drop k whole))"
proof -
  have w: "unat p + length whole < 2 ^ 64" "read_bytes hm p (length whole) = whole" using assms(1) by (auto simp: holds_def)
  then have k: "unat (of_nat k :: u64) = k" using assms(2) by (intro unat_of_nat_u64) linarith
  then have "unat (p + of_nat k) = unat p + k" using w(1) assms(2) by (simp add: unat_word_ariths)
  then show ?thesis using w(1) assms(2) read_bytes_piece [OF w(2) assms(2)] by (simp add: holds_def)
qed

text \<open>
  The memory at the start of the program: the buffer and, with direct mapping, the bytes of the
  accounts are where the regions point.
\<close>

definition memory_ready ::
  "host_memory \<Rightarrow> data_address \<Rightarrow> TransactionAccounts \<Rightarrow> AlignedMemory \<Rightarrow> bool"
where
  "memory_ready hm dp ta mem \<longleftrightarrow>
     holds hm (av_ptr (mem_vec mem)) (as_slice mem)
     \<and> (\<forall>t i. same_contents ta t \<longrightarrow> i < accounts_len ta \<longrightarrow> holds hm (dp t i) (view_data (view_at ta i)))"

lemma data_seen_visible:
  assumes seen: "data_seen dp ta s a addr" and fin: "finish s = Some (mem, rs)" and hm: "memory_ready hm dp ta mem"
    and i: "ba_index a < accounts_len ta"
  shows "data_visible hm rs addr (get_data ta a)"
proof -
  let ?d = "get_data ta a"
  have rs: "set (ser_regions s) \<subseteq> set rs" "mem = buffer s"
    using fin by (auto simp: finish_def push_region_def Let_def split: if_splits)
  obtain r where r: "r \<in> set rs" "vm_addr r = addr" "vm_gap_shift r = 63" "len r = of_nat (length ?d)"
    and host: "if ser_direct_mapping s then \<exists>t. same_contents ta t \<and> host_addr r = dp t (ba_index a)
      else \<exists>pos. host_addr r = av_ptr (mem_vec (buffer s)) + of_nat pos \<and> pos + length ?d \<le> length (written s)
        \<and> take (length ?d) (drop pos (written s)) = ?d"
    using seen rs(1) unfolding data_seen_def by blast
  have h: "holds hm (host_addr r) ?d"
  proof (cases "ser_direct_mapping s")
    case True
    then show ?thesis using host hm i by (auto simp: memory_ready_def get_data_def)
  next
    case False
    then obtain pos where p: "host_addr r = av_ptr (mem_vec (buffer s)) + of_nat pos" "pos + length ?d \<le> length (written s)"
      "take (length ?d) (drop pos (written s)) = ?d" using host by auto
    have "holds hm (av_ptr (mem_vec mem)) (written s)" using hm rs(2) by (simp add: memory_ready_def)
    from holds_piece [OF this p(2)] show ?thesis unfolding p(1,3) rs(2) .
  qed
  then have "length ?d < 2 ^ 64" by (simp add: holds_def)
  then have "unat (len r) = length ?d" unfolding r(4) by (rule unat_of_nat_u64)
  with region_shows_piece [OF r(3), of addr 0 hm ?d ?d] h r(1,2) show ?thesis by (auto simp: data_visible_def)
qed

lemma data_pending_visible:
  assumes pend: "data_pending ta s a addr" and fin: "finish s = Some (mem, rs)" and hm: "memory_ready hm dp ta mem"
    and s: "vaddr s = MM_INPUT_START" "region_start s = 0" "memory_inv (buffer s)"
    and small: "length (written s) < 2 ^ 63"
  shows "data_visible hm rs addr (get_data ta a)"
proof -
  let ?d = "get_data ta a"
  let ?r = "new_writable \<lparr>as_ptr = av_ptr (mem_vec (buffer s)), slice_len = of_nat (mem_len (buffer s))\<rparr> MM_INPUT_START"
  have rs: "?r \<in> set rs" "mem = buffer s"
    using fin s by (auto simp: finish_def push_region_def Let_def)
  obtain pos where p: "addr = saturating_add (vaddr s) (of_nat pos)" "pos + length ?d \<le> length (written s)"
    "take (length ?d) (drop pos (written s)) = ?d"
    using pend unfolding data_pending_def by blast
  have up: "unat (of_nat pos :: u64) = pos" using p(2) small by (intro unat_of_nat_u64) simp
  have sum: "unat (MM_INPUT_START + of_nat pos :: u64) = unat (MM_INPUT_START :: u64) + pos"
    using up p(2) small by (simp add: unat_word_ariths)
  then have addr: "addr = MM_INPUT_START + of_nat pos"
    using p(1) s(1) by (simp only: saturating_add_def word_le_nat_alt) simp
  from sum have off: "MM_INPUT_START \<le> addr" "unat (addr - MM_INPUT_START) = pos"
    unfolding addr by (simp_all add: word_le_nat_alt unat_sub up)
  have "unat (of_nat (mem_len (buffer s)) :: u64) = length (written s)"
    using small length_as_slice [OF s(3)] by (simp add: unat_of_nat_u64)
  moreover have "holds hm (av_ptr (mem_vec (buffer s))) (written s)" using hm rs(2) by (simp add: memory_ready_def)
  ultimately have "region_shows hm ?r addr ?d"
    using off p(2,3) by (intro region_shows_piece [of _ _ pos _ "written s"]) (simp_all add: new_writable_def)
  with rs(1) show ?thesis by (auto simp: data_visible_def)
qed

lemma meta_of_account:
  assumes r: "ready ep tc ic" and i: "i < length (instruction_accounts ic)"
    and m: "metas_for dp (accounts tc) s (accounts_of ic) metas"
  shows "placed dp (accounts tc) s (borrowed_account ic (first_use ic i)) (vm_data_addr (metas ! i))"
    and "original_data_len (metas ! i) = length (get_data (accounts tc) (borrowed_account ic i))"
    and "get_data (accounts tc) (borrowed_account ic (first_use ic i)) = get_data (accounts tc) (borrowed_account ic i)"
proof -
  let ?f = "first_use ic i"
  have f: "?f \<le> i" "tx_index ic ?f = tx_index ic i" using r i by (auto simp: ready_def)
  then have ff: "first_use ic ?f = ?f" "?f < length (instruction_accounts ic)" using i by (auto simp: first_use_def)
  show data: "get_data (accounts tc) (borrowed_account ic ?f) = get_data (accounts tc) (borrowed_account ic i)"
    using ready_index(3) [OF r] i ff(2) f(2) by (simp add: get_data_def)
  have len: "length (accounts_of ic) = length (instruction_accounts ic)" by (rule accounts_of_ready(1) [OF r])
  have "accounts_of ic ! ?f = Account (of_nat ?f) (borrowed_account ic ?f)" using ff by (simp add: accounts_of_def)
  then have first: "original_data_len (metas ! ?f) = length (get_data (accounts tc) (borrowed_account ic ?f))"
    "placed dp (accounts tc) s (borrowed_account ic ?f) (vm_data_addr (metas ! ?f))"
    using m ff(2) len unfolding metas_for_def by auto
  have "metas ! i = metas ! ?f"
  proof (cases "?f = i")
    case False
    then have "accounts_of ic ! i = Duplicate (of_nat ?f)" using i by (simp add: accounts_of_def)
    then show ?thesis using m i len ready_index(2) [OF r i] unfolding metas_for_def by metis
  qed simp
  with first data show "placed dp (accounts tc) s (borrowed_account ic ?f) (vm_data_addr (metas ! i))"
    "original_data_len (metas ! i) = length (get_data (accounts tc) (borrowed_account ic i))"
    by simp_all
qed

lemma serialized_visible:
  assumes r: "ready ep tc ic" and ser: "serialized_as al dp tc ic st di bytes (tc', Ok (mem, rs, metas, ofs))"
    and hm: "memory_ready hm dp (accounts tc) mem" and small: "length bytes < 2 ^ 63"
    and i: "i < length (instruction_accounts ic)"
  shows "data_visible hm rs (vm_data_addr (metas ! i)) (get_data (accounts tc) (borrowed_account ic i))"
proof -
  let ?a = "borrowed_account ic (first_use ic i)"
  obtain s where s: "finish s = Some (mem, rs)" "ser_stricter_abi s = st" "memory_inv (buffer s)"
    "metas_for dp (accounts tc) s (accounts_of ic) metas"
    "\<not> st \<longrightarrow> ser_regions s = [] \<and> vaddr s = MM_INPUT_START \<and> region_start s = 0"
    and b: "as_slice mem = bytes"
    using ser by (auto simp: serialized_as_def finished_def)
  note m = meta_of_account [OF r i s(4)]
  have f: "first_use ic i < length (instruction_accounts ic)" using r i by (auto simp: ready_def)
  have ix: "ba_index ?a < accounts_len (accounts tc)"
    using r f by (auto simp: ready_def serializable_def borrowable_def)
  have "mem = buffer s" using s(1) by (auto simp: finish_def push_region_def Let_def split: if_splits)
  with b small have "length (written s) < 2 ^ 63" by simp
  then have "data_visible hm rs (vm_data_addr (metas ! i)) (get_data (accounts tc) ?a)"
    using m(1) s data_seen_visible [OF _ s(1) hm ix] data_pending_visible [OF _ s(1) hm _ _ s(3)]
    by (auto simp: placed_def data_visible_def split: if_splits)
  then show ?thesis using m(3) by simp
qed

lemma owner_same:
  assumes "same_contents (accounts tc) ta" "borrow_counters ta = borrow_counters (accounts tc)" "accounts_inv (accounts tc)"
  shows "get_program_owner (tc\<lparr>accounts := ta\<rparr>) ic = get_program_owner tc ic"
proof -
  have "view_owner (view_at (ta\<lparr>borrow_counters := cs\<rparr>) j) = view_owner (view_at ((accounts tc)\<lparr>borrow_counters := cs\<rparr>) j)"
    if "j < length (borrow_counters (accounts tc))" for cs j
    using assms that by (auto simp: same_contents_def accounts_inv_def content_def)
  with assms(2) show ?thesis
    by (cases "get_index_of_program_account_in_transaction ic")
       (auto simp: get_program_owner_def try_borrow_def ok_or_def nth_get_def counter_try_borrow_def
         split: if_splits option.splits)
qed

lemma read_back:
  assumes r: "ready ep tc ic" and own: "get_program_owner tc ic = Ok program_owner"
    and ser: "serialized_as al dp tc ic st di (guest_layout sdk ep st di program_id program_owner tc ic)
      (tc', Ok (mem, rs, metas, ofs))"
    and small: "length (guest_layout sdk ep st di program_id program_owner tc ic) < 2 ^ 64"
  shows "\<exists>ta. deserialize_parameters sdk ep tc' ic st di (as_slice mem) metas = Some (tc\<lparr>accounts := ta\<rparr>, Ok ())
    \<and> same_contents (accounts tc) ta \<and> borrow_counters ta = borrow_counters (accounts tc)"
proof -
  let ?as = "accounts_of ic"
  let ?n = "length (instruction_accounts ic)"
  obtain ta s where t: "tc' = tc\<lparr>accounts := ta\<rparr>" "same_contents (accounts tc) ta"
    "borrow_counters ta = borrow_counters (accounts tc)"
    "as_slice mem = guest_layout sdk ep st di program_id program_owner tc ic"
    "metas_for dp (accounts tc) s ?as metas"
    using ser by (auto simp: serialized_as_def finished_def)
  have inv: "accounts_inv (accounts tc)" and n: "?n \<le> 255" using r by (auto simp: ready_def MAX_ACCOUNTS_PER_INSTRUCTION_def)
  have un: "unat (get_number_of_instruction_accounts ic) = ?n"
    using n by (simp add: get_number_of_instruction_accounts_def unat_of_nat)
  obtain u where "collect_accounts tc ic [0..<?n] = Some (u, ?as)"
    using collect_ready [OF r refl, of 0 tc] inv r by (auto simp: ready_def accounts_inv_def)
  note c = collect_accounts_borrowed [OF this]
  from c have desc: "list_all2 (describes ic) [0..<?n] ?as" by blast
  note acc = accounts_of_ready [OF r]
  have free: "\<forall>j \<in> set (borrowed ?as). borrow_counters (accounts tc') ! j = 0" using c t(1,3) by auto
  have lens: "list_all2 (\<lambda>x n. \<forall>i a. x = Account i a \<longrightarrow> n = length (get_data (accounts tc) a)) ?as (map original_data_len metas)"
    using t(5) unfolding metas_for_def by (auto simp: list_all2_conv_all_nth)
  let ?c = "to_le_bytes (of_nat ?n :: u64)"
  let ?rest = "to_le_bytes (of_nat (length (instruction_data ic)) :: u64) @ instruction_data ic @ program_id"
  have bytes: "as_slice mem = ?c @ accounts_layout sdk ep st di program_owner (accounts tc) ic @ ?rest"
    by (simp add: t(4) guest_layout_def params_layout_def)
  have small': "length (as_slice mem) < 2 ^ 64" using small t(4) by simp
  have same': "same_contents (accounts tc) (accounts tc')" using t(1,2) by simp
  have own': "get_program_owner tc' ic = Ok program_owner" using owner_same [OF t(2,3) inv] own t(1) by simp
  let ?read = "if program_owner = bpf_loader_deprecated_id sdk
    then deserialize_accounts (deserialize_account_unaligned st di (as_slice mem)) 0 ic (zip [0..<?n] (map original_data_len metas)) 8 tc'
    else deserialize_accounts (deserialize_account_aligned ep st di (as_slice mem)) 7 ic (zip [0..<?n] (map original_data_len metas)) 8 tc'"
  have "\<exists>tc''. ?read = Some (tc'', Ok ()) \<and> same_contents (accounts tc) (accounts tc'') \<and> tc'' = tc'\<lparr>accounts := accounts tc''\<rparr>
      \<and> borrow_counters (accounts tc'') = borrow_counters (accounts tc')"
  proof (cases "program_owner = bpf_loader_deprecated_id sdk")
    case True
    have b: "as_slice mem = ?c @ unaligned.laid_out_accounts ep st di (accounts tc) ?as @ ?rest"
      unfolding bytes accounts_layout_def if_P [OF True] ..
    show ?thesis
      unfolding if_P [OF True]
      using unaligned.accounts_read [OF desc acc(3) same' free lens b small'] by simp
  next
    case False
    have b: "as_slice mem = ?c @ aligned.laid_out_accounts ep st di (accounts tc) ?as @ ?rest"
      unfolding bytes accounts_layout_def if_not_P [OF False] ..
    show ?thesis
      unfolding if_not_P [OF False]
      using aligned.accounts_read [OF desc acc(3) same' free lens b small'] by simp
  qed
  moreover have "deserialize_parameters sdk ep tc' ic st di (as_slice mem) metas = ?read"
    unfolding deserialize_parameters_def own' result.case Let_def
      deserialize_parameters_unaligned_def deserialize_parameters_aligned_def un ..
  ultimately obtain tc'' where w: "deserialize_parameters sdk ep tc' ic st di (as_slice mem) metas = Some (tc'', Ok ())"
    "same_contents (accounts tc) (accounts tc'')" "tc'' = tc'\<lparr>accounts := accounts tc''\<rparr>"
    "borrow_counters (accounts tc'') = borrow_counters (accounts tc')" by auto
  have "tc'' = tc\<lparr>accounts := accounts tc''\<rparr>" using w(3) t(1) by (metis TransactionContext.update_convs(1) TransactionContext.surjective)
  with w t(1,3) show ?thesis by (metis TransactionContext.select_convs(1) TransactionContext.surjective TransactionContext.update_convs(1))
qed

section \<open>Properties\<close>

text \<open>
  C15: the buffer of the parameters is exactly full.  For an instruction whose accounts are free, in
  both formats and all modes, serialization succeeds when the documented layout can be allocated, and
  the bytes written with unchecked writes are that layout, as many as were allocated; a layout that is
  too long for an allocation is a panic.
\<close>

theorem serialized_layout:
  assumes "ready ep tc ic" "get_program_key tc ic = Ok program_id" "length program_id = 32"
    and "get_program_owner tc ic = Ok program_owner"
  shows "let bytes = guest_layout sdk ep st di program_id program_owner tc ic in
    if length bytes + (HOST_ALIGN - 1) < 2 ^ 63
    then \<exists>tc' mem rs metas ofs. serialize_parameters sdk ep al dp tc ic st di = Some (tc', Ok (mem, rs, metas, ofs))
      \<and> as_slice mem = bytes
      \<and> mem_len mem = av_capacity (mem_vec mem) \<and> length (block (mem_vec mem)) = av_capacity (mem_vec mem)
    else serialize_parameters sdk ep al dp tc ic st di = None"
  unfolding Let_def layout_fits_def [symmetric]
proof (split if_split, intro conjI impI)
  let ?bytes = "guest_layout sdk ep st di program_id program_owner tc ic"
  assume "layout_fits (length ?bytes)"
  then obtain r where r: "serialize_parameters sdk ep al dp tc ic st di = Some r" "serialized_as al dp tc ic st di ?bytes r"
    using serialize_ready [OF assms] by blast
  obtain tc' mem rs metas ofs where m: "r = (tc', Ok (mem, rs, metas, ofs))" "memory_inv mem" "as_slice mem = ?bytes"
    "av_capacity (mem_vec mem) = length ?bytes"
    using r(2) unfolding serialized_as_def by blast
  then have "mem_len mem = av_capacity (mem_vec mem)" "length (block (mem_vec mem)) = av_capacity (mem_vec mem)"
    using length_as_slice [OF m(2)] by (simp_all add: memory_inv_def)
  with r(1) m(1,3) show "\<exists>tc' mem rs metas ofs. serialize_parameters sdk ep al dp tc ic st di = Some (tc', Ok (mem, rs, metas, ofs))
      \<and> as_slice mem = ?bytes
      \<and> mem_len mem = av_capacity (mem_vec mem) \<and> length (block (mem_vec mem)) = av_capacity (mem_vec mem)"
    by blast
qed (rule serialize_panics [OF assms])

text \<open>
  C11: the guest finds the data of every account, duplicates included, at the address its metadata
  records: a region translates each access inside the data, and the memory there holds those bytes.
\<close>

theorem guest_sees_account_data:
  assumes "ready ep tc ic" "get_program_key tc ic = Ok program_id" "length program_id = 32"
    and "get_program_owner tc ic = Ok program_owner"
    and "length (guest_layout sdk ep st di program_id program_owner tc ic) < 2 ^ 63"
    and "serialize_parameters sdk ep al dp tc ic st di = Some (tc', Ok (mem, rs, metas, ofs))"
    and "memory_ready hm dp (accounts tc) mem" "i < length (instruction_accounts ic)"
  shows "data_visible hm rs (vm_data_addr (metas ! i)) (get_data (accounts tc) (borrowed_account ic i))"
  by (rule serialized_visible [OF assms(1) serialize_result(1) [OF assms(1-4,6)] assms(7,5,8)])

text \<open>
  C19: a program that writes nothing changes nothing.  Reading the untouched buffer back succeeds, and
  every account has the key, owner, lamports, data and executable flag it had before.
\<close>

theorem untouched_parameters_read_back:
  assumes "ready ep tc ic" "get_program_key tc ic = Ok program_id" "length program_id = 32"
    and "get_program_owner tc ic = Ok program_owner"
    and "length (guest_layout sdk ep st di program_id program_owner tc ic) < 2 ^ 64"
    and "serialize_parameters sdk ep al dp tc ic st di = Some (tc', Ok (mem, rs, metas, ofs))"
  shows "\<exists>ta. deserialize_parameters sdk ep tc' ic st di (as_slice mem) metas = Some (tc\<lparr>accounts := ta\<rparr>, Ok ())
    \<and> accounts_len ta = accounts_len (accounts tc)
    \<and> (\<forall>j < accounts_len ta. content (view_at ta j) = content (view_at (accounts tc) j))"
  using read_back [OF assms(1,4) serialize_result(1) [OF assms(1-4,6)] assms(5)] by (auto simp: same_contents_def)

section \<open>An example\<close>

text \<open>A program and one account of three bytes, which the instruction names twice.\<close>

definition sample_entrypoint :: Entrypoint where
  "sample_entrypoint =
     \<lparr>max_permitted_data_increase = 10240, bpf_align_of_u128 = 8, non_dup_marker = 255,
      max_permitted_data_length = 10485760\<rparr>"

definition sample_ser_account :: "u8 list \<Rightarrow> Pubkey \<Rightarrow> AccountSharedData" where
  "sample_ser_account bytes owner =
     \<lparr>asd_lamports = 5, asd_data = bytes, asd_owner = owner, asd_executable = False, asd_rent_epoch = 0, asd_shared = False\<rparr>"

definition sample_ser_tc :: TransactionContext where
  "sample_ser_tc =
     new_TransactionContext
       [(replicate 32 7, sample_ser_account [] (replicate 32 9)),
        (replicate 32 1, sample_ser_account [1, 2, 3] (replicate 32 7))] 5 64 1"

definition sample_ser_ic :: InstructionContext where
  "sample_ser_ic =
     \<lparr>index_in_trace = 0, ic_nesting_level = 0, ic_program_account_index = 0,
      instruction_accounts = [new_InstructionAccount 1 False True, new_InstructionAccount 1 False True],
      dedup_map = [65535, 0], instruction_data = [42]\<rparr>"

definition sample_data_ptr :: data_address where
  "sample_data_ptr t i = 0x9000000"

definition sample_host :: "u8 list \<Rightarrow> host_memory" where
  "sample_host bytes x = (if x < 0x9000000 then bytes ! unat (x - 0x1000) else [1, 2, 3] ! unat (x - 0x9000000))"

lemmas sample_ser_simps = sample_ser_tc_def sample_ser_account_def new_TransactionContext_def new_TransactionAccounts_def
  new_fields_def sample_ser_ic_def sample_entrypoint_def accounts_len_def view_at_def view_data_def view_owner_def
  get_data_def get_owner_def borrowed_account_def get_index_in_transaction_def new_InstructionAccount_def new_VmSlice_def
  MAX_ACCOUNT_DATA_LEN_def MAX_ACCOUNT_DATA_GROWTH_PER_TRANSACTION_def

lemma sample_all_less_2: "(\<forall>i < Suc (Suc 0). P i) \<longleftrightarrow> P 0 \<and> P (Suc 0)"
  by (auto simp: less_Suc_eq)

lemma sample_ser_ready: "ready sample_entrypoint sample_ser_tc sample_ser_ic"
  by (simp add: ready_def tx_index_def first_use_def sample_all_less_2 serializable_def borrowable_def accounts_inv_def
      key_of_def get_key_def account_key_def nth_get_def MAX_ACCOUNTS_PER_INSTRUCTION_def sample_ser_simps)

lemma sample_ser_program:
  "get_program_key sample_ser_tc sample_ser_ic = Ok (replicate 32 7)"
  "get_program_owner sample_ser_tc sample_ser_ic = Ok (replicate 32 9)"
  by (simp_all add: get_program_key_def get_program_owner_def get_index_of_program_account_in_transaction_def
      get_key_of_account_at_index_def account_key_def nth_get_def ok_or_def try_borrow_def counter_try_borrow_def
      is_writing_def checked_signed_def sample_ser_simps)

lemma sample_ser_small:
  "length (guest_layout sdk sample_entrypoint True True (replicate 32 7) (replicate 32 9) sample_ser_tc sample_ser_ic) \<le> 1000"
proof -
  have as: "accounts_of sample_ser_ic = [Account 0 (borrowed_account sample_ser_ic 0), Duplicate 0]"
    by (simp add: accounts_of_def first_use_def tx_index_def sample_ser_ic_def new_InstructionAccount_def)
  have "length (key_of (accounts sample_ser_tc) (borrowed_account sample_ser_ic 0)) = 32"
    "length (get_owner (accounts sample_ser_tc) (borrowed_account sample_ser_ic 0)) = 32"
    using sample_ser_ready by (auto simp: ready_def serializable_def sample_ser_ic_def)
  moreover have fields: "instruction_data sample_ser_ic = [42]" "bpf_align_of_u128 sample_entrypoint = 8"
    by (simp_all add: sample_ser_ic_def sample_entrypoint_def)
  ultimately show ?thesis
    by (simp add: guest_layout_def params_layout_def accounts_layout_def as layout_accounts_def account_bytes_aligned_def
        account_bytes_unaligned_def header_aligned_def header_unaligned_def account_body_def dup_aligned_def
        dup_unaligned_def fields)
qed

text \<open>Direct mapping, as the detector uses it.\<close>

theorem serialized_layout_witness:
  "\<exists>tc' mem rs metas ofs. serialize_parameters sample_sdk sample_entrypoint sample_allocator sample_data_ptr sample_ser_tc
      sample_ser_ic True True = Some (tc', Ok (mem, rs, metas, ofs)) \<and> mem_len mem = av_capacity (mem_vec mem)"
  using serialized_layout [OF sample_ser_ready sample_ser_program(1) _ sample_ser_program(2), of sample_sdk True True
      sample_allocator sample_data_ptr] sample_ser_small [of sample_sdk]
  by (fastforce simp: Let_def HOST_ALIGN_def)

lemma sample_memory_ready:
  assumes "length (as_slice mem) \<le> 1000" "av_ptr (mem_vec mem) = 0x1000"
  shows "memory_ready (sample_host (as_slice mem)) sample_data_ptr (accounts sample_ser_tc) mem"
proof -
  have "sample_host (as_slice mem) (0x1000 + of_nat i) = as_slice mem ! i" if "i < length (as_slice mem)" for i
  proof -
    have "i < 1000" using that assms(1) by simp
    then have "unat (of_nat i :: u64) = i" "(0x1000 + of_nat i :: u64) < 0x9000000"
      by (simp_all add: unat_of_nat_u64 word_less_nat_alt unat_word_ariths unat_of_nat)
    then show ?thesis by (simp add: sample_host_def)
  qed
  then have "holds (sample_host (as_slice mem)) 0x1000 (as_slice mem)"
    using assms(1) unfolding holds_def read_bytes_def by (auto intro!: nth_equalityI)
  moreover have "holds (sample_host (as_slice mem)) 0x9000000 (view_data (view_at (accounts sample_ser_tc) i))" if "i < 2" for i
  proof -
    have "view_data (view_at (accounts sample_ser_tc) 0) = []" "view_data (view_at (accounts sample_ser_tc) 1) = [1, 2, 3]"
      by (simp_all add: sample_ser_simps)
    moreover have "holds (sample_host (as_slice mem)) 0x9000000 []" by (simp add: holds_def read_bytes_def)
    moreover have "holds (sample_host (as_slice mem)) 0x9000000 [1, 2, 3]"
      by (simp add: holds_def read_bytes_def sample_host_def)
    moreover have "i = 0 \<or> i = 1" using that by auto
    ultimately show ?thesis by auto
  qed
  ultimately show ?thesis
    using assms(2) by (simp add: memory_ready_def sample_data_ptr_def)
       (simp add: sample_ser_tc_def new_TransactionContext_def new_TransactionAccounts_def accounts_len_def numeral_2_eq_2)
qed

lemma sample_serialized:
  "\<exists>tc' mem rs metas ofs. serialize_parameters sample_sdk sample_entrypoint sample_allocator sample_data_ptr sample_ser_tc
      sample_ser_ic True True = Some (tc', Ok (mem, rs, metas, ofs))
    \<and> memory_ready (sample_host (as_slice mem)) sample_data_ptr (accounts sample_ser_tc) mem"
proof -
  let ?b = "guest_layout sample_sdk sample_entrypoint True True (replicate 32 7) (replicate 32 9) sample_ser_tc sample_ser_ic"
  have l: "length ?b \<le> 1000" by (rule sample_ser_small)
  then have "layout_fits (length ?b)" by (intro layout_fitsI) simp
  from serialize_ready [OF sample_ser_ready sample_ser_program(1) _ sample_ser_program(2) this, of sample_allocator sample_data_ptr]
  obtain r where r: "serialize_parameters sample_sdk sample_entrypoint sample_allocator sample_data_ptr sample_ser_tc
      sample_ser_ic True True = Some r" "serialized_as sample_allocator sample_data_ptr sample_ser_tc sample_ser_ic True True ?b r"
    by auto
  from r(2) obtain tc' mem rs metas ofs where m: "r = (tc', Ok (mem, rs, metas, ofs))" "as_slice mem = ?b"
    "av_ptr (mem_vec mem) = block_ptr sample_allocator (length ?b)"
    unfolding serialized_as_def by blast
  have "length ?b \<noteq> 0" by (simp add: guest_layout_def params_layout_def)
  then have "av_ptr (mem_vec mem) = 0x1000" unfolding m(3) by (simp add: block_ptr_def sample_allocator_def)
  then have "memory_ready (sample_host (as_slice mem)) sample_data_ptr (accounts sample_ser_tc) mem"
    using l by (intro sample_memory_ready) (simp_all only: m(2))
  with r(1) m(1) show ?thesis by blast
qed

theorem guest_sees_account_data_witness:
  "\<exists>tc' mem rs metas ofs. serialize_parameters sample_sdk sample_entrypoint sample_allocator sample_data_ptr sample_ser_tc
      sample_ser_ic True True = Some (tc', Ok (mem, rs, metas, ofs))
    \<and> data_visible (sample_host (as_slice mem)) rs (vm_data_addr (metas ! 1)) [1, 2, 3]"
proof -
  obtain tc' mem rs metas ofs where s: "serialize_parameters sample_sdk sample_entrypoint sample_allocator sample_data_ptr
      sample_ser_tc sample_ser_ic True True = Some (tc', Ok (mem, rs, metas, ofs))"
    "memory_ready (sample_host (as_slice mem)) sample_data_ptr (accounts sample_ser_tc) mem"
    using sample_serialized by blast
  have "length (guest_layout sample_sdk sample_entrypoint True True (replicate 32 7) (replicate 32 9) sample_ser_tc sample_ser_ic) < 2 ^ 63"
    by (rule order.strict_trans1 [OF sample_ser_small]) simp
  moreover have "get_data (accounts sample_ser_tc) (borrowed_account sample_ser_ic 1) = [1, 2, 3]" by (simp add: sample_ser_simps)
  ultimately show ?thesis
    using guest_sees_account_data [OF sample_ser_ready sample_ser_program(1) _ sample_ser_program(2) _ s(1,2), of 1] s(1)
    by (fastforce simp: sample_ser_ic_def)
qed

theorem untouched_parameters_read_back_witness:
  "\<exists>tc' mem rs metas ofs ta. serialize_parameters sample_sdk sample_entrypoint sample_allocator sample_data_ptr sample_ser_tc
      sample_ser_ic True True = Some (tc', Ok (mem, rs, metas, ofs))
    \<and> deserialize_parameters sample_sdk sample_entrypoint tc' sample_ser_ic True True (as_slice mem) metas
        = Some (sample_ser_tc\<lparr>accounts := ta\<rparr>, Ok ())"
proof -
  obtain tc' mem rs metas ofs where s: "serialize_parameters sample_sdk sample_entrypoint sample_allocator sample_data_ptr
      sample_ser_tc sample_ser_ic True True = Some (tc', Ok (mem, rs, metas, ofs))"
    using sample_serialized by blast
  have "length (guest_layout sample_sdk sample_entrypoint True True (replicate 32 7) (replicate 32 9) sample_ser_tc sample_ser_ic) < 2 ^ 64"
    by (rule order.strict_trans1 [OF sample_ser_small]) simp
  then show ?thesis
    using untouched_parameters_read_back [OF sample_ser_ready sample_ser_program(1) _ sample_ser_program(2) _ s] s
    by fastforce
qed

end
