(* ===== verification/Interpreter.thy ===== *)
theory Interpreter
  imports Vm
begin

text \<open>
  \<open>sbpf/src/interpreter.rs\<close>: the interpreter of SBPF instructions.

  The \<open>match\<close> of \<open>Interpreter::step\<close> is a table of its arms in source order, like the one in
  \<open>Verifier\<close>.  An arm either falls through to the end of \<open>step\<close> with the next program counter
  (\<open>Next\<close>), returns early (\<open>Return\<close>) or panics (\<open>Panic\<close>: an index out of bounds or a division by
  zero).  Register arrays are lists of length 12, register 11 is the program counter.
\<close>

unbundle bit_operations_syntax

section \<open>State\<close>

record ('c, 'f, 'x) Interp =
  vm :: "('c, 'f, 'x) EbpfVm"
  executable :: "'f Executable"
  program :: "u8 list"
  program_vm_addr :: u64
  reg :: "u64 list"

datatype 's arm = Next 's u64 | Return 's | Panic

text \<open>What \<open>step\<close> returns: \<open>true\<close>, \<open>false\<close>, or not at all.\<close>

datatype 's step = Running 's | Halted 's | Panicked

definition new_interpreter ::
  "('c, 'f, 'x) EbpfVm \<Rightarrow> 'f Executable \<Rightarrow> u64 list \<Rightarrow> ('c, 'f, 'x) Interp option"
where
  "new_interpreter m exe regs =
     map_option
       (\<lambda>(addr, text). \<lparr>vm = m, executable = exe, program = text, program_vm_addr = addr, reg = regs\<rparr>)
       (get_text_bytes exe)"

abbreviation version :: "('c, 'f, 'x) Interp \<Rightarrow> SBPFVersion" where
  "version s \<equiv> get_sbpf_version (executable s)"

text \<open>\<open>throw_error!\<close>, then \<open>return false\<close>.\<close>

definition throw_error :: "('c, 'f, 'x) Interp \<Rightarrow> 'x EbpfError \<Rightarrow> ('c, 'f, 'x) Interp" where
  "throw_error s err =
     s\<lparr>vm := (vm s)\<lparr>registers := (registers (vm s))[11 := reg s ! 11], program_result := Err err\<rparr>\<rparr>"

text \<open>\<open>self.reg[i]\<close> as a value and as a place; indices past the array panic.\<close>

definition rd :: "('c, 'f, 'x) Interp \<Rightarrow> nat \<Rightarrow> (u64 \<Rightarrow> ('c, 'f, 'x) Interp arm) \<Rightarrow> ('c, 'f, 'x) Interp arm" where
  "rd s i k = (if i < 12 then k (reg s ! i) else Panic)"

definition wr :: "('c, 'f, 'x) Interp \<Rightarrow> nat \<Rightarrow> u64 \<Rightarrow> u64 \<Rightarrow> ('c, 'f, 'x) Interp arm" where
  "wr s i val next_pc = (if i < 12 then Next (s\<lparr>reg := (reg s)[i := val]\<rparr>) next_pc else Panic)"

type_synonym ('c, 'f, 'x) arm_fun =
  "('c, 'f, 'x) Interp \<Rightarrow> Insn \<Rightarrow> u64 \<Rightarrow> ('c, 'f, 'x) Interp arm"

section \<open>Helpers of the interpreter\<close>

definition sign_extension :: "SBPFVersion \<Rightarrow> i32 \<Rightarrow> u64" where
  "sign_extension v val =
     (if explicit_sign_extension_of_results v then ucast val else scast val)"

text \<open>\<open>Ok\<close> with \<open>true\<close>, or \<open>Err\<close> with the state in which the error was thrown.\<close>

definition push_frame ::
  "Config \<Rightarrow> ('c, 'f, 'x) Interp \<Rightarrow> (('c, 'f, 'x) Interp, ('c, 'f, 'x) Interp) result option"
where
  "push_frame cfg s =
     (let depth = unat (call_depth (vm s)) in
      if \<not> depth < length (call_frames (vm s)) then None
      else
        let frame =
              \<lparr>caller_saved_registers = take SCRATCH_REGS (drop FIRST_SCRATCH_REG (reg s)),
               frame_pointer = reg s ! FRAME_PTR_REG,
               target_pc = reg s ! 11 + 1\<rparr>;
            s = s\<lparr>vm := (vm s)\<lparr>call_frames := (call_frames (vm s))[depth := frame],
                               call_depth := call_depth (vm s) + 1\<rparr>\<rparr>
        in if call_depth (vm s) = max_call_depth cfg then Some (Err (throw_error s CallDepthExceeded))
           else if \<not> manual_stack_frame_bump (version s) then
             let num_frames =
                   (if stack_frame_gaps (version s) \<and> enable_stack_frame_gaps cfg then 2 else 1);
                 frame_size = stack_frame_size cfg * num_frames
             in Some (Ok (s\<lparr>reg := (reg s)[FRAME_PTR_REG := reg s ! FRAME_PTR_REG + frame_size]\<rparr>))
           else Some (Ok s))"

text \<open>The caller's registers go to the machine, the result comes back in it.\<close>

definition dispatch_syscall ::
  "('c, 'f, 'x) Env \<Rightarrow> 'f \<Rightarrow> ('c, 'f, 'x) Interp \<Rightarrow> ('x ProgramResult \<times> ('c, 'f, 'x) Interp) option"
where
  "dispatch_syscall env f s =
     (let m = vm s;
          m = m\<lparr>due_insn_count := previous_instruction_meter m - due_insn_count m,
                registers := take 6 (reg s) @ drop 6 (registers m)\<rparr>
      in map_option
           (\<lambda>m. let m = m\<lparr>due_insn_count := 0\<rparr> in (program_result m, s\<lparr>vm := m\<rparr>))
           (invoke_function env f m))"

definition check_pc ::
  "('c, 'f, 'x) Interp \<Rightarrow> u64 \<Rightarrow> ('c, 'f, 'x) Interp arm"
where
  "check_pc s pc =
     (if is_pc_in_program (program s) pc then Next s pc
      else Return (throw_error s CallOutsideTextSegment))"

section \<open>Shapes of arms\<close>

abbreviation (input) dst_of :: "Insn \<Rightarrow> nat" where
  "dst_of insn \<equiv> unat (dst insn)"

abbreviation (input) src_of :: "Insn \<Rightarrow> nat" where
  "src_of insn \<equiv> unat (src insn)"

text \<open>\<open>self.reg[dst] = f(self.reg[dst], insn.imm)\<close> and \<open>self.reg[dst] = f(self.reg[dst], self.reg[src])\<close>.\<close>

definition alu_imm :: "(u64 \<Rightarrow> i64 \<Rightarrow> u64) \<Rightarrow> ('c, 'f, 'x) arm_fun" where
  "alu_imm f s insn next_pc = rd s (dst_of insn) (\<lambda>d. wr s (dst_of insn) (f d (imm insn)) next_pc)"

definition alu_reg :: "(u64 \<Rightarrow> u64 \<Rightarrow> u64) \<Rightarrow> ('c, 'f, 'x) arm_fun" where
  "alu_reg f s insn next_pc =
     rd s (dst_of insn) (\<lambda>d. rd s (src_of insn) (\<lambda>x. wr s (dst_of insn) (f d x) next_pc))"

text \<open>
  Division arms: the divisor is tested first where the source throws \<open>DivideByZero\<close>, then the
  overflow of signed division; a zero divisor that was not tested panics.
\<close>

definition div_imm ::
  "(i64 \<Rightarrow> bool) \<Rightarrow> (u64 \<Rightarrow> i64 \<Rightarrow> bool) \<Rightarrow> (u64 \<Rightarrow> i64 \<Rightarrow> u64) \<Rightarrow> ('c, 'f, 'x) arm_fun"
where
  "div_imm is_zero overflows f s insn next_pc =
     rd s (dst_of insn) (\<lambda>d.
       if overflows d (imm insn) then Return (throw_error s DivideOverflow)
       else if is_zero (imm insn) then Panic
       else wr s (dst_of insn) (f d (imm insn)) next_pc)"

definition div_reg ::
  "(u64 \<Rightarrow> bool) \<Rightarrow> (u64 \<Rightarrow> u64 \<Rightarrow> bool) \<Rightarrow> (u64 \<Rightarrow> u64 \<Rightarrow> u64) \<Rightarrow> ('c, 'f, 'x) arm_fun"
where
  "div_reg is_zero overflows f s insn next_pc =
     rd s (src_of insn) (\<lambda>x.
       if is_zero x then Return (throw_error s DivideByZero)
       else rd s (dst_of insn) (\<lambda>d.
         if overflows d x then Return (throw_error s DivideOverflow)
         else wr s (dst_of insn) (f d x) next_pc))"

definition jmp_imm :: "(u64 \<Rightarrow> i64 \<Rightarrow> bool) \<Rightarrow> ('c, 'f, 'x) arm_fun" where
  "jmp_imm cond s insn next_pc =
     rd s (dst_of insn) (\<lambda>d.
       Next s (if cond d (imm insn) then next_pc + scast (off insn) else next_pc))"

definition jmp_reg :: "(u64 \<Rightarrow> u64 \<Rightarrow> bool) \<Rightarrow> ('c, 'f, 'x) arm_fun" where
  "jmp_reg cond s insn next_pc =
     rd s (dst_of insn) (\<lambda>d. rd s (src_of insn) (\<lambda>x.
       Next s (if cond d x then next_pc + scast (off insn) else next_pc)))"

text \<open>\<open>translate_memory_access!\<close> with \<open>load\<close> and \<open>store\<close> of \<open>n\<close> bytes.\<close>

definition load_arm :: "nat \<Rightarrow> ('c, 'f, 'x) arm_fun" where
  "load_arm n s insn next_pc =
     rd s (src_of insn) (\<lambda>base.
       let addr = base + scast (off insn) in
       case load n (host (vm s)) (memory_mapping (vm s)) addr of
         (Ok val, mapping) \<Rightarrow>
           wr (s\<lparr>vm := (vm s)\<lparr>memory_mapping := mapping\<rparr>\<rparr>) (dst_of insn) val next_pc
       | (Err err, mapping) \<Rightarrow>
           Return (throw_error (s\<lparr>vm := (vm s)\<lparr>memory_mapping := mapping\<rparr>\<rparr>) err))"

definition store_value :: "nat \<Rightarrow> ('c, 'f, 'x) Interp \<Rightarrow> u64 \<Rightarrow> u64 \<Rightarrow> u64 \<Rightarrow> ('c, 'f, 'x) Interp arm" where
  "store_value n s val addr next_pc =
     (case store n (host (vm s)) (memory_mapping (vm s)) val addr of
        (Ok _, mapping, mem) \<Rightarrow>
          Next (s\<lparr>vm := (vm s)\<lparr>memory_mapping := mapping, host := mem\<rparr>\<rparr>) next_pc
      | (Err err, mapping, mem) \<Rightarrow>
          Return (throw_error (s\<lparr>vm := (vm s)\<lparr>memory_mapping := mapping, host := mem\<rparr>\<rparr>) err))"

definition store_imm_arm :: "nat \<Rightarrow> ('c, 'f, 'x) arm_fun" where
  "store_imm_arm n s insn next_pc =
     rd s (dst_of insn) (\<lambda>base. store_value n s (imm insn) (base + scast (off insn)) next_pc)"

definition store_reg_arm :: "nat \<Rightarrow> ('c, 'f, 'x) arm_fun" where
  "store_reg_arm n s insn next_pc =
     rd s (dst_of insn) (\<lambda>base. rd s (src_of insn) (\<lambda>val.
       store_value n s val (base + scast (off insn)) next_pc))"

definition lddw_arm :: "('c, 'f, 'x) arm_fun" where
  "lddw_arm s insn next_pc =
     (case augment_lddw_unchecked (program s) insn of
        None \<Rightarrow> Panic
      | Some insn \<Rightarrow>
          (case wr s (dst_of insn) (imm insn) (next_pc + 1) of
             Next s next_pc \<Rightarrow> Next (s\<lparr>reg := (reg s)[11 := reg s ! 11 + 1]\<rparr>) next_pc
           | other \<Rightarrow> other))"

section \<open>Arithmetic\<close>

text \<open>Casts between the widths of the source; \<open>as i32\<close> and \<open>as u32\<close> both keep the low 32 bits.\<close>

abbreviation (input) as32 :: "u64 \<Rightarrow> 32 word" where
  "as32 \<equiv> ucast"

abbreviation (input) from_u32 :: "u32 \<Rightarrow> u64" where
  "from_u32 \<equiv> ucast"

definition i32_div :: "i32 \<Rightarrow> i32 \<Rightarrow> i32" where
  "i32_div a b = word_of_int (trunc_div (sint a) (sint b))"

definition i32_rem :: "i32 \<Rightarrow> i32 \<Rightarrow> i32" where
  "i32_rem a b = word_of_int (trunc_rem (sint a) (sint b))"

definition i64_div :: "i64 \<Rightarrow> i64 \<Rightarrow> i64" where
  "i64_div a b = word_of_int (trunc_div (sint a) (sint b))"

definition i64_rem :: "i64 \<Rightarrow> i64 \<Rightarrow> i64" where
  "i64_rem a b = word_of_int (trunc_rem (sint a) (sint b))"

text \<open>\<open>throw_error!(DivideOverflow; ..)\<close>: the least value divided by minus one.\<close>

definition overflow32 :: "u64 \<Rightarrow> u64 \<Rightarrow> bool" where
  "overflow32 d x \<longleftrightarrow> as32 d = push_bit 31 1 \<and> as32 x = - 1"

definition overflow64 :: "u64 \<Rightarrow> u64 \<Rightarrow> bool" where
  "overflow64 d x \<longleftrightarrow> d = push_bit 63 1 \<and> x = - 1"

abbreviation (input) never :: "u64 \<Rightarrow> u64 \<Rightarrow> bool" where
  "never \<equiv> \<lambda>_ _. False"

definition uhmul :: "u64 \<Rightarrow> u64 \<Rightarrow> u64" where
  "uhmul a b = ucast (drop_bit 64 ((ucast a :: 128 word) * ucast b))"

definition shmul :: "u64 \<Rightarrow> u64 \<Rightarrow> u64" where
  "shmul a b = ucast (signed_drop_bit 64 ((scast a :: 128 word) * scast b))"

text \<open>The byte-order arms; the host is little-endian.\<close>

definition le_arm :: "('c, 'f, 'x) arm_fun" where
  "le_arm s insn next_pc =
     (if imm insn = 16 then rd s (dst_of insn) (\<lambda>d. wr s (dst_of insn) (ucast (ucast d :: u16)) next_pc)
      else if imm insn = 32 then rd s (dst_of insn) (\<lambda>d. wr s (dst_of insn) (ucast (ucast d :: u32)) next_pc)
      else if imm insn = 64 then rd s (dst_of insn) (\<lambda>d. wr s (dst_of insn) d next_pc)
      else Return (throw_error s InvalidInstruction))"

definition be_arm :: "('c, 'f, 'x) arm_fun" where
  "be_arm s insn next_pc =
     (if imm insn = 16 then
        rd s (dst_of insn) (\<lambda>d. wr s (dst_of insn) (ucast (swap_bytes (ucast d :: u16))) next_pc)
      else if imm insn = 32 then
        rd s (dst_of insn) (\<lambda>d. wr s (dst_of insn) (ucast (swap_bytes (ucast d :: u32))) next_pc)
      else if imm insn = 64 then rd s (dst_of insn) (\<lambda>d. wr s (dst_of insn) (swap_bytes d) next_pc)
      else Return (throw_error s InvalidInstruction))"

section \<open>Arms\<close>

definition step_ld :: "SBPFVersion \<Rightarrow> (u8 \<times> bool \<times> ('c, 'f, 'x) arm_fun) list" where
  "step_ld v =
     [(LD_DW_IMM, \<not> disable_lddw v, lddw_arm)]"

definition step_ldx :: "SBPFVersion \<Rightarrow> (u8 \<times> bool \<times> ('c, 'f, 'x) arm_fun) list" where
  "step_ldx v =
     [(LD_B_REG, \<not> move_memory_instruction_classes v, load_arm 1),
      (LD_H_REG, \<not> move_memory_instruction_classes v, load_arm 2),
      (LD_W_REG, \<not> move_memory_instruction_classes v, load_arm 4),
      (LD_DW_REG, \<not> move_memory_instruction_classes v, load_arm 8)]"

definition step_st :: "SBPFVersion \<Rightarrow> (u8 \<times> bool \<times> ('c, 'f, 'x) arm_fun) list" where
  "step_st v =
     [(ST_B_IMM, \<not> move_memory_instruction_classes v, store_imm_arm 1),
      (ST_H_IMM, \<not> move_memory_instruction_classes v, store_imm_arm 2),
      (ST_W_IMM, \<not> move_memory_instruction_classes v, store_imm_arm 4),
      (ST_DW_IMM, \<not> move_memory_instruction_classes v, store_imm_arm 8)]"

definition step_stx :: "SBPFVersion \<Rightarrow> (u8 \<times> bool \<times> ('c, 'f, 'x) arm_fun) list" where
  "step_stx v =
     [(ST_B_REG, \<not> move_memory_instruction_classes v, store_reg_arm 1),
      (ST_H_REG, \<not> move_memory_instruction_classes v, store_reg_arm 2),
      (ST_W_REG, \<not> move_memory_instruction_classes v, store_reg_arm 4),
      (ST_DW_REG, \<not> move_memory_instruction_classes v, store_reg_arm 8)]"

definition step_alu32_load :: "SBPFVersion \<Rightarrow> (u8 \<times> bool \<times> ('c, 'f, 'x) arm_fun) list" where
  "step_alu32_load v =
     [(ADD32_IMM, True, alu_imm (\<lambda>d i. sign_extension v (as32 d + as32 i))),
      (ADD32_REG, True, alu_reg (\<lambda>d x. sign_extension v (as32 d + as32 x))),
      (SUB32_IMM, True,
        if swap_sub_reg_imm_operands v then alu_imm (\<lambda>d i. sign_extension v (as32 i - as32 d))
        else alu_imm (\<lambda>d i. sign_extension v (as32 d - as32 i))),
      (SUB32_REG, True, alu_reg (\<lambda>d x. sign_extension v (as32 d - as32 x))),
      (MUL32_IMM, \<not> enable_pqr v, alu_imm (\<lambda>d i. sign_extension v (as32 d * as32 i))),
      (MUL32_REG, \<not> enable_pqr v, alu_reg (\<lambda>d x. sign_extension v (as32 d * as32 x))),
      (LD_1B_REG, move_memory_instruction_classes v, load_arm 1),
      (DIV32_IMM, \<not> enable_pqr v,
        div_imm (\<lambda>i. as32 i = 0) never (\<lambda>d i. from_u32 (as32 d div as32 i))),
      (DIV32_REG, \<not> enable_pqr v,
        div_reg (\<lambda>x. as32 x = 0) never (\<lambda>d x. from_u32 (as32 d div as32 x))),
      (LD_2B_REG, move_memory_instruction_classes v, load_arm 2),
      (OR32_IMM, True, alu_imm (\<lambda>d i. from_u32 (as32 d OR as32 i))),
      (OR32_REG, True, alu_reg (\<lambda>d x. from_u32 (as32 d OR as32 x))),
      (AND32_IMM, True, alu_imm (\<lambda>d i. from_u32 (as32 d AND as32 i))),
      (AND32_REG, True, alu_reg (\<lambda>d x. from_u32 (as32 d AND as32 x))),
      (LSH32_IMM, True, alu_imm (\<lambda>d i. from_u32 (wrapping_shl (as32 d) (as32 i)))),
      (LSH32_REG, True, alu_reg (\<lambda>d x. from_u32 (wrapping_shl (as32 d) (as32 x)))),
      (RSH32_IMM, True, alu_imm (\<lambda>d i. from_u32 (wrapping_shr (as32 d) (as32 i)))),
      (RSH32_REG, True, alu_reg (\<lambda>d x. from_u32 (wrapping_shr (as32 d) (as32 x)))),
      (NEG32, \<not> disable_neg v, alu_imm (\<lambda>d _. scast (- as32 d) AND 0xffffffff)),
      (LD_4B_REG, move_memory_instruction_classes v, load_arm 4),
      (MOD32_IMM, \<not> enable_pqr v,
        div_imm (\<lambda>i. as32 i = 0) never (\<lambda>d i. from_u32 (as32 d mod as32 i))),
      (MOD32_REG, \<not> enable_pqr v,
        div_reg (\<lambda>x. as32 x = 0) never (\<lambda>d x. from_u32 (as32 d mod as32 x))),
      (LD_8B_REG, move_memory_instruction_classes v, load_arm 8),
      (XOR32_IMM, True, alu_imm (\<lambda>d i. from_u32 (as32 d XOR as32 i))),
      (XOR32_REG, True, alu_reg (\<lambda>d x. from_u32 (as32 d XOR as32 x))),
      (MOV32_IMM, True, alu_imm (\<lambda>d i. from_u32 (as32 i))),
      (MOV32_REG, True,
        alu_reg (\<lambda>d x. if explicit_sign_extension_of_results v then scast (as32 x)
                       else from_u32 (as32 x))),
      (ARSH32_IMM, True, alu_imm (\<lambda>d i. from_u32 (wrapping_shr_signed (as32 d) (as32 i)))),
      (ARSH32_REG, True, alu_reg (\<lambda>d x. from_u32 (wrapping_shr_signed (as32 d) (as32 x)))),
      (LE, \<not> disable_le v, le_arm),
      (BE, True, be_arm)]"

definition step_alu64_store :: "SBPFVersion \<Rightarrow> (u8 \<times> bool \<times> ('c, 'f, 'x) arm_fun) list" where
  "step_alu64_store v =
     [(ADD64_IMM, True, alu_imm (\<lambda>d i. d + i)),
      (ADD64_REG, True, alu_reg (\<lambda>d x. d + x)),
      (SUB64_IMM, True,
        if swap_sub_reg_imm_operands v then alu_imm (\<lambda>d i. i - d) else alu_imm (\<lambda>d i. d - i)),
      (SUB64_REG, True, alu_reg (\<lambda>d x. d - x)),
      (MUL64_IMM, \<not> enable_pqr v, alu_imm (\<lambda>d i. d * i)),
      (ST_1B_IMM, move_memory_instruction_classes v, store_imm_arm 1),
      (MUL64_REG, \<not> enable_pqr v, alu_reg (\<lambda>d x. d * x)),
      (ST_1B_REG, move_memory_instruction_classes v, store_reg_arm 1),
      (DIV64_IMM, \<not> enable_pqr v, div_imm (\<lambda>i. i = 0) never (\<lambda>d i. d div i)),
      (ST_2B_IMM, move_memory_instruction_classes v, store_imm_arm 2),
      (DIV64_REG, \<not> enable_pqr v, div_reg (\<lambda>x. x = 0) never (\<lambda>d x. d div x)),
      (ST_2B_REG, move_memory_instruction_classes v, store_reg_arm 2),
      (OR64_IMM, True, alu_imm (\<lambda>d i. d OR i)),
      (OR64_REG, True, alu_reg (\<lambda>d x. d OR x)),
      (AND64_IMM, True, alu_imm (\<lambda>d i. d AND i)),
      (AND64_REG, True, alu_reg (\<lambda>d x. d AND x)),
      (LSH64_IMM, True, alu_imm (\<lambda>d i. wrapping_shl d (as32 i))),
      (LSH64_REG, True, alu_reg (\<lambda>d x. wrapping_shl d (as32 x))),
      (RSH64_IMM, True, alu_imm (\<lambda>d i. wrapping_shr d (as32 i))),
      (RSH64_REG, True, alu_reg (\<lambda>d x. wrapping_shr d (as32 x))),
      (ST_4B_IMM, move_memory_instruction_classes v, store_imm_arm 4),
      (NEG64, \<not> disable_neg v, alu_imm (\<lambda>d _. - d)),
      (ST_4B_REG, move_memory_instruction_classes v, store_reg_arm 4),
      (MOD64_IMM, \<not> enable_pqr v, div_imm (\<lambda>i. i = 0) never (\<lambda>d i. d mod i)),
      (ST_8B_IMM, move_memory_instruction_classes v, store_imm_arm 8),
      (MOD64_REG, \<not> enable_pqr v, div_reg (\<lambda>x. x = 0) never (\<lambda>d x. d mod x)),
      (ST_8B_REG, move_memory_instruction_classes v, store_reg_arm 8),
      (XOR64_IMM, True, alu_imm (\<lambda>d i. d XOR i)),
      (XOR64_REG, True, alu_reg (\<lambda>d x. d XOR x)),
      (MOV64_IMM, True, alu_imm (\<lambda>d i. i)),
      (MOV64_REG, True, alu_reg (\<lambda>d x. x)),
      (ARSH64_IMM, True, alu_imm (\<lambda>d i. wrapping_shr_signed d (as32 i))),
      (ARSH64_REG, True, alu_reg (\<lambda>d x. wrapping_shr_signed d (as32 x))),
      (HOR64_IMM, disable_lddw v, alu_imm (\<lambda>d i. d OR wrapping_shl i 32))]"

definition step_pqr :: "SBPFVersion \<Rightarrow> (u8 \<times> bool \<times> ('c, 'f, 'x) arm_fun) list" where
  "step_pqr v =
     [(LMUL32_IMM, enable_pqr v, alu_imm (\<lambda>d i. from_u32 (as32 d * as32 i))),
      (LMUL32_REG, enable_pqr v, alu_reg (\<lambda>d x. from_u32 (as32 d * as32 x))),
      (LMUL64_IMM, enable_pqr v, alu_imm (\<lambda>d i. d * i)),
      (LMUL64_REG, enable_pqr v, alu_reg (\<lambda>d x. d * x)),
      (UHMUL64_IMM, enable_pqr v, alu_imm (\<lambda>d i. uhmul d (from_u32 (as32 i)))),
      (UHMUL64_REG, enable_pqr v, alu_reg uhmul),
      (SHMUL64_IMM, enable_pqr v, alu_imm shmul),
      (SHMUL64_REG, enable_pqr v, alu_reg shmul),
      (UDIV32_IMM, enable_pqr v,
        div_imm (\<lambda>i. as32 i = 0) never (\<lambda>d i. from_u32 (as32 d div as32 i))),
      (UDIV32_REG, enable_pqr v,
        div_reg (\<lambda>x. as32 x = 0) never (\<lambda>d x. from_u32 (as32 d div as32 x))),
      (UDIV64_IMM, enable_pqr v,
        div_imm (\<lambda>i. as32 i = 0) never (\<lambda>d i. d div from_u32 (as32 i))),
      (UDIV64_REG, enable_pqr v, div_reg (\<lambda>x. x = 0) never (\<lambda>d x. d div x)),
      (UREM32_IMM, enable_pqr v,
        div_imm (\<lambda>i. as32 i = 0) never (\<lambda>d i. from_u32 (as32 d mod as32 i))),
      (UREM32_REG, enable_pqr v,
        div_reg (\<lambda>x. as32 x = 0) never (\<lambda>d x. from_u32 (as32 d mod as32 x))),
      (UREM64_IMM, enable_pqr v,
        div_imm (\<lambda>i. as32 i = 0) never (\<lambda>d i. d mod from_u32 (as32 i))),
      (UREM64_REG, enable_pqr v, div_reg (\<lambda>x. x = 0) never (\<lambda>d x. d mod x)),
      (SDIV32_IMM, enable_pqr v,
        div_imm (\<lambda>i. as32 i = 0) overflow32 (\<lambda>d i. from_u32 (i32_div (as32 d) (as32 i)))),
      (SDIV32_REG, enable_pqr v,
        div_reg (\<lambda>x. as32 x = 0) overflow32 (\<lambda>d x. from_u32 (i32_div (as32 d) (as32 x)))),
      (SDIV64_IMM, enable_pqr v, div_imm (\<lambda>i. i = 0) overflow64 i64_div),
      (SDIV64_REG, enable_pqr v, div_reg (\<lambda>x. x = 0) overflow64 i64_div),
      (SREM32_IMM, enable_pqr v,
        div_imm (\<lambda>i. as32 i = 0) overflow32 (\<lambda>d i. from_u32 (i32_rem (as32 d) (as32 i)))),
      (SREM32_REG, enable_pqr v,
        div_reg (\<lambda>x. as32 x = 0) overflow32 (\<lambda>d x. from_u32 (i32_rem (as32 d) (as32 x)))),
      (SREM64_IMM, enable_pqr v, div_imm (\<lambda>i. i = 0) overflow64 i64_rem),
      (SREM64_REG, enable_pqr v, div_reg (\<lambda>x. x = 0) overflow64 i64_rem)]"

definition step_jmp32 :: "SBPFVersion \<Rightarrow> (u8 \<times> bool \<times> ('c, 'f, 'x) arm_fun) list" where
  "step_jmp32 v =
     [(JEQ32_IMM, enable_jmp32 v, jmp_imm (\<lambda>d i. as32 d = as32 i)),
      (JEQ32_REG, enable_jmp32 v, jmp_reg (\<lambda>d x. as32 d = as32 x)),
      (JGT32_IMM, enable_jmp32 v, jmp_imm (\<lambda>d i. as32 d > as32 i)),
      (JGT32_REG, enable_jmp32 v, jmp_reg (\<lambda>d x. as32 d > as32 x)),
      (JGE32_IMM, enable_jmp32 v, jmp_imm (\<lambda>d i. as32 d \<ge> as32 i)),
      (JGE32_REG, enable_jmp32 v, jmp_reg (\<lambda>d x. as32 d \<ge> as32 x)),
      (JLT32_IMM, enable_jmp32 v, jmp_imm (\<lambda>d i. as32 d < as32 i)),
      (JLT32_REG, enable_jmp32 v, jmp_reg (\<lambda>d x. as32 d < as32 x)),
      (JLE32_IMM, enable_jmp32 v, jmp_imm (\<lambda>d i. as32 d \<le> as32 i)),
      (JLE32_REG, enable_jmp32 v, jmp_reg (\<lambda>d x. as32 d \<le> as32 x)),
      (JSET32_IMM, enable_jmp32 v, jmp_imm (\<lambda>d i. as32 d AND as32 i \<noteq> 0)),
      (JSET32_REG, enable_jmp32 v, jmp_reg (\<lambda>d x. as32 d AND as32 x \<noteq> 0)),
      (JNE32_IMM, enable_jmp32 v, jmp_imm (\<lambda>d i. as32 d \<noteq> as32 i)),
      (JNE32_REG, enable_jmp32 v, jmp_reg (\<lambda>d x. as32 d \<noteq> as32 x)),
      (JSGT32_IMM, enable_jmp32 v, jmp_imm (\<lambda>d i. sint (as32 d) > sint (as32 i))),
      (JSGT32_REG, enable_jmp32 v, jmp_reg (\<lambda>d x. sint (as32 d) > sint (as32 x))),
      (JSGE32_IMM, enable_jmp32 v, jmp_imm (\<lambda>d i. sint (as32 d) \<ge> sint (as32 i))),
      (JSGE32_REG, enable_jmp32 v, jmp_reg (\<lambda>d x. sint (as32 d) \<ge> sint (as32 x))),
      (JSLT32_IMM, enable_jmp32 v, jmp_imm (\<lambda>d i. sint (as32 d) < sint (as32 i))),
      (JSLT32_REG, enable_jmp32 v, jmp_reg (\<lambda>d x. sint (as32 d) < sint (as32 x))),
      (JSLE32_IMM, enable_jmp32 v, jmp_imm (\<lambda>d i. sint (as32 d) \<le> sint (as32 i))),
      (JSLE32_REG, enable_jmp32 v, jmp_reg (\<lambda>d x. sint (as32 d) \<le> sint (as32 x)))]"

definition step_jmp64 :: "(u8 \<times> bool \<times> ('c, 'f, 'x) arm_fun) list" where
  "step_jmp64 =
     [(JA, True, \<lambda>s insn next_pc. Next s (next_pc + scast (off insn))),
      (JEQ64_IMM, True, jmp_imm (\<lambda>d i. d = i)),
      (JEQ64_REG, True, jmp_reg (\<lambda>d x. d = x)),
      (JGT64_IMM, True, jmp_imm (\<lambda>d i. d > i)),
      (JGT64_REG, True, jmp_reg (\<lambda>d x. d > x)),
      (JGE64_IMM, True, jmp_imm (\<lambda>d i. d \<ge> i)),
      (JGE64_REG, True, jmp_reg (\<lambda>d x. d \<ge> x)),
      (JLT64_IMM, True, jmp_imm (\<lambda>d i. d < i)),
      (JLT64_REG, True, jmp_reg (\<lambda>d x. d < x)),
      (JLE64_IMM, True, jmp_imm (\<lambda>d i. d \<le> i)),
      (JLE64_REG, True, jmp_reg (\<lambda>d x. d \<le> x)),
      (JSET64_IMM, True, jmp_imm (\<lambda>d i. d AND i \<noteq> 0)),
      (JSET64_REG, True, jmp_reg (\<lambda>d x. d AND x \<noteq> 0)),
      (JNE64_IMM, True, jmp_imm (\<lambda>d i. d \<noteq> i)),
      (JNE64_REG, True, jmp_reg (\<lambda>d x. d \<noteq> x)),
      (JSGT64_IMM, True, jmp_imm (\<lambda>d i. sint d > sint i)),
      (JSGT64_REG, True, jmp_reg (\<lambda>d x. sint d > sint x)),
      (JSGE64_IMM, True, jmp_imm (\<lambda>d i. sint d \<ge> sint i)),
      (JSGE64_REG, True, jmp_reg (\<lambda>d x. sint d \<ge> sint x)),
      (JSLT64_IMM, True, jmp_imm (\<lambda>d i. sint d < sint i)),
      (JSLT64_REG, True, jmp_reg (\<lambda>d x. sint d < sint x)),
      (JSLE64_IMM, True, jmp_imm (\<lambda>d i. sint d \<le> sint i)),
      (JSLE64_REG, True, jmp_reg (\<lambda>d x. sint d \<le> sint x))]"

text \<open>Calls and returns.\<close>

definition callx_arm :: "Config \<Rightarrow> ('c, 'f, 'x) arm_fun" where
  "callx_arm cfg s insn next_pc =
     rd s (if callx_uses_src_reg (version s) then src_of insn
           else if callx_uses_dst_reg (version s) then dst_of insn
           else unat (imm insn))
       (\<lambda>target.
          case push_frame cfg s of
            None \<Rightarrow> Panic
          | Some (Err s) \<Rightarrow> Return s
          | Some (Ok s) \<Rightarrow> check_pc s ((target - program_vm_addr s) div of_nat INSN_SIZE))"

text \<open>The part of \<open>CALL_IMM\<close> that looks for a system call; the flag is \<open>resolved\<close>.\<close>

definition call_external ::
  "('c, 'f, 'x) Env \<Rightarrow> ('c, 'f, 'x) Interp \<Rightarrow> Insn
     \<Rightarrow> (bool \<times> ('c, 'f, 'x) Interp, ('c, 'f, 'x) Interp) result option"
where
  "call_external env s insn =
     (if \<not> static_syscalls (version s) \<or> src insn = 0 then
        (case lookup_by_key (get_function_registry (get_loader (executable s))) (ucast (imm insn)) of
           None \<Rightarrow> Some (Ok (False, s))
         | Some (_, function) \<Rightarrow>
             (case dispatch_syscall env function s of
                None \<Rightarrow> None
              | Some (Ok val, s) \<Rightarrow> Some (Ok (True, s\<lparr>reg := (reg s)[0 := val]\<rparr>))
              | Some (Err _, s) \<Rightarrow> Some (Err s)))
      else Some (Ok (False, s)))"

definition call_internal ::
  "Config \<Rightarrow> bool \<Rightarrow> ('c, 'f, 'x) arm_fun"
where
  "call_internal cfg resolved s insn next_pc =
     (let unresolved = (if resolved then Next s next_pc
                        else Return (throw_error s UnsupportedInstruction)) in
      if static_syscalls (version s) then
        let target = saturating_add_signed next_pc (imm insn) in
        if is_pc_in_program (program s) target \<and> src insn = 1 then
          (case push_frame cfg s of
             None \<Rightarrow> Panic
           | Some (Err s) \<Rightarrow> Return s
           | Some (Ok s) \<Rightarrow> Next s target)
        else unresolved
      else
        (case lookup_by_key (exe_get_function_registry (executable s)) (ucast (imm insn)) of
           None \<Rightarrow> unresolved
         | Some (_, target) \<Rightarrow>
             (case push_frame cfg s of
                None \<Rightarrow> Panic
              | Some (Err s) \<Rightarrow> Return s
              | Some (Ok s) \<Rightarrow> check_pc s target)))"

definition call_arm :: "('c, 'f, 'x) Env \<Rightarrow> Config \<Rightarrow> ('c, 'f, 'x) arm_fun" where
  "call_arm env cfg s insn next_pc =
     (case call_external env s insn of
        None \<Rightarrow> Panic
      | Some (Err s) \<Rightarrow> Return s
      | Some (Ok (resolved, s)) \<Rightarrow> call_internal cfg resolved s insn next_pc)"

definition exit_arm :: "Config \<Rightarrow> ('c, 'f, 'x) arm_fun" where
  "exit_arm cfg s insn next_pc =
     (if call_depth (vm s) = 0 then
        if enable_instruction_meter cfg \<and> due_insn_count (vm s) > previous_instruction_meter (vm s)
        then Return (throw_error s ExceededMaxInstructions)
        else Return (s\<lparr>vm := (vm s)\<lparr>program_result := Ok (reg s ! 0)\<rparr>\<rparr>)
      else
        let depth = call_depth (vm s) - 1;
            s = s\<lparr>vm := (vm s)\<lparr>call_depth := depth\<rparr>\<rparr>
        in if \<not> unat depth < length (call_frames (vm s)) then Panic
           else
             let frame = call_frames (vm s) ! unat depth;
                 s = s\<lparr>reg := take FIRST_SCRATCH_REG (reg s) @ caller_saved_registers frame
                                 @ drop (FIRST_SCRATCH_REG + SCRATCH_REGS)
                                     ((reg s)[FRAME_PTR_REG := frame_pointer frame])\<rparr>
             in check_pc s (target_pc frame))"

definition step_calls ::
  "('c, 'f, 'x) Env \<Rightarrow> Config \<Rightarrow> (u8 \<times> bool \<times> ('c, 'f, 'x) arm_fun) list"
where
  "step_calls env cfg =
     [(CALL_REG, True, callx_arm cfg),
      (CALL_IMM, True, call_arm env cfg),
      (EXIT, True, exit_arm cfg)]"

definition step_arms ::
  "('c, 'f, 'x) Env \<Rightarrow> Config \<Rightarrow> SBPFVersion \<Rightarrow> (u8 \<times> bool \<times> ('c, 'f, 'x) arm_fun) list"
where
  "step_arms env cfg v =
     step_ld v @ step_ldx v @ step_st v @ step_stx v @ step_alu32_load v @ step_alu64_store v
       @ step_pqr v @ step_jmp32 v @ step_jmp64 @ step_calls env cfg"

lemmas step_arms_defs =
  step_arms_def step_ld_def step_ldx_def step_st_def step_stx_def step_alu32_load_def
  step_alu64_store_def step_pqr_def step_jmp32_def step_jmp64_def step_calls_def

section \<open>The step\<close>

text \<open>The match of \<open>step\<close> on a decoded instruction, and the assignment after it.\<close>

definition execute_insn ::
  "('c, 'f, 'x) Env \<Rightarrow> Config \<Rightarrow> ('c, 'f, 'x) Interp \<Rightarrow> Insn \<Rightarrow> ('c, 'f, 'x) Interp step"
where
  "execute_insn env cfg s insn =
     (let next_pc = reg s ! 11 + 1;
          arm = (case first_arm (step_arms env cfg (version s)) (opc insn) of
                   None \<Rightarrow> Return (throw_error s UnsupportedInstruction)
                 | Some f \<Rightarrow> f s insn next_pc)
      in case arm of
           Next s next_pc \<Rightarrow> Running (s\<lparr>reg := (reg s)[11 := next_pc]\<rparr>)
         | Return s \<Rightarrow> Halted s
         | Panic \<Rightarrow> Panicked)"

definition step :: "('c, 'f, 'x) Env \<Rightarrow> ('c, 'f, 'x) Interp \<Rightarrow> ('c, 'f, 'x) Interp step" where
  "step env s =
     (case exe_get_config (executable s) of
        None \<Rightarrow> Panicked
      | Some cfg \<Rightarrow>
          if enable_instruction_meter cfg \<and> due_insn_count (vm s) \<ge> previous_instruction_meter (vm s)
          then Halted (throw_error s ExceededMaxInstructions)
          else
            let s = s\<lparr>vm := (vm s)\<lparr>due_insn_count := due_insn_count (vm s) + 1\<rparr>\<rparr> in
            if unat (reg s ! 11 * of_nat INSN_SIZE) \<ge> length (program s)
            then Halted (throw_error s ExecutionOverrun)
            else
              (case get_insn_unchecked (program s) (reg s ! 11) of
                 None \<Rightarrow> Panicked
               | Some insn \<Rightarrow>
                   let s = (if enable_register_tracing cfg
                            then s\<lparr>vm := (vm s)\<lparr>register_trace := register_trace (vm s) @ [reg s]\<rparr>\<rparr>
                            else s)
                   in execute_insn env cfg s insn))"

text \<open>
  \<open>while interpreter.step() {}\<close>, at most \<open>fuel\<close> times: \<open>None\<close> when the fuel is used up.
\<close>

fun run :: "nat \<Rightarrow> ('c, 'f, 'x) Env \<Rightarrow> ('c, 'f, 'x) Interp \<Rightarrow> ('c, 'f, 'x) Interp step option" where
  "run 0 env s = None"
| "run (Suc fuel) env s =
     (case step env s of Running s \<Rightarrow> run fuel env s | r \<Rightarrow> Some r)"

text \<open>\<open>EbpfVm::execute_program\<close> before and after the interpreter runs.\<close>

definition start_program ::
  "('c, 'f, 'x) Env \<Rightarrow> ('c, 'f, 'x) EbpfVm \<Rightarrow> 'f Executable \<Rightarrow> ('c, 'f, 'x) EbpfVm"
where
  "start_program env m exe =
     m\<lparr>registers := (registers m)[11 := get_entrypoint_instruction_offset exe],
       previous_instruction_meter := get_remaining env (context_object_pointer m),
       due_insn_count := 0,
       program_result := Ok 0\<rparr>"

definition finish_program ::
  "('c, 'f, 'x) Env \<Rightarrow> Config \<Rightarrow> u64 \<Rightarrow> ('c, 'f, 'x) EbpfVm
     \<Rightarrow> u64 \<times> 'x ProgramResult \<times> ('c, 'f, 'x) EbpfVm"
where
  "finish_program env cfg initial_insn_count m =
     (let ctx = (if enable_instruction_meter cfg
                 then consume env (context_object_pointer m) (due_insn_count m)
                 else context_object_pointer m);
          instruction_count =
            (if enable_instruction_meter cfg
             then saturating_sub initial_insn_count (get_remaining env ctx) else 0)
      in (instruction_count, program_result m,
          m\<lparr>context_object_pointer := ctx, program_result := Ok 0\<rparr>))"

text \<open>
  \<open>EbpfVm::execute_program\<close> with \<open>interpreted = true\<close>: the instruction count, the result and the
  machine afterwards.  The outer \<open>None\<close> is a lack of fuel, \<open>Some None\<close> a panic.
\<close>

definition execute_program ::
  "nat \<Rightarrow> ('c, 'f, 'x) Env \<Rightarrow> ('c, 'f, 'x) EbpfVm \<Rightarrow> 'f Executable
     \<Rightarrow> (u64 \<times> 'x ProgramResult \<times> ('c, 'f, 'x) EbpfVm) option option"
where
  "execute_program fuel env m exe =
     (let initial_insn_count = get_remaining env (context_object_pointer m);
          m = start_program env m exe
      in case (exe_get_config exe, new_interpreter m exe (registers m)) of
           (Some cfg, Some interp) \<Rightarrow>
             (case run fuel env interp of
                None \<Rightarrow> None
              | Some (Halted s) \<Rightarrow> Some (Some (finish_program env cfg initial_insn_count (vm s)))
              | Some _ \<Rightarrow> Some None)
         | _ \<Rightarrow> Some None)"

end
