(* ===== verification/Arm_Safety.thy ===== *)
theory Arm_Safety
  imports Interpreter Mapping_Safety
begin

text \<open>
  The arms of the interpreter against the checks of the verifier: both know the same opcodes, and an
  arm does not panic when the check that the verifier makes for its opcode holds.
\<close>

unbundle bit_operations_syntax

section \<open>Arms that only compute\<close>

text \<open>
  Most arms change registers and memory and nothing else of the machine, and go on with the next
  instruction.
\<close>

definition quiet :: "('c, 'f, 'x) Interp \<Rightarrow> ('c, 'f, 'x) Interp \<Rightarrow> bool" where
  "quiet s s' \<longleftrightarrow>
     length (reg s') = length (reg s) \<and>
     s' = s\<lparr>reg := reg s',
            vm := (vm s)\<lparr>memory_mapping := memory_mapping (vm s'), host := host (vm s')\<rparr>\<rparr>"

definition thrown :: "('c, 'f, 'x) Interp \<Rightarrow> ('c, 'f, 'x) Interp \<Rightarrow> bool" where
  "thrown s s' \<longleftrightarrow> (\<exists>t err. quiet s t \<and> s' = throw_error t err)"

definition operands_ok :: "Insn \<Rightarrow> bool" where
  "operands_ok insn \<longleftrightarrow> dst insn \<le> 10 \<and> src insn \<le> 10"

fun arm_result :: "('s \<Rightarrow> u64 \<Rightarrow> bool) \<Rightarrow> ('s \<Rightarrow> bool) \<Rightarrow> 's arm \<Rightarrow> bool" where
  "arm_result P Q (Next s pc) = P s pc"
| "arm_result P Q (Return s) = Q s"
| "arm_result P Q Panic = False"

definition tame :: "('c, 'f, 'x) arm_fun \<Rightarrow> bool" where
  "tame f \<longleftrightarrow>
     (\<forall>s insn next_pc. length (reg s) = 12 \<longrightarrow> operands_ok insn \<longrightarrow>
        arm_result (\<lambda>s' pc. pc = next_pc \<and> quiet s s') (thrown s) (f s insn next_pc))"

lemma quiet_refl [simp]: "quiet s s"
  by (simp add: quiet_def)

lemma quietE:
  assumes "quiet s s'"
  obtains r mm mem where "length r = length (reg s)"
    "s' = s\<lparr>reg := r, vm := (vm s)\<lparr>memory_mapping := mm, host := mem\<rparr>\<rparr>"
  using assms unfolding quiet_def by (elim conjE) (rule that)

lemma quiet_reg [simp]: "length (reg s) = 12 \<Longrightarrow> quiet s (s\<lparr>reg := (reg s)[i := x]\<rparr>)"
  by (simp add: quiet_def)

lemma thrown_throw [simp]: "thrown s (throw_error s err)"
  unfolding thrown_def using quiet_refl by blast

lemma operands_less [simp]:
  "operands_ok insn \<Longrightarrow> unat (dst insn) < 12" "operands_ok insn \<Longrightarrow> unat (src insn) < 12"
  unfolding operands_ok_def by (auto simp: word_le_nat_alt)

named_theorems tame_rules

lemma tame_alu_imm [tame_rules]: "tame (alu_imm f)"
  by (simp add: tame_def alu_imm_def rd_def wr_def)

lemma tame_alu_reg [tame_rules]: "tame (alu_reg f)"
  by (simp add: tame_def alu_reg_def rd_def wr_def)

lemma tame_div_reg [tame_rules]: "tame (div_reg z ov f)"
  by (simp add: tame_def div_reg_def rd_def wr_def)

lemma tame_le [tame_rules]: "tame le_arm"
  by (simp add: tame_def le_arm_def rd_def wr_def)

lemma tame_be [tame_rules]: "tame be_arm"
  by (simp add: tame_def be_arm_def rd_def wr_def)

lemma thrownI: "quiet s t \<Longrightarrow> thrown s (throw_error t err)"
  unfolding thrown_def by blast

lemma quiet_memory [simp]:
  "quiet s (s\<lparr>vm := (vm s)\<lparr>memory_mapping := mm\<rparr>\<rparr>)"
  "quiet s (s\<lparr>vm := (vm s)\<lparr>memory_mapping := mm, host := mem\<rparr>\<rparr>)"
  "length (reg s) = 12 \<Longrightarrow> quiet s (s\<lparr>vm := (vm s)\<lparr>memory_mapping := mm\<rparr>, reg := (reg s)[i := x]\<rparr>)"
  by (simp_all add: quiet_def)

lemma tame_load [tame_rules]: "tame (load_arm n)"
  by (auto simp: tame_def load_arm_def rd_def wr_def Let_def intro: thrownI
      split: prod.splits result.splits)

lemma tame_store_value:
  "arm_result (\<lambda>s' pc. pc = next_pc \<and> quiet s s') (thrown s) (store_value n s x a next_pc)"
  by (auto simp: store_value_def intro: thrownI split: prod.splits result.splits)

lemma tame_store [tame_rules]: "tame (store_imm_arm n)" "tame (store_reg_arm n)"
  by (simp_all add: tame_def store_imm_arm_def store_reg_arm_def rd_def tame_store_value)

section \<open>Arms that need a check\<close>

text \<open>
  The other arms rest on what the verifier checked: divisions by an immediate, jumps, the wide load
  and the calls.
\<close>

definition div_like :: "('c, 'f, 'x) arm_fun \<Rightarrow> bool" where
  "div_like f \<longleftrightarrow>
     (\<forall>s insn next_pc. length (reg s) = 12 \<longrightarrow> operands_ok insn \<longrightarrow>
        insn_encodable insn \<longrightarrow> imm insn \<noteq> 0 \<longrightarrow>
        arm_result (\<lambda>s' pc. pc = next_pc \<and> quiet s s') (thrown s) (f s insn next_pc))"

definition jump_like :: "('c, 'f, 'x) arm_fun \<Rightarrow> bool" where
  "jump_like f \<longleftrightarrow>
     (\<forall>s insn next_pc. operands_ok insn \<longrightarrow>
        f s insn next_pc = Next s next_pc \<or> f s insn next_pc = Next s (next_pc + scast (off insn)))"

definition safe_under ::
  "('c, 'f, 'x) Env \<Rightarrow> Config \<Rightarrow> insn_check \<Rightarrow> ('c, 'f, 'x) arm_fun \<Rightarrow> bool"
where
  "safe_under env cfg c f \<longleftrightarrow>
     tame f
     \<or> c = CheckImmNonzero \<and> div_like f
     \<or> c = CheckJmpOffset \<and> jump_like f
     \<or> c = CheckLoadDw \<and> f = lddw_arm
     \<or> c = CheckCallxRegister \<and> f = callx_arm cfg
     \<or> f = call_arm env cfg
     \<or> f = exit_arm cfg"

lemma as32_imm_eq_0:
  assumes "insn_encodable insn"
  shows "(ucast (imm insn) :: 32 word) = 0 \<longleftrightarrow> imm insn = 0"
  using assms unfolding insn_encodable_def by (metis scast_0 ucast_0)

lemma div_like_imm [simp]:
  "div_like (div_imm (\<lambda>i. (ucast i :: 32 word) = 0) ov f)" "div_like (div_imm (\<lambda>i. i = 0) ov f)"
  using as32_imm_eq_0 by (auto simp: div_like_def div_imm_def rd_def wr_def)

lemma jump_like_arms [simp]:
  "jump_like (jmp_imm cond)" "jump_like (jmp_reg cond)"
  "jump_like (\<lambda>s insn next_pc. Next s (next_pc + scast (off insn)))"
  by (auto simp: jump_like_def jmp_imm_def jmp_reg_def rd_def)

text \<open>Every arm of the interpreter is safe under the check the verifier makes for its opcode.\<close>

definition arms_safe ::
  "('c, 'f, 'x) Env \<Rightarrow> Config \<Rightarrow> SBPFVersion \<Rightarrow> Insn \<Rightarrow> (u8 \<times> bool \<times> ('c, 'f, 'x) arm_fun) list \<Rightarrow> bool"
where
  "arms_safe env cfg v insn arms \<longleftrightarrow>
     list_all (\<lambda>(x, guard, f). guard \<longrightarrow>
       (\<forall>c. first_arm (verifier_arms v insn) x = Some c \<longrightarrow> safe_under env cfg c f)) arms"

lemma safe_tame: "tame f \<Longrightarrow> safe_under env cfg c f"
  by (simp add: safe_under_def)

lemma arms_safe_memory:
  "arms_safe env cfg v insn (step_ldx v)" "arms_safe env cfg v insn (step_st v)"
  "arms_safe env cfg v insn (step_stx v)"
  by (simp_all add: arms_safe_def step_ldx_def step_st_def step_stx_def safe_tame tame_rules)

lemma arms_safe_ld: "arms_safe env cfg v insn (step_ld v)"
  by (auto simp: arms_safe_def step_ld_def safe_under_def load_dw_arm [THEN iffD2])

text \<open>The checks of divisions by an immediate and of jumps.\<close>

lemma check_of_div:
  "\<not> enable_pqr v \<Longrightarrow> first_arm (verifier_arms v insn) DIV32_IMM = Some CheckImmNonzero"
  "\<not> enable_pqr v \<Longrightarrow> first_arm (verifier_arms v insn) MOD32_IMM = Some CheckImmNonzero"
  "\<not> enable_pqr v \<Longrightarrow> first_arm (verifier_arms v insn) DIV64_IMM = Some CheckImmNonzero"
  "\<not> enable_pqr v \<Longrightarrow> first_arm (verifier_arms v insn) MOD64_IMM = Some CheckImmNonzero"
  "enable_pqr v \<Longrightarrow> first_arm (verifier_arms v insn) UDIV32_IMM = Some CheckImmNonzero"
  "enable_pqr v \<Longrightarrow> first_arm (verifier_arms v insn) UREM32_IMM = Some CheckImmNonzero"
  "enable_pqr v \<Longrightarrow> first_arm (verifier_arms v insn) UDIV64_IMM = Some CheckImmNonzero"
  "enable_pqr v \<Longrightarrow> first_arm (verifier_arms v insn) UREM64_IMM = Some CheckImmNonzero"
  "enable_pqr v \<Longrightarrow> first_arm (verifier_arms v insn) SDIV32_IMM = Some CheckImmNonzero"
  "enable_pqr v \<Longrightarrow> first_arm (verifier_arms v insn) SREM32_IMM = Some CheckImmNonzero"
  "enable_pqr v \<Longrightarrow> first_arm (verifier_arms v insn) SDIV64_IMM = Some CheckImmNonzero"
  "enable_pqr v \<Longrightarrow> first_arm (verifier_arms v insn) SREM64_IMM = Some CheckImmNonzero"
  by (simp_all add: verifier_arms_defs version_defs opcode_values)

lemma first_arm_skip:
  "list_all (\<lambda>(y, _). y AND 7 \<noteq> k) arms \<Longrightarrow> x AND 7 = k \<Longrightarrow> first_arm (arms @ arms') x = first_arm arms' x"
  by (induction arms) auto

text \<open>The jump classes 5 and 6 are not used by the arms before the jumps.\<close>

lemma first_arm_jmp64:
  assumes "x AND 7 = 5"
  shows "first_arm (verifier_arms v insn) x = first_arm (arms_jmp64 v) x"
proof -
  have "list_all (\<lambda>(y, _). y AND 7 \<noteq> 5) (arms_ld v @ arms_ldx v @ arms_st v @ arms_stx v
      @ arms_alu32_load v @ arms_alu64_store v insn @ arms_pqr v @ arms_jmp32 v)"
    by (simp add: verifier_arms_defs opcode_values)
  from first_arm_skip [OF this assms] show ?thesis by (simp add: verifier_arms_def)
qed

lemma first_arm_jmp32:
  assumes "x AND 7 = 6"
  shows "first_arm (verifier_arms v insn) x = first_arm (arms_pqr v @ arms_jmp32 v @ arms_jmp64 v) x"
proof -
  have "list_all (\<lambda>(y, _). y AND 7 \<noteq> 6) (arms_ld v @ arms_ldx v @ arms_st v @ arms_stx v
      @ arms_alu32_load v @ arms_alu64_store v insn)"
    by (simp add: verifier_arms_defs opcode_values)
  from first_arm_skip [OF this assms] show ?thesis by (simp add: verifier_arms_def)
qed

lemma check_of_jump64:
  "first_arm (verifier_arms v insn) JA = Some CheckJmpOffset"
  "first_arm (verifier_arms v insn) JEQ64_IMM = Some CheckJmpOffset"
  "first_arm (verifier_arms v insn) JEQ64_REG = Some CheckJmpOffset"
  "first_arm (verifier_arms v insn) JGT64_IMM = Some CheckJmpOffset"
  "first_arm (verifier_arms v insn) JGT64_REG = Some CheckJmpOffset"
  "first_arm (verifier_arms v insn) JGE64_IMM = Some CheckJmpOffset"
  "first_arm (verifier_arms v insn) JGE64_REG = Some CheckJmpOffset"
  "first_arm (verifier_arms v insn) JLT64_IMM = Some CheckJmpOffset"
  "first_arm (verifier_arms v insn) JLT64_REG = Some CheckJmpOffset"
  "first_arm (verifier_arms v insn) JLE64_IMM = Some CheckJmpOffset"
  "first_arm (verifier_arms v insn) JLE64_REG = Some CheckJmpOffset"
  "first_arm (verifier_arms v insn) JSET64_IMM = Some CheckJmpOffset"
  "first_arm (verifier_arms v insn) JSET64_REG = Some CheckJmpOffset"
  "first_arm (verifier_arms v insn) JNE64_IMM = Some CheckJmpOffset"
  "first_arm (verifier_arms v insn) JNE64_REG = Some CheckJmpOffset"
  "first_arm (verifier_arms v insn) JSGT64_IMM = Some CheckJmpOffset"
  "first_arm (verifier_arms v insn) JSGT64_REG = Some CheckJmpOffset"
  "first_arm (verifier_arms v insn) JSGE64_IMM = Some CheckJmpOffset"
  "first_arm (verifier_arms v insn) JSGE64_REG = Some CheckJmpOffset"
  "first_arm (verifier_arms v insn) JSLT64_IMM = Some CheckJmpOffset"
  "first_arm (verifier_arms v insn) JSLT64_REG = Some CheckJmpOffset"
  "first_arm (verifier_arms v insn) JSLE64_IMM = Some CheckJmpOffset"
  "first_arm (verifier_arms v insn) JSLE64_REG = Some CheckJmpOffset"
  by (simp_all add: first_arm_jmp64 arms_jmp64_def opcode_values)

lemma rank_V2: "3 \<le> version_rank v \<Longrightarrow> v = V2 \<longleftrightarrow> False"
  by auto

lemma check_of_jump32:
  "enable_jmp32 v \<Longrightarrow> first_arm (verifier_arms v insn) JEQ32_IMM = Some CheckJmpOffset"
  "enable_jmp32 v \<Longrightarrow> first_arm (verifier_arms v insn) JEQ32_REG = Some CheckJmpOffset"
  "enable_jmp32 v \<Longrightarrow> first_arm (verifier_arms v insn) JGT32_IMM = Some CheckJmpOffset"
  "enable_jmp32 v \<Longrightarrow> first_arm (verifier_arms v insn) JGT32_REG = Some CheckJmpOffset"
  "enable_jmp32 v \<Longrightarrow> first_arm (verifier_arms v insn) JGE32_IMM = Some CheckJmpOffset"
  "enable_jmp32 v \<Longrightarrow> first_arm (verifier_arms v insn) JGE32_REG = Some CheckJmpOffset"
  "enable_jmp32 v \<Longrightarrow> first_arm (verifier_arms v insn) JLT32_IMM = Some CheckJmpOffset"
  "enable_jmp32 v \<Longrightarrow> first_arm (verifier_arms v insn) JLT32_REG = Some CheckJmpOffset"
  "enable_jmp32 v \<Longrightarrow> first_arm (verifier_arms v insn) JLE32_IMM = Some CheckJmpOffset"
  "enable_jmp32 v \<Longrightarrow> first_arm (verifier_arms v insn) JLE32_REG = Some CheckJmpOffset"
  "enable_jmp32 v \<Longrightarrow> first_arm (verifier_arms v insn) JSET32_IMM = Some CheckJmpOffset"
  "enable_jmp32 v \<Longrightarrow> first_arm (verifier_arms v insn) JSET32_REG = Some CheckJmpOffset"
  "enable_jmp32 v \<Longrightarrow> first_arm (verifier_arms v insn) JNE32_IMM = Some CheckJmpOffset"
  "enable_jmp32 v \<Longrightarrow> first_arm (verifier_arms v insn) JNE32_REG = Some CheckJmpOffset"
  "enable_jmp32 v \<Longrightarrow> first_arm (verifier_arms v insn) JSGT32_IMM = Some CheckJmpOffset"
  "enable_jmp32 v \<Longrightarrow> first_arm (verifier_arms v insn) JSGT32_REG = Some CheckJmpOffset"
  "enable_jmp32 v \<Longrightarrow> first_arm (verifier_arms v insn) JSGE32_IMM = Some CheckJmpOffset"
  "enable_jmp32 v \<Longrightarrow> first_arm (verifier_arms v insn) JSGE32_REG = Some CheckJmpOffset"
  "enable_jmp32 v \<Longrightarrow> first_arm (verifier_arms v insn) JSLT32_IMM = Some CheckJmpOffset"
  "enable_jmp32 v \<Longrightarrow> first_arm (verifier_arms v insn) JSLT32_REG = Some CheckJmpOffset"
  "enable_jmp32 v \<Longrightarrow> first_arm (verifier_arms v insn) JSLE32_IMM = Some CheckJmpOffset"
  "enable_jmp32 v \<Longrightarrow> first_arm (verifier_arms v insn) JSLE32_REG = Some CheckJmpOffset"
  by (simp_all add: first_arm_jmp32 arms_pqr_def arms_jmp32_def version_defs opcode_values rank_V2)

lemma check_of_callx: "first_arm (verifier_arms v insn) CALL_REG = Some CheckCallxRegister"
  by (simp add: first_arm_jmp64 arms_jmp64_def opcode_values)

lemma safe_div: "div_like f \<Longrightarrow> safe_under env cfg CheckImmNonzero f"
  by (simp add: safe_under_def)

lemma safe_jump: "jump_like f \<Longrightarrow> safe_under env cfg CheckJmpOffset f"
  by (simp add: safe_under_def)

lemma arms_safe_alu32: "arms_safe env cfg v insn (step_alu32_load v)"
  by (simp add: arms_safe_def step_alu32_load_def safe_tame tame_rules check_of_div safe_div)

lemma arms_safe_alu64: "arms_safe env cfg v insn (step_alu64_store v)"
  by (simp add: arms_safe_def step_alu64_store_def safe_tame tame_rules check_of_div safe_div)

lemma arms_safe_pqr: "arms_safe env cfg v insn (step_pqr v)"
  by (simp add: arms_safe_def step_pqr_def safe_tame tame_rules check_of_div safe_div)

lemma arms_safe_jmp32: "arms_safe env cfg v insn (step_jmp32 v)"
  by (simp add: arms_safe_def step_jmp32_def check_of_jump32 safe_jump)

lemma arms_safe_jmp64: "arms_safe env cfg v insn step_jmp64"
  by (simp add: arms_safe_def step_jmp64_def check_of_jump64 safe_jump)

lemma arms_safe_calls: "arms_safe env cfg v insn (step_calls env cfg)"
  by (simp add: arms_safe_def step_calls_def check_of_callx safe_under_def)

lemma arm_safe_under:
  assumes "first_arm (step_arms env cfg v) x = Some f" "first_arm (verifier_arms v insn) x = Some c"
  shows "safe_under env cfg c f"
proof -
  have "arms_safe env cfg v insn (step_arms env cfg v)"
    unfolding step_arms_def
    using arms_safe_ld [of env cfg v insn] arms_safe_memory [of env cfg v insn]
      arms_safe_alu32 [of env cfg v insn] arms_safe_alu64 [of env cfg v insn]
      arms_safe_pqr [of env cfg v insn] arms_safe_jmp32 [of env cfg v insn]
      arms_safe_jmp64 [of env cfg v insn] arms_safe_calls [of env cfg v insn]
    by (simp add: arms_safe_def)
  with first_arm_mem [OF assms(1)] assms(2) show ?thesis
    unfolding arms_safe_def list_all_iff by fastforce
qed

section \<open>Known opcodes\<close>

definition patterns :: "(u8 \<times> bool \<times> 'a) list \<Rightarrow> (u8 \<times> bool) list" where
  "patterns arms = map (\<lambda>(x, guard, _). (x, guard)) arms"

lemma first_arm_None: "first_arm arms x = None \<longleftrightarrow> (x, True) \<notin> set (patterns arms)"
  unfolding patterns_def by (induction arms x rule: first_arm.induct) auto

lemma patterns_append: "patterns (a @ b) = patterns a @ patterns b"
  by (simp add: patterns_def)

lemma patterns_agree:
  "patterns (step_ld v) = patterns (arms_ld v)"
  "patterns (step_ldx v) = patterns (arms_ldx v)"
  "patterns (step_st v) = patterns (arms_st v)"
  "patterns (step_stx v) = patterns (arms_stx v)"
  "patterns (step_alu32_load v) = patterns (arms_alu32_load v)"
  "patterns (step_pqr v) = patterns (arms_pqr v)"
  "patterns (step_jmp32 v) = patterns (arms_jmp32 v)"
  by (simp_all add: patterns_def step_ld_def arms_ld_def step_ldx_def arms_ldx_def step_st_def
      arms_st_def step_stx_def arms_stx_def step_alu32_load_def arms_alu32_load_def
      step_pqr_def arms_pqr_def step_jmp32_def arms_jmp32_def)

text \<open>The verifier has a second arm for \<open>ADD64_IMM\<close> on the frame pointer.\<close>

lemma patterns_alu64:
  fixes v :: SBPFVersion
  defines "arms \<equiv> step_alu64_store v :: (u8 \<times> bool \<times> ('c, 'f, 'x) arm_fun) list"
  shows "(x, True) \<in> set (patterns arms) \<longleftrightarrow> (x, True) \<in> set (patterns (arms_alu64_store v insn))"
proof -
  have "\<exists>g. patterns (arms_alu64_store v insn) = (ADD64_IMM, g) # patterns arms"
    by (simp add: patterns_def arms_def step_alu64_store_def arms_alu64_store_def)
  moreover have "(ADD64_IMM, True) \<in> set (patterns arms)"
    by (simp add: patterns_def arms_def step_alu64_store_def)
  ultimately show ?thesis by auto
qed

lemma patterns_jumps:
  "set (patterns (step_jmp64 :: (u8 \<times> bool \<times> ('c, 'f, 'x) arm_fun) list))
     \<union> set (patterns (step_calls (env :: ('c, 'f, 'x) Env) cfg)) = set (patterns (arms_jmp64 v))"
proof -
  have "patterns (arms_jmp64 v) =
      patterns (step_jmp64 :: (u8 \<times> bool \<times> ('c, 'f, 'x) arm_fun) list) @ [(CALL_IMM, True), (CALL_REG, True), (EXIT, True)]"
    by (simp add: patterns_def step_jmp64_def arms_jmp64_def)
  moreover have "patterns (step_calls env cfg) = [(CALL_REG, True), (CALL_IMM, True), (EXIT, True)]"
    by (simp add: patterns_def step_calls_def)
  ultimately show ?thesis by auto
qed

lemma known_opcodes:
  "first_arm (step_arms env cfg v) x = None \<longleftrightarrow> first_arm (verifier_arms v insn) x = None"
  using patterns_jumps [of env cfg v]
  by (simp add: first_arm_None step_arms_def verifier_arms_def patterns_append patterns_agree
      patterns_alu64 [of x v insn])

end
