(* ===== verification/Execution.thy ===== *)
theory Execution
  imports Arm_Safety
begin

text \<open>
  What the interpreter guarantees for programs the verifier accepts: it never panics, the program
  counter stays inside the program, the call stack stays inside its bound, and with the instruction
  meter on every run ends.
\<close>

unbundle bit_operations_syntax

section \<open>Invariant\<close>

definition frames_ok :: "Config \<Rightarrow> ('c, 'f, 'x) EbpfVm \<Rightarrow> bool" where
  "frames_ok cfg m \<longleftrightarrow>
     length (call_frames m) = unat (max_call_depth cfg)
     \<and> unat (call_depth m) < unat (max_call_depth cfg)
     \<and> list_all (\<lambda>frame. length (caller_saved_registers frame) = SCRATCH_REGS) (call_frames m)"

definition accepted :: "Config \<Rightarrow> ('c, 'f, 'x) Interp \<Rightarrow> bool" where
  "accepted cfg s \<longleftrightarrow>
     exe_get_config (executable s) = Some cfg
     \<and> slice_len_ok (program s)
     \<and> verify (program s) cfg (version s) = Some (Ok ())"

definition stable :: "Config \<Rightarrow> ('c, 'f, 'x) Interp \<Rightarrow> ('c, 'f, 'x) Interp \<Rightarrow> bool" where
  "stable cfg s s' \<longleftrightarrow>
     length (reg s') = 12 \<and> frames_ok cfg (vm s') \<and> executable s' = executable s
     \<and> program s' = program s \<and> vm_loader (vm s') = vm_loader (vm s)"

definition exec_inv :: "Config \<Rightarrow> ('c, 'f, 'x) Interp \<Rightarrow> bool" where
  "exec_inv cfg s \<longleftrightarrow>
     accepted cfg s \<and> stable cfg s s
     \<and> get_config (vm_loader (vm s)) = Some cfg
     \<and> unat (reg s ! 11) \<le> insn_count (program s)"

section \<open>Accepted programs\<close>

lemma accepted_char:
  assumes "accepted cfg s"
  shows "length (program s) = 8 * insn_count (program s)" "program s \<noteq> []"
    and "p \<in> insn_starts (program s) (version s) \<Longrightarrow> p < insn_count (program s) \<Longrightarrow>
      insn_accepted (program s) (version s) p"
  using assms verify_char(2) [of "program s" cfg "version s"]
  by (auto simp: accepted_def insn_count_def)

lemma start_or_second_slot:
  "p \<le> insn_count prog \<Longrightarrow>
     p \<in> insn_starts prog v \<or> (\<exists>q \<in> insn_starts prog v. p = q + 1 \<and> is_lddw prog v q)"
proof (induction p)
  case 0
  then show ?case by (simp add: insn_starts.first)
next
  case (Suc p)
  then consider "p \<in> insn_starts prog v" | q where "q \<in> insn_starts prog v" "p = q + 1" "is_lddw prog v q"
    by auto
  then show ?case
  proof cases
    case 1
    then show ?thesis using Suc.prems insn_starts.single [of p prog v] by auto
  next
    case (2 q)
    then show ?thesis using Suc.prems insn_starts.wide [of q prog v] by auto
  qed
qed

lemma accepted_insn:
  assumes "accepted cfg s" "p < insn_count (program s)"
  shows "insn_accepted (program s) (version s) p \<or> opc (insn_at (program s) p) = 0"
proof -
  consider "p \<in> insn_starts (program s) (version s)"
    | q where "q \<in> insn_starts (program s) (version s)" "p = q + 1" "is_lddw (program s) (version s) q"
    using start_or_second_slot [of p "program s" "version s"] assms(2) by auto
  then show ?thesis
  proof cases
    case 1
    then show ?thesis using accepted_char(3) [OF assms(1)] assms(2) by blast
  next
    case (2 q)
    then have "insn_accepted (program s) (version s) q"
      using accepted_char(3) [OF assms(1)] assms(2) by simp
    then show ?thesis
      using 2(2,3) load_dw_arm [of "version s" "insn_at (program s) q" LD_DW_IMM]
      by (simp add: insn_accepted_def is_lddw_def Let_def)
  qed
qed

lemma no_arm_for_zero: "first_arm (step_arms env cfg v) 0 = None"
  using known_opcodes [of env cfg v 0 undefined] by (simp add: verifier_arms_defs opcode_values)

lemma insn_at_encodable: "insn_encodable (insn_at prog p)"
proof -
  have "b AND 0x0f < 16" for b :: u8 using word_and_le1 [of b 15] by (auto intro: le_less_trans)
  moreover have "drop_bit 4 b < 16" for b :: u8
    using unsigned_less [of b, where 'a = nat]
    by (simp add: word_less_nat_alt drop_bit_eq_div unat_div)
  ultimately show ?thesis
    by (simp add: insn_encodable_def insn_at_def insn_of_bytes_def ucast_scast_i32 del: from_le_bytes.simps)
qed

lemma insn_at_ptr [simp]: "ptr (insn_at prog p) = of_nat p"
  by (simp add: insn_at_def insn_of_bytes_def)

lemma accepted_operands:
  "insn_accepted prog v p \<Longrightarrow> operands_ok (insn_at prog p)"
  by (auto simp: insn_accepted_def operands_ok_def registers_ok_def Let_def
      intro: order_trans split: option.splits)

lemma get_insn_pc:
  assumes "slice_len_ok prog" "unat pc < insn_count prog"
  shows "get_insn_unchecked prog pc = Some (insn_at prog (unat pc))"
  using get_insn_at [OF assms] by (simp add: get_insn_def)

section \<open>Calls and returns\<close>

lemma unat_suc: "unat (w :: u64) < unat (m :: u64) \<Longrightarrow> unat (w + 1) = unat w + 1"
  using unat_u64_less [of m] by (simp add: unat_word_ariths)

lemma push_frame_stable:
  assumes "stable cfg s s"
  shows "case push_frame cfg s of
      None \<Rightarrow> False | Some (Err _) \<Rightarrow> True
    | Some (Ok s') \<Rightarrow> stable cfg s s' \<and> reg s' ! 11 = reg s ! 11"
proof -
  have f: "frames_ok cfg (vm s)" "length (reg s) = 12" using assms by (simp_all add: stable_def)
  have d: "unat (call_depth (vm s)) < unat (max_call_depth cfg)" using f(1) by (simp add: frames_ok_def)
  let ?frame = "\<lparr>caller_saved_registers = take SCRATCH_REGS (drop FIRST_SCRATCH_REG (reg s)),
    frame_pointer = reg s ! FRAME_PTR_REG, target_pc = reg s ! 11 + 1\<rparr>"
  let ?m = "(vm s)\<lparr>call_frames := (call_frames (vm s))[unat (call_depth (vm s)) := ?frame],
    call_depth := call_depth (vm s) + 1\<rparr>"
  have "frames_ok cfg ?m" if "call_depth (vm s) + 1 \<noteq> max_call_depth cfg"
    using f d unat_suc [OF d] that by (auto simp: frames_ok_def word_unat_eq_iff intro!: list_all_update)
  then show ?thesis
    using assms f d by (auto simp: push_frame_def stable_def frames_ok_def Let_def)
qed

definition inside :: "Config \<Rightarrow> ('c, 'f, 'x) Interp \<Rightarrow> ('c, 'f, 'x) Interp arm \<Rightarrow> bool" where
  "inside cfg s = arm_result (\<lambda>s' pc. stable cfg s s' \<and> unat pc \<le> insn_count (program s)) (\<lambda>_. True)"

lemma inside_simps [simp]:
  "inside cfg s (Next s' pc) \<longleftrightarrow> stable cfg s s' \<and> unat pc \<le> insn_count (program s)"
  "inside cfg s (Return s')" "\<not> inside cfg s Panic"
  by (simp_all add: inside_def)

lemma stable_fields:
  "stable cfg s s' \<Longrightarrow> program s' = program s" "stable cfg s s' \<Longrightarrow> executable s' = executable s"
  "stable cfg s s' \<Longrightarrow> stable cfg s' s'"
  by (simp_all add: stable_def)

lemma check_pc_inside [simp]:
  "slice_len_ok (program s) \<Longrightarrow> stable cfg s s' \<Longrightarrow> inside cfg s (check_pc s' pc)"
  by (auto simp: check_pc_def is_pc_in_program_iff insn_count_def stable_fields)

lemma exit_inside:
  assumes "stable cfg s s" "slice_len_ok (program s)"
  shows "inside cfg s (exit_arm cfg s insn next_pc)"
proof (cases "call_depth (vm s) = 0")
  case True
  then show ?thesis by (simp add: exit_arm_def inside_def)
next
  case False
  let ?depth = "call_depth (vm s) - 1"
  have d: "unat ?depth = unat (call_depth (vm s)) - 1"
    using False by (simp add: unat_minus_one)
  have f: "length (reg s) = 12" "frames_ok cfg (vm s)" using assms by (simp_all add: stable_def)
  then have i: "unat ?depth < length (call_frames (vm s))" using d by (auto simp: frames_ok_def)
  then have "length (caller_saved_registers (call_frames (vm s) ! unat ?depth)) = SCRATCH_REGS"
    using f(2) by (auto simp: frames_ok_def list_all_iff)
  then show ?thesis
    unfolding exit_arm_def using False i f d assms
    by (auto simp: Let_def stable_def frames_ok_def intro!: check_pc_inside)
qed

lemma unat_small_sint: "0 \<le> sint w \<Longrightarrow> sint w < 10 \<Longrightarrow> unat w < 12" for w :: i64
  by (simp add: unat_eq_nat_uint uint_sint take_bit_eq_mod)

lemma callx_inside:
  assumes "stable cfg s s" "slice_len_ok (program s)" "operands_ok insn"
    and "is_ok (check_callx_register insn p (version s))"
  shows "inside cfg s (callx_arm cfg s insn next_pc)"
proof -
  have "(if callx_uses_src_reg (version s) then unat (src insn)
      else if callx_uses_dst_reg (version s) then unat (dst insn) else unat (imm insn)) < 12"
    using assms(3,4) unat_small_sint by (auto simp: check_callx_register_def Let_def split: if_splits)
  with push_frame_stable [OF assms(1)] show ?thesis
    unfolding callx_arm_def rd_def using assms(2) by (auto split: option.splits result.splits)
qed

text \<open>
  A system call changes the context object, the memory and the result, and resets the meter; the
  frames and the caller's registers stay.
\<close>

lemma dispatch_spec:
  assumes "get_config (vm_loader (vm s)) = Some cfg"
  obtains ctx args res ctx' mm mem m' where
    "ctx = (if enable_instruction_meter cfg
            then consume env (context_object_pointer (vm s)) (due_insn_count (vm s))
            else context_object_pointer (vm s))"
    "rust env f ctx args (memory_mapping (vm s)) (host (vm s)) = (res, ctx', mm, mem)"
    "dispatch_syscall env f s = Some (program_result m', s\<lparr>vm := m'\<rparr>)"
    "program_result m' = (case res of Ok x \<Rightarrow> Ok x | Err e \<Rightarrow> Err (SyscallError e))"
    "context_object_pointer m' = ctx'" "memory_mapping m' = mm" "host m' = mem"
    "due_insn_count m' = 0"
    "previous_instruction_meter m' =
       (if enable_instruction_meter cfg then get_remaining env ctx' else previous_instruction_meter (vm s))"
    "call_frames m' = call_frames (vm s)" "call_depth m' = call_depth (vm s)"
    "vm_loader m' = vm_loader (vm s)"
proof -
  let ?m = "(vm s)\<lparr>due_insn_count := previous_instruction_meter (vm s) - due_insn_count (vm s),
    registers := take 6 (reg s) @ drop 6 (registers (vm s))\<rparr>"
  let ?ctx = "if enable_instruction_meter cfg
    then consume env (context_object_pointer (vm s)) (due_insn_count (vm s)) else context_object_pointer (vm s)"
  let ?args = "map (\<lambda>i. registers ?m ! i) [1, 2, 3, 4, 5]"
  obtain res ctx' mm mem where r: "rust env f ?ctx ?args (memory_mapping (vm s)) (host (vm s)) = (res, ctx', mm, mem)"
    by (metis prod_cases4)
  define m' where "m' = ?m\<lparr>context_object_pointer := ctx', memory_mapping := mm, host := mem,
    program_result := (case res of Ok x \<Rightarrow> Ok x | Err e \<Rightarrow> Err (SyscallError e)),
    previous_instruction_meter :=
      (if enable_instruction_meter cfg then get_remaining env ctx' else previous_instruction_meter (vm s)),
    due_insn_count := 0\<rparr>"
  have "dispatch_syscall env f s = Some (program_result m', s\<lparr>vm := m'\<rparr>)"
    using assms r
    by (cases "enable_instruction_meter cfg")
      (simp_all add: dispatch_syscall_def invoke_function_def builtin_vm_def m'_def Let_def)
  from that [OF refl r this] show thesis by (simp add: m'_def)
qed

lemma dispatch_stable:
  assumes "stable cfg s s" "get_config (vm_loader (vm s)) = Some cfg"
  obtains res s' where "dispatch_syscall env f s = Some (res, s')" "stable cfg s s'" "reg s' = reg s"
proof -
  obtain m' where d: "dispatch_syscall env f s = Some (program_result m', s\<lparr>vm := m'\<rparr>)"
    "call_frames m' = call_frames (vm s)" "call_depth m' = call_depth (vm s)"
    "vm_loader m' = vm_loader (vm s)"
    by (rule dispatch_spec [OF assms(2), of env f]) blast
  from that [OF d(1)] show thesis using assms(1) d by (simp add: stable_def frames_ok_def)
qed

lemma call_external_stable:
  assumes "stable cfg s s" "get_config (vm_loader (vm s)) = Some cfg"
  shows "case call_external env s insn of
      None \<Rightarrow> False | Some (Err _) \<Rightarrow> True | Some (Ok (_, s')) \<Rightarrow> stable cfg s s'"
proof (cases "(\<not> static_syscalls (version s) \<or> src insn = 0) \<and>
    lookup_by_key (get_function_registry (get_loader (executable s))) (ucast (imm insn)) \<noteq> None")
  case True
  then obtain name f where f:
    "lookup_by_key (get_function_registry (get_loader (executable s))) (ucast (imm insn)) = Some (name, f)"
    by auto
  obtain res s' where d: "dispatch_syscall env f s = Some (res, s')" "stable cfg s s'" "reg s' = reg s"
    using dispatch_stable [OF assms] .
  then have "stable cfg s (s'\<lparr>reg := (reg s')[0 := x]\<rparr>)" for x by (simp add: stable_def)
  then show ?thesis using True f d by (cases res) (auto simp: call_external_def)
next
  case False
  then show ?thesis
    using assms(1) unfolding call_external_def
    by (cases "lookup_by_key (get_function_registry (get_loader (executable s))) (ucast (imm insn))") auto
qed

lemma call_internal_inside:
  assumes "stable cfg s s'" "slice_len_ok (program s)" "unat next_pc \<le> insn_count (program s)"
  shows "inside cfg s (call_internal cfg resolved s' insn next_pc)"
proof -
  have "stable cfg s s''" if "stable cfg s' s''" for s'' using assms(1) that by (simp add: stable_def)
  then show ?thesis
    using push_frame_stable [OF stable_fields(3) [OF assms(1)]] assms
    unfolding call_internal_def
    by (auto simp: Let_def is_pc_in_program_iff insn_count_def stable_fields
        split: option.splits result.splits)
qed

lemma call_inside:
  assumes "stable cfg s s" "get_config (vm_loader (vm s)) = Some cfg" "slice_len_ok (program s)"
    and "unat next_pc \<le> insn_count (program s)"
  shows "inside cfg s (call_arm env cfg s insn next_pc)"
  using call_external_stable [OF assms(1,2), of env insn] assms(3,4)
  unfolding call_arm_def by (auto split: option.splits result.splits intro: call_internal_inside)

section \<open>Steps\<close>

lemma quiet_stable: "quiet s s' \<Longrightarrow> stable cfg s s \<Longrightarrow> stable cfg s s'"
  by (elim quietE) (simp add: stable_def frames_ok_def)

lemma pc_plus:
  assumes "0 \<le> t" "t < 2 ^ 60" "t = int (unat pc) + 1 + sint w"
  shows "unat (pc + 1 + scast (w :: 16 word) :: u64) = nat t"
proof -
  have "scast w = (word_of_int (sint w) :: u64)" by (rule scast_eq)
  then have "pc + 1 + scast w = (word_of_int t :: u64)"
    unfolding assms(3) by (simp only: of_int_add of_int_1 of_nat_unat word_of_int_uint)
  then have "unat (pc + 1 + scast w :: u64) = nat (uint (word_of_int t :: u64))"
    by (simp only: unat_eq_nat_uint)
  also have "uint (word_of_int t :: u64) = t"
    using assms(1,2) by (simp only: uint_word_of_int) simp
  finally show ?thesis .
qed

lemma jump_inside:
  assumes "stable cfg s s" "slice_len_ok (program s)" "jump_like f"
    and "insn = insn_at (program s) (unat (reg s ! 11))" "operands_ok insn"
    and "check_holds CheckJmpOffset (program s) v (unat (reg s ! 11))"
    and "unat (reg s ! 11 + 1) \<le> insn_count (program s)"
  shows "inside cfg s (f s insn (reg s ! 11 + 1))"
proof -
  have "0 \<le> jump_target (program s) (unat (reg s ! 11))"
    "jump_target (program s) (unat (reg s ! 11)) < int (insn_count (program s))"
    using assms(6) by simp_all
  moreover have "insn_count (program s) < 2 ^ 60" using assms(2) by (simp add: insn_count_def slice_len_ok_def)
  ultimately have "unat (reg s ! 11 + 1 + scast (off insn)) \<le> insn_count (program s)"
    using pc_plus [of "jump_target (program s) (unat (reg s ! 11))" "reg s ! 11" "off insn"]
    by (simp add: jump_target_def assms(4))
  moreover have "f s insn (reg s ! 11 + 1) = Next s (reg s ! 11 + 1)
      \<or> f s insn (reg s ! 11 + 1) = Next s (reg s ! 11 + 1 + scast (off insn))"
    using assms(3,5) by (simp add: jump_like_def)
  ultimately show ?thesis using assms(1,7) by (elim disjE) simp_all
qed

lemma augment_Some:
  assumes "slice_len_ok prog" "8 * unat (ptr insn) + 16 \<le> length prog"
  shows "\<exists>i. augment_lddw_unchecked prog insn = Some (insn\<lparr>imm := i\<rparr>)"
  using unat_insn_next [OF assms] assms(2) read_i32_inside [of "8 * unat (ptr insn) + 12" prog]
  by (simp add: augment_lddw_unchecked_def del: from_le_bytes.simps) blast

lemma lddw_inside:
  assumes "stable cfg s s" "slice_len_ok (program s)"
    and "insn = insn_at (program s) (unat (reg s ! 11))" "operands_ok insn"
    and "check_holds CheckLoadDw (program s) v (unat (reg s ! 11))"
  shows "inside cfg s (lddw_arm s insn (reg s ! 11 + 1))"
proof -
  have l: "8 * unat (reg s ! 11) + 16 \<le> length (program s)" using assms(5) by (auto simp: insn_count_def)
  then obtain i where i: "augment_lddw_unchecked (program s) insn = Some (insn\<lparr>imm := i\<rparr>)"
    using augment_Some [OF assms(2), of insn] assms(3) by auto
  have "unat (reg s ! 11) < 2 ^ 60" using insn_count_less [OF assms(2)] assms(5) by simp
  then have "unat (reg s ! 11 + 2) = unat (reg s ! 11) + 2" by (simp add: unat_word_ariths)
  then have "unat (reg s ! 11 + 1 + 1) \<le> insn_count (program s)" using assms(5) by (simp add: add.assoc)
  with i assms(1,4) show ?thesis by (simp add: lddw_arm_def wr_def stable_def)
qed

lemma quiet_inside:
  "arm_result (\<lambda>s' pc. pc = next_pc \<and> quiet s s') (thrown s) r \<Longrightarrow> stable cfg s s \<Longrightarrow>
     unat next_pc \<le> insn_count (program s) \<Longrightarrow> inside cfg s r"
  by (cases r) (auto intro: quiet_stable)

lemma arm_inside:
  assumes inv: "exec_inv cfg s" and p: "unat (reg s ! 11) < insn_count (program s)"
    and insn: "insn = insn_at (program s) (unat (reg s ! 11))"
    and acc: "insn_accepted (program s) (version s) (unat (reg s ! 11))"
    and f: "first_arm (step_arms env cfg (version s)) (opc insn) = Some f"
  shows "inside cfg s (f s insn (reg s ! 11 + 1))"
proof -
  have st: "stable cfg s s" "slice_len_ok (program s)" "get_config (vm_loader (vm s)) = Some cfg"
    using inv by (simp_all add: exec_inv_def accepted_def)
  have "unat (reg s ! 11 + 1) = unat (reg s ! 11) + 1"
    using p insn_count_less [OF st(2) p] by (simp add: unat_word_ariths)
  then have np: "unat (reg s ! 11 + 1) \<le> insn_count (program s)" using p by simp
  have ops: "operands_ok insn" and enc: "insn_encodable insn"
    using accepted_operands [OF acc] insn_at_encodable insn by auto
  obtain c where c: "first_arm (verifier_arms (version s) insn) (opc insn) = Some c"
    "check_holds c (program s) (version s) (unat (reg s ! 11))"
    using acc insn by (auto simp: insn_accepted_def Let_def split: option.splits)
  have len: "length (reg s) = 12" using st(1) by (simp add: stable_def)
  from arm_safe_under [OF f c(1)] consider
    "tame f" | "c = CheckImmNonzero" "div_like f" | "c = CheckJmpOffset" "jump_like f"
    | "c = CheckLoadDw" "f = lddw_arm" | "c = CheckCallxRegister" "f = callx_arm cfg"
    | "f = call_arm env cfg" | "f = exit_arm cfg"
    unfolding safe_under_def by blast
  then show ?thesis
  proof cases
    case 1
    then show ?thesis using len ops st np unfolding tame_def by (blast intro: quiet_inside)
  next
    case 2
    then have "imm insn \<noteq> 0" using c(2) insn by simp
    then show ?thesis using 2(2) len ops enc st np unfolding div_like_def by (blast intro: quiet_inside)
  next
    case 3
    then show ?thesis using jump_inside [OF st(1,2) _ insn ops _ np] c(2) by blast
  next
    case 4
    then show ?thesis using lddw_inside [OF st(1,2) insn ops] c(2) by blast
  next
    case 5
    then show ?thesis using callx_inside [OF st(1,2) ops] c(2) insn by auto
  next
    case 6
    then show ?thesis using call_inside [OF st(1,3,2) np] by blast
  next
    case 7
    then show ?thesis using exit_inside [OF st(1,2)] by blast
  qed
qed

lemma execute_insn_inv:
  assumes inv: "exec_inv cfg s" and p: "unat (reg s ! 11) < insn_count (program s)"
  shows "case execute_insn env cfg s (insn_at (program s) (unat (reg s ! 11))) of
      Running s' \<Rightarrow> exec_inv cfg s' \<and> executable s' = executable s | Halted _ \<Rightarrow> True | Panicked \<Rightarrow> False"
proof -
  let ?insn = "insn_at (program s) (unat (reg s ! 11))"
  have acc: "accepted cfg s" using inv by (simp add: exec_inv_def)
  show ?thesis
  proof (cases "first_arm (step_arms env cfg (version s)) (opc ?insn)")
    case None
    then show ?thesis by (simp add: execute_insn_def)
  next
    case (Some f)
    have "opc ?insn \<noteq> 0" using Some by (auto simp: no_arm_for_zero)
    then have "insn_accepted (program s) (version s) (unat (reg s ! 11))"
      using accepted_insn [OF acc p] by blast
    from arm_inside [OF inv p refl this Some] Some show ?thesis
      using inv
      by (cases "f s ?insn (reg s ! 11 + 1)")
        (auto simp: execute_insn_def exec_inv_def stable_def accepted_def)
  qed
qed

text \<open>The state in which the instruction runs: counted, and traced when tracing is on.\<close>

definition counted :: "('c, 'f, 'x) Interp \<Rightarrow> ('c, 'f, 'x) Interp" where
  "counted s = s\<lparr>vm := (vm s)\<lparr>due_insn_count := due_insn_count (vm s) + 1\<rparr>\<rparr>"

definition entered :: "Config \<Rightarrow> ('c, 'f, 'x) Interp \<Rightarrow> ('c, 'f, 'x) Interp" where
  "entered cfg s =
     (if enable_register_tracing cfg
      then (counted s)\<lparr>vm := (vm (counted s))\<lparr>register_trace := register_trace (vm s) @ [reg s]\<rparr>\<rparr>
      else counted s)"

lemma step_unfold:
  "exe_get_config (executable s) = Some cfg \<Longrightarrow> step env s =
     (if enable_instruction_meter cfg \<and> due_insn_count (vm s) \<ge> previous_instruction_meter (vm s)
      then Halted (throw_error s ExceededMaxInstructions)
      else if unat (reg s ! 11 * 8) \<ge> length (program s)
      then Halted (throw_error (counted s) ExecutionOverrun)
      else (case get_insn_unchecked (program s) (reg s ! 11) of
              None \<Rightarrow> Panicked
            | Some insn \<Rightarrow> execute_insn env cfg (entered cfg s) insn))"
  by (simp add: step_def counted_def entered_def Let_def cong: option.case_cong)

lemma entered_fields [simp]:
  "reg (entered cfg s) = reg s" "program (entered cfg s) = program s"
  "executable (entered cfg s) = executable s" "program_vm_addr (entered cfg s) = program_vm_addr s"
  "call_frames (vm (entered cfg s)) = call_frames (vm s)" "call_depth (vm (entered cfg s)) = call_depth (vm s)"
  "vm_loader (vm (entered cfg s)) = vm_loader (vm s)"
  "due_insn_count (vm (entered cfg s)) = due_insn_count (vm s) + 1"
  "previous_instruction_meter (vm (entered cfg s)) = previous_instruction_meter (vm s)"
  "context_object_pointer (vm (entered cfg s)) = context_object_pointer (vm s)"
  "memory_mapping (vm (entered cfg s)) = memory_mapping (vm s)" "host (vm (entered cfg s)) = host (vm s)"
  by (simp_all add: entered_def counted_def)

lemma entered_inv: "exec_inv cfg s \<Longrightarrow> exec_inv cfg (entered cfg s)"
  by (simp add: exec_inv_def stable_def frames_ok_def accepted_def)

lemma step_inv:
  assumes inv: "exec_inv cfg s"
  shows "case step env s of
      Running s' \<Rightarrow> exec_inv cfg s' \<and> executable s' = executable s | Halted _ \<Rightarrow> True | Panicked \<Rightarrow> False"
proof -
  have acc: "accepted cfg s" and pc: "unat (reg s ! 11) \<le> insn_count (program s)"
    using inv by (simp_all add: exec_inv_def)
  have cfg: "exe_get_config (executable s) = Some cfg" and l: "slice_len_ok (program s)"
    using acc by (simp_all add: accepted_def)
  have "unat (reg s ! 11) < 2 ^ 60" using pc l by (auto simp: insn_count_def slice_len_ok_def)
  then have mul: "unat (reg s ! 11 * 8) = unat (reg s ! 11) * 8" by (simp add: unat_word_ariths)
  show ?thesis
  proof (cases "length (program s) \<le> unat (reg s ! 11 * 8)")
    case True
    then show ?thesis by (simp add: step_unfold [OF cfg])
  next
    case False
    then have p: "unat (reg s ! 11) < insn_count (program s)"
      using accepted_char(1) [OF acc] mul by simp
    then show ?thesis
      using execute_insn_inv [OF entered_inv [OF inv], of env] False get_insn_pc [OF l p]
      by (simp add: step_unfold [OF cfg] split: step.splits)
  qed
qed

lemma run_safe: "exec_inv cfg s \<Longrightarrow> \<exists>r. run fuel env s = r \<and> r \<noteq> Some Panicked \<and> (\<forall>s'. r \<noteq> Some (Running s'))"
proof (induction fuel arbitrary: s)
  case 0
  then show ?case by simp
next
  case (Suc fuel)
  then show ?case using step_inv [OF Suc.prems, of env] by (cases "step env s") auto
qed

section \<open>Verified programs do not panic\<close>

lemma exe_verify_Ok:
  "exe_verify exe = Some (Ok ()) \<Longrightarrow> exe_get_config exe = Some cfg \<Longrightarrow> get_text_bytes exe = Some (addr, text) \<Longrightarrow>
     verify text cfg (get_sbpf_version exe) = Some (Ok ())"
  by (auto simp: exe_verify_def split: result.splits) (metis (full_types) old.unit.exhaust result.exhaust)

text \<open>A machine no program has run on; its registers may have been set.\<close>

definition fresh_vm :: "'f Executable \<Rightarrow> Config \<Rightarrow> ('c, 'f, 'x) EbpfVm \<Rightarrow> bool" where
  "fresh_vm exe cfg m \<longleftrightarrow>
     length (registers m) = 12 \<and> call_depth m = 0 \<and> vm_loader m = get_loader exe
     \<and> call_frames m = replicate (unat (max_call_depth cfg)) default_CallFrame"

lemma new_vm_fresh:
  assumes "exe_get_config exe = Some cfg" "new_vm (get_loader exe) v ctx mapping stack_len mem = Some m"
  shows "fresh_vm exe cfg m"
  using assms by (auto simp: fresh_vm_def new_vm_def Let_def exe_get_config_def get_loader_def)

lemma start_program_inv:
  assumes "exe_verify exe = Some (Ok () :: (unit, 'x EbpfError) result)" "exe_get_config exe = Some cfg"
    and "get_text_bytes exe = Some (addr, text)" "slice_len_ok text"
    and "unat (get_entrypoint_instruction_offset exe) \<le> insn_count text" "0 < max_call_depth cfg"
    and "fresh_vm exe cfg (m :: ('c, 'f, 'x) EbpfVm)"
  obtains s where "new_interpreter (start_program env m exe) exe (registers (start_program env m exe)) = Some s"
    "exec_inv cfg s" "vm s = start_program env m exe" "executable s = exe" "program s = text"
proof -
  let ?m = "start_program env m exe"
  let ?s = "\<lparr>vm = ?m, executable = exe, program = text, program_vm_addr = addr, reg = registers ?m\<rparr>"
  have ok: "verify text cfg (get_sbpf_version exe) = Some (Ok ())"
    by (rule exe_verify_Ok [OF assms(1-3)])
  have ldr: "get_config (get_loader exe) = Some cfg" using assms(2) by (simp add: exe_get_config_def get_loader_def)
  have "length (registers m) = 12" "call_depth m = 0" "vm_loader m = get_loader exe"
    "call_frames m = replicate (unat (max_call_depth cfg)) default_CallFrame"
    using assms(7) by (auto simp: fresh_vm_def)
  then have "exec_inv cfg ?s"
    using assms(2,4,5,6) ok ldr
    by (auto simp: exec_inv_def accepted_def stable_def frames_ok_def default_CallFrame_def
        list_all_iff word_less_nat_alt start_program_def)
  moreover have "new_interpreter ?m exe (registers ?m) = Some ?s"
    using assms(3) by (simp add: new_interpreter_def)
  ultimately show thesis by (intro that [of ?s]) simp_all
qed

lemma execute_program_run:
  "exe_get_config exe = Some cfg \<Longrightarrow>
   new_interpreter (start_program env m exe) exe (registers (start_program env m exe)) = Some s \<Longrightarrow>
   execute_program fuel env m exe =
     (case run fuel env s of
        None \<Rightarrow> None
      | Some (Halted s) \<Rightarrow>
          Some (Some (finish_program env cfg (get_remaining env (context_object_pointer m)) (vm s)))
      | Some _ \<Rightarrow> Some None)"
  by (simp add: execute_program_def Let_def)

text \<open>
  C14: interpreting a program that the verifier accepted never panics: no register, frame or program
  index is out of bounds and no division by zero reaches the host, whatever the program, its
  memory and the system calls do.
\<close>

theorem verified_never_panics:
  assumes "exe_verify exe = Some (Ok () :: (unit, 'x EbpfError) result)" "exe_get_config exe = Some cfg"
    and "get_text_bytes exe = Some (addr, text)" "slice_len_ok text"
    and "unat (get_entrypoint_instruction_offset exe) \<le> insn_count text" "0 < max_call_depth cfg"
    and "new_vm (get_loader exe) v ctx mapping stack_len mem = Some (m :: ('c, 'f, 'x) EbpfVm)"
  shows "execute_program fuel env m exe \<noteq> Some None"
proof -
  obtain s where s: "new_interpreter (start_program env m exe) exe (registers (start_program env m exe)) = Some s"
    "exec_inv cfg s"
    by (rule start_program_inv [OF assms(1-6) new_vm_fresh [OF assms(2,7)], of env])
  obtain r where r: "run fuel env s = r" "r \<noteq> Some Panicked" "\<And>s'. r \<noteq> Some (Running s')"
    using run_safe [OF s(2)] by blast
  then show ?thesis
    unfolding execute_program_run [OF assms(2) s(1)] by (auto split: option.splits step.splits)
qed

text \<open>What a virtual machine for a verified executable looks like before it runs.\<close>

definition prepared :: "'f Executable \<Rightarrow> Config \<Rightarrow> ('c, 'f, 'x) EbpfVm \<Rightarrow> bool" where
  "prepared exe cfg m \<longleftrightarrow>
     exe_verify exe = Some (Ok () :: (unit, 'x EbpfError) result) \<and> exe_get_config exe = Some cfg
     \<and> (\<exists>addr text. get_text_bytes exe = Some (addr, text) \<and> slice_len_ok text
          \<and> unat (get_entrypoint_instruction_offset exe) \<le> insn_count text)
     \<and> 0 < max_call_depth cfg
     \<and> fresh_vm exe cfg m"

lemma prepared_run:
  assumes "prepared exe cfg (m :: ('c, 'f, 'x) EbpfVm)"
  obtains s where "exe_get_config exe = Some cfg" "get_config (vm_loader m) = Some cfg"
    "new_interpreter (start_program env m exe) exe (registers (start_program env m exe)) = Some s" "exec_inv cfg s"
proof -
  obtain addr code where p:
    "exe_verify exe = Some (Ok () :: (unit, 'x EbpfError) result)" "exe_get_config exe = Some cfg"
    "get_text_bytes exe = Some (addr, code)" "slice_len_ok code"
    "unat (get_entrypoint_instruction_offset exe) \<le> insn_count code" "0 < max_call_depth cfg"
    "fresh_vm exe cfg m"
    using assms by (auto simp: prepared_def)
  have "get_config (vm_loader m) = Some cfg"
    using p(2,7) by (simp add: fresh_vm_def exe_get_config_def get_loader_def)
  moreover obtain s where
    "new_interpreter (start_program env m exe) exe (registers (start_program env m exe)) = Some s" "exec_inv cfg s"
    by (rule start_program_inv [OF p, of env])
  ultimately show thesis using that p(2) by blast
qed

lemma prepared_no_panic:
  assumes "prepared exe cfg (m :: ('c, 'f, 'x) EbpfVm)"
  shows "execute_program fuel env m exe \<noteq> Some None"
proof -
  obtain s where s: "exe_get_config exe = Some cfg"
    "new_interpreter (start_program env m exe) exe (registers (start_program env m exe)) = Some s" "exec_inv cfg s"
    by (rule prepared_run [OF assms, of env])
  obtain r where r: "run fuel env s = r" "r \<noteq> Some Panicked" "\<And>s'. r \<noteq> Some (Running s')"
    using run_safe [OF s(3)] by blast
  then show ?thesis
    unfolding execute_program_run [OF s(1,2)] by (auto split: option.splits step.splits)
qed

text \<open>The sample program of two instructions in an executable, and a context that is a bare counter.\<close>

definition sample_loader :: "'f BuiltinProgram" where
  "sample_loader = new_loader default_Config"

definition sample_exe :: "'f Executable" where
  "sample_exe =
     \<lparr>elf_bytes = sample_prog, sbpf_version = V0, ro_section = Borrowed 0 (mk_range 0 16),
      text_section_vaddr = MM_BYTECODE_START, text_section_range = mk_range 0 16, entry_pc = 0,
      function_registry = default_FunctionRegistry, loader = sample_loader\<rparr>"

definition counter_env :: "(u64, unit, unit) Env" where
  "counter_env =
     \<lparr>consume = saturating_sub, get_remaining = \<lambda>c. c,
      rust = \<lambda>_ c _ mapping mem. (Err (), c, mapping, mem)\<rparr>"

definition sample_vm :: "(u64, unit, unit) EbpfVm" where
  "sample_vm = the (new_vm sample_loader V0 10 sample_mapping 0 (\<lambda>_. 0))"

lemma sample_exe_ok:
  "exe_verify sample_exe = Some (Ok () :: (unit, 'x EbpfError) result)"
  "exe_get_config sample_exe = Some default_Config"
  "get_text_bytes sample_exe = Some (MM_BYTECODE_START, sample_prog)" "slice_len_ok sample_prog"
  "insn_count sample_prog = 2"
  "new_vm (get_loader sample_exe) V0 10 sample_mapping 0 (\<lambda>_. 0) = Some sample_vm"
  using sample_prog_verifies
  by (auto simp: exe_verify_def get_text_bytes_def sample_exe_def exe_get_config_def sample_loader_def
      new_loader_def get_config_def get_sbpf_version_def slice_get_def sample_prog_def slice_len_ok_def
      insn_count_def sample_vm_def get_loader_def new_vm_def)

theorem verified_never_panics_witness:
  "execute_program 10 counter_env sample_vm sample_exe \<noteq> Some None
   \<and> get_entrypoint_instruction_offset (sample_exe :: unit Executable) = 0"
proof
  show "get_entrypoint_instruction_offset (sample_exe :: unit Executable) = 0"
    by (simp add: get_entrypoint_instruction_offset_def sample_exe_def)
  then show "execute_program 10 counter_env sample_vm sample_exe \<noteq> Some None"
    by (intro verified_never_panics [OF sample_exe_ok(1-4) _ _ sample_exe_ok(6)])
      (simp_all add: default_Config_def)
qed

end
