(* ===== verification/Effects.thy ===== *)
theory Effects
  imports Execution
begin

text \<open>
  What single instructions can do to the world outside the registers.  Only loads and stores touch
  the memory mapping, only system calls touch the context object and the meter; so the read log
  grows exactly by the forbidden loads, and every metered run ends.
\<close>

unbundle bit_operations_syntax

section \<open>Shapes of arms\<close>

definition same_code :: "('c, 'f, 'x) Interp \<Rightarrow> ('c, 'f, 'x) Interp \<Rightarrow> bool" where
  "same_code s s' \<longleftrightarrow> executable s' = executable s \<and> program s' = program s"

fun on_arm :: "('s \<Rightarrow> bool) \<Rightarrow> 's arm \<Rightarrow> bool" where
  "on_arm P (Next s pc) = P s"
| "on_arm P (Return s) = P s"
| "on_arm P Panic = True"

lemma on_arm_mono: "on_arm P r \<Longrightarrow> (\<And>s. P s \<Longrightarrow> Q s) \<Longrightarrow> on_arm Q r"
  by (cases r) auto

text \<open>
  The parts of the machine outside registers, frames and result: the memory, the context object and
  the meter.
\<close>

definition same_world :: "('c, 'f, 'x) Interp \<Rightarrow> ('c, 'f, 'x) Interp \<Rightarrow> bool" where
  "same_world s s' \<longleftrightarrow>
     memory_mapping (vm s') = memory_mapping (vm s) \<and> host (vm s') = host (vm s)"

definition same_meter :: "('c, 'f, 'x) Interp \<Rightarrow> ('c, 'f, 'x) Interp \<Rightarrow> bool" where
  "same_meter s s' \<longleftrightarrow>
     context_object_pointer (vm s') = context_object_pointer (vm s)
     \<and> previous_instruction_meter (vm s') = previous_instruction_meter (vm s)
     \<and> due_insn_count (vm s') = due_insn_count (vm s) \<and> vm_loader (vm s') = vm_loader (vm s)"

definition same_all :: "('c, 'f, 'x) Interp \<Rightarrow> ('c, 'f, 'x) Interp \<Rightarrow> bool" where
  "same_all s s' \<longleftrightarrow> same_code s s' \<and> same_world s s' \<and> same_meter s s'"

lemmas same_defs = same_all_def same_code_def same_world_def same_meter_def

lemma same_throw [simp]:
  "same_code s (throw_error t err) = same_code s t"
  "same_world s (throw_error t err) = same_world s t"
  "same_meter s (throw_error t err) = same_meter s t" "same_all s (throw_error t err) = same_all s t"
  by (simp_all add: same_defs throw_error_def)

lemma same_refl [simp]: "same_code s s" "same_world s s" "same_meter s s" "same_all s s"
  by (simp_all add: same_defs)

lemma same_reg [simp]:
  "same_code s (t\<lparr>reg := r\<rparr>) = same_code s t" "same_world s (t\<lparr>reg := r\<rparr>) = same_world s t"
  "same_meter s (t\<lparr>reg := r\<rparr>) = same_meter s t" "same_all s (t\<lparr>reg := r\<rparr>) = same_all s t"
  by (simp_all add: same_defs)

definition local_arm :: "('c, 'f, 'x) arm_fun \<Rightarrow> bool" where
  "local_arm f \<longleftrightarrow>
     (\<forall>s insn next_pc.
        on_arm (same_all s) (f s insn next_pc))"

named_theorems local_rules

lemma local_alu [local_rules]: "local_arm (alu_imm f)" "local_arm (alu_reg f)"
  by (simp_all add: local_arm_def alu_imm_def alu_reg_def rd_def wr_def)

lemma local_div [local_rules]: "local_arm (div_imm z ov f)" "local_arm (div_reg z ov f)"
  by (simp_all add: local_arm_def div_imm_def div_reg_def rd_def wr_def)

lemma local_jmp [local_rules]:
  "local_arm (jmp_imm cond)" "local_arm (jmp_reg cond)"
  "local_arm (\<lambda>s insn next_pc. Next s (next_pc + scast (off insn)))"
  by (simp_all add: local_arm_def jmp_imm_def jmp_reg_def rd_def)

lemma local_order [local_rules]: "local_arm le_arm" "local_arm be_arm"
  by (simp_all add: local_arm_def le_arm_def be_arm_def rd_def wr_def)

lemma local_lddw [local_rules]: "local_arm lddw_arm"
  by (simp add: local_arm_def lddw_arm_def wr_def split: option.splits)

lemma push_frame_same:
  "push_frame cfg s = Some (Ok s') \<Longrightarrow> same_all s s'"
  "push_frame cfg s = Some (Err s') \<Longrightarrow> same_all s s'"
  by (auto simp: push_frame_def Let_def same_defs throw_error_def split: if_splits)

lemma check_pc_same:
  "same_all s t \<Longrightarrow> on_arm (same_all s) (check_pc t pc)"
  by (simp add: check_pc_def)

lemma local_callx [local_rules]: "local_arm (callx_arm cfg)"
  by (auto simp: local_arm_def callx_arm_def rd_def intro!: check_pc_same
      dest: push_frame_same split: option.splits result.splits)

lemma local_exit [local_rules]: "local_arm (exit_arm cfg)"
  by (simp add: local_arm_def exit_arm_def check_pc_def throw_error_def Let_def same_defs)

text \<open>Every arm is local, a load, a store or the call.\<close>

definition store_arm :: "nat \<Rightarrow> ('c, 'f, 'x) arm_fun \<Rightarrow> bool" where
  "store_arm n f \<longleftrightarrow> f = store_imm_arm n \<or> f = store_reg_arm n"

definition arm_shape :: "('c, 'f, 'x) Env \<Rightarrow> Config \<Rightarrow> nat option \<Rightarrow> ('c, 'f, 'x) arm_fun \<Rightarrow> bool" where
  "arm_shape env cfg width f \<longleftrightarrow>
     (case width of
        Some n \<Rightarrow> f = load_arm n
      | None \<Rightarrow> local_arm f \<or> (\<exists>n \<in> {1, 2, 4, 8}. store_arm n f) \<or> f = call_arm env cfg)"

text \<open>The width of the load that an opcode stands for in a version.\<close>

definition load_width :: "SBPFVersion \<Rightarrow> u8 \<Rightarrow> nat option" where
  "load_width v x =
     (if move_memory_instruction_classes v then
        if x = LD_1B_REG then Some 1 else if x = LD_2B_REG then Some 2
        else if x = LD_4B_REG then Some 4 else if x = LD_8B_REG then Some 8 else None
      else
        if x = LD_B_REG then Some 1 else if x = LD_H_REG then Some 2
        else if x = LD_W_REG then Some 4 else if x = LD_DW_REG then Some 8 else None)"

definition arms_shaped ::
  "('c, 'f, 'x) Env \<Rightarrow> Config \<Rightarrow> SBPFVersion \<Rightarrow> (u8 \<times> bool \<times> ('c, 'f, 'x) arm_fun) list \<Rightarrow> bool"
where
  "arms_shaped env cfg v arms \<longleftrightarrow>
     list_all (\<lambda>(x, guard, f). guard \<longrightarrow> arm_shape env cfg (load_width v x) f) arms"

lemma shape_store: "n \<in> {1, 2, 4, 8} \<Longrightarrow> arm_shape env cfg None (store_imm_arm n)"
  "n \<in> {1, 2, 4, 8} \<Longrightarrow> arm_shape env cfg None (store_reg_arm n)"
  by (auto simp: arm_shape_def store_arm_def)

lemma shape_local: "local_arm f \<Longrightarrow> arm_shape env cfg None f"
  by (simp add: arm_shape_def)

lemma shape_load: "arm_shape env cfg (Some n) (load_arm n)"
  by (simp add: arm_shape_def)

lemma shape_call: "arm_shape env cfg None (call_arm env cfg)"
  by (simp add: arm_shape_def)

lemmas shape_rules = shape_store shape_local shape_load shape_call local_rules

lemma arms_shaped_tables:
  "arms_shaped env cfg v (step_ld v)" "arms_shaped env cfg v (step_ldx v)"
  "arms_shaped env cfg v (step_st v)" "arms_shaped env cfg v (step_stx v)"
  "arms_shaped env cfg v (step_alu32_load v)" "arms_shaped env cfg v (step_alu64_store v)"
  "arms_shaped env cfg v (step_pqr v)" "arms_shaped env cfg v (step_jmp32 v)"
  "arms_shaped env cfg v step_jmp64" "arms_shaped env cfg v (step_calls env cfg)"
  by (simp_all add: arms_shaped_def step_ld_def step_ldx_def step_st_def step_stx_def
      step_alu32_load_def step_alu64_store_def step_pqr_def step_jmp32_def step_jmp64_def
      step_calls_def shape_rules load_width_def opcode_values version_defs)

lemma arm_shaped:
  assumes "first_arm (step_arms env cfg v) x = Some f"
  shows "arm_shape env cfg (load_width v x) f"
proof -
  have "arms_shaped env cfg v (step_arms env cfg v)"
    using arms_shaped_tables [of env cfg v] by (simp add: step_arms_def arms_shaped_def)
  with first_arm_mem [OF assms] show ?thesis by (auto simp: arms_shaped_def list_all_iff)
qed

section \<open>Effects of the other arms\<close>

lemma load_arm_effect:
  "on_arm (\<lambda>s'. same_code s s' \<and> same_meter s s' \<and> host (vm s') = host (vm s)
       \<and> memory_mapping (vm s') = snd (load n (host (vm s)) (memory_mapping (vm s))
           (reg s ! unat (src insn) + scast (off insn)) :: 'x ProgramResult \<times> MemoryMapping))
     (load_arm n (s :: ('c, 'f, 'x) Interp) insn next_pc)"
  by (auto simp: load_arm_def rd_def wr_def Let_def same_defs throw_error_def split: prod.splits result.splits)

definition stored :: "nat \<Rightarrow> ('c, 'f, 'x) Interp \<Rightarrow> ('c, 'f, 'x) Interp \<Rightarrow> bool" where
  "stored n s s' \<longleftrightarrow>
     same_code s s' \<and> same_meter s s'
     \<and> (\<exists>x a. (memory_mapping (vm s'), host (vm s')) =
          snd (store n (host (vm s)) (memory_mapping (vm s)) x a :: 'x ProgramResult \<times> _))"

lemma store_value_effect: "on_arm (stored n s) (store_value n s x a next_pc)"
  unfolding store_value_def stored_def
  by (auto simp: same_defs throw_error_def split: prod.splits result.splits) (metis snd_conv)+

lemma store_arm_effect: "store_arm n f \<Longrightarrow> on_arm (stored n s) (f s insn next_pc)"
  by (auto simp: store_arm_def store_imm_arm_def store_reg_arm_def rd_def store_value_effect)

definition dispatched ::
  "('c, 'f, 'x) Env \<Rightarrow> ('c, 'f, 'x) Interp \<Rightarrow> ('c, 'f, 'x) Interp \<Rightarrow> bool"
where
  "dispatched env s s' \<longleftrightarrow> (\<exists>f res t. dispatch_syscall env f s = Some (res, t) \<and> same_all t s')"

lemma same_all_trans: "same_all s t \<Longrightarrow> same_all t s' \<Longrightarrow> same_all s s'"
  by (auto simp: same_defs)

lemma call_internal_effect: "on_arm (same_all s) (call_internal cfg resolved s insn next_pc)"
  by (auto simp: call_internal_def Let_def dest: push_frame_same intro!: check_pc_same
      split: option.splits result.splits)

lemma call_external_effect:
  "call_external env s insn = Some (Ok (b, s')) \<Longrightarrow> same_all s s' \<or> dispatched env s s'"
  "call_external env s insn = Some (Err s') \<Longrightarrow> dispatched env s s'"
  by (auto simp: call_external_def dispatched_def split: if_splits option.splits prod.splits result.splits)
     (metis same_refl(4) same_reg(4))+

lemma call_arm_effect: "on_arm (\<lambda>s'. same_all s s' \<or> dispatched env s s') (call_arm env cfg s insn next_pc)"
proof (cases "call_external env s insn")
  case None
  then show ?thesis by (simp add: call_arm_def)
next
  case (Some r)
  show ?thesis
  proof (cases r)
    case (Err s')
    then show ?thesis using Some call_external_effect(2) [of env s insn s'] by (simp add: call_arm_def)
  next
    case (Ok x)
    then obtain b s' where x: "r = Ok (b, s')" by (cases x) auto
    then have "same_all s s' \<or> dispatched env s s'" using Some call_external_effect(1) by blast
    then have "same_all s t \<or> dispatched env s t" if "same_all s' t" for t
      using that same_all_trans unfolding dispatched_def by blast
    from on_arm_mono [OF call_internal_effect this] show ?thesis
      using Some x by (simp add: call_arm_def)
  qed
qed

section \<open>One instruction\<close>

text \<open>What a step does to the world, by the kind of instruction it runs.\<close>

definition insn_effect ::
  "('c, 'f, 'x) Env \<Rightarrow> ('c, 'f, 'x) Interp \<Rightarrow> Insn \<Rightarrow> ('c, 'f, 'x) Interp \<Rightarrow> bool"
where
  "insn_effect env s insn s' \<longleftrightarrow>
     (case load_width (version s) (opc insn) of
        Some n \<Rightarrow> same_code s s' \<and> same_meter s s' \<and> host (vm s') = host (vm s)
          \<and> memory_mapping (vm s') = snd (load n (host (vm s)) (memory_mapping (vm s))
              (reg s ! unat (src insn) + scast (off insn)) :: 'x ProgramResult \<times> MemoryMapping)
      | None \<Rightarrow> same_all s s' \<or> (\<exists>n \<in> {1, 2, 4, 8}. stored n s s') \<or> dispatched env s s')"

lemma arm_effect:
  assumes "first_arm (step_arms env cfg (version s)) (opc insn) = Some f"
  shows "on_arm (insn_effect env s insn) (f s insn next_pc)"
proof (cases "load_width (version s) (opc insn)")
  case None
  then consider "local_arm f" | n where "n \<in> {1, 2, 4, 8}" "store_arm n f" | "f = call_arm env cfg"
    using arm_shaped [OF assms] by (auto simp: arm_shape_def)
  then show ?thesis
  proof cases
    case 1
    then have "on_arm (same_all s) (f s insn next_pc)" by (simp add: local_arm_def)
    then show ?thesis by (rule on_arm_mono) (simp add: insn_effect_def None)
  next
    case (2 n)
    from store_arm_effect [OF 2(2)] show ?thesis
      by (rule on_arm_mono) (use 2(1) in \<open>auto simp: insn_effect_def None\<close>)
  next
    case 3
    from call_arm_effect show ?thesis
      unfolding 3 by (rule on_arm_mono) (auto simp: insn_effect_def None)
  qed
next
  case (Some n)
  then have f: "f = load_arm n" using arm_shaped [OF assms] by (simp add: arm_shape_def)
  show ?thesis
    unfolding f using load_arm_effect by (rule on_arm_mono) (simp add: insn_effect_def Some)
qed

lemma load_width_known: "first_arm (step_arms env cfg v) x = None \<Longrightarrow> load_width v x = None"
proof (rule ccontr)
  assume none: "first_arm (step_arms env cfg v) x = None" and "load_width v x \<noteq> None"
  then have "(x, True) \<in> set (patterns (step_ldx v)) \<union> set (patterns (step_alu32_load v))"
    by (auto simp: load_width_def patterns_def step_ldx_def step_alu32_load_def split: if_splits)
  with none show False by (auto simp: first_arm_None step_arms_def patterns_append patterns_agree)
qed

lemma execute_insn_effect:
  "case execute_insn env cfg s insn of
     Running s' \<Rightarrow> insn_effect env s insn s'
   | Halted s' \<Rightarrow> insn_effect env s insn s'
   | Panicked \<Rightarrow> True"
proof (cases "first_arm (step_arms env cfg (version s)) (opc insn)")
  case None
  from load_width_known [OF None] None show ?thesis by (simp add: execute_insn_def insn_effect_def)
next
  case (Some f)
  have "insn_effect env s insn (s'\<lparr>reg := r\<rparr>)" if "insn_effect env s insn s'" for s' r
    using that
    by (auto simp: insn_effect_def stored_def dispatched_def split: option.splits)
  then show ?thesis
    using arm_effect [OF Some, of "reg s ! 11 + 1"] Some
    by (auto simp: execute_insn_def split: arm.splits)
qed

text \<open>The instruction a step runs, if it gets that far.\<close>

definition fetched :: "Config \<Rightarrow> ('c, 'f, 'x) Interp \<Rightarrow> Insn option" where
  "fetched cfg s =
     (if enable_instruction_meter cfg \<and> due_insn_count (vm s) \<ge> previous_instruction_meter (vm s)
         \<or> unat (reg s ! 11 * 8) \<ge> length (program s)
      then None
      else get_insn_unchecked (program s) (reg s ! 11))"

lemma step_fetched:
  assumes "exe_get_config (executable s) = Some cfg"
  shows "case fetched cfg s of
      Some insn \<Rightarrow> step env s = execute_insn env cfg (entered cfg s) insn
    | None \<Rightarrow> step env s = Panicked \<or> (\<exists>t err. step env s = Halted (throw_error t err) \<and> t \<in> {s, counted s})"
  by (auto simp: step_unfold [OF assms] fetched_def split: option.splits)

section \<open>The meter\<close>

definition meter_inv :: "('c, 'f, 'x) Env \<Rightarrow> Config \<Rightarrow> ('c, 'f, 'x) Interp \<Rightarrow> bool" where
  "meter_inv env cfg s \<longleftrightarrow>
     enable_instruction_meter cfg
     \<and> exe_get_config (executable s) = Some cfg \<and> get_config (vm_loader (vm s)) = Some cfg
     \<and> previous_instruction_meter (vm s) = get_remaining env (context_object_pointer (vm s))
     \<and> due_insn_count (vm s) \<le> previous_instruction_meter (vm s)"

definition budget :: "('c, 'f, 'x) Interp \<Rightarrow> nat" where
  "budget s = unat (previous_instruction_meter (vm s)) - unat (due_insn_count (vm s))"

lemma run_more: "run n env s = Some r \<Longrightarrow> n \<le> n' \<Longrightarrow> run n' env s = Some r"
proof (induction n env s arbitrary: n' rule: run.induct)
  case (2 fuel env s)
  then show ?case by (cases n') (auto split: step.splits)
qed simp

lemma saturating_sub_le: "saturating_sub x y \<le> (x :: u64)"
  by (simp add: word_le_nat_alt unat_saturating_sub)

text \<open>
  A relation between context objects that the meter and every builtin function respect is
  respected by a whole run.
\<close>

definition well_loaded :: "Config \<Rightarrow> ('c, 'f, 'x) Interp \<Rightarrow> bool" where
  "well_loaded cfg s \<longleftrightarrow>
     exe_get_config (executable s) = Some cfg \<and> get_config (vm_loader (vm s)) = Some cfg"

locale context_relation =
  fixes env :: "('c, 'f, 'x) Env" and R :: "'c \<Rightarrow> 'c \<Rightarrow> bool"
  assumes R_refl: "R c c" and R_trans: "R a b \<Longrightarrow> R b c \<Longrightarrow> R a c"
    and R_consume: "R c (consume env c n)"
    and R_rust: "R c (fst (snd (rust env f c args mm mem)))"
begin

lemma dispatched_context:
  assumes "get_config (vm_loader (vm s)) = Some cfg" "dispatched env s s'"
  shows "R (context_object_pointer (vm s)) (context_object_pointer (vm s'))"
    and "same_code s s'" "vm_loader (vm s') = vm_loader (vm s)"
proof -
  obtain f res t where d: "dispatch_syscall env f s = Some (res, t)" "same_all t s'"
    using assms(2) by (auto simp: dispatched_def)
  obtain ctx args res' ctx' mm mem m' where m':
    "ctx = (if enable_instruction_meter cfg
            then consume env (context_object_pointer (vm s)) (due_insn_count (vm s))
            else context_object_pointer (vm s))"
    "rust env f ctx args (memory_mapping (vm s)) (host (vm s)) = (res', ctx', mm, mem)"
    "t = s\<lparr>vm := m'\<rparr>" "context_object_pointer m' = ctx'" "vm_loader m' = vm_loader (vm s)"
    by (rule dispatch_spec [OF assms(1), of env f]) (use d(1) in auto)
  have "R (context_object_pointer (vm s)) ctx" using m'(1) R_refl R_consume by simp
  moreover have "R ctx ctx'" using R_rust [of ctx f args "memory_mapping (vm s)" "host (vm s)"] m'(2) by simp
  ultimately show "R (context_object_pointer (vm s)) (context_object_pointer (vm s'))"
    using R_trans d(2) m'(3,4) by (simp add: same_defs)
  show "same_code s s'" "vm_loader (vm s') = vm_loader (vm s)"
    using d(2) m'(3,5) by (simp_all add: same_defs)
qed

lemma step_context:
  assumes "well_loaded cfg s" "step env s = Running s' \<or> step env s = Halted s'"
  shows "well_loaded cfg s' \<and> R (context_object_pointer (vm s)) (context_object_pointer (vm s'))"
proof (cases "fetched cfg s")
  case None
  then obtain t err where "s' = throw_error t err" "t \<in> {s, counted s}"
    using step_fetched [of s cfg env] assms by (auto simp: well_loaded_def)
  then show ?thesis using assms(1) R_refl by (auto simp: well_loaded_def throw_error_def counted_def)
next
  case (Some insn)
  let ?s = "entered cfg s"
  have "insn_effect env ?s insn s'"
    using step_fetched [of s cfg env] assms Some
      execute_insn_effect [where env = env and cfg = cfg and s = ?s and insn = insn]
    by (auto simp: well_loaded_def)
  then consider "same_code ?s s'" "same_meter ?s s'" | "dispatched env ?s s'"
    by (auto simp: insn_effect_def stored_def same_all_def split: option.splits)
  then show ?thesis
  proof cases
    case 1
    then show ?thesis using assms(1) R_refl by (simp add: well_loaded_def same_defs)
  next
    case 2
    have "get_config (vm_loader (vm ?s)) = Some cfg" using assms(1) by (simp add: well_loaded_def)
    from dispatched_context [OF this 2] show ?thesis using assms(1) by (simp add: well_loaded_def same_code_def)
  qed
qed

lemma run_context:
  "well_loaded cfg s \<Longrightarrow> run fuel env s = Some (Halted s') \<Longrightarrow>
     R (context_object_pointer (vm s)) (context_object_pointer (vm s'))"
proof (induction fuel arbitrary: s)
  case (Suc fuel)
  then show ?case using step_context [OF Suc.prems(1)] R_trans by (cases "step env s") fastforce+
qed simp

lemma execute_context:
  assumes "exe_get_config exe = Some cfg" "get_config (vm_loader m) = Some cfg"
    and "execute_program fuel env m exe = Some (Some (count, res, m'))"
  shows "R (context_object_pointer m) (context_object_pointer m')"
proof -
  obtain s where s: "new_interpreter (start_program env m exe) exe (registers (start_program env m exe)) = Some s"
    using assms(3) by (auto simp: execute_program_def Let_def split: option.splits)
  then have vm: "vm s = start_program env m exe" "executable s = exe"
    by (auto simp: new_interpreter_def)
  obtain t where t: "run fuel env s = Some (Halted t)"
    "(count, res, m') = finish_program env cfg (get_remaining env (context_object_pointer m)) (vm t)"
    using assms(3) unfolding execute_program_run [OF assms(1) s] by (auto split: option.splits step.splits)
  have "well_loaded cfg s" using assms(1,2) vm by (simp add: well_loaded_def start_program_def)
  from run_context [OF this t(1)] have "R (context_object_pointer m) (context_object_pointer (vm t))"
    by (simp add: vm start_program_def)
  moreover have "R (context_object_pointer (vm t)) (context_object_pointer m')"
    using t(2) R_refl R_consume by (simp add: finish_program_def Let_def)
  ultimately show ?thesis by (rule R_trans)
qed

end

text \<open>
  What metering asks of the context object and of the builtin functions: \<open>consume\<close> takes from what
  remains, and a builtin function does not give anything back.
\<close>

locale metered =
  fixes env :: "('c, 'f, 'x) Env"
  assumes consume_law: "get_remaining env (consume env c n) = saturating_sub (get_remaining env c) n"
    and rust_law: "get_remaining env (fst (snd (rust env f c args mm mem))) \<le> get_remaining env c"
begin

lemma dispatch_meter:
  assumes "get_config (vm_loader (vm s)) = Some cfg" "enable_instruction_meter cfg"
    and "dispatched env s s'"
  shows "due_insn_count (vm s') = 0"
    and "previous_instruction_meter (vm s') = get_remaining env (context_object_pointer (vm s'))"
    and "previous_instruction_meter (vm s')
      \<le> saturating_sub (get_remaining env (context_object_pointer (vm s))) (due_insn_count (vm s))"
    and "vm_loader (vm s') = vm_loader (vm s)" "same_code s s'"
proof -
  obtain f res t where d: "dispatch_syscall env f s = Some (res, t)" "same_all t s'"
    using assms(3) by (auto simp: dispatched_def)
  obtain ctx args res' ctx' mm mem m' where m':
    "ctx = consume env (context_object_pointer (vm s)) (due_insn_count (vm s))"
    "rust env f ctx args (memory_mapping (vm s)) (host (vm s)) = (res', ctx', mm, mem)"
    "t = s\<lparr>vm := m'\<rparr>" "context_object_pointer m' = ctx'" "due_insn_count m' = 0"
    "previous_instruction_meter m' = get_remaining env ctx'" "vm_loader m' = vm_loader (vm s)"
    using d(1) assms(2) by (rule_tac dispatch_spec [OF assms(1), of env f]) auto
  show "due_insn_count (vm s') = 0" "vm_loader (vm s') = vm_loader (vm s)" "same_code s s'"
    "previous_instruction_meter (vm s') = get_remaining env (context_object_pointer (vm s'))"
    using d(2) m' by (auto simp: same_defs)
  have "get_remaining env ctx' \<le> get_remaining env ctx"
    using rust_law [of f ctx args "memory_mapping (vm s)" "host (vm s)"] m'(2) by simp
  then show "previous_instruction_meter (vm s')
      \<le> saturating_sub (get_remaining env (context_object_pointer (vm s))) (due_insn_count (vm s))"
    using d(2) m' by (simp add: same_defs consume_law)
qed

lemma step_meter:
  assumes inv: "meter_inv env cfg s" and step: "step env s = Running s'"
  shows "meter_inv env cfg s' \<and> budget s' < budget s"
proof -
  have cfg: "exe_get_config (executable s) = Some cfg" "get_config (vm_loader (vm s)) = Some cfg"
    "enable_instruction_meter cfg" and eq: "previous_instruction_meter (vm s) = get_remaining env (context_object_pointer (vm s))"
    using inv by (simp_all add: meter_inv_def)
  let ?s = "entered cfg s"
  obtain insn where insn: "fetched cfg s = Some insn" "step env s = execute_insn env cfg ?s insn"
    using step_fetched [where env = env, OF cfg(1)] step by (cases "fetched cfg s") auto
  have lt: "due_insn_count (vm s) < previous_instruction_meter (vm s)"
    using insn(1) cfg(3) by (auto simp: fetched_def not_le split: if_splits)
  then have lt': "unat (due_insn_count (vm s)) < unat (previous_instruction_meter (vm s))"
    by (simp add: word_less_nat_alt)
  have suc: "unat (due_insn_count (vm s) + 1) = unat (due_insn_count (vm s)) + 1"
    by (rule unat_suc [OF lt'])
  have "insn_effect env ?s insn s'"
    using execute_insn_effect [where env = env and cfg = cfg and s = ?s and insn = insn] step insn(2) by simp
  then consider "same_code ?s s'" "same_meter ?s s'" | "dispatched env ?s s'"
    by (auto simp: insn_effect_def stored_def same_all_def split: option.splits)
  then show ?thesis
  proof cases
    case 1
    then have f: "executable s' = executable s" "vm_loader (vm s') = vm_loader (vm s)"
      "previous_instruction_meter (vm s') = previous_instruction_meter (vm s)"
      "due_insn_count (vm s') = due_insn_count (vm s) + 1"
      "context_object_pointer (vm s') = context_object_pointer (vm s)"
      by (simp_all add: same_defs)
    have "due_insn_count (vm s) + 1 \<le> previous_instruction_meter (vm s)"
      unfolding word_le_nat_alt suc using lt' by simp
    then show ?thesis
      using lt' suc cfg eq unfolding meter_inv_def budget_def f by simp
  next
    case 2
    have l: "get_config (vm_loader (vm ?s)) = Some cfg" using cfg(2) by simp
    note d = dispatch_meter [OF l cfg(3) 2]
    have "unat (previous_instruction_meter (vm s')) \<le>
        unat (previous_instruction_meter (vm s)) - unat (due_insn_count (vm s) + 1)"
      using d(3) unfolding word_le_nat_alt unat_saturating_sub entered_fields eq .
    moreover have "executable s' = executable s" "vm_loader (vm s') = vm_loader (vm s)"
      using d(4,5) by (simp_all add: same_code_def)
    ultimately show ?thesis
      using d(1,2) cfg lt' unfolding suc meter_inv_def budget_def by simp
  qed
qed

lemma run_returns: "meter_inv env cfg s \<Longrightarrow> \<exists>r. run (Suc (budget s)) env s = Some r"
proof (induction "budget s" arbitrary: s rule: less_induct)
  case less
  show ?case
  proof (cases "step env s")
    case (Running s')
    then have s': "meter_inv env cfg s'" "budget s' < budget s"
      using step_meter [OF less.prems] by auto
    then obtain r where r: "run (Suc (budget s')) env s' = Some r" using less.hyps by blast
    have "run (budget s) env s' = Some r" by (rule run_more [OF r]) (use s'(2) in simp)
    then show ?thesis using Running by simp
  qed simp_all
qed

lemma execute_returns:
  assumes "exe_get_config exe = Some cfg" "get_config (vm_loader m) = Some cfg" "enable_instruction_meter cfg"
    and "new_interpreter (start_program env m exe) exe (registers (start_program env m exe)) = Some s"
  shows "execute_program (Suc (unat (get_remaining env (context_object_pointer m)))) env m exe \<noteq> None"
proof -
  have vm: "vm s = start_program env m exe" "executable s = exe"
    using assms(4) by (auto simp: new_interpreter_def)
  have "meter_inv env cfg s" using assms(1-3) by (simp add: meter_inv_def vm start_program_def)
  moreover have "budget s = unat (get_remaining env (context_object_pointer m))"
    by (simp add: budget_def vm start_program_def)
  ultimately obtain r where "run (Suc (unat (get_remaining env (context_object_pointer m)))) env s = Some r"
    using run_returns by metis
  then show ?thesis
    unfolding execute_program_run [OF assms(1,4)] by (auto split: step.splits)
qed

end

text \<open>In particular the meter only goes down.\<close>

sublocale metered \<subseteq> meter: context_relation env "\<lambda>c c'. get_remaining env c' \<le> get_remaining env c"
  by unfold_locales (auto simp: consume_law rust_law saturating_sub_le)

context metered
begin

lemma prepared_finishes:
  assumes "prepared exe cfg (m :: ('c, 'f, 'x) EbpfVm)" "enable_instruction_meter cfg"
  obtains count res m' where
    "execute_program (Suc (unat (get_remaining env (context_object_pointer m)))) env m exe = Some (Some (count, res, m'))"
    "exe_get_config exe = Some cfg" "get_config (vm_loader m) = Some cfg"
proof -
  let ?run = "execute_program (Suc (unat (get_remaining env (context_object_pointer m)))) env m exe"
  obtain s where s: "exe_get_config exe = Some cfg" "get_config (vm_loader m) = Some cfg"
    "new_interpreter (start_program env m exe) exe (registers (start_program env m exe)) = Some s"
    by (rule prepared_run [OF assms(1)])
  have "?run \<noteq> None" by (rule execute_returns [OF s(1,2) assms(2) s(3)])
  moreover have "?run \<noteq> Some None" by (rule prepared_no_panic [OF assms(1)])
  ultimately show thesis using that s(1,2) by fastforce
qed

text \<open>The instruction count that a run returns is what it took from the meter.\<close>

lemma execute_count:
  assumes "exe_get_config exe = Some cfg" "get_config (vm_loader m) = Some cfg" "enable_instruction_meter cfg"
    and "execute_program fuel env m exe = Some (Some (count, res, m'))"
  shows "unat count + unat (get_remaining env (context_object_pointer m'))
    = unat (get_remaining env (context_object_pointer m))"
proof -
  have "get_remaining env (context_object_pointer m') \<le> get_remaining env (context_object_pointer m)"
    by (rule meter.execute_context [OF assms(1,2,4)])
  moreover have "count = saturating_sub (get_remaining env (context_object_pointer m))
      (get_remaining env (context_object_pointer m'))"
    using assms(1,3,4)
    by (auto simp: execute_program_def finish_program_def Let_def split: option.splits step.splits)
  ultimately show ?thesis by (simp add: unat_saturating_sub word_le_nat_alt)
qed

end

end
