(* ===== verification/Read_Log.thy ===== *)
theory Read_Log
  imports Effects "HOL-Library.Sublist"
begin

text \<open>
  The read log of a whole run: what the tracker reports when the program ends is exactly the
  forbidden loads it issued, in order, interleaved with what its system calls read.
\<close>

unbundle bit_operations_syntax

section \<open>Loads and stores keep the mapping in order\<close>

definition mapping_ok :: "MemoryMapping \<Rightarrow> bool" where
  "mapping_ok m \<longleftrightarrow> mapping_inv m \<and> mapping_handler_ok m"

lemma handler_ok_track [simp]: "mapping_handler_ok (track_access m a n) = mapping_handler_ok m"
  by (cases m) (simp_all add: mapping_handler_ok_def track_access_def)

lemma load_state:
  "snd (load n mem m a :: 'x ProgramResult \<times> MemoryMapping) =
     snd (map_with_access_violation_handler (track_access m a (of_nat n)) Load a (of_nat n) :: 'x ProgramResult \<times> _)"
  by (simp add: load_def Let_def split: prod.splits result.splits)

lemma store_state:
  "fst (snd (store n mem m x a :: 'x ProgramResult \<times> MemoryMapping \<times> _)) =
     snd (map_with_access_violation_handler m Store a (of_nat n) :: 'x ProgramResult \<times> _)"
  by (simp add: store_def Let_def split: prod.splits result.splits)

lemma map_handler_ok:
  assumes "mapping_ok m"
  shows "mapping_ok (snd (map_with_access_violation_handler m t a n :: 'x ProgramResult \<times> MemoryMapping))"
proof (cases "m = Identity")
  case True
  then show ?thesis using assms by (simp add: map_with_access_violation_handler_def)
next
  case False
  then show ?thesis
    using map_with_handler_spec [of m t a n] assms
    by (cases "map_with_access_violation_handler m t a n :: 'x ProgramResult \<times> MemoryMapping")
       (auto simp: mapping_ok_def)
qed

lemma access_ok:
  assumes "mapping_ok m"
  shows "mapping_ok (snd (load n mem m a :: 'x ProgramResult \<times> MemoryMapping))"
    and "mapping_ok (fst (snd (store n mem m x a :: 'x ProgramResult \<times> MemoryMapping \<times> host_memory)))"
proof -
  have "mapping_ok (track_access m a (of_nat n))" using assms by (simp add: mapping_ok_def)
  then show "mapping_ok (snd (load n mem m a :: 'x ProgramResult \<times> MemoryMapping))"
    unfolding load_state by (rule map_handler_ok)
  show "mapping_ok (fst (snd (store n mem m x a :: 'x ProgramResult \<times> MemoryMapping \<times> host_memory)))"
    unfolding store_state using assms by (rule map_handler_ok)
qed

lemma access_watched:
  assumes "mapping_inv m"
  shows "mapping_watched (snd (load n mem m a :: 'x ProgramResult \<times> MemoryMapping)) = mapping_watched m"
    and "mapping_watched (fst (snd (store n mem m x a :: 'x ProgramResult \<times> MemoryMapping \<times> host_memory))) = mapping_watched m"
  using assms load_tracker [of m n mem a, where ?'x = 'x] store_tracker [of m n mem x a, where ?'x = 'x]
  by (auto simp: mapping_watched_def mapping_inv_def split: option.splits)

lemma access_follow:
  assumes "mapping_ok m"
  shows "accounts_follow m (snd (load n mem m a :: 'x ProgramResult \<times> MemoryMapping))"
    and "accounts_follow m (fst (snd (store n mem m x a :: 'x ProgramResult \<times> MemoryMapping \<times> host_memory)))"
proof -
  have inv: "mapping_inv m" "mapping_handler_ok m" using assms by (simp_all add: mapping_ok_def)
  then show "accounts_follow m (fst (snd (store n mem m x a :: 'x ProgramResult \<times> MemoryMapping \<times> host_memory)))"
    unfolding store_state by (rule map_with_handler_follows)
  show "accounts_follow m (snd (load n mem m a :: 'x ProgramResult \<times> MemoryMapping))"
    unfolding load_state using inv
    by (intro accounts_follow_trans [OF accounts_follow_track map_with_handler_follows]) simp_all
qed

section \<open>One step\<close>

definition forbidden :: "u64 range list \<Rightarrow> u64 \<times> usize \<Rightarrow> bool" where
  "forbidden rs acc = reads_forbidden rs (fst acc) (snd acc)"

text \<open>The load, if any, that the next step issues.\<close>

definition issued_load :: "Config \<Rightarrow> ('c, 'f, 'x) Interp \<Rightarrow> (u64 \<times> usize) list" where
  "issued_load cfg s =
     (case fetched cfg s of
        None \<Rightarrow> []
      | Some insn \<Rightarrow>
          (case load_width (version s) (opc insn) of
             None \<Rightarrow> []
           | Some n \<Rightarrow> [(reg s ! unat (src insn) + scast (off insn), of_nat n)]))"

definition log_grows ::
  "(u64 \<times> usize) list \<Rightarrow> MemoryMapping \<Rightarrow> (u64 \<times> usize) list \<Rightarrow> MemoryMapping \<Rightarrow> bool"
where
  "log_grows reads m extra m' \<longleftrightarrow>
     mapping_ok m' \<and> mapping_watched m' = mapping_watched m \<and> accounts_follow m m'
     \<and> mapping_log m' = mapping_log m @ filter (forbidden (mapping_watched m)) reads @ extra"

lemma load_width_bounds: "load_width v x = Some n \<Longrightarrow> 0 < n \<and> n \<le> 8"
  by (auto simp: load_width_def split: if_splits)

lemma log_grows_load:
  assumes "mapping_ok m" "load_width v x = Some n"
  shows "log_grows [(a, of_nat n)] m [] (snd (load n mem m a :: 'x ProgramResult \<times> MemoryMapping))"
  using assms(1) load_width_bounds [OF assms(2)] access_log(1) [of m n mem a, where ?'a = 'x]
    access_ok(1) [OF assms(1), of n mem a, where ?'x = 'x] access_watched(1) [of m n mem a, where ?'x = 'x]
    access_follow(1) [OF assms(1), of n mem a, where ?'x = 'x]
  by (simp add: log_grows_def mapping_ok_def [of m] forbidden_def)

lemma log_grows_store:
  assumes "mapping_ok m" "n \<in> {1, 2, 4, 8}"
  shows "log_grows [] m [] (fst (snd (store n mem m x a :: 'x ProgramResult \<times> MemoryMapping \<times> host_memory)))"
  using assms access_log(2) [of m n mem x a, where ?'b = 'x]
    access_ok(2) [OF assms(1), of n mem x a, where ?'x = 'x] access_watched(2) [of m n mem x a, where ?'x = 'x]
    access_follow(2) [OF assms(1), of n mem x a, where ?'x = 'x]
  by (auto simp: log_grows_def mapping_ok_def [of m])

lemma log_grows_refl: "mapping_ok m \<Longrightarrow> log_grows [] m [] m"
  by (simp add: log_grows_def)

section \<open>Runs\<close>

definition log_inv :: "Config \<Rightarrow> ('c, 'f, 'x) Interp \<Rightarrow> bool" where
  "log_inv cfg s \<longleftrightarrow>
     exe_get_config (executable s) = Some cfg \<and> get_config (vm_loader (vm s)) = Some cfg
     \<and> mapping_ok (memory_mapping (vm s))"

fun loads_of :: "nat \<Rightarrow> ('c, 'f, 'x) Env \<Rightarrow> Config \<Rightarrow> ('c, 'f, 'x) Interp \<Rightarrow> (u64 \<times> usize) list" where
  "loads_of 0 env cfg s = []"
| "loads_of (Suc fuel) env cfg s =
     issued_load cfg s @
       (case step env s of Running s' \<Rightarrow> loads_of fuel env cfg s' | _ \<Rightarrow> [])"

text \<open>The loads that \<open>execute_program\<close> issues.\<close>

definition program_loads ::
  "nat \<Rightarrow> ('c, 'f, 'x) Env \<Rightarrow> ('c, 'f, 'x) EbpfVm \<Rightarrow> 'f Executable \<Rightarrow> (u64 \<times> usize) list"
where
  "program_loads fuel env m exe =
     (let m = start_program env m exe
      in case (exe_get_config exe, new_interpreter m exe (registers m)) of
           (Some cfg, Some s) \<Rightarrow> loads_of fuel env cfg s
         | _ \<Rightarrow> [])"

lemma execute_program_cases:
  assumes "exe_get_config exe = Some cfg" "get_config (vm_loader m) = Some cfg"
    and "execute_program fuel env m exe = Some (Some (count, res, m'))" "mapping_ok (memory_mapping m)"
  obtains s t where "log_inv cfg s" "run fuel env s = Some (Halted t)"
    "memory_mapping (vm s) = memory_mapping m" "memory_mapping m' = memory_mapping (vm t)"
    "program_loads fuel env m exe = loads_of fuel env cfg s" "host (vm s) = host m" "host m' = host (vm t)"
proof -
  obtain s where s: "new_interpreter (start_program env m exe) exe (registers (start_program env m exe)) = Some s"
    using assms(3) by (auto simp: execute_program_def Let_def split: option.splits)
  then have vm: "vm s = start_program env m exe" "executable s = exe"
    by (auto simp: new_interpreter_def)
  obtain t where t: "run fuel env s = Some (Halted t)"
    "(count, res, m') = finish_program env cfg (get_remaining env (context_object_pointer m)) (vm t)"
    using assms(3) unfolding execute_program_run [OF assms(1) s] by (auto split: option.splits step.splits)
  show thesis
  proof (rule that [OF _ t(1)])
    show "log_inv cfg s" using assms(1,2,4) vm by (simp add: log_inv_def start_program_def)
    show "memory_mapping (vm s) = memory_mapping m" by (simp add: vm start_program_def)
    show "memory_mapping m' = memory_mapping (vm t)" using t(2) by (simp add: finish_program_def Let_def)
    show "program_loads fuel env m exe = loads_of fuel env cfg s"
      using assms(1) s by (simp add: program_loads_def Let_def)
    show "host (vm s) = host m" by (simp add: vm start_program_def)
    show "host m' = host (vm t)" using t(2) by (simp add: finish_program_def Let_def)
  qed
qed

text \<open>
  What the log relies on in the builtin functions: they leave the mapping in order and watched as
  it was, and only append to the log.
\<close>

locale reading_builtins =
  fixes env :: "('c, 'f, 'x) Env"
  assumes rust_mapping:
    "mapping_ok mm \<Longrightarrow> rust env f c args mm mem = (res, c', mm', mem') \<Longrightarrow> \<exists>extra. log_grows [] mm extra mm'"
begin

lemma dispatched_log:
  assumes "log_inv cfg s" "dispatched env s s'"
  shows "log_inv cfg s' \<and> (\<exists>extra. log_grows [] (memory_mapping (vm s)) extra (memory_mapping (vm s')))"
proof -
  obtain f res t where d: "dispatch_syscall env f s = Some (res, t)" "same_all t s'"
    using assms(2) by (auto simp: dispatched_def)
  have cfg: "get_config (vm_loader (vm s)) = Some cfg" and ok: "mapping_ok (memory_mapping (vm s))"
    using assms(1) by (simp_all add: log_inv_def)
  obtain ctx args res' ctx' mem m' where m':
    "rust env f ctx args (memory_mapping (vm s)) (host (vm s)) = (res', ctx', memory_mapping m', mem)"
    "t = s\<lparr>vm := m'\<rparr>" "vm_loader m' = vm_loader (vm s)"
    by (rule dispatch_spec [OF cfg, of env f]) (use d(1) in auto)
  obtain extra where "log_grows [] (memory_mapping (vm s)) extra (memory_mapping m')"
    using rust_mapping [OF ok m'(1)] by blast
  with d(2) m'(2,3) assms(1) show ?thesis by (auto simp: log_inv_def same_defs log_grows_def)
qed

lemma effect_log:
  assumes "log_inv cfg s" "insn_effect env s insn s'" "fetched cfg s0 = Some insn"
    and "reg s0 = reg s" "executable s0 = executable s"
  shows "log_inv cfg s'
    \<and> (\<exists>extra. log_grows (issued_load cfg s0) (memory_mapping (vm s)) extra (memory_mapping (vm s'))
         \<and> (extra = [] \<or> dispatched env s s'))"
proof (cases "load_width (version s) (opc insn)")
  case None
  then consider "same_all s s'" | n where "n \<in> {1, 2, 4, 8}" "stored n s s'" | "dispatched env s s'"
    using assms(2) by (auto simp: insn_effect_def)
  moreover have i: "issued_load cfg s0 = []" using None assms(3-5) by (simp add: issued_load_def)
  ultimately show ?thesis
  proof cases
    case 1
    then show ?thesis using assms(1) i log_grows_refl by (auto simp: log_inv_def same_defs)
  next
    case (2 n)
    then obtain x a where "memory_mapping (vm s') =
        fst (snd (store n (host (vm s)) (memory_mapping (vm s)) x a :: 'x ProgramResult \<times> _))"
      unfolding stored_def by (metis fst_conv)
    then have "log_grows [] (memory_mapping (vm s)) [] (memory_mapping (vm s'))"
      using log_grows_store [OF _ 2(1), where ?'x = 'x] assms(1) by (simp add: log_inv_def)
    then show ?thesis
      using 2(2) assms(1) i by (auto simp: log_inv_def stored_def same_defs log_grows_def)
  next
    case 3
    then show ?thesis using dispatched_log assms(1) i by auto
  qed
next
  case (Some n)
  have "log_grows [(reg s ! unat (src insn) + scast (off insn), of_nat n)]
      (memory_mapping (vm s)) [] (memory_mapping (vm s'))"
    using log_grows_load [OF _ Some, where ?'x = 'x] assms(1,2) Some by (simp add: insn_effect_def log_inv_def)
  moreover have "issued_load cfg s0 = [(reg s ! unat (src insn) + scast (off insn), of_nat n)]"
    using Some assms(3-5) by (simp add: issued_load_def)
  ultimately show ?thesis
    using assms(1,2) Some by (auto simp: insn_effect_def log_inv_def same_defs log_grows_def)
qed

lemma step_log:
  assumes inv: "log_inv cfg s" and step: "step env s = Running s' \<or> step env s = Halted s'"
  shows "log_inv cfg s'
    \<and> (\<exists>extra. log_grows (issued_load cfg s) (memory_mapping (vm s)) extra (memory_mapping (vm s'))
         \<and> (extra = [] \<or> dispatched env (entered cfg s) s'))"
proof -
  have cfg: "exe_get_config (executable s) = Some cfg" using inv by (simp add: log_inv_def)
  have inv': "log_inv cfg (entered cfg s)" using inv by (simp add: log_inv_def)
  show ?thesis
  proof (cases "fetched cfg s")
    case None
    then obtain t err where "s' = throw_error t err" "t \<in> {s, counted s}"
      using step_fetched [where env = env, OF cfg] step by auto
    then have "log_inv cfg s'" "memory_mapping (vm s') = memory_mapping (vm s)"
      using inv by (auto simp: log_inv_def throw_error_def counted_def)
    then show ?thesis
      using None log_grows_refl [of "memory_mapping (vm s)"] inv by (auto simp: issued_load_def log_inv_def)
  next
    case (Some insn)
    then have "insn_effect env (entered cfg s) insn s'"
      using step_fetched [where env = env, OF cfg] step
        execute_insn_effect [where env = env and cfg = cfg and s = "entered cfg s" and insn = insn]
      by auto
    from effect_log [OF inv' this Some] show ?thesis by simp
  qed
qed

lemma run_log:
  "log_inv cfg s \<Longrightarrow> run fuel env s = Some (Halted s') \<Longrightarrow>
     mapping_ok (memory_mapping (vm s')) \<and> mapping_watched (memory_mapping (vm s')) = mapping_watched (memory_mapping (vm s))
     \<and> accounts_follow (memory_mapping (vm s)) (memory_mapping (vm s'))
     \<and> (\<exists>new. mapping_log (memory_mapping (vm s')) = mapping_log (memory_mapping (vm s)) @ new
          \<and> subseq (filter (forbidden (mapping_watched (memory_mapping (vm s)))) (loads_of fuel env cfg s)) new)"
proof (induction fuel arbitrary: s)
  case 0
  then show ?case by simp
next
  case (Suc fuel)
  show ?case
  proof (cases "step env s")
    case (Running t)
    obtain extra where t: "log_inv cfg t"
      "log_grows (issued_load cfg s) (memory_mapping (vm s)) extra (memory_mapping (vm t))"
      using step_log [OF Suc.prems(1)] Running by blast
    moreover have "run fuel env t = Some (Halted s')" using Suc.prems(2) Running by simp
    ultimately obtain new where new: "mapping_ok (memory_mapping (vm s'))"
      "mapping_watched (memory_mapping (vm s')) = mapping_watched (memory_mapping (vm s))"
      "mapping_log (memory_mapping (vm s')) = mapping_log (memory_mapping (vm t)) @ new"
      "accounts_follow (memory_mapping (vm t)) (memory_mapping (vm s'))"
      "subseq (filter (forbidden (mapping_watched (memory_mapping (vm s)))) (loads_of fuel env cfg t)) new"
      using Suc.IH [of t] by (auto simp: log_grows_def)
    have "subseq (filter (forbidden (mapping_watched (memory_mapping (vm s)))) (loads_of (Suc fuel) env cfg s))
        (filter (forbidden (mapping_watched (memory_mapping (vm s)))) (issued_load cfg s) @ extra @ new)"
      using list_emb_append_mono [OF subseq_order.refl subseq_drop_many [OF new(5), of extra]] Running by simp
    then show ?thesis using new(1-4) t(2) accounts_follow_trans by (auto simp: log_grows_def)
  next
    case (Halted t)
    then have "t = s'" using Suc.prems(2) by simp
    then show ?thesis
      using step_log [OF Suc.prems(1), of s'] Halted by (auto simp: log_grows_def)
  next
    case Panicked
    then show ?thesis using Suc.prems(2) by simp
  qed
qed

lemma execute_log:
  assumes "exe_get_config exe = Some cfg" "get_config (vm_loader m) = Some cfg"
    and "execute_program fuel env m exe = Some (Some (count, res, m'))" "mapping_ok (memory_mapping m)"
  shows "\<exists>new. mapping_log (memory_mapping m') = mapping_log (memory_mapping m) @ new
      \<and> subseq (filter (forbidden (mapping_watched (memory_mapping m))) (program_loads fuel env m exe)) new"
    and "mapping_ok (memory_mapping m')" "accounts_follow (memory_mapping m) (memory_mapping m')"
  using execute_program_cases [OF assms] run_log by metis+

end

text \<open>Builtin functions that read no watched memory leave the log alone; then it is exact.\<close>

locale silent_builtins = reading_builtins +
  assumes rust_silent:
    "mapping_ok mm \<Longrightarrow> rust env f c args mm mem = (res, c', mm', mem') \<Longrightarrow> mapping_log mm' = mapping_log mm"
begin

lemma step_exact:
  assumes inv: "log_inv cfg s" and step: "step env s = Running s' \<or> step env s = Halted s'"
  shows "log_grows (issued_load cfg s) (memory_mapping (vm s)) [] (memory_mapping (vm s'))"
proof -
  obtain extra where e: "log_grows (issued_load cfg s) (memory_mapping (vm s)) extra (memory_mapping (vm s'))"
    "extra = [] \<or> dispatched env (entered cfg s) s'"
    using step_log [OF assms] by blast
  have "extra = []" if d: "dispatched env (entered cfg s) s'"
  proof -
    obtain f res t where t: "dispatch_syscall env f (entered cfg s) = Some (res, t)" "same_all t s'"
      using d by (auto simp: dispatched_def)
    have cfg: "get_config (vm_loader (vm (entered cfg s))) = Some cfg" and ok: "mapping_ok (memory_mapping (vm s))"
      using inv by (simp_all add: log_inv_def)
    obtain ctx args res' ctx' mem m' where m':
      "rust env f ctx args (memory_mapping (vm s)) (host (vm s)) = (res', ctx', memory_mapping m', mem)"
      "t = (entered cfg s)\<lparr>vm := m'\<rparr>"
      by (rule dispatch_spec [OF cfg, of env f]) (use t(1) in auto)
    have "mapping_log (memory_mapping (vm s')) = mapping_log (memory_mapping (vm s))"
      using rust_silent [OF ok m'(1)] m'(2) t(2) by (simp add: same_defs)
    then show ?thesis using e(1) by (simp add: log_grows_def)
  qed
  with e show ?thesis by blast
qed

lemma run_exact:
  "log_inv cfg s \<Longrightarrow> run fuel env s = Some (Halted s') \<Longrightarrow>
     mapping_log (memory_mapping (vm s')) = mapping_log (memory_mapping (vm s))
       @ filter (forbidden (mapping_watched (memory_mapping (vm s)))) (loads_of fuel env cfg s)"
proof (induction fuel arbitrary: s)
  case (Suc fuel)
  show ?case
  proof (cases "step env s")
    case (Running t)
    then have "log_inv cfg t" "log_grows (issued_load cfg s) (memory_mapping (vm s)) [] (memory_mapping (vm t))"
      using step_log [OF Suc.prems(1)] step_exact [OF Suc.prems(1)] by blast+
    then show ?thesis using Suc Running by (simp add: log_grows_def)
  next
    case (Halted t)
    then show ?thesis using Suc.prems step_exact [OF Suc.prems(1), of s'] by (simp add: log_grows_def)
  qed (use Suc.prems in simp)
qed simp

lemma execute_exact:
  assumes "exe_get_config exe = Some cfg" "get_config (vm_loader m) = Some cfg"
    and "execute_program fuel env m exe = Some (Some (count, res, m'))" "mapping_ok (memory_mapping m)"
  shows "mapping_log (memory_mapping m') = mapping_log (memory_mapping m)
      @ filter (forbidden (mapping_watched (memory_mapping m))) (program_loads fuel env m exe)"
  using execute_program_cases [OF assms] run_exact by metis

end

end
