(* ===== verification/Translate.thy ===== *)
theory Translate
  imports Invoke_Context Read_Log
begin

text \<open>
  Guest pointers of system calls: \<open>agave/program-runtime/src/memory.rs\<close> and the helpers of
  \<open>agave/syscalls/src/lib.rs\<close> (\<open>translate_type\<close>, \<open>translate_slice\<close>, \<open>touch_slice_mut\<close>,
  \<open>translate_mut!\<close>).

  A system call works on the invoke context, the memory mapping and the host memory; the \<open>?\<close> operator
  is \<open>try_then\<close>.  A reference is the host address it points to, a slice also has a length.  The size
  and the alignment of the type argument are arguments.
\<close>

section \<open>State of a system call\<close>

record SysState =
  sys_ic :: InvokeContext
  sys_mapping :: MemoryMapping
  sys_mem :: host_memory

type_synonym 'a sys = "SysState \<times> ('a, BoxedError) result"

text \<open>\<open>translate_inner!\<close> with \<open>map\<close> and with \<open>map_with_access_violation_handler\<close>.\<close>

definition translate_inner :: "SysState \<Rightarrow> AccessType \<Rightarrow> u64 \<Rightarrow> u64 \<Rightarrow> u64 sys" where
  "translate_inner s access_type addr n =
     (case map_memory (sys_mapping s) access_type addr n of
        (Ok haddr, m) \<Rightarrow> (s\<lparr>sys_mapping := m\<rparr>, Ok haddr)
      | (Err e, m) \<Rightarrow> (s\<lparr>sys_mapping := m\<rparr>, Err (BoxEbpf e)))"

definition touch_inner :: "SysState \<Rightarrow> u64 \<Rightarrow> u64 \<Rightarrow> unit sys" where
  "touch_inner s addr n =
     (case map_with_access_violation_handler (sys_mapping s) Store addr n of
        (Ok haddr, m) \<Rightarrow> (s\<lparr>sys_mapping := m\<rparr>, Ok ())
      | (Err e, m) \<Rightarrow> (s\<lparr>sys_mapping := m\<rparr>, Err (BoxEbpf e)))"

definition address_is_aligned :: "u64 \<Rightarrow> u64 \<Rightarrow> bool" where
  "address_is_aligned align addr \<longleftrightarrow> addr mod align = 0"

record LayoutOf =
  size_of :: u64
  align_of :: u64

definition of_u8 :: LayoutOf where
  "of_u8 = \<lparr>size_of = 1, align_of = 1\<rparr>"

definition of_i32 :: LayoutOf where
  "of_i32 = \<lparr>size_of = 4, align_of = 4\<rparr>"

definition of_Pubkey :: LayoutOf where
  "of_Pubkey = \<lparr>size_of = 32, align_of = 1\<rparr>"

definition of_VmSlice :: LayoutOf where
  "of_VmSlice = \<lparr>size_of = 16, align_of = 8\<rparr>"

definition translate_type_inner :: "SysState \<Rightarrow> AccessType \<Rightarrow> u64 \<Rightarrow> LayoutOf \<Rightarrow> bool \<Rightarrow> u64 sys" where
  "translate_type_inner s access_type addr T check_aligned =
     try_then (translate_inner s access_type addr (size_of T)) (\<lambda>s haddr.
       if \<not> check_aligned then (s, Ok haddr)
       else if \<not> address_is_aligned (align_of T) haddr
       then (s, Err (BoxMemory TranslationUnalignedPointer))
       else (s, Ok haddr))"

text \<open>An empty slice has a dangling address; \<open>isize::try_from\<close> fails from \<open>2^63\<close> on.\<close>

definition translate_slice_inner ::
  "SysState \<Rightarrow> AccessType \<Rightarrow> u64 \<Rightarrow> u64 \<Rightarrow> LayoutOf \<Rightarrow> bool \<Rightarrow> (u64 \<times> nat) sys"
where
  "translate_slice_inner s access_type addr n T check_aligned =
     (if n = 0 then (s, Ok (align_of T, 0))
      else
        let total_size = saturating_mul n (size_of T) in
        if unat total_size \<ge> 2 ^ 63 then (s, Err (BoxMemory TranslationInvalidLength))
        else try_then (translate_inner s access_type addr total_size) (\<lambda>s haddr.
          if check_aligned \<and> \<not> address_is_aligned (align_of T) haddr
          then (s, Err (BoxMemory TranslationUnalignedPointer))
          else (s, Ok (haddr, unat n))))"

definition translate_type :: "SysState \<Rightarrow> u64 \<Rightarrow> LayoutOf \<Rightarrow> bool \<Rightarrow> u64 sys" where
  "translate_type s addr T check_aligned = translate_type_inner s Load addr T check_aligned"

definition translate_slice :: "SysState \<Rightarrow> u64 \<Rightarrow> u64 \<Rightarrow> LayoutOf \<Rightarrow> bool \<Rightarrow> (u64 \<times> nat) sys" where
  "translate_slice s addr n T check_aligned = translate_slice_inner s Load addr n T check_aligned"

definition translate_type_mut :: "SysState \<Rightarrow> u64 \<Rightarrow> LayoutOf \<Rightarrow> bool \<Rightarrow> u64 sys" where
  "translate_type_mut s addr T check_aligned = translate_type_inner s Store addr T check_aligned"

definition translate_slice_mut :: "SysState \<Rightarrow> u64 \<Rightarrow> u64 \<Rightarrow> LayoutOf \<Rightarrow> bool \<Rightarrow> (u64 \<times> nat) sys" where
  "translate_slice_mut s addr n T check_aligned = translate_slice_inner s Store addr n T check_aligned"

definition translate_vm_slice :: "SysState \<Rightarrow> VmSlice \<Rightarrow> LayoutOf \<Rightarrow> bool \<Rightarrow> (u64 \<times> nat) sys" where
  "translate_vm_slice s sl T check_aligned = translate_slice s (vs_ptr sl) (vs_len sl) T check_aligned"

text \<open>The bytes behind a slice of bytes, and a slice of \<open>VmSlice\<close>s: pointer and length.\<close>

definition slice_bytes :: "SysState \<Rightarrow> u64 \<times> nat \<Rightarrow> u8 list" where
  "slice_bytes s sl = read_bytes (sys_mem s) (fst sl) (snd sl)"

definition read_u64 :: "SysState \<Rightarrow> u64 \<Rightarrow> u64" where
  "read_u64 s addr = from_le_bytes (read_bytes (sys_mem s) addr 8)"

definition slice_VmSlices :: "SysState \<Rightarrow> u64 \<times> nat \<Rightarrow> VmSlice list" where
  "slice_VmSlices s sl =
     map (\<lambda>i. new_VmSlice (read_u64 s (fst sl + of_nat (16 * i))) (read_u64 s (fst sl + of_nat (16 * i) + 8)))
       [0..<snd sl]"

section \<open>Mutable references\<close>

definition touch_type_mut :: "SysState \<Rightarrow> u64 \<Rightarrow> LayoutOf \<Rightarrow> unit sys" where
  "touch_type_mut s addr T = touch_inner s addr (size_of T)"

definition touch_slice_mut :: "SysState \<Rightarrow> u64 \<Rightarrow> u64 \<Rightarrow> LayoutOf \<Rightarrow> unit sys" where
  "touch_slice_mut s addr element_count T =
     (if element_count = 0 then (s, Ok ()) else touch_inner s addr (saturating_mul element_count (size_of T)))"

definition is_nonoverlapping :: "u64 \<Rightarrow> u64 \<Rightarrow> u64 \<Rightarrow> u64 \<Rightarrow> bool" where
  "is_nonoverlapping src_ptr src_len dst_ptr dst_len =
     (if src_ptr > dst_ptr then saturating_sub src_ptr dst_ptr \<ge> dst_len
      else saturating_sub dst_ptr src_ptr \<ge> src_len)"

text \<open>One binding of \<open>translate_mut!\<close>: a reference or a slice of \<open>n\<close> elements.\<close>

datatype MutRef = MutType u64 LayoutOf | MutSlice u64 u64 LayoutOf

fun touch_mut :: "SysState \<Rightarrow> MutRef \<Rightarrow> unit sys" where
  "touch_mut s (MutType addr T) = touch_type_mut s addr T"
| "touch_mut s (MutSlice addr n T) = touch_slice_mut s addr n T"

text \<open>The host address of a binding and the length of its host range.\<close>

fun bind_mut :: "SysState \<Rightarrow> bool \<Rightarrow> MutRef \<Rightarrow> (u64 \<times> u64) sys" where
  "bind_mut s check_aligned (MutType addr T) =
     try_then (translate_type_mut s addr T check_aligned) (\<lambda>s haddr. (s, Ok (haddr, size_of T)))"
| "bind_mut s check_aligned (MutSlice addr n T) =
     try_then (translate_slice_mut s addr n T check_aligned) (\<lambda>s (haddr, _).
       (s, Ok (haddr, saturating_mul (size_of T) n)))"

fun touch_all :: "SysState \<Rightarrow> MutRef list \<Rightarrow> unit sys" where
  "touch_all s [] = (s, Ok ())"
| "touch_all s (r # rs) = try_then (touch_mut s r) (\<lambda>s _. touch_all s rs)"

fun bind_all :: "SysState \<Rightarrow> bool \<Rightarrow> MutRef list \<Rightarrow> (u64 \<times> u64) list sys" where
  "bind_all s check_aligned [] = (s, Ok [])"
| "bind_all s check_aligned (r # rs) =
     try_then (bind_mut s check_aligned r) (\<lambda>s b.
       try_then (bind_all s check_aligned rs) (\<lambda>s bs. (s, Ok (b # bs))))"

fun ranges_disjoint :: "(u64 \<times> u64) list \<Rightarrow> bool" where
  "ranges_disjoint [] = True"
| "ranges_disjoint (a # bs) =
     (list_all (\<lambda>b. is_nonoverlapping (fst a) (snd a) (fst b) (snd b)) bs \<and> ranges_disjoint bs)"

text \<open>\<open>translate_mut!\<close>: touch all, translate all, then refuse overlapping host ranges.\<close>

definition translate_mut :: "SysState \<Rightarrow> bool \<Rightarrow> MutRef list \<Rightarrow> u64 list sys" where
  "translate_mut s check_aligned refs =
     try_then (touch_all s refs) (\<lambda>s _.
       try_then (bind_all s check_aligned refs) (\<lambda>s hosts.
         if \<not> ranges_disjoint hosts then (s, Err (BoxSyscall CopyOverlapping))
         else (s, Ok (map fst hosts))))"

definition put_bytes :: "SysState \<Rightarrow> u64 \<Rightarrow> u8 list \<Rightarrow> SysState" where
  "put_bytes s haddr bytes = s\<lparr>sys_mem := write_bytes (sys_mem s) haddr bytes\<rparr>"

text \<open>
  A value of a type with \<open>n\<close> bytes, a key or a hash, stored through a reference of that size.  A key is a
  list here; its type in the source makes it \<open>n\<close> bytes long, so that \<open>copy_from_slice\<close> cannot panic.
\<close>

definition put_sized :: "SysState \<Rightarrow> u64 \<Rightarrow> nat \<Rightarrow> u8 list \<Rightarrow> SysState" where
  "put_sized s haddr n bytes = put_bytes s haddr (take n bytes)"

section \<open>Metering\<close>

definition consume_compute_meter :: "SysState \<Rightarrow> u64 \<Rightarrow> unit sys" where
  "consume_compute_meter s amount =
     (let (ic, res) = consume_checked (sys_ic s) amount in (s\<lparr>sys_ic := ic\<rparr>, res))"

end
