(* ===== verification/Invocation.thy ===== *)
theory Invocation
  imports Invoke_Context
begin

text \<open>
  Running one instruction and preparing the next: \<open>process_instruction\<close>, \<open>process_executable_chain\<close>,
  \<open>prepare_next_instruction\<close> and \<open>prepare_next_top_level_instruction\<close> of
  \<open>agave/program-runtime/src/invoke_context.rs\<close>.  The lemmas show that an invocation leaves the
  stacks as it found them and that a cross-program invocation cannot gain privileges.
\<close>

section \<open>Running an instruction\<close>

datatype 'f ProgramCacheEntryType = Builtin "'f BuiltinProgram" | OtherEntry

definition ENTRYPOINT_KEY :: u32 where
  "ENTRYPOINT_KEY = 0x71E3CF81"

text \<open>The program whose function runs: the program itself for a native one, else its loader.\<close>

definition builtin_id_of ::
  "Sdk \<Rightarrow> TransactionContext \<Rightarrow> InstructionContext \<Rightarrow> (Pubkey, InstructionError) result"
where
  "builtin_id_of sdk tc ins =
     and_then (get_program_owner tc ins) (\<lambda>owner_id.
       if owner_id = native_loader_id sdk then get_program_key tc ins
       else if owner_id = bpf_loader_deprecated_id sdk \<or> owner_id = bpf_loader_id sdk
               \<or> owner_id = bpf_loader_upgradeable_id sdk \<or> owner_id = loader_v4_id sdk
       then Ok owner_id
       else Err UnsupportedProgramId)"

definition entrypoint_function ::
  "(Pubkey \<Rightarrow> 'f ProgramCacheEntryType option) \<Rightarrow> Pubkey \<Rightarrow> ('f, InstructionError) result"
where
  "entrypoint_function programs builtin_id =
     and_then (ok_or (programs builtin_id) UnsupportedProgramId) (\<lambda>entry.
       ok_or
         (case entry of
            Builtin program \<Rightarrow> map_option snd (lookup_by_key (get_function_registry program) ENTRYPOINT_KEY)
          | OtherEntry \<Rightarrow> None)
         UnsupportedProgramId)"

text \<open>The result of the builtin function as the result of the instruction, logged.\<close>

definition chain_result ::
  "BoxedError Display \<Rightarrow> InvokeContext \<Rightarrow> Pubkey \<Rightarrow> BoxedError ProgramResult
     \<Rightarrow> InvokeContext \<times> (unit, InstructionError) result"
where
  "chain_result d ic program_id res =
     (case res of
        Ok _ \<Rightarrow> (program_success d ic program_id, Ok ())
      | Err (SyscallError (BoxInstruction e)) \<Rightarrow> (program_failure d ic program_id (BoxInstruction e), Err e)
      | Err (SyscallError e) \<Rightarrow> (program_failure d ic program_id e, Err ProgramFailedToComplete)
      | Err err \<Rightarrow> (program_failure d ic program_id (BoxEbpf err), Err ProgramFailedToComplete))"

text \<open>
  The host memory is that of the process.  \<open>None\<close> is a panic: a loader without a configuration.
  The second component of the result is \<open>compute_units_consumed\<close>.
\<close>

definition process_executable_chain ::
  "(InvokeContext, 'f, BoxedError) Env \<Rightarrow> BoxedError Display \<Rightarrow> Sdk
     \<Rightarrow> (Pubkey \<Rightarrow> 'f ProgramCacheEntryType option) \<Rightarrow> 'f BuiltinProgram
     \<Rightarrow> InvokeContext \<times> host_memory
     \<Rightarrow> ((InvokeContext \<times> host_memory) \<times> u64 \<times> (unit, InstructionError) result) option"
where
  "process_executable_chain env d sdk programs runtime_v2 s =
     (let (ic, mem) = s; tc = transaction_context ic;
          found = and_then (get_current_instruction_context tc) (\<lambda>ins.
            and_then (builtin_id_of sdk tc ins) (\<lambda>builtin_id.
              and_then (entrypoint_function programs builtin_id) (\<lambda>function.
                and_then (get_program_key tc ins) (\<lambda>program_id. Ok (builtin_id, function, program_id)))))
      in case found of
           Err e \<Rightarrow> Some (s, 0, Err e)
         | Ok (builtin_id, function, program_id) \<Rightarrow>
             let ic = ic\<lparr>transaction_context := set_return_data tc program_id []\<rparr>;
                 ic = program_invoke d ic program_id (get_stack_height ic);
                 pre_remaining_units = ic_get_remaining ic
             in case new_mapping [] default_Config V0 :: (MemoryMapping, BoxedError EbpfError) result option of
                  Some (Ok empty_memory_mapping) \<Rightarrow>
                    (case Option.bind (new_vm runtime_v2 V0 ic empty_memory_mapping 0 mem)
                            (invoke_function env function) of
                       None \<Rightarrow> None
                     | Some m \<Rightarrow>
                         let (ic, result) = chain_result d (context_object_pointer m) program_id (program_result m);
                             consumed = saturating_sub pre_remaining_units (ic_get_remaining ic)
                         in Some ((ic, host m), consumed,
                              if builtin_id = program_id \<and> is_ok result \<and> consumed = 0
                              then Err BuiltinProgramsMustConsumeComputeUnits else result))
                | _ \<Rightarrow> None)"

text \<open>\<open>Result::and\<close>: the first error, with both evaluated.\<close>

fun result_and :: "('a, 'e) result \<Rightarrow> ('b, 'e) result \<Rightarrow> ('b, 'e) result" where
  "result_and (Ok _) r = r"
| "result_and (Err e) r = Err e"

definition process_instruction ::
  "(InvokeContext, 'f, BoxedError) Env \<Rightarrow> BoxedError Display \<Rightarrow> Sdk
     \<Rightarrow> (Pubkey \<Rightarrow> 'f ProgramCacheEntryType option) \<Rightarrow> 'f BuiltinProgram
     \<Rightarrow> InvokeContext \<times> host_memory
     \<Rightarrow> ((InvokeContext \<times> host_memory) \<times> u64 \<times> (unit, InstructionError) result) option"
where
  "process_instruction env d sdk programs runtime_v2 s =
     (let (ic, mem) = s in
      case ic_push sdk ic of
        (ic, Err e) \<Rightarrow> Some ((ic, mem), 0, Err e)
      | (ic, Ok _) \<Rightarrow>
          map_option
            (\<lambda>((ic, mem), consumed, result).
               let (ic, popped) = ic_pop ic in ((ic, mem), consumed, result_and result popped))
            (process_executable_chain env d sdk programs runtime_v2 (ic, mem)))"

text \<open>The adapter of \<open>declare_process_instruction!\<close> around a builtin program.\<close>

definition declared_process_instruction ::
  "u64 \<Rightarrow> (InvokeContext \<Rightarrow> InvokeContext \<times> (unit, InstructionError) result)
     \<Rightarrow> InvokeContext \<Rightarrow> (u64, BoxedError) result \<times> InvokeContext"
where
  "declared_process_instruction cu_to_consume inner ic =
     (let (ic, consumption) = (if cu_to_consume > 0 then consume_checked ic cu_to_consume else (ic, Ok ()))
      in case consumption of
           Err e \<Rightarrow> (Err e, ic)
         | Ok _ \<Rightarrow>
             (case inner ic of
                (ic, Ok _) \<Rightarrow> (Ok 0, ic)
              | (ic, Err e) \<Rightarrow> (Err (BoxInstruction e), ic)))"

section \<open>Preparing the next instruction\<close>

record AccountMeta =
  meta_pubkey :: Pubkey
  meta_is_signer :: bool
  meta_is_writable :: bool

record CpiInstruction =
  cpi_program_id :: Pubkey
  cpi_accounts :: "AccountMeta list"
  cpi_data :: "u8 list"

text \<open>
  The first loop: resolve the accounts, merge the flags of repeated ones into the first occurrence.
  The error carries the message that is logged with it.  The outer \<open>None\<close> is the panic of
  \<open>get_mut(..).unwrap()\<close> for an account index past the map.
\<close>

fun resolve_accounts ::
  "BoxedError Display \<Rightarrow> TransactionContext \<Rightarrow> AccountMeta list \<Rightarrow> u16 list \<Rightarrow> InstructionAccount list
     \<Rightarrow> (u16 list \<times> InstructionAccount list, string \<times> InstructionError) result option"
where
  "resolve_accounts d tc [] callee_map accts = Some (Ok (callee_map, accts))"
| "resolve_accounts d tc (meta # metas) callee_map accts =
     (case find_index_of_account tc (meta_pubkey meta) of
        None \<Rightarrow>
          Some (Err (''Instruction references an unknown account '' @ show_key d (meta_pubkey meta), MissingAccount))
      | Some index \<Rightarrow>
          if \<not> unat index < length callee_map then None
          else
            let index_in_callee = unat (callee_map ! unat index) in
            if index_in_callee < length accts then
              let account = accts ! index_in_callee;
                  account = set_is_signer account (is_signer account \<or> meta_is_signer meta);
                  account = set_is_writable account (is_writable account \<or> meta_is_writable meta)
              in resolve_accounts d tc metas callee_map (accts[index_in_callee := account] @ [account])
            else
              resolve_accounts d tc metas (callee_map[unat index := of_nat (length accts)])
                (accts @ [new_InstructionAccount index (meta_is_signer meta) (meta_is_writable meta)]))"

text \<open>
  The second loop, from \<open>current_index\<close>: repeated accounts take the flags of the first occurrence,
  first occurrences are checked against the caller.  The \<open>unwrap\<close>s on the accounts and on the metas
  are in range; the one on the caller's accounts follows a lookup that checked the index.
\<close>

function check_privileges ::
  "BoxedError Display \<Rightarrow> InstructionContext \<Rightarrow> Pubkey list \<Rightarrow> Pubkey list \<Rightarrow> u16 list \<Rightarrow> nat
     \<Rightarrow> InstructionAccount list \<Rightarrow> (InstructionAccount list, string \<times> InstructionError) result"
where
  "check_privileges d caller signers keys callee_map current_index accts =
     (if \<not> current_index < length accts then Ok accts
      else
        let account = accts ! current_index;
            index_in_callee = unat (callee_map ! unat (index_in_transaction account))
        in if current_index \<noteq> index_in_callee then
             if \<not> index_in_callee < length accts then Err ([], MissingAccount)
             else
               let reference = accts ! index_in_callee;
                   account = set_is_signer account (is_signer account \<or> is_signer reference);
                   account = set_is_writable account (is_writable account \<or> is_writable reference)
               in check_privileges d caller signers keys callee_map (current_index + 1)
                    (accts[current_index := account])
           else
             case get_index_of_account_in_instruction caller (index_in_transaction account) of
               Err e \<Rightarrow> Err ([], e)
             | Ok index_in_caller \<Rightarrow>
                 let account_key = keys ! current_index;
                     caller_account = instruction_accounts caller ! unat index_in_caller
                 in if is_writable account \<and> \<not> is_writable caller_account
                    then Err (show_key d account_key @ [CHR 0x27] @ ''s writable privilege escalated'', PrivilegeEscalation)
                    else if is_signer account
                            \<and> \<not> (is_signer caller_account \<or> account_key \<in> set signers)
                    then Err (show_key d account_key @ [CHR 0x27] @ ''s signer privilege escalated'', PrivilegeEscalation)
                    else check_privileges d caller signers keys callee_map (current_index + 1) accts)"
  by auto
termination
  by (relation "measure (\<lambda>(_, _, _, _, _, i, accts). length accts - i)") auto

declare check_privileges.simps [simp del]

definition fail_with ::
  "InvokeContext \<Rightarrow> string \<times> InstructionError \<Rightarrow> InvokeContext \<times> (unit, InstructionError) result"
where
  "fail_with ic err = (if fst err = [] then ic else ic_msg ic (fst err), Err (snd err))"

definition prepare_next_instruction ::
  "BoxedError Display \<Rightarrow> InvokeContext \<Rightarrow> CpiInstruction \<Rightarrow> Pubkey list
     \<Rightarrow> (InvokeContext \<times> (unit, InstructionError) result) option"
where
  "prepare_next_instruction d ic instruction signers =
     (let tc = transaction_context ic in
      case get_current_instruction_context tc of
        Err e \<Rightarrow> Some (ic, Err e)
      | Ok caller \<Rightarrow>
          (case resolve_accounts d tc (cpi_accounts instruction)
                  (replicate MAX_ACCOUNTS_PER_TRANSACTION (- 1)) [] of
             None \<Rightarrow> None
           | Some (Err err) \<Rightarrow> Some (fail_with ic err)
           | Some (Ok (callee_map, accts)) \<Rightarrow>
               (case check_privileges d caller signers (map meta_pubkey (cpi_accounts instruction))
                       callee_map 0 accts of
                  Err err \<Rightarrow> Some (fail_with ic err)
                | Ok accts \<Rightarrow>
                    (case find_index_of_account tc (cpi_program_id instruction) of
                       None \<Rightarrow>
                         Some (fail_with ic (''Unknown program '' @ show_key d (cpi_program_id instruction), MissingAccount))
                     | Some program_index \<Rightarrow>
                         if \<not> is_ok (get_index_of_account_in_instruction caller program_index)
                         then Some (fail_with ic (''Unknown program '' @ show_key d (cpi_program_id instruction), MissingAccount))
                         else
                           case get_current_instruction_index tc of
                             Err e \<Rightarrow> Some (ic, Err e)
                           | Ok caller_index \<Rightarrow>
                               let (tc, res) = configure_next_instruction tc program_index accts callee_map
                                                 (cpi_data instruction) (Some (of_nat caller_index))
                               in Some (ic\<lparr>transaction_context := tc\<rparr>, res)))))"

text \<open>
  The loop of the top-level variant; \<open>signer\<close> and \<open>wr\<close> are the message's \<open>is_signer\<close> and
  \<open>is_writable\<close>.
\<close>

fun top_level_accounts ::
  "(nat \<Rightarrow> bool) \<Rightarrow> (nat \<Rightarrow> bool) \<Rightarrow> u8 list \<Rightarrow> u16 list \<Rightarrow> InstructionAccount list
     \<Rightarrow> (u16 list \<times> InstructionAccount list) option"
where
  "top_level_accounts signer wr [] callee_map accts = Some (callee_map, accts)"
| "top_level_accounts signer wr (i # is) callee_map accts =
     (if \<not> unat i < length callee_map then None
      else
        let callee_map = (if unat (callee_map ! unat i) > length accts
                          then callee_map[unat i := of_nat (length accts)] else callee_map)
        in top_level_accounts signer wr is callee_map
             (accts @ [new_InstructionAccount (ucast i) (signer (unat i)) (wr (unat i))]))"

definition prepare_next_top_level_instruction ::
  "InvokeContext \<Rightarrow> (nat \<Rightarrow> bool) \<Rightarrow> (nat \<Rightarrow> bool) \<Rightarrow> u8 list \<Rightarrow> IndexOfAccount \<Rightarrow> u8 list
     \<Rightarrow> (InvokeContext \<times> (unit, InstructionError) result) option"
where
  "prepare_next_top_level_instruction ic signer wr account_indices program_account_index bytes =
     map_option
       (\<lambda>(callee_map, accts).
          let (tc, res) = configure_next_instruction (transaction_context ic) program_account_index
                            accts callee_map bytes None
          in (ic\<lparr>transaction_context := tc\<rparr>, res))
       (top_level_accounts signer wr account_indices (replicate MAX_ACCOUNTS_PER_TRANSACTION (- 1)) [])"

definition native_invoke ::
  "(InvokeContext, 'f, BoxedError) Env \<Rightarrow> BoxedError Display \<Rightarrow> Sdk
     \<Rightarrow> (Pubkey \<Rightarrow> 'f ProgramCacheEntryType option) \<Rightarrow> 'f BuiltinProgram
     \<Rightarrow> InvokeContext \<times> host_memory \<Rightarrow> CpiInstruction \<Rightarrow> Pubkey list
     \<Rightarrow> ((InvokeContext \<times> host_memory) \<times> (unit, InstructionError) result) option"
where
  "native_invoke env d sdk programs runtime_v2 s instruction signers =
     (let (ic, mem) = s in
      case prepare_next_instruction d ic instruction signers of
        None \<Rightarrow> None
      | Some (ic, Err e) \<Rightarrow> Some ((ic, mem), Err e)
      | Some (ic, Ok _) \<Rightarrow>
          map_option (\<lambda>(s, consumed, res). (s, res))
            (process_instruction env d sdk programs runtime_v2 (ic, mem)))"

section \<open>Privileges\<close>

text \<open>
  What the first loop leaves: the map sends the index of every account resolved so far to its first
  occurrence, and the flags of that occurrence cover those of the repetitions.
\<close>

definition resolved :: "u16 list \<Rightarrow> InstructionAccount list \<Rightarrow> bool" where
  "resolved callee_map accts \<longleftrightarrow>
     length callee_map = MAX_ACCOUNTS_PER_TRANSACTION
     \<and> (\<forall>a \<in> set accts. unat (index_in_transaction a) < MAX_ACCOUNTS_PER_TRANSACTION)
     \<and> (\<forall>i < length accts.
          let r = unat (callee_map ! unat (index_in_transaction (accts ! i))) in
          r \<le> i \<and> index_in_transaction (accts ! r) = index_in_transaction (accts ! i)
          \<and> (is_signer (accts ! i) \<longrightarrow> is_signer (accts ! r))
          \<and> (is_writable (accts ! i) \<longrightarrow> is_writable (accts ! r)))
     \<and> (\<forall>j < MAX_ACCOUNTS_PER_TRANSACTION. unat (callee_map ! j) < length accts \<longrightarrow>
          unat (index_in_transaction (accts ! unat (callee_map ! j))) = j)"

definition privileged ::
  "TransactionContext \<Rightarrow> InstructionContext \<Rightarrow> Pubkey list \<Rightarrow> InstructionAccount \<Rightarrow> bool"
where
  "privileged tc caller signers a \<longleftrightarrow>
     (\<exists>j. get_index_of_account_in_instruction caller (index_in_transaction a) = Ok j
        \<and> (is_writable a \<longrightarrow> is_writable (instruction_accounts caller ! unat j))
        \<and> (is_signer a \<longrightarrow> is_signer (instruction_accounts caller ! unat j)
             \<or> (\<exists>k \<in> set signers. account_key (accounts tc) (index_in_transaction a) = Some k)))"

lemma privileged_mono:
  "privileged tc caller signers r \<Longrightarrow> index_in_transaction a = index_in_transaction r \<Longrightarrow>
   (is_signer a \<longrightarrow> is_signer r) \<Longrightarrow> (is_writable a \<longrightarrow> is_writable r) \<Longrightarrow> privileged tc caller signers a"
  by (auto simp: privileged_def)

lemma resolved_ref:
  assumes "resolved m accts" "i < length accts"
  defines "r \<equiv> unat (m ! unat (index_in_transaction (accts ! i)))"
  shows "r \<le> i" "index_in_transaction (accts ! r) = index_in_transaction (accts ! i)"
    and "is_signer (accts ! i) \<longrightarrow> is_signer (accts ! r)" "is_writable (accts ! i) \<longrightarrow> is_writable (accts ! r)"
    and "unat (m ! unat (index_in_transaction (accts ! r))) = r"
  using assms by (auto simp: resolved_def Let_def)

text \<open>Giving a repetition the flags of its first occurrence keeps the table in order.\<close>

lemma resolved_update:
  assumes "resolved m accts" "i < length accts" "i \<noteq> unat (m ! unat (index_in_transaction (accts ! i)))"
    and "index_in_transaction a = index_in_transaction (accts ! i)"
    and "is_signer a \<longrightarrow> is_signer (accts ! unat (m ! unat (index_in_transaction (accts ! i))))"
    and "is_writable a \<longrightarrow> is_writable (accts ! unat (m ! unat (index_in_transaction (accts ! i))))"
  shows "resolved m (accts[i := a])"
proof -
  have ix: "index_in_transaction (accts[i := a] ! j) = index_in_transaction (accts ! j)" for j
    using assms(2,4) by (cases "j = i") simp_all
  have ref: "accts[i := a] ! unat (m ! unat (index_in_transaction (accts ! j))) =
      accts ! unat (m ! unat (index_in_transaction (accts ! j)))" if "j < length accts" for j
  proof -
    have "unat (m ! unat (index_in_transaction (accts ! j))) \<noteq> i"
      using resolved_ref(5) [OF assms(1) that] assms(3) by auto
    then show ?thesis by simp
  qed
  have "map index_in_transaction (accts[i := a]) = map index_in_transaction accts"
    by (rule nth_equalityI) (use ix in simp_all)
  then have "index_in_transaction ` set (accts[i := a]) = index_in_transaction ` set accts"
    by (simp only: image_set)
  moreover have "\<forall>x \<in> index_in_transaction ` set accts. unat x < MAX_ACCOUNTS_PER_TRANSACTION"
    using assms(1) unfolding resolved_def by blast
  ultimately have "\<forall>b \<in> set (accts[i := a]). unat (index_in_transaction b) < MAX_ACCOUNTS_PER_TRANSACTION"
    by blast
  moreover have "let r = unat (m ! unat (index_in_transaction (accts[i := a] ! j))) in
      r \<le> j \<and> index_in_transaction (accts[i := a] ! r) = index_in_transaction (accts[i := a] ! j)
      \<and> (is_signer (accts[i := a] ! j) \<longrightarrow> is_signer (accts[i := a] ! r))
      \<and> (is_writable (accts[i := a] ! j) \<longrightarrow> is_writable (accts[i := a] ! r))" if "j < length accts" for j
    using resolved_ref(1-4) [OF assms(1) that] assms(2,5,6) that
    unfolding Let_def ix ref [OF that] by (cases "j = i") simp_all
  ultimately show ?thesis
    using assms(1) unfolding resolved_def length_list_update ix by blast
qed

lemma check_privileges_spec:
  assumes "resolved m accts" "check_privileges d caller signers keys m i accts = Ok accts'"
    and "\<forall>j < i. j < length accts \<longrightarrow> privileged tc caller signers (accts ! j)"
    and "\<forall>j < length accts. account_key (accounts tc) (index_in_transaction (accts ! j)) = Some (keys ! j)"
  shows "length accts' = length accts
    \<and> (\<forall>j < length accts. privileged tc caller signers (accts' ! j)
         \<and> index_in_transaction (accts' ! j) = index_in_transaction (accts ! j))"
  using assms
proof (induction "length accts - i" arbitrary: i accts rule: less_induct)
  case less
  let ?a = "accts ! i" and ?r = "unat (m ! unat (index_in_transaction (accts ! i)))"
  note step = check_privileges.simps [of d caller signers keys m i accts]
  show ?case
  proof (cases "i < length accts")
    case False
    then show ?thesis using less.prems by (simp add: step)
  next
    case lt: True
    note ref = resolved_ref [OF less.prems(1) lt]
    show ?thesis
    proof (cases "i = ?r")
      case False
      let ?b = "set_is_writable (set_is_signer ?a (is_signer ?a \<or> is_signer (accts ! ?r)))
        (is_writable ?a \<or> is_writable (accts ! ?r))"
      have r: "?r < i" "?r < length accts" using False ref(1) lt by auto
      have b: "privileged tc caller signers ?b"
        by (rule privileged_mono [of _ _ _ "accts ! ?r"]) (use less.prems(3) r ref in auto)
      have res: "resolved m (accts[i := ?b])"
        by (rule resolved_update [OF less.prems(1) lt False]) (use ref in auto)
      have eq: "check_privileges d caller signers keys m (i + 1) (accts[i := ?b]) = Ok accts'"
        using less.prems(2) lt False r by (subst (asm) step) (simp add: Let_def)
      have "\<forall>j < i + 1. j < length (accts[i := ?b]) \<longrightarrow> privileged tc caller signers (accts[i := ?b] ! j)"
        using b less.prems(3) lt by (auto simp: nth_list_update less_Suc_eq)
      moreover have "\<forall>j < length (accts[i := ?b]).
          account_key (accounts tc) (index_in_transaction (accts[i := ?b] ! j)) = Some (keys ! j)"
        using less.prems(4) lt by (auto simp: nth_list_update)
      ultimately show ?thesis
        using less.hyps [OF _ res eq] lt by (auto simp: nth_list_update split: if_splits)
    next
      case True
      obtain j where j: "get_index_of_account_in_instruction caller (index_in_transaction ?a) = Ok j"
        using less.prems(2) lt True by (subst (asm) step) (auto simp: Let_def split: result.splits)
      have p: "\<not> (is_writable ?a \<and> \<not> is_writable (instruction_accounts caller ! unat j))"
        "\<not> (is_signer ?a \<and> \<not> (is_signer (instruction_accounts caller ! unat j) \<or> keys ! i \<in> set signers))"
        and eq: "check_privileges d caller signers keys m (i + 1) accts = Ok accts'"
        using less.prems(2) lt True j by (subst (asm) step, auto simp: Let_def split: if_splits)+
      then have "privileged tc caller signers ?a"
        using j less.prems(4) lt by (auto simp: privileged_def)
      then have "\<forall>k < i + 1. k < length accts \<longrightarrow> privileged tc caller signers (accts ! k)"
        using less.prems(3) by (auto simp: less_Suc_eq)
      then show ?thesis
        using less.hyps [OF _ less.prems(1) eq _ less.prems(4)] lt by auto
    qed
  qed
qed

text \<open>A first occurrence with more flags, and one more repetition of it.\<close>

lemma resolved_merge:
  assumes res: "resolved m accts" and j: "j < MAX_ACCOUNTS_PER_TRANSACTION" "r = unat (m ! j)" "r < length accts"
    and a: "index_in_transaction a = index_in_transaction (accts ! r)"
    and f: "is_signer (accts ! r) \<longrightarrow> is_signer a" "is_writable (accts ! r) \<longrightarrow> is_writable a"
    and old: "\<forall>j < MAX_ACCOUNTS_PER_TRANSACTION. unat (m ! j) \<noteq> length accts"
  shows "resolved m (accts[r := a] @ [a])"
proof -
  let ?n = "accts[r := a] @ [a]"
  have jx: "unat (index_in_transaction (accts ! r)) = j" using res j by (auto simp: resolved_def)
  have ix: "index_in_transaction (?n ! i) = (if i = length accts then index_in_transaction (accts ! r)
      else index_in_transaction (accts ! i))" if "i \<le> length accts" for i
    using that j(3) a by (auto simp: nth_append nth_list_update)
  have at: "?n ! i = (if i = r \<or> i = length accts then a else accts ! i)" if "i \<le> length accts" for i
    using that j(3) by (auto simp: nth_append)
  have "\<forall>b \<in> set ?n. unat (index_in_transaction b) < MAX_ACCOUNTS_PER_TRANSACTION"
  proof -
    have "set ?n \<subseteq> insert a (set accts)" using set_update_subset_insert [of accts r a] by simp
    moreover have "unat (index_in_transaction a) < MAX_ACCOUNTS_PER_TRANSACTION" using a jx j(1) by simp
    moreover have "\<forall>b \<in> set accts. unat (index_in_transaction b) < MAX_ACCOUNTS_PER_TRANSACTION"
      using res unfolding resolved_def by blast
    ultimately show ?thesis by blast
  qed
  moreover have "let q = unat (m ! unat (index_in_transaction (?n ! i))) in
      q \<le> i \<and> index_in_transaction (?n ! q) = index_in_transaction (?n ! i)
      \<and> (is_signer (?n ! i) \<longrightarrow> is_signer (?n ! q)) \<and> (is_writable (?n ! i) \<longrightarrow> is_writable (?n ! q))"
    if "i < length ?n" for i
  proof (cases "i = length accts")
    case True
    then show ?thesis using j jx a by (simp add: Let_def nth_append)
  next
    case False
    then have i: "i < length accts" using that by simp
    let ?q = "unat (m ! unat (index_in_transaction (accts ! i)))"
    note ref = resolved_ref(1-4) [OF res i]
    have q: "?q < length accts" using ref(1) i by simp
    have e: "unat (m ! unat (index_in_transaction (?n ! i))) = ?q" using ix [of i] i by simp
    have n: "?n ! i = (if i = r then a else accts ! i)" "?n ! ?q = (if ?q = r then a else accts ! ?q)"
      using at [of i] at [of ?q] i q by simp_all
    have "?q = r" if "i = r" using that jx j(2) by simp
    then show ?thesis
      using ref f a unfolding Let_def e unfolding n by (cases "i = r"; cases "?q = r") auto
  qed
  moreover have "unat (index_in_transaction (?n ! unat (m ! k))) = k"
    if "k < MAX_ACCOUNTS_PER_TRANSACTION" "unat (m ! k) < length ?n" for k
  proof -
    have "unat (m ! k) < length accts" using that old by (auto simp: less_Suc_eq)
    then show ?thesis using res that(1) ix [of "unat (m ! k)"] by (auto simp: resolved_def)
  qed
  ultimately show ?thesis using res unfolding resolved_def by simp
qed

lemma resolved_fresh:
  assumes res: "resolved m accts" and j: "unat (index_in_transaction a) < MAX_ACCOUNTS_PER_TRANSACTION"
    and fresh: "\<not> unat (m ! unat (index_in_transaction a)) < length accts" and n: "length accts < 2 ^ 16"
    and old: "\<forall>j < MAX_ACCOUNTS_PER_TRANSACTION. unat (m ! j) \<noteq> length accts"
  shows "resolved (m[unat (index_in_transaction a) := of_nat (length accts)]) (accts @ [a])"
proof -
  let ?j = "unat (index_in_transaction a)"
  let ?m = "m[?j := of_nat (length accts)]"
  have len: "length m = MAX_ACCOUNTS_PER_TRANSACTION" using res by (simp add: resolved_def)
  have mj: "unat (?m ! ?j) = length accts"
    using n j len by (simp add: unat_of_nat take_bit_nat_eq_self)
  have other: "?m ! unat (index_in_transaction (accts ! i)) = m ! unat (index_in_transaction (accts ! i))"
    if "i < length accts" for i
    using resolved_ref(1) [OF res that] fresh that by (cases "unat (index_in_transaction (accts ! i)) = ?j") auto
  have "let q = unat (?m ! unat (index_in_transaction ((accts @ [a]) ! i))) in
      q \<le> i \<and> index_in_transaction ((accts @ [a]) ! q) = index_in_transaction ((accts @ [a]) ! i)
      \<and> (is_signer ((accts @ [a]) ! i) \<longrightarrow> is_signer ((accts @ [a]) ! q))
      \<and> (is_writable ((accts @ [a]) ! i) \<longrightarrow> is_writable ((accts @ [a]) ! q))"
    if "i < length (accts @ [a])" for i
  proof (cases "i = length accts")
    case True
    then show ?thesis using mj by (simp add: Let_def)
  next
    case False
    then have i: "i < length accts" using that by simp
    show ?thesis
      using resolved_ref(1-4) [OF res i] i unfolding Let_def by (simp add: nth_append other [OF i])
  qed
  moreover have "unat (index_in_transaction ((accts @ [a]) ! unat (?m ! k))) = k"
    if "k < MAX_ACCOUNTS_PER_TRANSACTION" "unat (?m ! k) < length (accts @ [a])" for k
  proof (cases "k = ?j")
    case True
    then show ?thesis using mj by simp
  next
    case False
    then have "unat (m ! k) < length accts" using that old by (auto simp: less_Suc_eq)
    then show ?thesis using res that(1) False by (auto simp: resolved_def nth_append)
  qed
  ultimately show ?thesis using res j len unfolding resolved_def by simp
qed

lemma find_position_Some: "find_position P xs = Some i \<Longrightarrow> i < length xs \<and> P (xs ! i)"
  by (induction P xs arbitrary: i rule: find_position.induct) (auto split: if_splits)

lemma find_index_key:
  assumes "find_index_of_account tc k = Some i" "accounts_len (accounts tc) \<le> MAX_ACCOUNTS_PER_TRANSACTION"
  shows "account_key (accounts tc) i = Some k" "unat i < MAX_ACCOUNTS_PER_TRANSACTION"
proof -
  obtain p where fp: "find_position (\<lambda>x. x = k) (account_keys_iter (accounts tc)) = Some p" and i: "i = of_nat p"
    using assms(1) by (auto simp: find_index_of_account_def)
  have p: "p < accounts_len (accounts tc)" "account_keys_iter (accounts tc) ! p = k"
    using find_position_Some [OF fp] by (simp_all add: account_keys_iter_def accounts_len_def)
  have "p < 256" using p(1) assms(2) by (simp add: MAX_ACCOUNTS_PER_TRANSACTION_def)
  then have "unat i = p" unfolding i by (simp add: unat_of_nat take_bit_nat_eq_self)
  then show "account_key (accounts tc) i = Some k" "unat i < MAX_ACCOUNTS_PER_TRANSACTION"
    using p assms(2) by (simp_all add: account_key_def nth_get_def account_keys_iter_def accounts_len_def)
qed

lemma resolve_spec:
  assumes "resolve_accounts d tc metas m accts = Some (Ok (m', accts'))"
    and "accounts_len (accounts tc) \<le> MAX_ACCOUNTS_PER_TRANSACTION" "resolved m accts"
    and "\<forall>j < MAX_ACCOUNTS_PER_TRANSACTION. unat (m ! j) < length accts \<or> m ! j = - 1"
    and "map (\<lambda>a. account_key (accounts tc) (index_in_transaction a)) accts = map Some ks"
    and "length accts + length metas < 2 ^ 16 - 1"
  shows "resolved m' accts'
    \<and> map (\<lambda>a. account_key (accounts tc) (index_in_transaction a)) accts' = map Some (ks @ map meta_pubkey metas)"
  using assms
proof (induction metas arbitrary: m accts ks)
  case Nil
  have "m' = m" "accts' = accts" using Nil.prems(1) by simp_all
  then show ?case using Nil.prems(3,5) by (simp only: list.map append_Nil2 simp_thms)
next
  case (Cons meta metas)
  let ?M = MAX_ACCOUNTS_PER_TRANSACTION
  obtain index where index: "find_index_of_account tc (meta_pubkey meta) = Some index"
  proof (cases "find_index_of_account tc (meta_pubkey meta)")
    case None
    then show ?thesis using Cons.prems(1) by simp
  qed (rule that)
  note key = find_index_key [OF index Cons.prems(2)]
  let ?r = "unat (m ! unat index)"
  have len: "length m = ?M" using Cons.prems(3) by (simp add: resolved_def)
  have unset: "unat (m ! j) \<noteq> length accts" if "j < ?M" for j
  proof -
    have "unat (m ! j) < length accts \<or> unat (m ! j) = unat (- 1 :: u16)" using Cons.prems(4) that by auto
    moreover have "unat (- 1 :: u16) = 65535" by (simp add: unat_max_word)
    ultimately show ?thesis using Cons.prems(6) by auto
  qed
  show ?case
  proof (cases "?r < length accts")
    case True
    let ?b = "set_is_writable (set_is_signer (accts ! ?r) (is_signer (accts ! ?r) \<or> meta_is_signer meta))
      (is_writable (accts ! ?r) \<or> meta_is_writable meta)"
    have "unat (index_in_transaction (accts ! ?r)) = unat index"
      using Cons.prems(3) key(2) True unfolding resolved_def by blast
    then have ix: "index_in_transaction (accts ! ?r) = index" by (simp only: word_unat_eq_iff)
    have "resolved m (accts[?r := ?b] @ [?b])"
      by (rule resolved_merge [OF Cons.prems(3) key(2) refl True]) (use unset in auto)
    moreover have "map (\<lambda>a. account_key (accounts tc) (index_in_transaction a)) (accts[?r := ?b] @ [?b]) =
        map Some (ks @ [meta_pubkey meta])"
    proof -
      have "map (\<lambda>a. account_key (accounts tc) (index_in_transaction a)) (accts[?r := ?b]) =
          map (\<lambda>a. account_key (accounts tc) (index_in_transaction a)) accts"
        using True ix by (simp add: map_update list_update_same_conv)
      then show ?thesis using Cons.prems(5) ix key(1) by simp
    qed
    moreover have "resolve_accounts d tc metas m (accts[?r := ?b] @ [?b]) = Some (Ok (m', accts'))"
      using Cons.prems(1) index True key(2) len by (simp add: Let_def)
    moreover have "\<forall>j < ?M. unat (m ! j) < length (accts[?r := ?b] @ [?b]) \<or> m ! j = - 1"
      using Cons.prems(4) by (auto intro: less_SucI)
    ultimately show ?thesis
      using Cons.IH [of m "accts[?r := ?b] @ [?b]" "ks @ [meta_pubkey meta]"] Cons.prems(2,6) by simp
  next
    case False
    let ?a = "new_InstructionAccount index (meta_is_signer meta) (meta_is_writable meta)"
    let ?m = "m[unat index := of_nat (length accts)]"
    have "resolved ?m (accts @ [?a])"
      using resolved_fresh [OF Cons.prems(3), of ?a] key(2) False unset Cons.prems(6) by simp
    moreover have "resolve_accounts d tc metas ?m (accts @ [?a]) = Some (Ok (m', accts'))"
      using Cons.prems(1) index False key(2) len by (simp add: Let_def)
    moreover have "\<forall>j < ?M. unat (?m ! j) < length (accts @ [?a]) \<or> ?m ! j = - 1"
      using Cons.prems(4,6) key(2) len
      by (auto simp: nth_list_update unat_of_nat take_bit_nat_eq_self intro: less_SucI)
    moreover have "map (\<lambda>a. account_key (accounts tc) (index_in_transaction a)) (accts @ [?a]) =
        map Some (ks @ [meta_pubkey meta])"
      using Cons.prems(5) key(1) by simp
    ultimately show ?thesis
      using Cons.IH [of ?m "accts @ [?a]" "ks @ [meta_pubkey meta]"] Cons.prems(2,6) by simp
  qed
qed

lemma resolved_initial: "resolved (replicate MAX_ACCOUNTS_PER_TRANSACTION (- 1)) []"
  by (simp add: resolved_def)

lemma prepare_Ok:
  assumes "prepare_next_instruction d ic instruction signers = Some (ic', Ok ())"
    and "get_current_instruction_context (transaction_context ic) = Ok caller"
  obtains m accts accts' where
    "resolve_accounts d (transaction_context ic) (cpi_accounts instruction)
       (replicate MAX_ACCOUNTS_PER_TRANSACTION (- 1)) [] = Some (Ok (m, accts))"
    "check_privileges d caller signers (map meta_pubkey (cpi_accounts instruction)) m 0 accts = Ok accts'"
    "tc_instruction_accounts (transaction_context ic') = tc_instruction_accounts (transaction_context ic) @ [accts']"
  using assms
  by (auto simp: prepare_next_instruction_def fail_with_def configure_next_instruction_def Let_def
      split: option.splits result.splits if_splits)

text \<open>
  C21: a cross-program invocation cannot gain privileges.  When the next instruction has been prepared,
  its accounts are those its metas name, in order; each of them is an account of the caller; one that
  is writable was writable for the caller; and one that signs signed for the caller or is among the
  keys the caller signs for.
\<close>

theorem cpi_no_privilege_escalation:
  assumes "prepare_next_instruction d ic instruction signers = Some (ic', Ok ())"
    and "get_current_instruction_context (transaction_context ic) = Ok caller"
    and "accounts_len (accounts (transaction_context ic)) \<le> MAX_ACCOUNTS_PER_TRANSACTION"
    and "length (cpi_accounts instruction) < 2 ^ 16 - 1"
  shows "\<exists>accts. tc_instruction_accounts (transaction_context ic')
         = tc_instruction_accounts (transaction_context ic) @ [accts]
     \<and> map (\<lambda>a. account_key (accounts (transaction_context ic)) (index_in_transaction a)) accts
         = map (Some \<circ> meta_pubkey) (cpi_accounts instruction)
     \<and> (\<forall>a \<in> set accts. privileged (transaction_context ic) caller signers a)"
proof -
  let ?tc = "transaction_context ic" and ?metas = "cpi_accounts instruction"
  obtain m accts accts' where p:
    "resolve_accounts d ?tc ?metas (replicate MAX_ACCOUNTS_PER_TRANSACTION (- 1)) [] = Some (Ok (m, accts))"
    "check_privileges d caller signers (map meta_pubkey ?metas) m 0 accts = Ok accts'"
    "tc_instruction_accounts (transaction_context ic') = tc_instruction_accounts ?tc @ [accts']"
    by (rule prepare_Ok [OF assms(1,2)])
  have r: "resolved m accts"
    "map (\<lambda>a. account_key (accounts ?tc) (index_in_transaction a)) accts = map Some (map meta_pubkey ?metas)"
    using resolve_spec [OF p(1) assms(3) resolved_initial, of "[]"] assms(4) by simp_all
  have len: "length accts = length ?metas" using arg_cong [OF r(2), of length] by simp
  have "account_key (accounts ?tc) (index_in_transaction (accts ! j)) = Some (map meta_pubkey ?metas ! j)"
    if "j < length accts" for j
    using arg_cong [OF r(2), of "\<lambda>xs. xs ! j"] that len by simp
  then have c: "length accts' = length accts" "\<And>j. j < length accts \<Longrightarrow> privileged ?tc caller signers (accts' ! j)"
    "\<And>j. j < length accts \<Longrightarrow> index_in_transaction (accts' ! j) = index_in_transaction (accts ! j)"
    using check_privileges_spec [OF r(1) p(2), of ?tc] by simp_all
  have "map (\<lambda>a. account_key (accounts ?tc) (index_in_transaction a)) accts' =
      map (\<lambda>a. account_key (accounts ?tc) (index_in_transaction a)) accts"
    using c by (intro nth_equalityI) simp_all
  then have "map (\<lambda>a. account_key (accounts ?tc) (index_in_transaction a)) accts' = map (Some \<circ> meta_pubkey) ?metas"
    using r(2) by simp
  moreover have "\<forall>a \<in> set accts'. privileged ?tc caller signers a"
    using c by (auto simp: in_set_conv_nth)
  ultimately show ?thesis using p(3) by blast
qed

definition sample_ic :: InvokeContext where
  "sample_ic =
     new_InvokeContext sample_pushed all_enabled None (new_ExecutionBudget 32768 False)
       (default_ExecutionCost False)"

definition sample_cpi :: CpiInstruction where
  "sample_cpi =
     \<lparr>cpi_program_id = replicate 32 1,
      cpi_accounts = [\<lparr>meta_pubkey = replicate 32 2, meta_is_signer = False, meta_is_writable = True\<rparr>,
                      \<lparr>meta_pubkey = replicate 32 2, meta_is_signer = False, meta_is_writable = False\<rparr>],
      cpi_data = [7]\<rparr>"

definition sample_display :: "BoxedError Display" where
  "sample_display = \<lparr>show_key = \<lambda>_. [], show_err = \<lambda>_. [], show_base64 = \<lambda>_. []\<rparr>"

definition sample_caller :: InstructionContext where
  "sample_caller =
     \<lparr>index_in_trace = 0, ic_nesting_level = 0, ic_program_account_index = 0,
      instruction_accounts = [new_InstructionAccount 1 False True], dedup_map = replicate 256 0,
      instruction_data = []\<rparr>"

lemma sample_caller_ok:
  "get_current_instruction_context sample_pushed = Ok sample_caller"
  "get_current_instruction_index sample_pushed = Ok 0"
  "account_keys_iter (accounts sample_pushed) = [replicate 32 1, replicate 32 2]"
  "instruction_trace sample_pushed \<noteq> []"
  by (simp_all add: sample_pushed_def sample_tc_def sample_sdk_def tx_eval Let_def get_or_empty_def
      sample_caller_def default_InstructionFrame_def)

lemma sample_prepare:
  "\<exists>ic'. prepare_next_instruction sample_display sample_ic sample_cpi [] = Some (ic', Ok ())"
  by (simp add: prepare_next_instruction_def sample_ic_def new_InvokeContext_def sample_caller_ok sample_cpi_def
      find_index_of_account_def MAX_ACCOUNTS_PER_TRANSACTION_def check_privileges.simps sample_caller_def
      get_index_of_account_in_instruction_def nth_get_def ok_or_def configure_next_instruction_def Let_def)

theorem cpi_no_privilege_escalation_witness:
  "\<exists>ic' accts. prepare_next_instruction sample_display sample_ic sample_cpi [] = Some (ic', Ok ())
     \<and> last (tc_instruction_accounts (transaction_context ic')) = accts \<and> length accts = 2
     \<and> (\<forall>a \<in> set accts. \<not> is_signer a)"
proof -
  have tc: "transaction_context sample_ic = sample_pushed" by (simp add: sample_ic_def new_InvokeContext_def)
  have small: "accounts_len (accounts (transaction_context sample_ic)) \<le> MAX_ACCOUNTS_PER_TRANSACTION"
    "length (cpi_accounts sample_cpi) < 2 ^ 16 - 1"
    using arg_cong [OF sample_caller_ok(3), of length]
    by (simp_all add: tc accounts_len_def account_keys_iter_def MAX_ACCOUNTS_PER_TRANSACTION_def sample_cpi_def)
  obtain ic' where ic': "prepare_next_instruction sample_display sample_ic sample_cpi [] = Some (ic', Ok ())"
    using sample_prepare by blast
  obtain accts where a: "tc_instruction_accounts (transaction_context ic') = tc_instruction_accounts sample_pushed @ [accts]"
    "map (\<lambda>a. account_key (accounts sample_pushed) (index_in_transaction a)) accts =
       map (Some \<circ> meta_pubkey) (cpi_accounts sample_cpi)"
    "\<forall>a \<in> set accts. privileged sample_pushed sample_caller [] a"
    using cpi_no_privilege_escalation [OF ic' _ small, of sample_caller] sample_caller_ok(1) by (auto simp: tc)
  have "length accts = 2" using arg_cong [OF a(2), of length] by (simp add: sample_cpi_def)
  moreover have "\<not> is_signer b" if "privileged sample_pushed sample_caller [] b" for b
    using that by (auto simp: privileged_def sample_caller_def get_index_of_account_in_instruction_def nth_get_def
        ok_or_def split: option.splits if_splits)
  ultimately show ?thesis using ic' a by auto
qed

section \<open>Balanced stacks\<close>

definition stacks :: "InvokeContext \<Rightarrow> nat \<times> nat list" where
  "stacks ic = (length (syscall_context ic), instruction_stack (transaction_context ic))"

lemma stacks_simps [simp]:
  "stacks (ic_msg ic s) = stacks ic" "stacks (ic_consume ic n) = stacks ic"
  "stacks (program_invoke d ic k h) = stacks ic" "stacks (program_success d ic k) = stacks ic"
  "stacks (program_failure d ic k e) = stacks ic"
  "stacks (ic\<lparr>transaction_context := set_return_data (transaction_context ic) k bs\<rparr>) = stacks ic"
  by (simp_all add: stacks_def ic_msg_def ic_consume_def program_invoke_def program_success_def
      program_failure_def set_return_data_def Let_def)

lemma chain_result_stacks [simp]: "stacks (fst (chain_result d ic k res)) = stacks ic"
  by (auto simp: chain_result_def split: result.splits EbpfError.splits BoxedError.splits)

lemma store_sysvar_instruction_stack [simp]:
  "instruction_stack (fst (store_sysvar_index sdk tc)) = instruction_stack tc"
  by (simp add: store_sysvar_index_def Let_def split: option.splits result.splits)

lemma tc_push_Ok:
  "snd (tc_push sdk tc) = Ok () \<Longrightarrow>
     instruction_stack (fst (tc_push sdk tc)) = instruction_stack tc @ [get_instruction_trace_length tc]"
  by (simp add: tc_push_def Let_def split: if_splits)

lemma push_stacks:
  assumes "snd (ic_push sdk ic) = Ok ()"
  shows "stacks (fst (ic_push sdk ic)) =
    (Suc (fst (stacks ic)), snd (stacks ic) @ [get_instruction_trace_length (transaction_context ic)])"
proof -
  have "snd (tc_push sdk (transaction_context ic)) = Ok ()
      \<and> fst (ic_push sdk ic) = ic\<lparr>syscall_context := syscall_context ic @ [None],
          transaction_context := fst (tc_push sdk (transaction_context ic))\<rparr>"
    using assms by (auto simp: ic_push_def Let_def split: result.splits if_splits prod.splits)
  then show ?thesis using tc_push_Ok [of sdk "transaction_context ic"] by (simp add: stacks_def)
qed

lemma detect_unbalanced_stack [simp]: "instruction_stack (fst (detect_unbalanced tc)) = instruction_stack tc"
  by (cases "and_then (get_current_instruction_context tc) get_index_of_program_account_in_transaction")
    (simp_all add: detect_unbalanced_def split: result.splits)

lemma pop_stacks: "stacks (fst (ic_pop ic)) = (fst (stacks ic) - 1, butlast (snd (stacks ic)))"
proof -
  have "instruction_stack (fst (tc_pop tc)) = butlast (instruction_stack tc)" for tc
    using detect_unbalanced_stack [of tc]
    by (cases "detect_unbalanced tc") (simp add: tc_pop_def Let_def del: detect_unbalanced_stack)
  then show ?thesis by (simp add: ic_pop_def stacks_def split_beta)
qed

text \<open>Builtin functions and the meter that leave the stacks as they found them.\<close>

locale stack_neutral =
  fixes env :: "(InvokeContext, 'f, BoxedError) Env"
  assumes consume_stacks: "stacks (consume env c n) = stacks c"
    and rust_stacks: "stacks (fst (snd (rust env f c args mm mem))) = stacks c"
begin

lemma chain_stacks:
  assumes "process_executable_chain env d sdk programs runtime_v2 (ic, mem) = Some ((ic', mem'), n, r)"
  shows "stacks ic' = stacks ic"
proof -
  have vm: "stacks (context_object_pointer m') = stacks (context_object_pointer m)"
    if inv: "invoke_function env f m = Some m'" for f m m'
  proof -
    obtain cfg where cfg: "get_config (vm_loader m) = Some cfg"
      using inv by (auto simp: invoke_function_def builtin_vm_def split: option.splits)
    let ?c = "if enable_instruction_meter cfg
      then consume env (context_object_pointer m) (previous_instruction_meter m - due_insn_count m)
      else context_object_pointer m"
    let ?args = "map (\<lambda>i. registers m ! i) [1, 2, 3, 4, 5]"
    obtain res c' mm mem where r: "rust env f ?c ?args (memory_mapping m) (host m) = (res, c', mm, mem)"
      by (metis prod_cases4)
    have "context_object_pointer m' = c'"
      using inv unfolding invoke_function_def builtin_vm_def cfg option.case Let_def r by auto
    then show ?thesis
      using rust_stacks [of f ?c ?args "memory_mapping m" "host m"] unfolding r by (simp add: consume_stacks)
  qed
  have new: "stacks (context_object_pointer m) = stacks c"
    if "new_vm l v c mm n mem = Some m" for l v c mm n mem m
    using that by (auto simp: new_vm_def Let_def)
  show ?thesis
    using assms
    by (auto simp: process_executable_chain_def Let_def bind_eq_Some_conv vm new
        split: option.splits result.splits prod.splits
        dest!: arg_cong [where f = "\<lambda>p. stacks (fst p)", OF sym])
qed

lemma process_stacks:
  assumes "process_instruction env d sdk programs runtime_v2 (ic, mem) = Some ((ic', mem'), n, r)"
    and "snd (ic_push sdk ic) = Ok ()"
  shows "stacks ic' = stacks ic"
proof -
  obtain ic1 where push: "ic_push sdk ic = (ic1, Ok ())" using assms(2) by (metis prod.collapse)
  obtain ic2 mem2 r2 where chain:
    "process_executable_chain env d sdk programs runtime_v2 (ic1, mem) = Some ((ic2, mem2), n, r2)"
    "ic' = fst (ic_pop ic2)"
    using assms(1) push
    by (cases "process_executable_chain env d sdk programs runtime_v2 (ic1, mem)")
      (auto simp: process_instruction_def Let_def split: prod.splits)
  show ?thesis
    unfolding chain(2) pop_stacks chain_stacks [OF chain(1)]
    using push_stacks [OF assms(2)] push by simp
qed

end

end
