(* ===== verification/Syscalls.thy ===== *)
theory Syscalls
  imports Translate Invocation
begin

text \<open>
  System calls of \<open>agave/syscalls/src\<close>: aborting, allocation, memory operations (\<open>mem_ops.rs\<close>),
  logging (\<open>logging.rs\<close>), return data, hashing, program addresses and the small getters of
  \<open>lib.rs\<close>.  Hash functions, the derivation of program addresses, the stakes of the epoch and the
  constants of other crates are the record \<open>SysEnv\<close>; \<open>hash_len\<close> is the size of the type that
  \<open>hash_bytes\<close> returns.

  The adapter \<open>syscall_env\<close> makes the system calls the builtin functions of an interpreter \<open>Env\<close>;
  the locales on builtin functions are interpreted on it.
\<close>

section \<open>Parameters\<close>

datatype Hasher = Sha256Hasher | Blake3Hasher | Keccak256Hasher

record SysEnv =
  se_sdk :: Sdk
  se_display :: "BoxedError Display"
  hash_bytes :: "Hasher \<Rightarrow> u8 list \<Rightarrow> u8 list"
  hash_len :: "Hasher \<Rightarrow> u64"
  create_program_address :: "u8 list list \<Rightarrow> Pubkey \<Rightarrow> Pubkey option"
  epoch_stake :: u64
  epoch_stake_for_vote_account :: "Pubkey \<Rightarrow> u64"
  BPF_ALIGN_OF_U128 :: u64
  MAX_RETURN_DATA :: u64
  MAX_SEEDS :: nat
  MAX_SEED_LEN :: u64

abbreviation (input) checks :: "SysEnv \<Rightarrow> SysState \<Rightarrow> bool" where
  "checks se s \<equiv> get_check_aligned (se_sdk se) (sys_ic s)"

abbreviation (input) cost_of :: "SysState \<Rightarrow> SVMTransactionExecutionCost" where
  "cost_of s \<equiv> execution_cost (sys_ic s)"

text \<open>\<open>n.checked_div(d).unwrap_or(u64::MAX)\<close>.\<close>

definition div_or_max :: "u64 \<Rightarrow> u64 \<Rightarrow> u64" where
  "div_or_max n d = (if d = 0 then - 1 else n div d)"

section \<open>Strings\<close>

text \<open>\<open>std::str::from_utf8\<close>: the well-formed byte sequences of the Unicode standard.\<close>

definition continuation :: "u8 \<Rightarrow> bool" where
  "continuation b \<longleftrightarrow> 0x80 \<le> b \<and> b \<le> 0xBF"

definition utf8_tail :: "u8 \<Rightarrow> nat" where
  "utf8_tail b =
     (if b < 0x80 then 0 else if b < 0xE0 then 1 else if b < 0xF0 then 2 else 3)"

definition utf8_seq :: "u8 \<Rightarrow> u8 list \<Rightarrow> bool" where
  "utf8_seq b bs \<longleftrightarrow>
     b < 0x80 \<and> bs = []
     \<or> length bs = utf8_tail b \<and> 0xC2 \<le> b \<and> b \<le> 0xF4 \<and> list_all continuation bs
        \<and> (b = 0xE0 \<longrightarrow> 0xA0 \<le> bs ! 0) \<and> (b = 0xED \<longrightarrow> bs ! 0 \<le> 0x9F)
        \<and> (b = 0xF0 \<longrightarrow> 0x90 \<le> bs ! 0) \<and> (b = 0xF4 \<longrightarrow> bs ! 0 \<le> 0x8F)"

fun from_utf8 :: "u8 list \<Rightarrow> bool" where
  "from_utf8 [] = True"
| "from_utf8 (b # bs) =
     (utf8_seq b (take (utf8_tail b) bs) \<and> from_utf8 (drop (utf8_tail b) bs))"

definition as_str :: "u8 list \<Rightarrow> string" where
  "as_str bytes = map (\<lambda>b. char_of (unat b)) bytes"

definition translate_string_and_do ::
  "SysState \<Rightarrow> u64 \<Rightarrow> u64 \<Rightarrow> bool \<Rightarrow> (SysState \<Rightarrow> string \<Rightarrow> u64 sys) \<Rightarrow> u64 sys"
where
  "translate_string_and_do s addr n check_aligned work =
     try_then (translate_slice s addr n of_u8 check_aligned) (\<lambda>s sl.
       let buf = slice_bytes s sl in
       if from_utf8 buf then work s (as_str buf) else (s, Err (BoxSyscall (InvalidString buf))))"

section \<open>Aborting and allocation\<close>

definition SyscallAbort :: "SysState \<Rightarrow> u64 sys" where
  "SyscallAbort s = (s, Err (BoxSyscall Abort))"

definition SyscallPanic :: "SysEnv \<Rightarrow> SysState \<Rightarrow> u64 \<Rightarrow> u64 \<Rightarrow> u64 \<Rightarrow> u64 \<Rightarrow> u64 sys" where
  "SyscallPanic se s file n line column =
     try_then (consume_compute_meter s n) (\<lambda>s _.
       translate_string_and_do s file n (checks se s) (\<lambda>s string.
         (s, Err (BoxSyscall (PanicAt string line column)))))"

text \<open>\<open>Layout::from_size_align\<close>: a power of two, and the size rounded up to it below \<open>2^63\<close>.\<close>

definition is_pow2 :: "u64 \<Rightarrow> bool" where
  "is_pow2 w \<longleftrightarrow> (\<exists>k \<in> set [0..<64]. w = push_bit k 1)"

definition from_size_align :: "u64 \<Rightarrow> u64 \<Rightarrow> Layout option" where
  "from_size_align sz al =
     (if is_pow2 al \<and> unat sz + (unat al - 1) < 2 ^ 63
      then Some \<lparr>layout_size = sz, layout_align = al\<rparr> else None)"

definition SyscallAllocFree :: "SysEnv \<Rightarrow> SysState \<Rightarrow> u64 \<Rightarrow> u64 \<Rightarrow> u64 sys" where
  "SyscallAllocFree se s sz free_addr =
     (let al = (if checks se s then BPF_ALIGN_OF_U128 se else 1) in
      case from_size_align sz al of
        None \<Rightarrow> (s, Ok 0)
      | Some layout \<Rightarrow>
          (case get_syscall_context (sys_ic s) of
             Err e \<Rightarrow> (s, Err (BoxInstruction e))
           | Ok sc \<Rightarrow>
               if free_addr = 0 then
                 let (a, res) = alloc MM_HEAP_START (allocator sc) layout;
                     ic = fst (set_syscall_context (sys_ic s) (sc\<lparr>allocator := a\<rparr>))
                 in (s\<lparr>sys_ic := ic\<rparr>, Ok (case res of Some addr \<Rightarrow> addr | None \<Rightarrow> 0))
               else (s, Ok 0)))"

section \<open>Memory operations\<close>

definition mem_op_consume :: "SysState \<Rightarrow> u64 \<Rightarrow> unit sys" where
  "mem_op_consume s n =
     consume_compute_meter s
       (max (mem_op_base_cost (cost_of s)) (div_or_max n (cpi_bytes_per_unit (cost_of s))))"

definition memmove :: "SysEnv \<Rightarrow> SysState \<Rightarrow> u64 \<Rightarrow> u64 \<Rightarrow> u64 \<Rightarrow> u64 sys" where
  "memmove se s dst_addr src_addr n =
     try_then (translate_mut s (checks se s) [MutSlice dst_addr n of_u8]) (\<lambda>s hosts.
       try_then (translate_slice s src_addr n of_u8 (checks se s)) (\<lambda>s sl.
         (put_bytes s (hosts ! 0) (slice_bytes s sl), Ok 0)))"

definition SyscallMemcpy :: "SysEnv \<Rightarrow> SysState \<Rightarrow> u64 \<Rightarrow> u64 \<Rightarrow> u64 \<Rightarrow> u64 sys" where
  "SyscallMemcpy se s dst_addr src_addr n =
     try_then (mem_op_consume s n) (\<lambda>s _.
       if \<not> is_nonoverlapping src_addr n dst_addr n then (s, Err (BoxSyscall CopyOverlapping))
       else memmove se s dst_addr src_addr n)"

definition SyscallMemmove :: "SysEnv \<Rightarrow> SysState \<Rightarrow> u64 \<Rightarrow> u64 \<Rightarrow> u64 \<Rightarrow> u64 sys" where
  "SyscallMemmove se s dst_addr src_addr n =
     try_then (mem_op_consume s n) (\<lambda>s _. memmove se s dst_addr src_addr n)"

fun memcmp :: "u8 list \<Rightarrow> u8 list \<Rightarrow> i32" where
  "memcmp (a # as) (b # bs) = (if a \<noteq> b then ucast a - ucast b else memcmp as bs)"
| "memcmp as bs = 0"

definition SyscallMemcmp :: "SysEnv \<Rightarrow> SysState \<Rightarrow> u64 \<Rightarrow> u64 \<Rightarrow> u64 \<Rightarrow> u64 \<Rightarrow> u64 sys" where
  "SyscallMemcmp se s s1_addr s2_addr n cmp_result_addr =
     try_then (mem_op_consume s n) (\<lambda>s _.
       try_then (translate_slice s s1_addr n of_u8 (checks se s)) (\<lambda>s s1.
         try_then (translate_slice s s2_addr n of_u8 (checks se s)) (\<lambda>s s2.
           let result = memcmp (slice_bytes s s1) (slice_bytes s s2) in
           try_then (translate_mut s (checks se s) [MutType cmp_result_addr of_i32]) (\<lambda>s hosts.
             (put_bytes s (hosts ! 0) (to_le_bytes result), Ok 0)))))"

definition SyscallMemset :: "SysEnv \<Rightarrow> SysState \<Rightarrow> u64 \<Rightarrow> u64 \<Rightarrow> u64 \<Rightarrow> u64 sys" where
  "SyscallMemset se s dst_addr c n =
     try_then (mem_op_consume s n) (\<lambda>s _.
       try_then (translate_mut s (checks se s) [MutSlice dst_addr n of_u8]) (\<lambda>s hosts.
         (put_bytes s (hosts ! 0) (replicate (unat n) (ucast c)), Ok 0)))"

section \<open>Logging\<close>

definition on_ic :: "(InvokeContext \<Rightarrow> InvokeContext) \<Rightarrow> SysState \<Rightarrow> SysState" where
  "on_ic f s = s\<lparr>sys_ic := f (sys_ic s)\<rparr>"

definition SyscallLog :: "SysEnv \<Rightarrow> SysState \<Rightarrow> u64 \<Rightarrow> u64 \<Rightarrow> u64 sys" where
  "SyscallLog se s addr n =
     try_then (consume_compute_meter s (max (syscall_base_cost (cost_of s)) n)) (\<lambda>s _.
       translate_string_and_do s addr n (checks se s) (\<lambda>s string.
         (on_ic (\<lambda>ic. program_log ic string) s, Ok 0)))"

definition SyscallLogU64 :: "SysState \<Rightarrow> u64 \<Rightarrow> u64 \<Rightarrow> u64 \<Rightarrow> u64 \<Rightarrow> u64 \<Rightarrow> u64 sys" where
  "SyscallLogU64 s arg1 arg2 arg3 arg4 arg5 =
     try_then (consume_compute_meter s (log_64_units (cost_of s))) (\<lambda>s _.
       (on_ic (\<lambda>ic. program_log ic
          (show_hex arg1 @ '', '' @ show_hex arg2 @ '', '' @ show_hex arg3 @ '', ''
             @ show_hex arg4 @ '', '' @ show_hex arg5)) s, Ok 0))"

definition SyscallLogBpfComputeUnits :: "SysState \<Rightarrow> u64 sys" where
  "SyscallLogBpfComputeUnits s =
     try_then (consume_compute_meter s (syscall_base_cost (cost_of s))) (\<lambda>s _.
       (on_ic (\<lambda>ic. ic_msg ic
          (''Program consumption: '' @ show_nat (unat (ic_get_remaining ic)) @ '' units remaining'')) s, Ok 0))"

definition SyscallLogPubkey :: "SysEnv \<Rightarrow> SysState \<Rightarrow> u64 \<Rightarrow> u64 sys" where
  "SyscallLogPubkey se s pubkey_addr =
     try_then (consume_compute_meter s (log_pubkey_units (cost_of s))) (\<lambda>s _.
       try_then (translate_type s pubkey_addr of_Pubkey (checks se s)) (\<lambda>s p.
         (on_ic (\<lambda>ic. program_log ic (show_key (se_display se) (slice_bytes s (p, 32)))) s, Ok 0)))"

text \<open>Translate a list of guest slices, giving the bytes of each.\<close>

fun translate_fields :: "SysState \<Rightarrow> bool \<Rightarrow> VmSlice list \<Rightarrow> u8 list list sys" where
  "translate_fields s check_aligned [] = (s, Ok [])"
| "translate_fields s check_aligned (f # fs) =
     try_then (translate_vm_slice s f of_u8 check_aligned) (\<lambda>s sl.
       try_then (translate_fields s check_aligned fs) (\<lambda>s bss. (s, Ok (slice_bytes s sl # bss))))"

definition SyscallLogData :: "SysEnv \<Rightarrow> SysState \<Rightarrow> u64 \<Rightarrow> u64 \<Rightarrow> u64 sys" where
  "SyscallLogData se s addr n =
     (let base = syscall_base_cost (cost_of s) in
      try_then (consume_compute_meter s base) (\<lambda>s _.
        try_then (translate_slice s addr n of_VmSlice (checks se s)) (\<lambda>s sl.
          let fields = slice_VmSlices s sl in
          try_then (consume_compute_meter s (saturating_mul base (of_nat (length fields)))) (\<lambda>s _.
            try_then (consume_compute_meter s (fold (\<lambda>f total. saturating_add total (vs_len f)) fields 0)) (\<lambda>s _.
              try_then (translate_fields s (checks se s) fields) (\<lambda>s bss.
                (on_ic (\<lambda>ic. program_data (se_display se) ic bss) s, Ok 0)))))))"

section \<open>Return data and getters\<close>

definition SyscallSetReturnData :: "SysEnv \<Rightarrow> SysState \<Rightarrow> u64 \<Rightarrow> u64 \<Rightarrow> u64 sys" where
  "SyscallSetReturnData se s addr n =
     try_then (consume_compute_meter s
         (saturating_add (div_or_max n (cpi_bytes_per_unit (cost_of s))) (syscall_base_cost (cost_of s)))) (\<lambda>s _.
       if n > MAX_RETURN_DATA se then (s, Err (BoxSyscall (ReturnDataTooLarge n (MAX_RETURN_DATA se))))
       else
         try_then (if n = 0 then (s, Ok [])
                   else try_then (translate_slice s addr n of_u8 (checks se s)) (\<lambda>s sl. (s, Ok (slice_bytes s sl))))
           (\<lambda>s bytes.
              let tc = transaction_context (sys_ic s) in
              case and_then (get_current_instruction_context tc) (get_program_key tc) of
                Err e \<Rightarrow> (s, Err (BoxInstruction e))
              | Ok program_id \<Rightarrow>
                  (on_ic (\<lambda>ic. ic\<lparr>transaction_context := set_return_data tc program_id bytes\<rparr>) s, Ok 0)))"

definition SyscallGetReturnData :: "SysEnv \<Rightarrow> SysState \<Rightarrow> u64 \<Rightarrow> u64 \<Rightarrow> u64 \<Rightarrow> u64 sys" where
  "SyscallGetReturnData se s return_data_addr requested program_id_addr =
     try_then (consume_compute_meter s (syscall_base_cost (cost_of s))) (\<lambda>s _.
       let (program_id, return_data) = get_return_data (transaction_context (sys_ic s));
           n = min requested (of_nat (length return_data))
       in if n = 0 then (s, Ok (of_nat (length return_data)))
          else
            try_then (consume_compute_meter s
                (div_or_max (saturating_add n 32) (cpi_bytes_per_unit (cost_of s)))) (\<lambda>s _.
              try_then (translate_mut s (checks se s)
                  [MutSlice return_data_addr n of_u8, MutType program_id_addr of_Pubkey]) (\<lambda>s hosts.
                if length return_data < unat n then (s, Err (BoxSyscall InvokeContextBorrowFailed))
                else
                  (put_sized (put_bytes s (hosts ! 0) (take (unat n) return_data)) (hosts ! 1) 32 program_id,
                   Ok (of_nat (length return_data))))))"

definition SyscallGetStackHeight :: "SysState \<Rightarrow> u64 sys" where
  "SyscallGetStackHeight s =
     try_then (consume_compute_meter s (syscall_base_cost (cost_of s))) (\<lambda>s _.
       (s, Ok (of_nat (get_stack_height (sys_ic s)))))"

definition SyscallRemainingComputeUnits :: "SysState \<Rightarrow> u64 sys" where
  "SyscallRemainingComputeUnits s =
     try_then (consume_compute_meter s (syscall_base_cost (cost_of s))) (\<lambda>s _.
       (s, Ok (ic_get_remaining (sys_ic s))))"

definition PUBKEY_BYTES :: u64 where
  "PUBKEY_BYTES = 32"

definition SyscallGetEpochStake :: "SysEnv \<Rightarrow> SysState \<Rightarrow> u64 \<Rightarrow> u64 sys" where
  "SyscallGetEpochStake se s var_addr =
     (if var_addr = 0 then
        try_then (consume_compute_meter s (syscall_base_cost (cost_of s))) (\<lambda>s _. (s, Ok (epoch_stake se)))
      else
        let compute_units =
              saturating_add
                (saturating_add (syscall_base_cost (cost_of s))
                  (div_or_max PUBKEY_BYTES (cpi_bytes_per_unit (cost_of s))))
                (mem_op_base_cost (cost_of s))
        in try_then (consume_compute_meter s compute_units) (\<lambda>s _.
             try_then (translate_type s var_addr of_Pubkey (checks se s)) (\<lambda>s p.
               (s, Ok (epoch_stake_for_vote_account se (slice_bytes s (p, 32)))))))"

section \<open>Hashing\<close>

fun hasher_name :: "Hasher \<Rightarrow> string" where
  "hasher_name Sha256Hasher = ''Sha256''"
| "hasher_name Blake3Hasher = ''Blake3''"
| "hasher_name Keccak256Hasher = ''Keccak256''"

definition get_base_cost :: "Hasher \<Rightarrow> SVMTransactionExecutionCost \<Rightarrow> u64" where
  "get_base_cost h c = sha256_base_cost c"

definition get_byte_cost :: "Hasher \<Rightarrow> SVMTransactionExecutionCost \<Rightarrow> u64" where
  "get_byte_cost h c = sha256_byte_cost c"

definition get_max_slices :: "Hasher \<Rightarrow> SVMTransactionExecutionBudget \<Rightarrow> u64" where
  "get_max_slices h b = sha256_max_slices b"

text \<open>The loop over the slices: the bytes fed to the hasher, in order.\<close>

fun hash_slices :: "SysState \<Rightarrow> bool \<Rightarrow> u64 \<Rightarrow> VmSlice list \<Rightarrow> u8 list sys" where
  "hash_slices s check_aligned byte_cost [] = (s, Ok [])"
| "hash_slices s check_aligned byte_cost (v # vs) =
     try_then (translate_vm_slice s v of_u8 check_aligned) (\<lambda>s sl.
       try_then (consume_compute_meter s
           (max (mem_op_base_cost (cost_of s)) (saturating_mul byte_cost (vs_len v div 2)))) (\<lambda>s _.
         let bytes = slice_bytes s sl in
         try_then (hash_slices s check_aligned byte_cost vs) (\<lambda>s rest. (s, Ok (bytes @ rest)))))"

definition SyscallHash :: "SysEnv \<Rightarrow> Hasher \<Rightarrow> SysState \<Rightarrow> u64 \<Rightarrow> u64 \<Rightarrow> u64 \<Rightarrow> u64 sys" where
  "SyscallHash se h s vals_addr vals_len result_addr =
     (let max_slices = get_max_slices h (compute_budget (sys_ic s)) in
      if max_slices < vals_len then
        (on_ic (\<lambda>ic. ic_msg ic (hasher_name h @ '' Hashing '' @ show_nat (unat vals_len)
           @ '' sequences in one syscall is over the limit '' @ show_nat (unat max_slices))) s,
         Err (BoxSyscall TooManySlices))
      else
        try_then (consume_compute_meter s (get_base_cost h (cost_of s))) (\<lambda>s _.
          try_then (translate_mut s (checks se s) [MutSlice result_addr (hash_len se h) of_u8]) (\<lambda>s hosts.
            try_then
              (if vals_len > 0 then
                 try_then (translate_slice s vals_addr vals_len of_VmSlice (checks se s)) (\<lambda>s sl.
                   hash_slices s (checks se s) (get_byte_cost h (cost_of s)) (slice_VmSlices s sl))
               else (s, Ok []))
              (\<lambda>s bytes. (put_sized s (hosts ! 0) (unat (hash_len se h)) (hash_bytes se h bytes), Ok 0)))))"

section \<open>Program addresses\<close>

fun seed_bytes :: "SysEnv \<Rightarrow> SysState \<Rightarrow> bool \<Rightarrow> VmSlice list \<Rightarrow> u8 list list sys" where
  "seed_bytes se s check_aligned [] = (s, Ok [])"
| "seed_bytes se s check_aligned (v # vs) =
     (if vs_len v > MAX_SEED_LEN se then (s, Err (BoxSyscall BadSeeds))
      else try_then (translate_vm_slice s v of_u8 check_aligned) (\<lambda>s sl.
        let bytes = slice_bytes s sl in
        try_then (seed_bytes se s check_aligned vs) (\<lambda>s rest. (s, Ok (bytes # rest)))))"

definition translate_and_check_program_address_inputs ::
  "SysEnv \<Rightarrow> SysState \<Rightarrow> u64 \<Rightarrow> u64 \<Rightarrow> u64 \<Rightarrow> bool \<Rightarrow> (u8 list list \<times> Pubkey) sys"
where
  "translate_and_check_program_address_inputs se s seeds_addr seeds_len program_id_addr check_aligned =
     try_then (translate_slice s seeds_addr seeds_len of_VmSlice check_aligned) (\<lambda>s sl.
       let untranslated_seeds = slice_VmSlices s sl in
       if length untranslated_seeds > MAX_SEEDS se then (s, Err (BoxSyscall BadSeeds))
       else
         try_then (seed_bytes se s check_aligned untranslated_seeds) (\<lambda>s seeds.
           try_then (translate_type s program_id_addr of_Pubkey check_aligned) (\<lambda>s p.
             (s, Ok (seeds, slice_bytes s (p, 32))))))"

definition SyscallCreateProgramAddress ::
  "SysEnv \<Rightarrow> SysState \<Rightarrow> u64 \<Rightarrow> u64 \<Rightarrow> u64 \<Rightarrow> u64 \<Rightarrow> u64 sys"
where
  "SyscallCreateProgramAddress se s seeds_addr seeds_len program_id_addr address_addr =
     try_then (consume_compute_meter s (create_program_address_units (cost_of s))) (\<lambda>s _.
       try_then (translate_and_check_program_address_inputs se s seeds_addr seeds_len program_id_addr (checks se s))
         (\<lambda>s (seeds, program_id).
            case create_program_address se seeds program_id of
              None \<Rightarrow> (s, Ok 1)
            | Some new_address \<Rightarrow>
                try_then (translate_mut s (checks se s) [MutSlice address_addr 32 of_u8]) (\<lambda>s hosts.
                  (put_sized s (hosts ! 0) 32 new_address, Ok 0))))"

text \<open>\<open>for _ in 0..u8::MAX\<close>: the number of rounds left and the current bump seed.\<close>

fun try_bump_seeds ::
  "nat \<Rightarrow> SysEnv \<Rightarrow> SysState \<Rightarrow> u8 list list \<Rightarrow> Pubkey \<Rightarrow> u64 \<Rightarrow> u64 \<Rightarrow> u64 \<Rightarrow> u8 \<Rightarrow> u64 sys"
where
  "try_bump_seeds 0 se s seeds program_id cost address_addr bump_seed_addr bump = (s, Ok 1)"
| "try_bump_seeds (Suc n) se s seeds program_id cost address_addr bump_seed_addr bump =
     (case create_program_address se (seeds @ [[bump]]) program_id of
        Some new_address \<Rightarrow>
          try_then (translate_mut s (checks se s)
              [MutType bump_seed_addr of_u8, MutSlice address_addr 32 of_u8]) (\<lambda>s hosts.
            (put_sized (put_bytes s (hosts ! 0) [bump]) (hosts ! 1) 32 new_address, Ok 0))
      | None \<Rightarrow>
          try_then (consume_compute_meter s cost) (\<lambda>s _.
            try_bump_seeds n se s seeds program_id cost address_addr bump_seed_addr (saturating_sub bump 1)))"

definition SyscallTryFindProgramAddress ::
  "SysEnv \<Rightarrow> SysState \<Rightarrow> u64 \<Rightarrow> u64 \<Rightarrow> u64 \<Rightarrow> u64 \<Rightarrow> u64 \<Rightarrow> u64 sys"
where
  "SyscallTryFindProgramAddress se s seeds_addr seeds_len program_id_addr address_addr bump_seed_addr =
     (let cost = create_program_address_units (cost_of s) in
      try_then (consume_compute_meter s cost) (\<lambda>s _.
        try_then (translate_and_check_program_address_inputs se s seeds_addr seeds_len program_id_addr (checks se s))
          (\<lambda>s (seeds, program_id).
             try_bump_seeds 255 se s seeds program_id cost address_addr bump_seed_addr (- 1))))"

section \<open>Dispatch\<close>

datatype Syscall =
    CallAbort | CallPanic | CallAllocFree | CallMemcpy | CallMemmove | CallMemcmp | CallMemset
  | CallLog | CallLogU64 | CallLogBpfComputeUnits | CallLogPubkey | CallLogData
  | CallSetReturnData | CallGetReturnData | CallGetStackHeight | CallRemainingComputeUnits
  | CallGetEpochStake | CallHash Hasher | CallCreateProgramAddress | CallTryFindProgramAddress

text \<open>The five register arguments are a list of length five.\<close>

fun syscall :: "SysEnv \<Rightarrow> Syscall \<Rightarrow> SysState \<Rightarrow> u64 list \<Rightarrow> u64 sys" where
  "syscall se CallAbort s args = SyscallAbort s"
| "syscall se CallPanic s args = SyscallPanic se s (args ! 0) (args ! 1) (args ! 2) (args ! 3)"
| "syscall se CallAllocFree s args = SyscallAllocFree se s (args ! 0) (args ! 1)"
| "syscall se CallMemcpy s args = SyscallMemcpy se s (args ! 0) (args ! 1) (args ! 2)"
| "syscall se CallMemmove s args = SyscallMemmove se s (args ! 0) (args ! 1) (args ! 2)"
| "syscall se CallMemcmp s args = SyscallMemcmp se s (args ! 0) (args ! 1) (args ! 2) (args ! 3)"
| "syscall se CallMemset s args = SyscallMemset se s (args ! 0) (args ! 1) (args ! 2)"
| "syscall se CallLog s args = SyscallLog se s (args ! 0) (args ! 1)"
| "syscall se CallLogU64 s args = SyscallLogU64 s (args ! 0) (args ! 1) (args ! 2) (args ! 3) (args ! 4)"
| "syscall se CallLogBpfComputeUnits s args = SyscallLogBpfComputeUnits s"
| "syscall se CallLogPubkey s args = SyscallLogPubkey se s (args ! 0)"
| "syscall se CallLogData s args = SyscallLogData se s (args ! 0) (args ! 1)"
| "syscall se CallSetReturnData s args = SyscallSetReturnData se s (args ! 0) (args ! 1)"
| "syscall se CallGetReturnData s args = SyscallGetReturnData se s (args ! 0) (args ! 1) (args ! 2)"
| "syscall se CallGetStackHeight s args = SyscallGetStackHeight s"
| "syscall se CallRemainingComputeUnits s args = SyscallRemainingComputeUnits s"
| "syscall se CallGetEpochStake s args = SyscallGetEpochStake se s (args ! 0)"
| "syscall se (CallHash h) s args = SyscallHash se h s (args ! 0) (args ! 1) (args ! 2)"
| "syscall se CallCreateProgramAddress s args =
     SyscallCreateProgramAddress se s (args ! 0) (args ! 1) (args ! 2) (args ! 3)"
| "syscall se CallTryFindProgramAddress s args =
     SyscallTryFindProgramAddress se s (args ! 0) (args ! 1) (args ! 2) (args ! 3) (args ! 4)"

definition syscall_env :: "SysEnv \<Rightarrow> (InvokeContext, Syscall, BoxedError) Env" where
  "syscall_env se =
     \<lparr>consume = ic_consume, get_remaining = ic_get_remaining,
      rust = \<lambda>f ic args mapping mem.
        let (s, res) = syscall se f \<lparr>sys_ic = ic, sys_mapping = mapping, sys_mem = mem\<rparr> args
        in (res, sys_ic s, sys_mapping s, sys_mem s)\<rparr>"

end
