(* ===== verification/Syscall_Effects.thy ===== *)
theory Syscall_Effects
  imports Syscalls
begin

text \<open>
  What system calls can do to the world outside their results.  Every system call is a sequence of
  metered steps, translations and updates of the context; each of these only lowers the meter,
  leaves the two stacks of the invocation alone, keeps the memory mapping in order and only appends
  to the read log, so the whole call does.  These are the laws the locales on builtin functions ask
  for, and they are interpreted here on \<open>syscall_env\<close>.
\<close>

named_theorems sys_rules

section \<open>One translation\<close>

lemma map_memory_follows:
  assumes "mapping_ok m"
  shows "accounts_follow m (snd (map_memory m t a n :: 'x ProgramResult \<times> _))"
proof -
  have inv: "lookup_inv m" using assms by (simp add: mapping_ok_def mapping_inv_def)
  have f: "accounts_follow x (snd (find_region x a))" if "lookup_inv x" for x
    by (rule accounts_follow_common) (rule common_of_find_region [OF that])
  have "accounts_follow m (snd (find_region (track_access m a n) a))"
    by (rule accounts_follow_trans [OF accounts_follow_track f]) (simp add: inv)
  then show ?thesis using f [OF inv] by (simp add: map_memory_state)
qed

lemma mapping_log_read:
  assumes "mapping_ok m"
  shows "\<exists>extra. log_grows [] m extra (snd (map_memory m Load a n :: 'x ProgramResult \<times> _))"
proof -
  let ?m = "snd (map_memory m Load a n :: 'x ProgramResult \<times> _)"
  have inv: "mapping_inv m" "mapping_handler_ok m" using assms by (simp_all add: mapping_ok_def)
  then have "mapping_ok ?m"
    by (auto simp: mapping_ok_def map_memory_state find_region_keeps)
  moreover have t: "get_access_tracker ?m = map_option (\<lambda>t. check_access t a n) (get_access_tracker m)"
    using inv by (simp add: map_memory_state find_region_keeps)
  then have "mapping_watched ?m = mapping_watched m"
    by (cases "get_access_tracker m") (simp_all add: mapping_watched_def)
  moreover have "\<exists>extra. mapping_log ?m = mapping_log m @ extra"
    using t by (cases "get_access_tracker m")
      (auto simp: mapping_log_def get_forbidden_accesses_def check_access_def check_access_loop_eq)
  ultimately show ?thesis using map_memory_follows [OF assms] by (auto simp: log_grows_def)
qed

lemma mapping_log_exact:
  assumes "mapping_ok m" "0 < n"
  shows "log_grows [(a, n)] m [] (snd (map_memory m Load a n :: 'x ProgramResult \<times> _))"
proof -
  let ?m = "snd (map_memory m Load a n :: 'x ProgramResult \<times> _)"
  have inv: "mapping_inv m" "mapping_handler_ok m" using assms by (simp_all add: mapping_ok_def)
  have t: "get_access_tracker ?m = map_option (\<lambda>t. check_access t a n) (get_access_tracker m)"
    using inv by (simp add: map_memory_state find_region_keeps)
  obtain extra where "log_grows [] m extra ?m" using mapping_log_read [OF assms(1)] by blast
  then show ?thesis
    using mapping_log_check [OF inv(1) assms(2) t] by (auto simp: log_grows_def forbidden_def)
qed

lemma mapping_log_store:
  assumes "mapping_ok m"
  shows "log_grows [] m [] (snd (map_memory m Store a n :: 'x ProgramResult \<times> _))"
    and "log_grows [] m [] (snd (map_with_access_violation_handler m Store a n :: 'x ProgramResult \<times> _))"
proof -
  have inv: "mapping_inv m" "mapping_handler_ok m" "lookup_inv m"
    using assms by (simp_all add: mapping_ok_def mapping_inv_def)
  then show "log_grows [] m [] (snd (map_memory m Store a n :: 'x ProgramResult \<times> _))"
    using map_memory_follows [OF assms, of Store a n, where ?'x = 'x]
    by (auto simp: log_grows_def mapping_ok_def map_memory_state find_region_keeps mapping_log_def mapping_watched_def)
  show "log_grows [] m [] (snd (map_with_access_violation_handler m Store a n :: 'x ProgramResult \<times> _))"
    using map_handler_ok [OF assms, of Store a n, where ?'x = 'x]
      map_with_handler_tracker [OF inv(3), of Store a n, where ?'x = 'x]
      map_with_handler_follows [OF inv(1,2), of Store a n, where ?'x = 'x]
    by (simp add: log_grows_def mapping_log_def mapping_watched_def)
qed

section \<open>The frame of a system call\<close>

text \<open>What no system call changes: the features, the instruction, the accounts and what the detector keeps.\<close>

lemma current_instruction_fields [simp]:
  "get_current_instruction_context (set_return_data tc k bs) = get_current_instruction_context tc"
  "get_current_instruction_context (tc\<lparr>accounts := ta\<rparr>) = get_current_instruction_context tc"
  by (simp_all add: get_current_instruction_context_def get_current_instruction_index_def set_return_data_def
      get_instruction_context_at_index_in_trace_def [abs_def] Let_def)

definition settled ::
  "InvokeContext \<Rightarrow> SVMFeatureSet \<times> (InstructionContext, InstructionError) result \<times> TransactionAccounts
     \<times> u64 range list \<times> (u64 \<times> usize) list"
where
  "settled ic =
     (feature_set ic, get_current_instruction_context (transaction_context ic), accounts (transaction_context ic),
      forbidden_sysvar_data_ranges ic, forbidden_memory_accesses ic)"

lemma settled_simps:
  "settled (ic\<lparr>transaction_context := set_return_data (transaction_context ic) k bs\<rparr>) = settled ic"
  "settled (ic_consume ic n) = settled ic"
  by (simp_all add: settled_def ic_consume_def) (simp add: set_return_data_def Let_def)

definition sys_kept :: "bool \<Rightarrow> SysState \<Rightarrow> SysState \<Rightarrow> bool" where
  "sys_kept silent s s' \<longleftrightarrow>
     ic_get_remaining (sys_ic s') \<le> ic_get_remaining (sys_ic s) \<and> stacks (sys_ic s') = stacks (sys_ic s)
     \<and> settled (sys_ic s') = settled (sys_ic s)
     \<and> (mapping_ok (sys_mapping s) \<longrightarrow>
          (\<exists>extra. log_grows [] (sys_mapping s) extra (sys_mapping s') \<and> (silent \<longrightarrow> extra = [])))"

definition sys_keeps :: "bool \<Rightarrow> SysState \<Rightarrow> 'a sys \<Rightarrow> bool" where
  "sys_keeps silent s p \<longleftrightarrow> sys_kept silent s (fst p)"

lemma sys_kept_refl [simp, sys_rules]: "sys_kept silent s s"
  by (auto simp: sys_kept_def log_grows_def)

lemma sys_kept_trans: "sys_kept silent s t \<Longrightarrow> sys_kept silent t u \<Longrightarrow> sys_kept silent s u"
  by (fastforce simp: sys_kept_def log_grows_def intro: accounts_follow_trans)

lemma keeps_pair [sys_rules]: "sys_kept silent s t \<Longrightarrow> sys_keeps silent s (t, r)"
  by (simp add: sys_keeps_def)

lemma keeps_try [sys_rules]:
  assumes "sys_keeps silent s p" "\<And>t x. sys_keeps silent t (k t x)"
  shows "sys_keeps silent s (try_then p k)"
proof (cases p)
  case (Pair t r)
  then show ?thesis using assms sys_kept_trans by (cases r) (auto simp: sys_keeps_def)
qed

lemma keeps_prod [sys_rules]: "(\<And>a b. sys_keeps silent s (f a b)) \<Longrightarrow> sys_keeps silent s (case x of (a, b) \<Rightarrow> f a b)"
  by (cases x) simp

lemma keeps_if [sys_rules]:
  "sys_keeps silent s p \<Longrightarrow> sys_keeps silent s q \<Longrightarrow> sys_keeps silent s (if b then p else q)"
  by simp

lemma keeps_result [sys_rules]:
  "(\<And>x. sys_keeps silent s (f x)) \<Longrightarrow> (\<And>e. sys_keeps silent s (g e)) \<Longrightarrow>
     sys_keeps silent s (case r of Ok x \<Rightarrow> f x | Err e \<Rightarrow> g e)"
  by (cases r) simp_all

lemma keeps_option [sys_rules]:
  "sys_keeps silent s p \<Longrightarrow> (\<And>x. sys_keeps silent s (f x)) \<Longrightarrow> sys_keeps silent s (case r of None \<Rightarrow> p | Some x \<Rightarrow> f x)"
  by (cases r) simp_all

lemma keeps_let [sys_rules]: "(\<And>x. sys_keeps silent s (f x)) \<Longrightarrow> sys_keeps silent s (let x = e in f x)"
  by simp

lemma kept_on_ic [sys_rules]:
  assumes "ic_get_remaining (f (sys_ic s)) = ic_get_remaining (sys_ic s)" "stacks (f (sys_ic s)) = stacks (sys_ic s)"
    and "settled (f (sys_ic s)) = settled (sys_ic s)"
  shows "sys_kept silent s (on_ic f s)"
  using assms by (auto simp: sys_kept_def on_ic_def log_grows_def)

lemma kept_put [sys_rules]: "sys_kept silent s t \<Longrightarrow> sys_kept silent s (put_bytes t h bs)"
  by (simp add: sys_kept_def put_bytes_def)

lemma kept_put_sized [sys_rules]: "sys_kept silent s t \<Longrightarrow> sys_kept silent s (put_sized t h n bs)"
  unfolding put_sized_def by (rule kept_put)

lemma msg_keeps [sys_rules]:
  "ic_get_remaining (ic_msg ic str) = ic_get_remaining ic" "stacks (ic_msg ic str) = stacks ic"
  "ic_get_remaining (program_log ic str) = ic_get_remaining ic" "stacks (program_log ic str) = stacks ic"
  "ic_get_remaining (program_data d ic bss) = ic_get_remaining ic" "stacks (program_data d ic bss) = stacks ic"
  "settled (ic_msg ic str) = settled ic" "settled (program_log ic str) = settled ic"
  "settled (program_data d ic bss) = settled ic"
  by (simp_all add: program_log_def program_data_def ic_get_remaining_def ic_msg_def stacks_def settled_def)

lemma keeps_consume [sys_rules]: "sys_keeps silent s (consume_compute_meter s n)"
  by (auto simp: sys_keeps_def consume_compute_meter_def consume_checked_def sys_kept_def stacks_def settled_def
      ic_get_remaining_def Let_def log_grows_def saturating_sub_le)

lemma keeps_translate_inner [sys_rules]:
  "sys_keeps False s (translate_inner s Load a n)" "sys_keeps silent s (translate_inner s Store a n)"
  using mapping_log_read [of "sys_mapping s" a n, where ?'x = BoxedError]
    mapping_log_store(1) [of "sys_mapping s" a n, where ?'x = BoxedError]
  by (auto simp: sys_keeps_def translate_inner_def sys_kept_def split: prod.splits result.splits)

lemma keeps_touch_inner [sys_rules]: "sys_keeps silent s (touch_inner s a n)"
  using mapping_log_store(2) [of "sys_mapping s" a n, where ?'x = BoxedError]
  by (auto simp: sys_keeps_def touch_inner_def sys_kept_def split: prod.splits result.splits)

section \<open>Translations\<close>

lemma keeps_type_inner [sys_rules]:
  "sys_keeps False s (translate_type_inner s Load a T c)" "sys_keeps silent s (translate_type_inner s Store a T c)"
  unfolding translate_type_inner_def by (intro sys_rules)+

lemma keeps_slice_inner [sys_rules]:
  "sys_keeps False s (translate_slice_inner s Load a n T c)" "sys_keeps silent s (translate_slice_inner s Store a n T c)"
  unfolding translate_slice_inner_def by (intro sys_rules)+

lemma keeps_translate [sys_rules]:
  "sys_keeps False s (translate_type s a T c)" "sys_keeps False s (translate_slice s a n T c)"
  "sys_keeps silent s (translate_type_mut s a T c)" "sys_keeps silent s (translate_slice_mut s a n T c)"
  "sys_keeps False s (translate_vm_slice s v T c)"
  unfolding translate_type_def translate_slice_def translate_type_mut_def translate_slice_mut_def
    translate_vm_slice_def by (intro sys_rules)+

lemma keeps_touch_mut [sys_rules]: "sys_keeps silent s (touch_mut s r)"
  by (cases r) (auto simp: touch_type_mut_def touch_slice_mut_def intro: sys_rules)

lemma keeps_bind_mut [sys_rules]: "sys_keeps silent s (bind_mut s c r)"
  by (cases r) (auto simp only: bind_mut.simps intro!: sys_rules)

lemma keeps_touch_all [sys_rules]: "sys_keeps silent s (touch_all s rs)"
  by (induction rs arbitrary: s) (auto intro!: sys_rules)

lemma keeps_bind_all [sys_rules]: "sys_keeps silent s (bind_all s c rs)"
  by (induction rs arbitrary: s) (auto intro!: sys_rules)

lemma keeps_translate_mut [sys_rules]: "sys_keeps silent s (translate_mut s c rs)"
  unfolding translate_mut_def by (intro sys_rules)

lemma keeps_string [sys_rules]:
  "(\<And>s str. sys_keeps False s (work s str)) \<Longrightarrow> sys_keeps False s (translate_string_and_do s a n c work)"
  unfolding translate_string_and_do_def by (intro sys_rules)

lemma keeps_hash_slices [sys_rules]: "sys_keeps False s (hash_slices s c cost vs)"
  by (induction vs arbitrary: s) (auto simp only: hash_slices.simps intro!: sys_rules)

lemma keeps_seed_bytes [sys_rules]: "sys_keeps False s (seed_bytes se s c vs)"
  by (induction vs arbitrary: s) (auto simp only: seed_bytes.simps intro!: sys_rules)

lemma keeps_fields [sys_rules]: "sys_keeps False s (translate_fields s c vs)"
  by (induction vs arbitrary: s) (auto simp only: translate_fields.simps intro!: sys_rules)

lemma keeps_address_inputs [sys_rules]:
  "sys_keeps False s (translate_and_check_program_address_inputs se s a n p c)"
  unfolding translate_and_check_program_address_inputs_def by (intro sys_rules)

lemma keeps_bump_seeds [sys_rules]: "sys_keeps silent s (try_bump_seeds n se s seeds p cost a b bump)"
  by (induction n arbitrary: s bump) (auto simp only: try_bump_seeds.simps intro!: sys_rules)

section \<open>System calls\<close>

lemma keeps_alloc_free: "sys_keeps silent s (SyscallAllocFree se s sz fa)"
proof -
  have "sys_kept silent s (s\<lparr>sys_ic := fst (set_syscall_context (sys_ic s) sc)\<rparr>)" for sc
    by (auto simp: sys_kept_def set_syscall_context_def stacks_def settled_def ic_get_remaining_def log_grows_def)
  then show ?thesis
    unfolding SyscallAllocFree_def Let_def by (intro sys_rules)
qed

lemma keeps_set_return_data: "sys_keeps False s (SyscallSetReturnData se s a n)"
  unfolding SyscallSetReturnData_def Let_def
  by (intro sys_rules) (simp_all add: ic_get_remaining_def settled_simps)

lemma keeps_memmove [sys_rules]: "sys_keeps False s (memmove se s d a n)"
  unfolding memmove_def by (intro sys_rules)

lemma keeps_mem_op [sys_rules]: "sys_keeps silent s (mem_op_consume s n)"
  unfolding mem_op_consume_def by (intro sys_rules)

lemma keeps_get_return_data: "sys_keeps silent s (SyscallGetReturnData se s a n p)"
  unfolding SyscallGetReturnData_def by (intro sys_rules)

lemma keeps_memset: "sys_keeps silent s (SyscallMemset se s a c n)"
  unfolding SyscallMemset_def by (intro sys_rules)

lemma keeps_hash: "sys_keeps False s (SyscallHash se h s a n r)"
  unfolding SyscallHash_def by (intro sys_rules)

text \<open>The system calls that read no guest memory.\<close>

fun reads_memory :: "Syscall \<Rightarrow> bool" where
  "reads_memory CallAbort = False"
| "reads_memory CallAllocFree = False"
| "reads_memory CallMemset = False"
| "reads_memory CallLogU64 = False"
| "reads_memory CallLogBpfComputeUnits = False"
| "reads_memory CallGetReturnData = False"
| "reads_memory CallGetStackHeight = False"
| "reads_memory CallRemainingComputeUnits = False"
| "reads_memory _ = True"

lemma keeps_syscall: "sys_keeps (\<not> reads_memory f) s (syscall se f s args)"
proof -
  note defs = SyscallAbort_def SyscallPanic_def SyscallMemcpy_def SyscallMemmove_def SyscallMemcmp_def
    SyscallLog_def SyscallLogU64_def SyscallLogBpfComputeUnits_def SyscallLogPubkey_def SyscallLogData_def
    SyscallGetStackHeight_def SyscallRemainingComputeUnits_def SyscallGetEpochStake_def
    SyscallCreateProgramAddress_def SyscallTryFindProgramAddress_def
  show ?thesis
    by (cases f; simp only: syscall.simps reads_memory.simps not_True_eq_False not_False_eq_True
          keeps_alloc_free keeps_set_return_data keeps_get_return_data keeps_memset keeps_hash;
        unfold defs; intro sys_rules)
qed

lemma rust_kept:
  assumes "rust (syscall_env se) f c args mm mem = (res, c', mm', mem')"
  shows "sys_kept (\<not> reads_memory f) \<lparr>sys_ic = c, sys_mapping = mm, sys_mem = mem\<rparr>
    \<lparr>sys_ic = c', sys_mapping = mm', sys_mem = mem'\<rparr>"
proof -
  let ?s = "\<lparr>sys_ic = c, sys_mapping = mm, sys_mem = mem\<rparr>"
  let ?t = "fst (syscall se f ?s args)"
  have "?t = \<lparr>sys_ic = c', sys_mapping = mm', sys_mem = mem'\<rparr>"
    using assms by (cases ?t) (auto simp: syscall_env_def Let_def split: prod.splits)
  then show ?thesis using keeps_syscall [of f ?s se args] by (simp add: sys_keeps_def)
qed

lemma rust_kept_context:
  "ic_get_remaining (fst (snd (rust (syscall_env se) f c args mm mem))) \<le> ic_get_remaining c"
  "stacks (fst (snd (rust (syscall_env se) f c args mm mem))) = stacks c"
  "settled (fst (snd (rust (syscall_env se) f c args mm mem))) = settled c"
  using rust_kept [of se f c args mm mem]
  by (cases "rust (syscall_env se) f c args mm mem"; simp add: sys_kept_def)+

lemma env_simps [simp]:
  "consume (syscall_env se) = ic_consume" "get_remaining (syscall_env se) = ic_get_remaining"
  by (simp_all add: syscall_env_def)

interpretation sys_metered: metered "syscall_env se" for se
  by unfold_locales (simp_all add: rust_kept_context [unfolded ic_get_remaining_def] ic_consume_def ic_get_remaining_def)

interpretation sys_stacks: context_relation "syscall_env se" "\<lambda>c c'. stacks c' = stacks c" for se
  by unfold_locales (simp_all add: rust_kept_context)

interpretation sys_settled: context_relation "syscall_env se" "\<lambda>c c'. settled c' = settled c" for se
  by unfold_locales (simp_all add: rust_kept_context settled_simps)

interpretation sys_neutral: stack_neutral "syscall_env se" for se
  by unfold_locales (simp_all add: rust_kept_context)

interpretation sys_reading: reading_builtins "syscall_env se" for se
  using rust_kept by unfold_locales (fastforce simp: sys_kept_def)

text \<open>A loader that registers only system calls that read no guest memory.\<close>

datatype QuietSyscall =
    QuietAbort | QuietAllocFree | QuietMemset | QuietLogU64 | QuietLogBpfComputeUnits
  | QuietGetReturnData | QuietGetStackHeight | QuietRemainingComputeUnits

fun of_quiet :: "QuietSyscall \<Rightarrow> Syscall" where
  "of_quiet QuietAbort = CallAbort"
| "of_quiet QuietAllocFree = CallAllocFree"
| "of_quiet QuietMemset = CallMemset"
| "of_quiet QuietLogU64 = CallLogU64"
| "of_quiet QuietLogBpfComputeUnits = CallLogBpfComputeUnits"
| "of_quiet QuietGetReturnData = CallGetReturnData"
| "of_quiet QuietGetStackHeight = CallGetStackHeight"
| "of_quiet QuietRemainingComputeUnits = CallRemainingComputeUnits"

definition quiet_env :: "SysEnv \<Rightarrow> (InvokeContext, QuietSyscall, BoxedError) Env" where
  "quiet_env se =
     \<lparr>consume = ic_consume, get_remaining = ic_get_remaining, rust = \<lambda>f. rust (syscall_env se) (of_quiet f)\<rparr>"

lemma quiet_silent [simp]: "\<not> reads_memory (of_quiet f)"
  by (cases f) simp_all

lemma quiet_simps [simp]:
  "consume (quiet_env se) = ic_consume" "get_remaining (quiet_env se) = ic_get_remaining"
  "rust (quiet_env se) f = rust (syscall_env se) (of_quiet f)"
  by (simp_all add: quiet_env_def)

interpretation quiet_metered: metered "quiet_env se" for se
  by unfold_locales (simp_all add: rust_kept_context [unfolded ic_get_remaining_def] ic_consume_def ic_get_remaining_def)

interpretation quiet_reading: silent_builtins "quiet_env se" for se
proof
  fix mm mm' :: MemoryMapping and f c args mem res c' mem'
  assume ok: "mapping_ok mm" and r: "rust (quiet_env se) f c args mm mem = (res, c', mm', mem')"
  have k: "log_grows [] mm [] mm'" using rust_kept [of se "of_quiet f" c args mm mem] ok r by (simp add: sys_kept_def)
  then show "\<exists>extra. log_grows [] mm extra mm'" ..
  from k show "mapping_log mm' = mapping_log mm" by (simp add: log_grows_def)
qed

section \<open>Properties\<close>

text \<open>
  C6: a verified program runs to its end.  With the instruction meter on, as many steps as there
  are compute units, and one, are enough for every verified program that calls the modelled system
  calls; it never panics, the instruction count it reports is exactly what the meter lost, and the
  call and syscall-context stacks are as before.
\<close>

theorem verified_program_finishes:
  assumes "prepared exe cfg m" "enable_instruction_meter cfg"
  shows "\<exists>count res m'.
    execute_program (Suc (unat (ic_get_remaining (context_object_pointer m)))) (syscall_env se) m exe =
      Some (Some (count, res, m'))
    \<and> unat count + unat (ic_get_remaining (context_object_pointer m')) =
        unat (ic_get_remaining (context_object_pointer m))
    \<and> stacks (context_object_pointer m') = stacks (context_object_pointer m)"
proof -
  obtain count res m' where r:
    "execute_program (Suc (unat (ic_get_remaining (context_object_pointer m)))) (syscall_env se) m exe =
       Some (Some (count, res, m'))"
    "exe_get_config exe = Some cfg" "get_config (vm_loader m) = Some cfg"
    by (rule sys_metered.prepared_finishes [OF assms, of se, simplified])
  then show ?thesis
    using sys_metered.execute_count [OF r(2,3) assms(2) r(1)] sys_stacks.execute_context [OF r(2,3,1)] by auto
qed

text \<open>
  C2: no forbidden load of a program is lost.  When a run ends, the read log of its memory mapping
  is the old log followed by new entries, among which are all loads of the program that touch a
  watched range, in the order they were issued; system calls can only add entries.
\<close>

theorem forbidden_loads_reported:
  assumes "prepared exe cfg m" "enable_instruction_meter cfg" "mapping_ok (memory_mapping m)"
  shows "let fuel = Suc (unat (ic_get_remaining (context_object_pointer m))) in
    \<exists>count res m' reported. execute_program fuel (syscall_env se) m exe = Some (Some (count, res, m'))
      \<and> mapping_log (memory_mapping m') = mapping_log (memory_mapping m) @ reported
      \<and> subseq (filter (forbidden (mapping_watched (memory_mapping m))) (program_loads fuel (syscall_env se) m exe))
          reported
      \<and> mapping_ok (memory_mapping m')"
proof -
  obtain count res m' where r:
    "execute_program (Suc (unat (ic_get_remaining (context_object_pointer m)))) (syscall_env se) m exe =
       Some (Some (count, res, m'))"
    "exe_get_config exe = Some cfg" "get_config (vm_loader m) = Some cfg"
    by (rule sys_metered.prepared_finishes [OF assms(1,2), of se, simplified])
  then show ?thesis
    unfolding Let_def using sys_reading.execute_log [OF r(2,3,1) assms(3)] by blast
qed

text \<open>
  C4: when the program can call only system calls that read no guest memory, the log is exact: it
  grows by the loads that touch a watched range and by nothing else.
\<close>

theorem quiet_program_log_exact:
  assumes "prepared exe cfg m" "enable_instruction_meter cfg" "mapping_ok (memory_mapping m)"
  shows "let fuel = Suc (unat (ic_get_remaining (context_object_pointer m))) in
    \<exists>count res m'. execute_program fuel (quiet_env se) m exe = Some (Some (count, res, m'))
      \<and> mapping_log (memory_mapping m') = mapping_log (memory_mapping m)
          @ filter (forbidden (mapping_watched (memory_mapping m))) (program_loads fuel (quiet_env se) m exe)"
proof -
  obtain count res m' where r:
    "execute_program (Suc (unat (ic_get_remaining (context_object_pointer m)))) (quiet_env se) m exe =
       Some (Some (count, res, m'))"
    "exe_get_config exe = Some cfg" "get_config (vm_loader m) = Some cfg"
    by (rule quiet_metered.prepared_finishes [OF assms(1,2), of se, simplified])
  then show ?thesis
    unfolding Let_def using quiet_reading.execute_exact [OF r(2,3,1) assms(3)] by blast
qed

text \<open>
  C13: a system call that reads a slice of guest memory reports it.  Whether or not the translation
  succeeds, the log grows by the address and the length in bytes of the slice when it touches a
  watched range; an empty slice and one whose length is out of range leave it as it was.
\<close>

theorem syscall_read_recorded:
  assumes "mapping_ok (sys_mapping s)" "0 < size_of T"
  shows "mapping_log (sys_mapping (fst (translate_slice s addr n T check_aligned))) =
    mapping_log (sys_mapping s)
    @ (if n = 0 \<or> unat n * unat (size_of T) \<ge> 2 ^ 63 then []
       else filter (forbidden (mapping_watched (sys_mapping s))) [(addr, n * size_of T)])"
proof -
  let ?k = "saturating_mul n (size_of T)"
  have k: "unat ?k \<ge> 2 ^ 63 \<longleftrightarrow> unat n * unat (size_of T) \<ge> 2 ^ 63" by (simp add: unat_saturating_mul)
  show ?thesis
  proof (cases "n = 0 \<or> unat ?k \<ge> 2 ^ 63")
    case True
    then show ?thesis using k by (auto simp: translate_slice_def translate_slice_inner_def Let_def)
  next
    case False
    then have lt: "unat n * unat (size_of T) < 2 ^ 63" using k by simp
    then have eq: "?k = n * size_of T" by (simp add: saturating_mul_def)
    have pos: "0 < ?k"
      using False assms(2) by (simp add: word_less_nat_alt unat_saturating_mul word_neq_0_conv [symmetric] unat_gt_0)
    have "sys_mapping (fst (translate_slice s addr n T check_aligned)) =
        snd (map_memory (sys_mapping s) Load addr ?k :: BoxedError ProgramResult \<times> _)"
      using False
      by (auto simp: translate_slice_def translate_slice_inner_def Let_def translate_inner_def
          split: prod.splits result.splits)
    then show ?thesis
      using mapping_log_exact [OF assms(1) pos, of addr, where ?'x = BoxedError] False k
      unfolding eq by (simp add: log_grows_def)
  qed
qed

text \<open>A machine for the sample executable, with the sample mapping and a context of 1,400,000 units.\<close>

definition sample_se :: SysEnv where
  "sample_se =
     \<lparr>se_sdk = sample_sdk, se_display = sample_display,
      hash_bytes = \<lambda>_ _. replicate 32 0, hash_len = \<lambda>_. 32,
      create_program_address = \<lambda>_ _. None, epoch_stake = 0, epoch_stake_for_vote_account = \<lambda>_. 0,
      BPF_ALIGN_OF_U128 = 8, MAX_RETURN_DATA = 1024, MAX_SEEDS = 16, MAX_SEED_LEN = 32\<rparr>"

definition ready_vm :: "(InvokeContext, 'f, BoxedError) EbpfVm" where
  "ready_vm = the (new_vm sample_loader V0 sample_ic sample_mapping 0 (\<lambda>_. 0))"

lemma ready_vm_ok:
  "prepared sample_exe default_Config (ready_vm :: (InvokeContext, 'f, BoxedError) EbpfVm)" "enable_instruction_meter default_Config"
  "memory_mapping ready_vm = sample_mapping" "mapping_ok sample_mapping"
  "context_object_pointer ready_vm = sample_ic"
proof -
  have new: "new_vm (get_loader sample_exe) V0 sample_ic sample_mapping 0 (\<lambda>_. 0) =
      Some (ready_vm :: (InvokeContext, 'f, BoxedError) EbpfVm)"
    by (simp add: ready_vm_def new_vm_def get_loader_def sample_exe_def sample_loader_def new_loader_def get_config_def)
  have "fresh_vm sample_exe default_Config (ready_vm :: (InvokeContext, 'f, BoxedError) EbpfVm)"
    by (rule new_vm_fresh [OF sample_exe_ok(2) new])
  moreover have "unat (get_entrypoint_instruction_offset (sample_exe :: 'f Executable)) = 0"
    by (simp add: get_entrypoint_instruction_offset_def sample_exe_def)
  moreover have "0 < max_call_depth default_Config" by (simp add: default_Config_def)
  ultimately show "prepared sample_exe default_Config (ready_vm :: (InvokeContext, 'f, BoxedError) EbpfVm)"
    unfolding prepared_def using sample_exe_ok(1-4) by (intro conjI exI) (assumption | simp)+
  show "memory_mapping ready_vm = sample_mapping" "context_object_pointer ready_vm = sample_ic"
    by (simp_all add: ready_vm_def new_vm_def sample_loader_def new_loader_def get_config_def default_Config_def Let_def)
  show "enable_instruction_meter default_Config" by (simp add: default_Config_def)
  show "mapping_ok sample_mapping" using sample_mapping_ok by (simp add: mapping_ok_def)
qed

theorem verified_program_finishes_witness:
  "\<exists>count res m'. execute_program (Suc (unat (ic_get_remaining sample_ic))) (syscall_env sample_se) ready_vm sample_exe =
     Some (Some (count, res, m')) \<and> stacks (context_object_pointer m') = stacks sample_ic"
  using verified_program_finishes [OF ready_vm_ok(1,2), of sample_se] unfolding ready_vm_ok by blast

theorem forbidden_loads_reported_witness:
  "\<exists>count res m'. execute_program (Suc (unat (ic_get_remaining sample_ic))) (syscall_env sample_se) ready_vm sample_exe =
     Some (Some (count, res, m')) \<and> mapping_ok (memory_mapping m')"
  using forbidden_loads_reported [OF ready_vm_ok(1,2), of sample_se] unfolding ready_vm_ok Let_def
  using ready_vm_ok(4) by blast

theorem quiet_program_log_exact_witness:
  "\<exists>count res m'. execute_program (Suc (unat (ic_get_remaining sample_ic))) (quiet_env sample_se) ready_vm sample_exe =
     Some (Some (count, res, m'))
   \<and> mapping_log (memory_mapping m') = mapping_log sample_mapping
      @ filter (forbidden (mapping_watched sample_mapping))
          (program_loads (Suc (unat (ic_get_remaining sample_ic))) (quiet_env sample_se) ready_vm sample_exe)"
  using quiet_program_log_exact [OF ready_vm_ok(1,2), of sample_se] unfolding ready_vm_ok Let_def
  using ready_vm_ok(4) by blast

theorem syscall_read_recorded_witness:
  "mapping_log (sys_mapping (fst (translate_slice
      \<lparr>sys_ic = sample_ic, sys_mapping = sample_mapping, sys_mem = \<lambda>_. 0\<rparr> (MM_INPUT_START + 6) 4 of_u8 False))) =
    [(MM_INPUT_START + 6, 4)]"
proof -
  have "mapping_log sample_mapping = []"
    "mapping_watched sample_mapping = [mk_range (MM_INPUT_START + 8) (MM_INPUT_START + 16)]"
    by (simp_all add: mapping_log_def mapping_watched_def get_access_tracker_def sample_mapping_def
        add_watched_range_def range_is_empty_def new_tracker_def get_forbidden_accesses_def)
  moreover have "reads_forbidden [mk_range (MM_INPUT_START + 8) (MM_INPUT_START + 16)] (MM_INPUT_START + 6) 4"
    by (simp add: reads_forbidden_def touches_iff_overlap range_is_empty_def saturating_add_def)
  ultimately show ?thesis
    using syscall_read_recorded [of "\<lparr>sys_ic = sample_ic, sys_mapping = sample_mapping, sys_mem = \<lambda>_. 0\<rparr>"
        of_u8 "MM_INPUT_START + 6" 4 False] ready_vm_ok(4)
    by (simp add: of_u8_def forbidden_def)
qed

end
