(* ===== verification/Execute.thy ===== *)
theory Execute
  imports Guest_Parameters Syscall_Effects
begin

text \<open>
  Provisioning a virtual machine and running a program in it, \<open>program-runtime/src/vm.rs\<close>: the
  parameters are serialized, the memory mapping is built, the watched ranges of the detector are set,
  the program is interpreted, and the results are collected and read back.

  Allocated memory.  A buffer is a list until the machine is built; \<open>place\<close> then writes the buffers at
  their addresses into host memory, and what is read of them afterwards comes from there.  With direct
  mapping the same holds for the bytes of the accounts: they stay at \<open>data_at\<close> and are collected when
  the program has ended.

  The record \<open>Host\<close> has what comes from outside: keys, constants, the text of errors and keys, the
  conversion of a status to an error, the allocator, and the addresses of account and program bytes.
  \<open>use_jit\<close> is false: the interpreter runs.
\<close>

section \<open>Building a machine\<close>

record Host =
  h_sdk :: Sdk
  h_entrypoint :: Entrypoint
  h_display :: "BoxedError Display"
  h_success :: u64
  status_error :: "u64 \<Rightarrow> InstructionError"
  h_allocator :: Allocator
  data_at :: "nat \<Rightarrow> u64"
  ro_at :: u64

abbreviation data_addresses :: "Host \<Rightarrow> data_address" where
  "data_addresses h \<equiv> \<lambda>_. data_at h"

definition calculate_heap_cost :: "u32 \<Rightarrow> u64 \<Rightarrow> u64" where
  "calculate_heap_cost hs cost =
     (let kibibyte = 1024; page_size_kb = 32;
          rounded_heap_size = saturating_add (ucast hs) (saturating_sub (saturating_mul page_size_kb kibibyte) 1)
      in saturating_mul (saturating_sub (rounded_heap_size div saturating_mul page_size_kb kibibyte) 1) cost)"

text \<open>\<open>None\<close> is the panic of a slice out of bounds.\<close>

definition get_ro_region :: "Host \<Rightarrow> 'f Executable \<Rightarrow> MemoryRegion option" where
  "get_ro_region h exe =
     map_option (\<lambda>ro_data.
       new_readonly \<lparr>as_ptr = ro_at h, slice_len = of_nat (length ro_data)\<rparr>
         (case ro_section exe of Owned start _ \<Rightarrow> start | Borrowed start _ \<Rightarrow> start))
       (get_ro_section exe)"

text \<open>\<open>TransactionContext::access_violation_handler\<close>: the closure over the shared accounts.\<close>

definition account_handler :: "Host \<Rightarrow> bool \<Rightarrow> bool \<Rightarrow> TransactionAccounts \<Rightarrow> AccessViolationHandler" where
  "account_handler h stricter_abi direct_mapping ta =
     \<lparr>handler_code = \<lambda>env region max_len access_type addr n.
        (case env of
           None \<Rightarrow> (region, None)
         | Some ta \<Rightarrow>
             let (region, ta) =
                   account_access_violation_handler (data_addresses h) stricter_abi direct_mapping ta
                     region max_len access_type addr n
             in (region, Some ta)),
      captured = Some ta\<rparr>"

definition create_memory_mapping ::
  "Host \<Rightarrow> 'f Executable \<Rightarrow> Slice \<Rightarrow> Slice \<Rightarrow> MemoryRegion list \<Rightarrow> TransactionContext \<Rightarrow> bool \<Rightarrow> bool
     \<Rightarrow> (MemoryMapping, BoxedError EbpfError) result option"
where
  "create_memory_mapping h exe stack heap additional_regions tc stricter_abi direct_mapping =
     (case (exe_get_config exe, get_ro_region h exe) of
        (Some cfg, Some ro) \<Rightarrow>
          let v = get_sbpf_version exe;
              rs = [ro,
                    new_writable_gapped stack MM_STACK_START
                      (if stack_frame_gaps v \<and> enable_stack_frame_gaps cfg then stack_frame_size cfg else 0),
                    new_writable heap MM_HEAP_START] @ additional_regions
          in new_with_access_violation_handler rs cfg v (account_handler h stricter_abi direct_mapping (accounts tc))
      | _ \<Rightarrow> None)"

text \<open>Buffers at their addresses in host memory.\<close>

definition place :: "host_memory \<Rightarrow> (u64 \<times> u8 list) list \<Rightarrow> host_memory" where
  "place hm segments = fold (\<lambda>(p, bytes) hm. write_bytes hm p bytes) segments hm"

definition memory_ptr :: "AlignedMemory \<Rightarrow> u64" where
  "memory_ptr m = av_ptr (mem_vec m)"

text \<open>The function \<open>create_vm\<close>; the machine sees the memory \<open>hm\<close>.\<close>

definition create_vm ::
  "Host \<Rightarrow> 'f Executable \<Rightarrow> MemoryRegion list \<Rightarrow> SerializedAccountMetadata list \<Rightarrow> InvokeContext \<Rightarrow> Slice \<Rightarrow> Slice
     \<Rightarrow> host_memory \<Rightarrow> (InvokeContext \<times> ((InvokeContext, 'f, BoxedError) EbpfVm, BoxedError) result) option"
where
  "create_vm h exe rs metas ic stack heap hm =
     (let features = feature_set ic in
      case create_memory_mapping h exe stack heap rs (transaction_context ic)
             (stricter_abi_and_runtime_constraints features) (account_data_direct_mapping features) of
        None \<Rightarrow> None
      | Some (Err e) \<Rightarrow> Some (ic, Err (BoxEbpf e))
      | Some (Ok mapping) \<Rightarrow>
          (case set_syscall_context ic \<lparr>allocator = new_BpfAllocator (slice_len heap), accounts_metadata = metas\<rparr> of
             (ic, Err e) \<Rightarrow> Some (ic, Err (BoxInstruction e))
           | (ic, Ok _) \<Rightarrow>
               map_option (\<lambda>m. (ic, Ok m))
                 (new_vm (get_loader exe) (get_sbpf_version exe) ic mapping (slice_len stack) hm)))"

text \<open>What the host memory holds when the program starts.\<close>

definition segments ::
  "Host \<Rightarrow> 'f Executable \<Rightarrow> TransactionAccounts \<Rightarrow> AlignedMemory \<Rightarrow> AlignedMemory \<Rightarrow> AlignedMemory \<Rightarrow> (u64 \<times> u8 list) list"
where
  "segments h exe ta params stack heap =
     (memory_ptr params, as_slice params) # (memory_ptr stack, as_slice stack) # (memory_ptr heap, as_slice heap)
       # (ro_at h, case get_ro_section exe of Some ro \<Rightarrow> ro | None \<Rightarrow> [])
       # map (\<lambda>i. (data_at h i, view_data (view_at ta i))) [0..<accounts_len ta]"

text \<open>
  The macro \<open>create_vm!\<close>: charge for the heap, take stack and heap from the pool, build the machine.
  A panic of \<open>expect\<close> on a slice that is too short, or of an allocation, is an outer \<open>None\<close>.
\<close>

definition provision ::
  "Host \<Rightarrow> 'f Executable \<Rightarrow> AlignedMemory \<Rightarrow> MemoryRegion list \<Rightarrow> SerializedAccountMetadata list \<Rightarrow> InvokeContext
     \<Rightarrow> VmMemoryPool \<Rightarrow> host_memory
     \<Rightarrow> (InvokeContext \<times> VmMemoryPool
          \<times> ((InvokeContext, 'f, BoxedError) EbpfVm \<times> AlignedMemory \<times> AlignedMemory, BoxedError) result) option"
where
  "provision h exe params rs metas ic pool hm =
     (case exe_get_config exe of
        None \<Rightarrow> None
      | Some cfg \<Rightarrow>
          let stack_len = stack_size cfg; heap_len = heap_size (compute_budget ic) in
          case consume_checked ic (calculate_heap_cost heap_len (heap_cost (execution_cost ic))) of
            (ic, Err e) \<Rightarrow> Some (ic, pool, Err e)
          | (ic, Ok _) \<Rightarrow>
              (case get_stack (h_allocator h) pool (unat stack_len) of
                 None \<Rightarrow> None
               | Some (stack, pool) \<Rightarrow>
                   (case get_heap (h_allocator h) pool heap_len of
                      None \<Rightarrow> None
                    | Some (heap, pool) \<Rightarrow>
                        if unat stack_len \<le> mem_len stack \<and> unat heap_len \<le> mem_len heap then
                          map_option (\<lambda>(ic, res). (ic, pool, and_then res (\<lambda>m. Ok (m, stack, heap))))
                            (create_vm h exe rs metas ic \<lparr>as_ptr = memory_ptr stack, slice_len = stack_len\<rparr>
                               \<lparr>as_ptr = memory_ptr heap, slice_len = ucast heap_len\<rparr>
                               (place hm (segments h exe (accounts (transaction_context ic)) params stack heap)))
                        else None)))"

section \<open>Watched ranges\<close>

text \<open>The first instruction account that is the instructions sysvar.\<close>

fun find_sysvar_addr ::
  "Sdk \<Rightarrow> TransactionContext \<Rightarrow> InstructionContext \<Rightarrow> SerializedAccountMetadata list \<Rightarrow> nat list \<Rightarrow> u64 option"
where
  "find_sysvar_addr sdk tc ins metas [] = None"
| "find_sysvar_addr sdk tc ins metas (i # is) =
     (case and_then (get_index_of_instruction_account_in_transaction ins (of_nat i)) (get_key_of_account_at_index tc) of
        Err _ \<Rightarrow> find_sysvar_addr sdk tc ins metas is
      | Ok key \<Rightarrow>
          if key = instructions_id sdk then map_option vm_data_addr (nth_get metas i)
          else find_sysvar_addr sdk tc ins metas is)"

definition forbidden_vm_ranges ::
  "Sdk \<Rightarrow> InvokeContext \<Rightarrow> TransactionContext \<Rightarrow> InstructionContext \<Rightarrow> SerializedAccountMetadata list \<Rightarrow> u64 range list"
where
  "forbidden_vm_ranges sdk ic tc ins metas =
     (if forbidden_sysvar_data_ranges ic \<noteq> [] then
        case find_sysvar_addr sdk tc ins metas [0..<unat (get_number_of_instruction_accounts ins)] of
          None \<Rightarrow> []
        | Some base_addr \<Rightarrow>
            map (\<lambda>r. mk_range (base_addr + range_start r) (base_addr + range_end r)) (forbidden_sysvar_data_ranges ic)
      else [])"

section \<open>Errors\<close>

definition account_region_addrs ::
  "Entrypoint \<Rightarrow> bool \<Rightarrow> SerializedAccountMetadata list \<Rightarrow> u64 range list"
where
  "account_region_addrs ep is_loader_deprecated metas =
     map (\<lambda>m.
       mk_range (vm_data_addr m)
         (saturating_add (saturating_add (vm_data_addr m) (of_nat (original_data_len m)))
            (if \<not> is_loader_deprecated then of_nat (max_permitted_data_increase ep) else 0))) metas"

text \<open>The error of an access to an account's address space.\<close>

definition account_violation ::
  "TransactionAccounts \<Rightarrow> BorrowedInstructionAccount \<Rightarrow> AccessType \<Rightarrow> InstructionError"
where
  "account_violation ta account access_type =
     (case access_type of
        Store \<Rightarrow> (case can_data_be_changed ta account of Err err \<Rightarrow> err | Ok _ \<Rightarrow> InvalidRealloc)
      | Load \<Rightarrow> if \<not> is_ok (can_data_be_changed ta account) then AccountDataTooSmall else InvalidRealloc)"

definition downcast :: "BoxedError EbpfError \<Rightarrow> BoxedError EbpfError" where
  "downcast error = (case error of SyscallError (BoxEbpf e) \<Rightarrow> e | _ \<Rightarrow> error)"

text \<open>
  The mapping of access violations in the stricter modes; an error of a borrow is an early return of \<open>execute\<close>.
\<close>

definition map_violation ::
  "u64 range list \<Rightarrow> TransactionContext \<Rightarrow> BoxedError EbpfError
     \<Rightarrow> TransactionContext \<times> (BoxedError EbpfError, InstructionError) result"
where
  "map_violation addrs tc error =
     (case error of
        AccessViolation access_type addr n _ \<Rightarrow>
          (case find_position (\<lambda>r. range_contains r addr) addrs of
             None \<Rightarrow> (tc, Ok error)
           | Some i \<Rightarrow>
               (case and_then (get_current_instruction_context tc)
                       (\<lambda>ins. try_borrow_instruction_account tc ins (of_nat i)) of
                  Err e \<Rightarrow> (tc, Err e)
                | Ok (tc, account) \<Rightarrow>
                    let error =
                          (if saturating_add addr n \<le> range_end (addrs ! i)
                           then SyscallError (BoxInstruction (account_violation (accounts tc) account access_type))
                           else error)
                    in (tc\<lparr>accounts := drop_AccountRefMut (accounts tc) (get_index_in_transaction account)\<rparr>, Ok error)))
      | _ \<Rightarrow> (tc, Ok error))"

definition is_syscall_error :: "'x EbpfError \<Rightarrow> bool" where
  "is_syscall_error e = (case e of SyscallError _ \<Rightarrow> True | _ \<Rightarrow> False)"

definition boxed :: "BoxedError EbpfError \<Rightarrow> BoxedError" where
  "boxed error = (case error of SyscallError err \<Rightarrow> err | e \<Rightarrow> BoxEbpf e)"

text \<open>The match on the program's result.\<close>

definition execution_result ::
  "Host \<Rightarrow> u64 range list \<Rightarrow> InvokeContext \<Rightarrow> BoxedError ProgramResult \<Rightarrow> InvokeContext \<times> (unit, BoxedError) result"
where
  "execution_result h addrs ic res =
     (case res of
        Ok status \<Rightarrow> if status \<noteq> h_success h then (ic, Err (BoxInstruction (status_error h status))) else (ic, Ok ())
      | Err error \<Rightarrow>
          let ic = (if deplete_cu_meter_on_vm_failure (feature_set ic) \<and> \<not> is_syscall_error error
                    then ic_consume ic (ic_get_remaining ic) else ic)
          in if stricter_abi_and_runtime_constraints (feature_set ic) then
               let (tc, r) = map_violation addrs (transaction_context ic) (downcast error);
                   ic = ic\<lparr>transaction_context := tc\<rparr>
               in (case r of Err e \<Rightarrow> (ic, Err (BoxInstruction e)) | Ok error \<Rightarrow> (ic, Err (boxed error)))
             else (ic, Err (boxed error)))"

section \<open>Running a program\<close>

definition collect_accesses :: "(InvokeContext, 'f, BoxedError) EbpfVm \<Rightarrow> InvokeContext" where
  "collect_accesses m =
     (let ic = context_object_pointer m
      in if has_forbidden_memory_accesses m
         then ic\<lparr>forbidden_memory_accesses := forbidden_memory_accesses ic @ get_forbidden_memory_accesses m\<rparr>
         else ic)"

text \<open>
  The accounts after the run: as the handler left them and, with direct mapping, with the bytes that
  the program left in memory.
\<close>

definition handler_accounts :: "MemoryMapping \<Rightarrow> TransactionAccounts \<Rightarrow> TransactionAccounts" where
  "handler_accounts mapping ta =
     (case common_of mapping of
        None \<Rightarrow> ta
      | Some c \<Rightarrow> (case captured (access_violation_handler c) of None \<Rightarrow> ta | Some ta \<Rightarrow> ta))"

definition read_account_data :: "Host \<Rightarrow> host_memory \<Rightarrow> TransactionAccounts \<Rightarrow> TransactionAccounts" where
  "read_account_data h hm ta =
     ta\<lparr>private_account_fields :=
          map (\<lambda>(i, p). p\<lparr>private_payload := read_bytes hm (data_at h i) (length (private_payload p))\<rparr>)
            (List.enumerate 0 (private_account_fields ta))\<rparr>"

definition collect_account_state :: "Host \<Rightarrow> (InvokeContext, 'f, BoxedError) EbpfVm \<Rightarrow> InvokeContext \<Rightarrow> InvokeContext" where
  "collect_account_state h m ic =
     (let tc = transaction_context ic;
          ta = handler_accounts (memory_mapping m) (accounts tc);
          ta = (if stricter_abi_and_runtime_constraints (feature_set ic) \<and> account_data_direct_mapping (feature_set ic)
                then read_account_data h (host m) ta else ta)
      in ic\<lparr>transaction_context := tc\<lparr>accounts := ta\<rparr>\<rparr>)"

definition memory_after :: "host_memory \<Rightarrow> AlignedMemory \<Rightarrow> AlignedMemory" where
  "memory_after hm m = update_slice m (\<lambda>bytes. read_bytes hm (memory_ptr m) (length bytes))"

definition return_memory :: "VmMemoryPool \<Rightarrow> host_memory \<Rightarrow> AlignedMemory \<Rightarrow> AlignedMemory \<Rightarrow> VmMemoryPool" where
  "return_memory pool hm stack heap =
     snd (put_heap (snd (put_stack pool (memory_after hm stack))) (memory_after hm heap))"

text \<open>Trace, log and return data.\<close>

definition report_run ::
  "Host \<Rightarrow> Pubkey \<Rightarrow> u64 \<Rightarrow> u64 \<Rightarrow> u64 list list \<Rightarrow> InvokeContext \<Rightarrow> InvokeContext"
where
  "report_run h program_id units compute_meter_prev trace ic =
     (let ic = insert_register_trace ic trace;
          ic = ic_msg ic
                 (''Program '' @ show_key (h_display h) program_id @ '' consumed '' @ show_nat (unat units) @ '' of ''
                    @ show_nat (unat compute_meter_prev) @ '' compute units'');
          return_data = snd (get_return_data (transaction_context ic))
      in if return_data \<noteq> [] then program_return (h_display h) ic program_id return_data else ic)"

text \<open>The inner \<open>deserialize_parameters\<close>.\<close>

definition execute_deserialize ::
  "Host \<Rightarrow> InvokeContext \<Rightarrow> u8 list \<Rightarrow> (InvokeContext \<times> (unit, InstructionError) result) option"
where
  "execute_deserialize h ic parameter_bytes =
     (case and_then (get_current_instruction_context (transaction_context ic))
             (\<lambda>ins. and_then (get_syscall_context ic) (\<lambda>sc. Ok (ins, accounts_metadata sc))) of
        Err e \<Rightarrow> Some (ic, Err e)
      | Ok (ins, metas) \<Rightarrow>
          map_option (\<lambda>(tc, r). (ic\<lparr>transaction_context := tc\<rparr>, r))
            (deserialize_parameters (h_sdk h) (h_entrypoint h) (transaction_context ic) ins
               (stricter_abi_and_runtime_constraints (feature_set ic)) (account_data_direct_mapping (feature_set ic))
               parameter_bytes metas))"

text \<open>Everything after \<open>execute_program\<close>.\<close>

definition conclude ::
  "Host \<Rightarrow> Pubkey \<Rightarrow> u64 \<Rightarrow> u64 range list \<Rightarrow> AlignedMemory \<Rightarrow> u64 \<Rightarrow> BoxedError ProgramResult
     \<Rightarrow> (InvokeContext, 'f, BoxedError) EbpfVm \<Rightarrow> (InvokeContext \<times> (unit, BoxedError) result) option"
where
  "conclude h program_id compute_meter_prev addrs params units res m =
     (let ic = collect_account_state h m (collect_accesses m);
          ic = report_run h program_id units compute_meter_prev (register_trace m) ic;
          (ic, r) = execution_result h addrs ic res
      in case r of
           Err e \<Rightarrow> Some (ic, Err e)
         | Ok _ \<Rightarrow>
             map_option (\<lambda>(ic, r). (ic, case r of Ok _ \<Rightarrow> Ok () | Err e \<Rightarrow> Err (BoxInstruction e)))
               (execute_deserialize h ic (as_slice (memory_after (host m) params))))"

definition set_start_registers :: "SVMFeatureSet \<Rightarrow> u64 \<Rightarrow> u64 list \<Rightarrow> u64 list" where
  "set_start_registers features instruction_data_offset regs =
     (let regs = regs[1 := MM_INPUT_START]
      in if provide_instruction_data_offset_in_vm_r2 features then regs[2 := instruction_data_offset] else regs)"

text \<open>The machine just before \<open>execute_program\<close>.\<close>

definition launch ::
  "u64 range list \<Rightarrow> u64 \<Rightarrow> (InvokeContext, 'f, BoxedError) EbpfVm \<Rightarrow> (InvokeContext, 'f, BoxedError) EbpfVm"
where
  "launch watched instruction_data_offset m =
     (let m = (if watched \<noteq> [] then add_watched_memory_ranges m watched else m)
      in m\<lparr>registers :=
             set_start_registers (feature_set (context_object_pointer m)) instruction_data_offset (registers m)\<rparr>)"

type_synonym execution = "InvokeContext \<times> VmMemoryPool \<times> host_memory \<times> (unit, BoxedError) result"

text \<open>After serialization.  The outer \<open>None\<close> is a lack of fuel, \<open>Some None\<close> a panic.\<close>

definition execute_serialized ::
  "nat \<Rightarrow> Host \<Rightarrow> (InvokeContext, 'f, BoxedError) Env \<Rightarrow> VmMemoryPool \<Rightarrow> host_memory \<Rightarrow> 'f Executable
     \<Rightarrow> Pubkey \<Rightarrow> Pubkey \<Rightarrow> InstructionContext \<Rightarrow> InvokeContext \<Rightarrow> serialized \<Rightarrow> execution option option"
where
  "execute_serialized fuel h env pool hm exe program_id program_owner ins ic ser =
     (let (params, rs, metas, instruction_data_offset) = ser;
          addrs = account_region_addrs (h_entrypoint h) (program_owner = bpf_loader_deprecated_id (h_sdk h)) metas;
          watched = forbidden_vm_ranges (h_sdk h) ic (transaction_context ic) ins metas;
          compute_meter_prev = ic_get_remaining ic
      in case provision h exe params rs metas ic pool hm of
           None \<Rightarrow> Some None
         | Some (ic, pool, Err e) \<Rightarrow>
             Some (Some (ic_msg ic (''Failed to create SBF VM: '' @ show_err (h_display h) e), pool, hm,
               Err (BoxInstruction ProgramEnvironmentSetupFailure)))
         | Some (ic, pool, Ok (m, stack, heap)) \<Rightarrow>
             (case execute_program fuel env (launch watched instruction_data_offset m) exe of
                None \<Rightarrow> None
              | Some None \<Rightarrow> Some None
              | Some (Some (units, res, m)) \<Rightarrow>
                  Some (map_option (\<lambda>(ic, r). (ic, return_memory pool (host m) stack heap, host m, r))
                    (conclude h program_id compute_meter_prev addrs params units res m))))"

definition execute ::
  "nat \<Rightarrow> Host \<Rightarrow> (InvokeContext, 'f, BoxedError) Env \<Rightarrow> VmMemoryPool \<Rightarrow> host_memory \<Rightarrow> 'f Executable
     \<Rightarrow> InvokeContext \<Rightarrow> execution option option"
where
  "execute fuel h env pool hm exe ic =
     (let tc = transaction_context ic; features = feature_set ic;
          failed = \<lambda>e. Some (Some (ic, pool, hm, Err (BoxInstruction e)))
      in case get_current_instruction_context tc of
           Err e \<Rightarrow> failed e
         | Ok ins \<Rightarrow>
             (case get_program_key tc ins of
                Err e \<Rightarrow> failed e
              | Ok program_id \<Rightarrow>
                  (case get_program_owner tc ins of
                     Err e \<Rightarrow> failed e
                   | Ok program_owner \<Rightarrow>
                       (case serialize_parameters (h_sdk h) (h_entrypoint h) (h_allocator h) (data_addresses h) tc ins
                               (stricter_abi_and_runtime_constraints features) (account_data_direct_mapping features) of
                          None \<Rightarrow> Some None
                        | Some (tc, Err e) \<Rightarrow>
                            Some (Some (ic\<lparr>transaction_context := tc\<rparr>, pool, hm, Err (BoxInstruction e)))
                        | Some (tc, Ok ser) \<Rightarrow>
                            execute_serialized fuel h env pool hm exe program_id program_owner ins
                              (ic\<lparr>transaction_context := tc\<rparr>) ser))))"

end
