(* ===== verification/Serialized_Regions.thy ===== *)
theory Serialized_Regions
  imports Guest_Parameters
begin

text \<open>
  The regions that serialization hands to the memory mapping: each lies in the parameter buffer or
  starts at the bytes of an account, and the regions of accounts are no longer than an account can be.
  A region over the bytes of an account belongs to no other account, and is writable only if the
  program may change that account.  With direct mapping (\<open>di\<close>) the regions of the buffer belong to no account.
\<close>

definition in_buffer :: "bool \<Rightarrow> Serializer \<Rightarrow> MemoryRegion \<Rightarrow> bool" where
  "in_buffer di s r \<longleftrightarrow>
     (\<exists>start. start \<le> mem_len (buffer s) \<and> host_addr r = av_ptr (mem_vec (buffer s)) + of_nat start
        \<and> (access_violation_handler_payload r = None \<and> writable r \<longrightarrow> start + unat (len r) \<le> mem_len (buffer s)))
     \<and> (di \<longrightarrow> access_violation_handler_payload r = None)"

definition over_account :: "(nat \<Rightarrow> u64) \<Rightarrow> MemoryRegion \<Rightarrow> bool" where
  "over_account ptrs r \<longleftrightarrow>
     (\<exists>i. host_addr r = ptrs i \<and> region_payload r \<subseteq> {i}) \<and> (writable r \<longrightarrow> access_violation_handler_payload r \<noteq> None)"

definition region_from :: "bool \<Rightarrow> (nat \<Rightarrow> u64) \<Rightarrow> nat set \<Rightarrow> Serializer \<Rightarrow> MemoryRegion \<Rightarrow> bool" where
  "region_from di ptrs W s r \<longleftrightarrow>
     vm_gap_shift r = 63 \<and> region_payload r \<subseteq> W \<and> unat (len r) \<le> max (mem_len (buffer s)) MAX_ACCOUNT_DATA_LEN
     \<and> (access_violation_handler_payload r \<noteq> None \<longrightarrow> unat (len r) \<le> MAX_ACCOUNT_DATA_LEN)
     \<and> (in_buffer di s r \<or> over_account ptrs r)"

definition regions_from :: "bool \<Rightarrow> (nat \<Rightarrow> u64) \<Rightarrow> nat set \<Rightarrow> Serializer \<Rightarrow> bool" where
  "regions_from di ptrs W s \<longleftrightarrow>
     mem_len (buffer s) < 2 ^ 64 \<and> ser_direct_mapping s = di \<and> list_all (region_from di ptrs W s) (ser_regions s)"

text \<open>What an account must satisfy for its region; its data may change only if it is one of \<open>W\<close>.\<close>

definition regional :: "nat set \<Rightarrow> TransactionAccounts \<Rightarrow> BorrowedInstructionAccount \<Rightarrow> bool" where
  "regional W ta a \<longleftrightarrow>
     length (get_data ta a) \<le> MAX_ACCOUNT_DATA_LEN \<and> (is_ok (can_data_be_changed ta a) \<longrightarrow> ba_index a \<in> W)"

lemma regional_same:
  assumes "same_contents ta ta'" "borrowable ta a"
  shows "regional W ta' a = regional W ta a"
proof -
  have "ba_index a < accounts_len ta" using assms(2) by (simp add: borrowable_def)
  note f = same_contents_fields(1,2) [OF assms(1) this] same_contents_key [OF assms(1)]
  have "can_data_be_changed ta' a = can_data_be_changed ta a"
    unfolding can_data_be_changed_def is_owned_by_current_program_def f by simp
  then show ?thesis unfolding regional_def f by simp
qed

lemma region_from_grows:
  "region_from di ptrs W s r \<Longrightarrow> av_ptr (mem_vec (buffer s')) = av_ptr (mem_vec (buffer s)) \<Longrightarrow>
     mem_len (buffer s) \<le> mem_len (buffer s') \<Longrightarrow> region_from di ptrs W s' r"
  unfolding region_from_def in_buffer_def by (auto intro: order.trans)

lemma regions_from_grows:
  "regions_from di ptrs W s \<Longrightarrow> av_ptr (mem_vec m) = av_ptr (mem_vec (buffer s)) \<Longrightarrow>
     mem_len (buffer s) \<le> mem_len m \<Longrightarrow> mem_len m < 2 ^ 64 \<Longrightarrow> regions_from di ptrs W (s\<lparr>buffer := m\<rparr>)"
  unfolding regions_from_def by (auto simp: list_all_iff intro: region_from_grows)

lemma regions_from_write [simp]:
  assumes "regions_from di ptrs W s"
  shows "regions_from di ptrs W (fst (ser_write s x))" "regions_from di ptrs W (fst (ser_write_all s bs))"
proof -
  have "regions_from di ptrs W (s\<lparr>buffer := write_all_unchecked (buffer s) bs\<rparr>)" for bs
    using assms by (intro regions_from_grows)
      (auto simp: regions_from_def write_all_unchecked_def mem_len_def av_set_len_def write_at_def Let_def)
  then show "regions_from di ptrs W (fst (ser_write s x))" "regions_from di ptrs W (fst (ser_write_all s bs))"
    by (simp_all add: ser_write_def ser_write_all_def write_unchecked_def)
qed

lemma regions_from_fill:
  assumes "regions_from di ptrs W s" "fill_or_invalid ta s n = Some (ta', s', r)"
  shows "regions_from di ptrs W s' \<and> ta' = ta"
proof (cases "mem_fill_write (buffer s) n 0")
  case None
  then show ?thesis using assms by (simp add: fill_or_invalid_def ser_fill_write_def)
next
  case (Some m)
  then have "av_ptr (mem_vec m) = av_ptr (mem_vec (buffer s))" "mem_len (buffer s) \<le> mem_len m" "mem_len m < 2 ^ 64"
    by (auto simp: mem_fill_write_def write_ptr_for_def mem_len_def av_set_len_def write_at_def Let_def split: if_splits)
  then have "regions_from di ptrs W (s\<lparr>buffer := m\<rparr>)" using assms(1) by (intro regions_from_grows)
  then show ?thesis using assms(2) Some by (auto simp: fill_or_invalid_def ser_fill_write_def)
qed

lemma push_in_buffer:
  assumes "push_region s = Some s'" "mem_len (buffer s) < 2 ^ 64"
  obtains r where "ser_regions s' = ser_regions s @ [r]" "buffer s' = buffer s" "ser_direct_mapping s' = ser_direct_mapping s"
    "in_buffer di s' r" "vm_gap_shift r = 63" "access_violation_handler_payload r = None" "unat (len r) \<le> mem_len (buffer s)"
proof -
  let ?n = "mem_len (buffer s) - region_start s"
  let ?r = "new_writable \<lparr>as_ptr = av_ptr (mem_vec (buffer s)) + of_nat (region_start s), slice_len = of_nat ?n\<rparr> (vaddr s)"
  have s': "region_start s \<le> mem_len (buffer s)" "ser_regions s' = ser_regions s @ [?r]" "buffer s' = buffer s"
    "ser_direct_mapping s' = ser_direct_mapping s"
    using assms(1) by (auto simp: push_region_def Let_def split: if_splits)
  have "unat (of_nat ?n :: u64) = ?n" using assms(2) by (intro unat_of_nat_u64) linarith
  then show thesis
    using s'(1) by (intro that [OF s'(2-4)]) (auto simp: in_buffer_def s'(3) new_writable_def)
qed

lemma regions_from_push:
  assumes "regions_from di ptrs W s" "push_region s = Some s'"
  shows "regions_from di ptrs W s'" "ser_regions s' \<noteq> []" "in_buffer di s' (last (ser_regions s'))"
proof -
  have "mem_len (buffer s) < 2 ^ 64" using assms(1) by (simp add: regions_from_def)
  from push_in_buffer [OF assms(2) this, of di]
  obtain r where r: "ser_regions s' = ser_regions s @ [r]" "buffer s' = buffer s" "ser_direct_mapping s' = ser_direct_mapping s"
    "in_buffer di s' r" "vm_gap_shift r = 63" "access_violation_handler_payload r = None" "unat (len r) \<le> mem_len (buffer s)" .
  then have "region_from di ptrs W s' r" by (simp add: region_from_def region_payload_def)
  then show "regions_from di ptrs W s'"
    using assms(1) r(1-3) region_from_grows [where s = s and s' = s']
    by (auto simp: regions_from_def list_all_iff)
  show "ser_regions s' \<noteq> []" "in_buffer di s' (last (ser_regions s'))" using r(1,4) by simp_all
qed

lemma unat_data_len:
  "n \<le> MAX_ACCOUNT_DATA_LEN \<Longrightarrow> unat (of_nat n :: u64) = n"
  by (simp add: unat_of_nat_u64 MAX_ACCOUNT_DATA_LEN_def)

lemma regions_from_modify:
  assumes "regions_from False ptrs W s" "regional W ta a" "ser_regions s \<noteq> []" "in_buffer False s (last (ser_regions s))"
  shows "regions_from False ptrs W (s\<lparr>ser_regions := (ser_regions s)[length (ser_regions s) - 1 :=
    modify_memory_region_of_account ta a (last (ser_regions s))]\<rparr>)"
proof -
  let ?r = "modify_memory_region_of_account ta a (last (ser_regions s))"
  let ?s = "s\<lparr>ser_regions := (ser_regions s)[length (ser_regions s) - 1 := ?r]\<rparr>"
  have old: "\<forall>r \<in> set (ser_regions s). region_from False ptrs W s r" using assms(1) by (simp add: regions_from_def list_all_iff)
  then have "region_from False ptrs W s (last (ser_regions s))" using assms(3) by simp
  moreover have "in_buffer False s ?r"
    using assms(4) by (auto simp: in_buffer_def modify_memory_region_of_account_def Let_def)
  ultimately have "region_from False ptrs W s ?r"
    using unat_data_len assms(2)
    by (auto simp: regional_def region_payload_def region_from_def modify_memory_region_of_account_def Let_def)
  then have "\<forall>r \<in> set (ser_regions ?s). region_from False ptrs W s r"
    using old set_update_subset_insert [of "ser_regions s" "length (ser_regions s) - 1" ?r] by auto
  then show ?thesis
    using assms(1) by (simp add: regions_from_def list_all_iff region_from_def in_buffer_def)
qed

lemma regions_from_region:
  assumes "regions_from di ptrs W s" "borrowable ta a" "regional W ta a"
    and "write_account_region ep (\<lambda>_. ptrs) ta s a = Some (ta', s', Ok ())"
  shows "regions_from di ptrs W s' \<and> same_contents ta ta'"
proof (cases "address_space_reserved ep (is_loader_v1 s) (length (get_data ta a)) > 0")
  case False
  then show ?thesis
    using assms same_contents_refl [OF borrowable_inv [OF assms(2)]] by (simp add: write_account_region_def)
next
  case True
  show ?thesis
  proof (cases "ser_direct_mapping s")
    case False
    then obtain s1 where s1: "push_region s = Some s1" "ta' = ta"
      "s' = s1\<lparr>ser_regions := (ser_regions s1)[length (ser_regions s1) - 1 :=
        modify_memory_region_of_account ta a (last (ser_regions s1))]\<rparr>"
      using True assms(4) by (auto simp: write_account_region_def Let_def)
    have "\<not> di" using False assms(1) by (simp add: regions_from_def)
    then show ?thesis
      using s1 regions_from_push [OF assms(1) s1(1)] regions_from_modify [OF _ assms(3)]
        same_contents_refl [OF borrowable_inv [OF assms(2)]] by simp
  next
    case direct: True
    let ?n = "address_space_reserved ep (is_loader_v1 s) (length (get_data ta a))"
    obtain t r where r: "create_memory_region_of_account (\<lambda>_. ptrs) ta a (vaddr s) = (t, Ok r)" "same_contents ta t"
      "vm_gap_shift r = 63" "len r = of_nat (length (get_data ta a))" "host_addr r = ptrs (ba_index a)"
      "access_violation_handler_payload r = (if is_ok (can_data_be_changed ta a) then Some (get_index_in_transaction a) else None)"
      "writable r \<longrightarrow> is_ok (can_data_be_changed ta a)"
      using create_region_same_contents [OF assms(2), of "\<lambda>_. ptrs"] by blast
    have s': "ta' = t" "s' = s\<lparr>vaddr := vaddr s + of_nat ?n, ser_regions := ser_regions s @ [r]\<rparr>"
      using True direct assms(4) r(1) by (auto simp: write_account_region_def Let_def)
    have "region_from di ptrs W s r"
      unfolding region_from_def over_account_def using r(3-7) unat_data_len assms(3) by (auto simp: regional_def region_payload_def)
    then show ?thesis
      using assms(1) r(2) unfolding s' by (simp add: regions_from_def list_all_iff region_from_def in_buffer_def)
  qed
qed

lemma ser_then_Ok:
  "ser_then r f = Some (ta', s', Ok y) \<longleftrightarrow> (\<exists>ta s x. r = Some (ta, s, Ok x) \<and> f ta s x = Some (ta', s', Ok y))"
  by (cases "(r, f)" rule: ser_then.cases) auto

lemma regions_from_padding:
  assumes "regions_from di ptrs W s" "write_account_padding ep ta s a = Some (ta', s', Ok ())"
  shows "regions_from di ptrs W s' \<and> ta' = ta"
proof (cases "is_loader_v1 s \<or> \<not> ser_direct_mapping s")
  case True
  then show ?thesis
    using assms regions_from_fill [OF assms(1), of ta _ ta' s' "Ok ()"]
    by (auto simp: write_account_padding_def Let_def split: if_splits)
next
  case False
  then obtain s1 n where "fill_or_invalid ta s (bpf_align_of_u128 ep) = Some (ta', s1, Ok ())"
    and s': "s' = s1\<lparr>region_start := n\<rparr>"
    using assms(2) unfolding write_account_padding_def Let_def by (auto simp: ser_then_Ok)
  then have "regions_from di ptrs W s1 \<and> ta' = ta" using regions_from_fill [OF assms(1)] by blast
  then show ?thesis unfolding s' by (auto simp: regions_from_def region_from_def in_buffer_def list_all_iff)
qed

lemma regions_from_account:
  assumes "regions_from di ptrs W s" "borrowable ta a" "regional W ta a"
    and "write_account ep (\<lambda>_. ptrs) ta s a = Some (ta', s', Ok addr)"
  shows "regions_from di ptrs W s' \<and> same_contents ta ta'"
proof (cases "ser_stricter_abi s")
  case False
  let ?s = "fst (ser_write_all s (get_data ta a))"
  let ?n = "max_permitted_data_increase ep + offset_to_align (length (get_data ta a)) (bpf_align_of_u128 ep)"
  have f: "regions_from di ptrs W ?s" using assms(1) by simp
  have "regions_from di ptrs W s' \<and> ta' = ta"
  proof (cases "is_loader_v1 ?s")
    case True
    then show ?thesis using assms(4) False f by (auto simp: write_account_def Let_def)
  next
    case old: False
    then have "ser_then (fill_or_invalid ta ?s ?n)
        (\<lambda>ta t _. Some (ta, t, Ok (saturating_add (vaddr s) (of_nat (mem_len (buffer s)))))) = Some (ta', s', Ok addr)"
      using assms(4) False by (simp add: write_account_def Let_def)
    then have "fill_or_invalid ta ?s ?n = Some (ta', s', Ok ())" unfolding ser_then_Ok by auto
    from regions_from_fill [OF f this] show ?thesis .
  qed
  then show ?thesis using same_contents_refl [OF borrowable_inv [OF assms(2)]] by simp
next
  case True
  obtain s1 where s1: "push_region s = Some s1" using True assms(4) by (auto simp: write_account_def split: option.splits)
  note f1 = regions_from_push(1) [OF assms(1) s1]
  obtain t2 s2 t3 s3 where w: "write_account_data ep ta s1 a = Some (t2, s2, Ok ())"
    "write_account_region ep (\<lambda>_. ptrs) t2 s2 a = Some (t3, s3, Ok ())"
    "write_account_padding ep t3 s3 a = Some (ta', s', Ok ())"
    using True assms(4) s1 by (auto simp: write_account_def Let_def ser_then_Ok)
  have f2: "regions_from di ptrs W s2" "t2 = ta"
    using w(1) f1 regions_from_fill [OF regions_from_write(2) [OF f1, of "get_data ta a"], of ta]
    by (auto simp: write_account_data_def Let_def split: if_splits)
  then have f3: "regions_from di ptrs W s3" "same_contents ta t3"
    using regions_from_region [OF f2(1) assms(2,3), of ep t3 s3] w(2) by simp_all
  have "regions_from di ptrs W s' \<and> ta' = t3" by (rule regions_from_padding [OF f3(1) w(3)])
  with f3(2) show ?thesis by simp
qed

lemma regions_from_around:
  assumes "ser_then (write_account ep (\<lambda>_. ptrs) ta s a) k = Some (ta', s', Ok meta)"
    and "borrowable ta a" "regional W ta a" "regions_from di ptrs W s"
    and "\<And>t u x meta. regions_from di ptrs W u \<Longrightarrow> k t u x = Some (ta', s', Ok meta) \<Longrightarrow> regions_from di ptrs W s' \<and> ta' = t"
  shows "regions_from di ptrs W s' \<and> same_contents ta ta'"
proof -
  obtain t u x where "write_account ep (\<lambda>_. ptrs) ta s a = Some (t, u, Ok x)" "k t u x = Some (ta', s', Ok meta)"
    using assms(1) unfolding ser_then_Ok by blast
  with regions_from_account [OF assms(4,2,3)] assms(5) show ?thesis by blast
qed

lemma regions_from_one:
  assumes "regions_from di ptrs W s" "borrowable ta a" "regional W ta a"
  shows "serialize_account_unaligned ep (\<lambda>_. ptrs) ta s a = Some (ta', s', Ok meta) \<Longrightarrow>
      regions_from di ptrs W s' \<and> same_contents ta ta'"
    and "serialize_account_aligned ep (\<lambda>_. ptrs) ta s a = Some (ta', s', Ok meta) \<Longrightarrow>
      regions_from di ptrs W s' \<and> same_contents ta ta'"
proof -
  show "regions_from di ptrs W s' \<and> same_contents ta ta'"
    if r: "serialize_account_unaligned ep (\<lambda>_. ptrs) ta s a = Some (ta', s', Ok meta)"
  proof (cases "get_key ta a")
    case (Some key)
    show ?thesis
      by (rule regions_from_around [OF r [unfolded serialize_account_unaligned_def Some option.case Let_def split_beta] assms(2,3)])
        (use assms(1) in auto)
  qed (use r in \<open>simp add: serialize_account_unaligned_def\<close>)
  show "regions_from di ptrs W s' \<and> same_contents ta ta'"
    if r: "serialize_account_aligned ep (\<lambda>_. ptrs) ta s a = Some (ta', s', Ok meta)"
  proof (cases "get_key ta a")
    case (Some key)
    show ?thesis
      by (rule regions_from_around [OF r [unfolded serialize_account_aligned_def Some option.case Let_def split_beta] assms(2,3)])
        (use assms(1) in auto)
  qed (use r in \<open>simp add: serialize_account_aligned_def\<close>)
qed

lemma regions_from_accounts:
  assumes one: "\<And>ta s a ta' s' meta. regions_from di ptrs W s \<Longrightarrow> borrowable ta a \<Longrightarrow>
      regional W ta a \<Longrightarrow> one ta s a = Some (ta', s', Ok meta) \<Longrightarrow>
      regions_from di ptrs W s' \<and> same_contents ta ta'"
    and dup: "\<And>s i. regions_from di ptrs W s \<Longrightarrow> regions_from di ptrs W (dup s i)"
  shows "serialize_accounts one dup metas ta s as = Some (ta', s', Ok metas') \<Longrightarrow> regions_from di ptrs W s \<Longrightarrow>
    \<forall>i a. Account i a \<in> set as \<longrightarrow> borrowable ta a \<and> regional W ta a \<Longrightarrow>
    regions_from di ptrs W s'"
proof (induction "as" arbitrary: metas ta s)
  case Nil
  then show ?case by simp
next
  case (Cons x xs)
  show ?case
  proof (cases x)
    case (Duplicate pos)
    then obtain meta where "serialize_accounts one dup (metas @ [meta]) ta (dup s pos) xs = Some (ta', s', Ok metas')"
      using Cons.prems(1) by (auto split: option.splits)
    then show ?thesis using Cons.IH dup [OF Cons.prems(2)] Cons.prems(3) by auto
  next
    case (Account i a)
    have ok: "borrowable ta a" "regional W ta a" using Cons.prems(3) Account by auto
    obtain t1 s1 meta where o: "one ta s a = Some (t1, s1, Ok meta)"
      "serialize_accounts one dup (metas @ [meta]) (drop_account t1 (Account i a)) s1 xs = Some (ta', s', Ok metas')"
      using Cons.prems(1) Account by (auto split: option.splits result.splits)
    have f: "regions_from di ptrs W s1" "same_contents ta t1" using one [OF Cons.prems(2) ok o(1)] by auto
    have "unat (get_index_in_transaction a) < accounts_len t1" using ok(1) f(2) by (simp add: borrowable_def same_contents_def)
    then have "same_contents ta (drop_account t1 (Account i a))"
      using f(2) by (auto simp: drop_account_def intro!: same_contents_trans [OF f(2)] drop_same_contents) (simp add: same_contents_def)
    note same = same_contents_borrowable [OF this] regional_same [OF this]
    have "\<forall>j b. Account j b \<in> set xs \<longrightarrow> borrowable (drop_account t1 (Account i a)) b
        \<and> regional W (drop_account t1 (Account i a)) b"
      using Cons.prems(3) same by auto
    then show ?thesis using Cons.IH [OF o(2) f(1)] by blast
  qed
qed

lemma regions_from_tail:
  assumes "serialize_tail (serialize_accounts one dup [] ta s as) ix_data k = Some (ta', Ok (mem, rs, metas, ofs))"
    and "\<And>t u metas. serialize_accounts one dup [] ta s as = Some (t, u, Ok metas) \<Longrightarrow> regions_from di ptrs W u"
  shows "\<exists>s. buffer s = mem \<and> ser_regions s = rs \<and> regions_from di ptrs W s"
proof -
  obtain t u ms where u: "serialize_accounts one dup [] ta s as = Some (t, u, Ok ms)"
    using assms(1) by (auto simp: serialize_tail_def split: option.splits result.splits)
  let ?u = "fst (ser_write_all (fst (ser_write_all (fst (ser_write u (of_nat (length ix_data) :: u64))) ix_data)) k)"
  have "regions_from di ptrs W ?u" using assms(2) [OF u] by simp
  moreover obtain v where "push_region ?u = Some v" "buffer v = mem" "ser_regions v = rs"
    using assms(1) u by (auto simp: serialize_tail_def finish_def Let_def split_beta)
  ultimately show ?thesis using regions_from_push(1) by blast
qed

lemma collected_serializable:
  assumes "ready ep tc ic"
  obtains ta where "collect_accounts tc ic [0..<unat (get_number_of_instruction_accounts ic)] = Some (tc\<lparr>accounts := ta\<rparr>, accounts_of ic)"
    "\<forall>i a. Account i a \<in> set (accounts_of ic) \<longrightarrow> serializable ep ta a" "same_contents (accounts tc) ta"
  using that collect_lent [OF assms] by blast

text \<open>The accounts of the instruction whose data the program may change.\<close>

definition changeable :: "TransactionContext \<Rightarrow> InstructionContext \<Rightarrow> nat set" where
  "changeable tc ic =
     {ba_index (borrowed_account ic i) |i. i < length (instruction_accounts ic)
        \<and> is_ok (can_data_be_changed (accounts tc) (borrowed_account ic i))}"

lemma serialized_regions:
  assumes r: "ready ep tc ic"
    and ser: "serialize_parameters sdk ep al (\<lambda>_. ptrs) tc ic st di = Some (tc', Ok (mem, rs, metas, ofs))"
  shows "\<exists>s. buffer s = mem \<and> ser_regions s = rs \<and> regions_from di ptrs (changeable tc ic) s"
proof -
  let ?W = "changeable tc ic"
  obtain ta where c: "collect_accounts tc ic [0..<unat (get_number_of_instruction_accounts ic)] = Some (tc\<lparr>accounts := ta\<rparr>, accounts_of ic)"
    "\<forall>i a. Account i a \<in> set (accounts_of ic) \<longrightarrow> serializable ep ta a" "same_contents (accounts tc) ta"
    by (rule collected_serializable [OF r])
  have new: "regions_from di ptrs ?W s" if "new_Serializer al n a v st di = Some s" for n a v s
    using new_Serializer_facts [OF that] by (auto simp: regions_from_def fits_in_def memory_inv_def)
  have small: "\<forall>i a. Account i a \<in> set (accounts_of ic) \<longrightarrow> borrowable ta a \<and> regional ?W ta a"
  proof (intro allI impI)
    fix i a assume a: "Account i a \<in> set (accounts_of ic)"
    then obtain k where k: "k < length (instruction_accounts ic)" "a = borrowed_account ic k"
      by (auto simp: accounts_of_def split: if_splits)
    have ok: "borrowable (accounts tc) a" using r k by (auto simp: ready_def serializable_def)
    have s: "serializable ep ta a" using c(2) a by blast
    then have "regional ?W (accounts tc) a"
      using k same_contents_fields(1) [OF c(3), of a] ok by (auto simp: regional_def changeable_def serializable_def borrowable_def)
    then show "borrowable ta a \<and> regional ?W ta a" using s regional_same [OF c(3) ok] by (simp add: serializable_def)
  qed
  obtain program_id ta' where p: "serialize_parameters_unaligned ep al (\<lambda>_. ptrs) ta (accounts_of ic)
        (get_instruction_data ic) program_id st di = Some (ta', Ok (mem, rs, metas, ofs))
      \<or> serialize_parameters_aligned ep al (\<lambda>_. ptrs) ta (accounts_of ic)
        (get_instruction_data ic) program_id st di = Some (ta', Ok (mem, rs, metas, ofs))"
    using ser c(1) by (auto simp: serialize_parameters_def Let_def split: if_splits result.splits)
  then show ?thesis
  proof
    assume u: "serialize_parameters_unaligned ep al (\<lambda>_. ptrs) ta (accounts_of ic)
      (get_instruction_data ic) program_id st di = Some (ta', Ok (mem, rs, metas, ofs))"
    obtain s where s: "regions_from di ptrs ?W s" and tail: "serialize_tail (serialize_accounts (serialize_account_unaligned ep (\<lambda>_. ptrs))
        (\<lambda>s pos. fst (ser_write s (ucast pos :: u8))) [] ta (fst (ser_write s (of_nat (length (accounts_of ic)) :: u64))) (accounts_of ic))
        (get_instruction_data ic) program_id = Some (ta', Ok (mem, rs, metas, ofs))"
      using u by (auto simp: serialize_parameters_unaligned_def Let_def intro: that new split: option.splits)
    show ?thesis
    proof (rule regions_from_tail [OF tail], goal_cases)
      case (1 t v ms)
      show ?case
        by (rule regions_from_accounts [OF _ _ 1, where di = di and ptrs = ptrs and W = ?W]; (rule regions_from_one(1); assumption)?)
          (use s small in auto)
    qed
  next
    assume u: "serialize_parameters_aligned ep al (\<lambda>_. ptrs) ta (accounts_of ic)
      (get_instruction_data ic) program_id st di = Some (ta', Ok (mem, rs, metas, ofs))"
    obtain s where s: "regions_from di ptrs ?W s" and tail: "serialize_tail (serialize_accounts (serialize_account_aligned ep (\<lambda>_. ptrs))
        (\<lambda>s pos. fst (ser_write_all (fst (ser_write s (ucast pos :: u8))) [0, 0, 0, 0, 0, 0, 0])) [] ta (fst (ser_write s (of_nat (length (accounts_of ic)) :: u64))) (accounts_of ic))
        (get_instruction_data ic) program_id = Some (ta', Ok (mem, rs, metas, ofs))"
      using u by (auto simp: serialize_parameters_aligned_def Let_def intro: that new split: option.splits)
    show ?thesis
    proof (rule regions_from_tail [OF tail], goal_cases)
      case (1 t v ms)
      show ?case
        by (rule regions_from_accounts [OF _ _ 1, where di = di and ptrs = ptrs and W = ?W]; (rule regions_from_one(2); assumption)?)
          (use s small in auto)
    qed
  qed
qed

section \<open>The first account\<close>

text \<open>In the aligned format the data of the first account is 96 bytes behind the start of the input.\<close>

lemma written_fields [simp]:
  "vaddr (fst (ser_write s x)) = vaddr s" "region_start (fst (ser_write s x)) = region_start s"
  "vaddr (fst (ser_write_all s bs)) = vaddr s" "region_start (fst (ser_write_all s bs)) = region_start s"
  "ser_stricter_abi (fst (ser_write s x)) = ser_stricter_abi s" "ser_stricter_abi (fst (ser_write_all s bs)) = ser_stricter_abi s"
  "mem_len (buffer (fst (ser_write s (x :: 'a::len word)))) = min (mem_len (buffer s) + LENGTH('a) div 8) (2 ^ 64 - 1)"
  "mem_len (buffer (fst (ser_write_all s bs))) = min (mem_len (buffer s) + length bs) (2 ^ 64 - 1)"
  by (simp_all add: ser_write_def ser_write_all_def write_unchecked_def write_all_unchecked_def mem_len_def av_set_len_def
      write_at_def Let_def)

lemma write_account_addr:
  assumes "write_account ep dp ta s a = Some (ta', s', Ok addr)"
  shows "addr = (if ser_stricter_abi s then vaddr s + of_nat (mem_len (buffer s) - region_start s)
    else saturating_add (vaddr s) (of_nat (mem_len (buffer s))))"
  using assms
  by (auto simp: write_account_def Let_def ser_then_Ok push_region_def split: if_splits option.splits)

lemma serialize_aligned_addr:
  assumes "serialize_account_aligned ep dp ta s a = Some (ta', s', Ok meta)"
    and "get_key ta a = Some key" "length key = 32" "length (get_owner ta a) = 32"
    and "vaddr s = MM_INPUT_START" "region_start s = 0" "mem_len (buffer s) = 8"
  shows "vm_data_addr meta = MM_INPUT_START + 96"
proof -
  obtain t u addr where "write_account ep dp ta
      (fst (ser_write (fst (ser_write (fst (ser_write_all (fst (ser_write_all (fst (ser_write_all
        (fst (ser_write (fst (ser_write (fst (ser_write (fst (ser_write s (non_dup_marker ep))) (as_u8 (ba_is_signer a))))
          (as_u8 (ba_is_writable a)))) (as_u8 (ba_is_executable ta a)))) [0, 0, 0, 0])) key)) (get_owner ta a)))
        (get_lamports ta a))) (of_nat (length (get_data ta a)) :: u64))) a = Some (t, u, Ok addr)"
    "vm_data_addr meta = addr"
    using assms(1,2) by (auto simp: serialize_account_aligned_def Let_def split_beta ser_then_Ok)
  from write_account_addr [OF this(1)] this(2) show ?thesis
    using assms(3-7) by (simp add: saturating_add_def)
qed

lemma serialize_accounts_metas:
  "serialize_accounts one dup metas ta s as = Some (ta', s', Ok metas') \<Longrightarrow> \<exists>more. metas' = metas @ more"
proof (induction one dup metas ta s "as" rule: serialize_accounts.induct)
  case (3 one dup metas ta s i a as)
  then show ?case by (fastforce split: option.splits result.splits)
qed (fastforce split: option.splits)+

lemma new_empty: "new_Serializer al n addr v st di = Some s \<Longrightarrow> mem_len (buffer s) = 0"
  using new_Serializer_facts(1,2) [of al n addr v st di s] length_as_slice [of "buffer s"] by (simp add: fits_in_def)

lemma first_data_addr:
  assumes "ready ep tc ins" "get_program_owner tc ins = Ok ow" "ow \<noteq> bpf_loader_deprecated_id sdk"
    and "serialize_parameters sdk ep al dp tc ins st di = Some (tc', Ok (mem, rs, metas, ofs))" "instruction_accounts ins \<noteq> []"
  shows "vm_data_addr (metas ! 0) = MM_INPUT_START + 96"
proof -
  obtain ta where c: "collect_accounts tc ins [0..<unat (get_number_of_instruction_accounts ins)] = Some (tc\<lparr>accounts := ta\<rparr>, accounts_of ins)"
    "\<forall>i a. Account i a \<in> set (accounts_of ins) \<longrightarrow> serializable ep ta a"
    by (rule collected_serializable [OF assms(1)])
  have "first_use ins 0 = 0" using assms(1,5) by (auto simp: ready_def)
  then obtain xs where as0: "accounts_of ins = Account 0 (borrowed_account ins 0) # xs"
    using assms(5) by (simp add: accounts_of_def upt_conv_Cons)
  let ?a = "borrowed_account ins 0"
  have ok: "serializable ep ta ?a" using c(2) as0 by auto
  obtain program_id ta' where p: "serialize_parameters_aligned ep al dp ta (accounts_of ins)
      (get_instruction_data ins) program_id st di = Some (ta', Ok (mem, rs, metas, ofs))"
    using assms(2-4) c(1) by (auto simp: serialize_parameters_def Let_def split: if_splits result.splits)
  obtain s where s: "new_Serializer al (size_aligned ep ta st di (accounts_of ins) (get_instruction_data ins))
      MM_INPUT_START False st di = Some s"
    using p by (auto simp: serialize_parameters_aligned_def split: option.splits)
  let ?s = "fst (ser_write s (of_nat (length (accounts_of ins)) :: u64))"
  let ?dup = "\<lambda>s pos. fst (ser_write_all (fst (ser_write s (ucast pos :: u8))) [0, 0, 0, 0, 0, 0, 0])"
  obtain t u where "serialize_accounts (serialize_account_aligned ep dp) ?dup [] ta ?s (accounts_of ins) = Some (t, u, Ok metas)"
    using p s by (auto simp: serialize_parameters_aligned_def Let_def serialize_tail_def split_beta split: option.splits result.splits)
  then obtain t1 s1 meta where m: "serialize_account_aligned ep dp ta ?s ?a = Some (t1, s1, Ok meta)"
    "serialize_accounts (serialize_account_aligned ep dp) ?dup [meta] (drop_account t1 (Account 0 ?a)) s1 xs = Some (t, u, Ok metas)"
    unfolding as0 by (auto split: option.splits result.splits)
  have new: "vaddr ?s = MM_INPUT_START" "region_start ?s = 0" "mem_len (buffer ?s) = 8"
    using new_empty [OF s] new_Serializer_facts [OF s] by simp_all
  have "metas ! 0 = meta" using serialize_accounts_metas [OF m(2)] by auto
  with serialize_aligned_addr [OF m(1) get_key_key_of _ _ new] ok show ?thesis by (simp add: serializable_def)
qed

section \<open>One region\<close>

text \<open>Without the stricter rules the whole input is one region.\<close>

definition flat :: "Serializer \<Rightarrow> bool" where
  "flat s \<longleftrightarrow> \<not> ser_stricter_abi s \<and> ser_regions s = [] \<and> vaddr s = MM_INPUT_START"

lemma flat_write [simp]:
  "flat (fst (ser_write s x)) = flat s" "flat (fst (ser_write_all s bs)) = flat s"
  by (simp_all add: flat_def ser_write_def ser_write_all_def)

lemma flat_new: "new_Serializer al n MM_INPUT_START v1 False di = Some s \<Longrightarrow> flat s"
  using new_Serializer_facts by (simp add: flat_def)

lemma flat_finish: "flat s \<Longrightarrow> finish s = Some (mem, rs) \<Longrightarrow> \<exists>r. rs = [r] \<and> vm_addr r = MM_INPUT_START"
  by (auto simp: finish_def push_region_def Let_def flat_def new_writable_def new_region_def split: if_splits)

lemma flat_fill: "flat s \<Longrightarrow> fill_or_invalid ta s n = Some (ta', s', r) \<Longrightarrow> flat s'"
  by (auto simp: fill_or_invalid_def ser_fill_write_def flat_def split: option.splits)

lemma flat_account: "flat s \<Longrightarrow> write_account ep dp ta s a = Some (ta', s', Ok addr) \<Longrightarrow> flat s'"
  using flat_fill [of "fst (ser_write_all s (get_data ta a))" ta _ ta' s' "Ok ()"]
  by (auto simp: write_account_def Let_def ser_then_Ok flat_def [of s] split: if_splits)

lemma flat_one:
  assumes "flat s" "serialize_account_aligned ep dp ta s a = Some (ta', s', Ok meta)"
  shows "flat s'"
  using assms by (auto simp: serialize_account_aligned_def Let_def split_beta ser_then_Ok split: option.splits dest!: flat_account [rotated])

lemma flat_accounts:
  assumes "\<And>s i. flat s \<Longrightarrow> flat (dup s i)"
  shows "serialize_accounts (serialize_account_aligned ep dp) dup metas ta s as = Some (ta', s', Ok metas') \<Longrightarrow> flat s \<Longrightarrow> flat s'"
proof (induction "as" arbitrary: metas ta s)
  case (Cons x xs)
  then show ?case using assms by (cases x) (fastforce split: option.splits result.splits dest: flat_one)+
qed simp

lemma flat_region:
  assumes "ready ep tc ins" "get_program_owner tc ins = Ok ow" "ow \<noteq> bpf_loader_deprecated_id sdk"
    and "serialize_parameters sdk ep al dp tc ins False di = Some (tc', Ok (mem, rs, metas, ofs))"
  shows "\<exists>r. rs = [r] \<and> vm_addr r = MM_INPUT_START"
proof -
  obtain ta where c: "collect_accounts tc ins [0..<unat (get_number_of_instruction_accounts ins)] = Some (tc\<lparr>accounts := ta\<rparr>, accounts_of ins)"
    "\<forall>i a. Account i a \<in> set (accounts_of ins) \<longrightarrow> serializable ep ta a"
    by (rule collected_serializable [OF assms(1)])
  obtain program_id ta' where p: "serialize_parameters_aligned ep al dp ta (accounts_of ins)
      (get_instruction_data ins) program_id False di = Some (ta', Ok (mem, rs, metas, ofs))"
    using assms(2-4) c(1) by (auto simp: serialize_parameters_def Let_def split: if_splits result.splits)
  obtain s where s: "new_Serializer al (size_aligned ep ta False di (accounts_of ins) (get_instruction_data ins))
      MM_INPUT_START False False di = Some s"
    using p by (auto simp: serialize_parameters_aligned_def split: option.splits)
  let ?s = "fst (ser_write s (of_nat (length (accounts_of ins)) :: u64))"
  let ?dup = "\<lambda>s pos. fst (ser_write_all (fst (ser_write s (ucast pos :: u8))) [0, 0, 0, 0, 0, 0, 0])"
  obtain t u where u: "serialize_accounts (serialize_account_aligned ep dp) ?dup [] ta ?s (accounts_of ins) = Some (t, u, Ok metas)"
    "finish (fst (ser_write_all (fst (ser_write_all (fst (ser_write u (of_nat (length (get_instruction_data ins)) :: u64)))
       (get_instruction_data ins))) program_id)) = Some (mem, rs)"
    using p s by (auto simp: serialize_parameters_aligned_def Let_def serialize_tail_def split_beta split: option.splits result.splits)
  have "flat ?s" using flat_new [OF s] by simp
  then have "flat u" using flat_accounts [OF _ u(1)] by simp
  then show ?thesis by (intro flat_finish [OF _ u(2)]) simp
qed

end
