(* ===== verification/Detection.thy ===== *)
theory Detection
  imports Execute Serialized_Regions
begin

text \<open>
  What \<open>execute\<close> promises.  For a verified program and an instruction whose accounts are free it returns, whatever the
  program does, and every load of the program that touches a forbidden byte of the instructions sysvar is in the list
  that the tool reads afterwards.
\<close>

section \<open>The handler of access violations\<close>

text \<open>Addresses of the host that leave room for any region: the lower quarter of the address space.\<close>

abbreviation low :: "u64 \<Rightarrow> bool" where
  "low p \<equiv> unat p < 2 ^ 62"

lemma grown_len_bound: "grown_len ta n k \<le> MAX_ACCOUNT_DATA_LEN"
  by (simp add: grown_len_def Let_def)

lemma account_handler_region:
  assumes "\<And>i. low (ptrs i)" "region_ok r"
  shows "region_ok (fst (account_access_violation_handler (\<lambda>_. ptrs) st di ta r k t a n))"
proof (cases "access_violation_handler_payload r")
  case None
  then show ?thesis using assms(2) by (simp add: account_access_violation_handler_def)
next
  case (Some index)
  then have r: "unat (vm_gap_shift r) \<le> 63" "unat (len r) \<le> 4294967296" "unat (host_addr r) + 4294967296 < 2 ^ 64"
    using assms(2) by (auto simp: region_ok_def region_wf_def mm_values)
  let ?r = "fst (account_access_violation_handler (\<lambda>_. ptrs) st di ta r k t a n)"
  have g: "unat (of_nat (grown_len ta' m k) :: u64) \<le> 4294967296" for ta' m
    using grown_len_bound [of ta' m k] unat_data_len [OF grown_len_bound, of ta' m k] by (simp add: MAX_ACCOUNT_DATA_LEN_def)
  have "vm_gap_shift ?r = vm_gap_shift r \<and> unat (len ?r) \<le> 4294967296 \<and> (host_addr ?r = host_addr r \<or> (\<exists>i. host_addr ?r = ptrs i))"
    using Some r(2) g
    by (auto simp: account_access_violation_handler_def Let_def split: result.splits prod.splits)
  moreover have "unat (ptrs i) + 4294967296 < 2 ^ 64" for i using assms(1) [of i] by simp
  ultimately have "unat (host_addr ?r) + 4294967296 < 2 ^ 64" "unat (len ?r) \<le> 4294967296" "unat (vm_gap_shift ?r) \<le> 63"
    using r by auto
  then show ?thesis by (simp add: region_ok_def region_wf_def mm_values)
qed

lemma account_handler_follows:
  assumes "account_access_violation_handler dp st di ta r k t a n = (r', ta')"
  shows "region_payload r' = region_payload r" "env_follows (region_payload r) (Some ta) (Some ta')"
proof -
  show "region_payload r' = region_payload r" using handler_payload [OF assms] by (simp add: region_payload_def)
  have "accounts_step ta ta' \<and> (\<forall>j. view_meta (view_at ta' j) = view_meta (view_at ta j)
      \<and> (j \<notin> region_payload r \<longrightarrow> view_at ta' j = view_at ta j))" if "accounts_inv ta"
    using handler_step [OF that assms] handler_frame [OF that assms]
    by (auto simp: only_data_def region_payload_def split: option.splits)
  then show "env_follows (region_payload r) (Some ta) (Some ta')" by (simp add: env_follows_def)
qed

lemma account_handler_ok:
  assumes "\<And>i. low (data_at h i)"
  shows "handler_ok (account_handler h st di ta)"
  unfolding handler_ok_def
proof (intro exI [of _ "\<lambda>_. True"] conjI allI impI TrueI)
  fix env r k t a n
  assume r: "region_ok r"
  show "case handler_code (account_handler h st di ta) env r k t a n of (r', env') \<Rightarrow>
    region_ok r' \<and> True \<and> region_payload r' = region_payload r \<and> env_follows (region_payload r) env env'"
  proof (cases env)
    case None
    then show ?thesis using r by (simp add: account_handler_def env_follows_refl)
  next
    case (Some ta0)
    obtain r' ta' where c: "account_access_violation_handler (data_addresses h) st di ta0 r k t a n = (r', ta')" by (rule prod.exhaust)
    have "region_ok (fst (account_access_violation_handler (data_addresses h) st di ta0 r k t a n))"
      by (rule account_handler_region [OF assms r])
    then have "region_ok r'" unfolding c by simp
    then show ?thesis using Some c account_handler_follows [OF c] by (simp add: account_handler_def)
  qed
qed

section \<open>The memory mapping\<close>

lemma new_region_ok:
  assumes "unat (as_ptr s) + unat (slice_len s) < 2 ^ 64"
  shows "region_ok (new_region s a gap w)"
proof -
  let ?s = "vm_gap_shift (new_region s a gap w)"
  have "?s \<le> 63"
    by (auto simp: new_region_def Let_def saturating_mul_def saturating_sub_def word_sub_le)
  then have "unat ?s \<le> 63" by (simp add: word_le_nat_alt)
  then show ?thesis using assms by (simp add: region_ok_def region_wf_def) (simp add: new_region_def Let_def)
qed

text \<open>A mapping over the accounts \<open>ta\<close> whose regions belong to accounts in \<open>P\<close> only.\<close>

definition region_within :: "nat set \<Rightarrow> MemoryRegion \<Rightarrow> bool" where
  "region_within P r \<longleftrightarrow> region_ok r \<and> region_payload r \<subseteq> P"

definition guards :: "nat set \<Rightarrow> TransactionAccounts \<Rightarrow> MemoryMapping \<Rightarrow> bool" where
  "guards P ta mm \<longleftrightarrow> (mm \<noteq> Identity \<longrightarrow> captured_accounts mm = Some ta) \<and> payloads mm \<subseteq> P"

lemma new_region_within:
  "unat (as_ptr s) + unat (slice_len s) < 2 ^ 64 \<Longrightarrow> region_within P (new_region s a gap w)"
  by (simp add: region_within_def new_region_ok) (simp add: region_payload_def new_region_def Let_def)

text \<open>
  A mapping with the handler of accounts whose regions are \<open>rs\<close> or belong to no account, where what is
  writable of the latter lies at the start of one of the areas.
\<close>

definition machine_region :: "(u64 \<times> nat) list \<Rightarrow> MemoryRegion list \<Rightarrow> MemoryRegion \<Rightarrow> bool" where
  "machine_region areas rs r \<longleftrightarrow>
     r \<in> set rs
     \<or> access_violation_handler_payload r = None
        \<and> (writable r \<longrightarrow> (\<exists>n. (host_addr r, n) \<in> set areas \<and> unat (len r) \<le> n))"

definition assembled :: "(u64 \<times> nat) list \<Rightarrow> MemoryRegion list \<Rightarrow> AccessViolationHandler \<Rightarrow> MemoryMapping \<Rightarrow> bool" where
  "assembled areas rs avh mm \<longleftrightarrow>
     (\<forall>c. common_of mm = Some c \<longrightarrow>
        list_all (machine_region areas rs) (regions c) \<and> handler_code (access_violation_handler c) = handler_code avh)"

lemma machine_region_new:
  "\<not> w \<or> (as_ptr s, unat (slice_len s)) \<in> set areas \<Longrightarrow> machine_region areas rs (new_region s a gap w)"
  by (auto simp: machine_region_def new_region_def Let_def)

lemma assembled_wider:
  assumes "assembled areas rs avh mm" "\<And>p n. (p, n) \<in> set areas \<Longrightarrow> \<exists>k \<ge> n. (p, k) \<in> set areas'"
  shows "assembled areas' rs avh mm"
proof -
  have "machine_region areas' rs r" if "machine_region areas rs r" for r
    using that assms(2) unfolding machine_region_def by (meson order.trans)
  then show ?thesis using assms(1) by (simp add: assembled_def list_all_iff)
qed

lemma new_mapping_ok:
  assumes "new_with_access_violation_handler rs cfg v avh = Some (Ok m :: (_, 'x EbpfError) result)" "list_all (region_within P) rs" "handler_ok avh"
  shows "mapping_ok m" "mapping_watched m = []" "mapping_log m = []" "captured avh = Some ta \<Longrightarrow> guards P ta m"
    and "list_all (machine_region areas rs') rs \<Longrightarrow> assembled areas rs' avh m"
proof -
  have empty: "region_within P (new_readonly empty_slice a)" for a
    by (simp add: new_readonly_def region_within_def region_payload_def region_ok_def region_wf_def empty_slice_def)
  obtain qs where qs: "common_of m = Some (new_common qs cfg v avh)" "lookup_inv m" "list_all (region_within P) qs"
    "set qs \<subseteq> set rs \<union> range (new_readonly empty_slice)"
  proof (cases "v \<ge> V4 \<or> aligned_memory_mapping cfg")
    case True
    then obtain a where a: "new_aligned rs cfg v avh = (Ok a :: (_, 'x EbpfError) result)" "m = Aligned a"
      using assms(1) by (auto simp: new_with_access_violation_handler_def and_then_Ok_iff)
    obtain rs' where "a_common a = new_common rs' cfg v avh" "slots_ok rs'" "set rs' \<subseteq> set rs \<union> range (new_readonly empty_slice)"
      by (rule new_aligned_ok [OF a(1)])
    then show thesis
      using that [of rs'] a(2) assms(2) empty
      by (auto simp: lookup_inv_def aligned_inv_def new_common_def list_all_iff)
  next
    case False
    then obtain u where u: "new_unaligned rs cfg v avh = Some (Ok u :: (_, 'x EbpfError) result)" "m = Unaligned u"
      using assms(1) by (auto simp: new_with_access_violation_handler_def and_then_Ok_iff)
    then show thesis
      using that [of "sort_key vm_addr rs"] new_unaligned_ok [OF u(1)] assms(2) by (simp add: lookup_inv_def list_all_iff)
  qed
  then have t: "get_access_tracker m = Some new_tracker" by (simp add: get_access_tracker_def new_common_def)
  have "machine_region areas rs' (new_readonly empty_slice a)" for a unfolding new_readonly_def by (rule machine_region_new) simp
  then show "assembled areas rs' avh m" if "list_all (machine_region areas rs') rs"
    using qs(1,4) that by (auto simp: assembled_def new_common_def list_all_iff)
  show "mapping_ok m"
    using qs t assms(3)
    by (auto simp: mapping_ok_def mapping_inv_def mapping_handler_ok_def get_regions_common new_common_def region_within_def
        list_all_iff)
  show "guards P ta m" if "captured avh = Some ta"
    using qs(1,3) that
    by (auto simp: guards_def captured_accounts_def payloads_def get_regions_common new_common_def region_within_def list_all_iff)
  show "mapping_watched m = []" "mapping_log m = []"
    using t by (simp_all add: mapping_watched_def mapping_log_def new_tracker_def get_forbidden_accesses_def)
qed

section \<open>Memory for a machine\<close>

definition full_memory :: "nat \<Rightarrow> AlignedMemory \<Rightarrow> bool" where
  "full_memory n m \<longleftrightarrow> sized n m \<and> low (memory_ptr m)"

definition fresh_memory :: "nat \<Rightarrow> AlignedMemory \<Rightarrow> bool" where
  "fresh_memory n m \<longleftrightarrow> zeroed_memory n m \<and> low (memory_ptr m)"

definition usable_pool :: "VmMemoryPool \<Rightarrow> bool" where
  "usable_pool p \<longleftrightarrow>
     clean_items (fresh_memory full_stack) (stack_pool p) \<and> clean_items (fresh_memory full_heap) (heap_pool p)"

interpretation machine_memory: clean_pool reset_memory "full_memory n" "fresh_memory n" for n
proof unfold_locales
  fix m
  assume "full_memory n m"
  then show "fresh_memory n (reset_memory m)"
    using cleared.reset_clean [of n m]
    by (simp add: full_memory_def fresh_memory_def memory_ptr_def reset_memory_def update_slice_def write_at_def)
qed

lemma fresh_is_full: "fresh_memory n m \<Longrightarrow> full_memory n m"
  using length_as_slice [of m] by (auto simp: fresh_memory_def full_memory_def zeroed_memory_def sized_def)

lemma block_ptr_low: "(\<And>n. low (alloc_ptr al n)) \<Longrightarrow> low (block_ptr al n)"
  by (simp add: block_ptr_def HOST_ALIGN_def)

lemma zero_filled_fresh:
  assumes "\<And>n. low (alloc_ptr al n)" "layout_fits n"
  shows "\<exists>m. zero_filled al n = Some m \<and> fresh_memory n m"
proof -
  obtain m where m: "zero_filled al n = Some m" "zeroed_memory n m" using zero_filled_zeroed [OF assms(2)] by blast
  then have "memory_ptr m = block_ptr al n" using constructors_fit(3) [OF assms(2), of al] by (auto simp: memory_ptr_def)
  then show ?thesis using m block_ptr_low [OF assms(1)] by (simp add: fresh_memory_def)
qed

lemma memory_from_pool:
  assumes "usable_pool p" "\<And>n. low (alloc_ptr al n)"
  shows "\<exists>m p'. get_stack al p full_stack = Some (m, p') \<and> full_memory full_stack m \<and> usable_pool p'"
    and "\<exists>m p'. get_heap al p hs = Some (m, p') \<and> full_memory full_heap m \<and> usable_pool p'"
  using assms machine_memory.get_clean [of full_stack "stack_pool p"] machine_memory.get_clean [of full_heap "heap_pool p"]
    zero_filled_fresh [OF assms(2) full_sizes(3)] zero_filled_fresh [OF assms(2) full_sizes(4)]
  by (auto simp: usable_pool_def get_stack_def get_heap_def intro!: fresh_is_full split: prod.splits option.splits)

lemma memory_after_full: "full_memory n m \<Longrightarrow> full_memory n (memory_after hm m)"
  using update_slice_inv [of m "\<lambda>bytes. read_bytes hm (memory_ptr m) (length bytes)"]
  by (simp add: full_memory_def sized_def memory_after_def read_bytes_def)
     (simp add: memory_ptr_def update_slice_def write_at_def)

lemma return_memory_usable:
  assumes "usable_pool p" "full_memory full_stack stack" "full_memory full_heap heap"
  shows "usable_pool (return_memory p hm stack heap)"
  using assms machine_memory.put_clean [OF _ memory_after_full, of full_stack "stack_pool p"]
    machine_memory.put_clean [OF _ memory_after_full, of full_heap "heap_pool p"]
  by (simp add: usable_pool_def return_memory_def put_stack_def put_heap_def split_beta)

section \<open>Provisioning\<close>

text \<open>Where the host puts buffers, account data and the program.\<close>

definition low_host :: "Host \<Rightarrow> bool" where
  "low_host h \<longleftrightarrow>
     (\<forall>n. low (alloc_ptr (h_allocator h) n)) \<and> (\<forall>i. low (data_at h i)) \<and> low (ro_at h)"

text \<open>A verified program with the meter on and the usual stack.\<close>

definition runnable :: "'f Executable \<Rightarrow> Config \<Rightarrow> bool" where
  "runnable exe cfg \<longleftrightarrow>
     exe_verify exe = Some (Ok () :: (unit, BoxedError EbpfError) result) \<and> exe_get_config exe = Some cfg
     \<and> (\<exists>addr text. get_text_bytes exe = Some (addr, text) \<and> slice_len_ok text
          \<and> unat (get_entrypoint_instruction_offset exe) \<le> insn_count text)
     \<and> 0 < max_call_depth cfg \<and> enable_instruction_meter cfg \<and> unat (stack_size cfg) = full_stack
     \<and> (\<exists>ro. get_ro_section exe = Some ro \<and> length ro < 2 ^ 62)"

text \<open>The machine that comes out of provisioning.\<close>

definition built_vm :: "'f Executable \<Rightarrow> Config \<Rightarrow> (InvokeContext, 'f, BoxedError) EbpfVm \<Rightarrow> bool" where
  "built_vm exe cfg m \<longleftrightarrow>
     fresh_vm exe cfg m \<and> mapping_ok (memory_mapping m)
     \<and> mapping_watched (memory_mapping m) = [] \<and> mapping_log (memory_mapping m) = []
     \<and> (enable_address_translation cfg \<longrightarrow> memory_mapping m \<noteq> Identity)"

lemma create_mapping_cases:
  assumes "runnable exe cfg" "low_host h" "list_all (region_within P) rs"
    and "unat (as_ptr stack) + unat (slice_len stack) < 2 ^ 64" "unat (as_ptr heap) + unat (slice_len heap) < 2 ^ 64"
  obtains e where "create_memory_mapping h exe stack heap rs tc st di = Some (Err e)"
  | mm where "create_memory_mapping h exe stack heap rs tc st di = Some (Ok mm)"
      "mapping_ok mm" "mapping_watched mm = []" "mapping_log mm = []" "mm \<noteq> Identity"
      "guards P (accounts tc) mm"
      "assembled [(as_ptr stack, unat (slice_len stack)), (as_ptr heap, unat (slice_len heap))] rs (account_handler h st di (accounts tc)) mm"
proof -
  obtain ro where cfg: "exe_get_config exe = Some cfg" and ro: "get_ro_section exe = Some ro" "length ro < 2 ^ 62"
    using assms(1) by (auto simp: runnable_def)
  let ?v = "get_sbpf_version exe"
  let ?start = "case ro_section exe of Owned start _ \<Rightarrow> start | Borrowed start _ \<Rightarrow> start"
  let ?ro = "new_readonly \<lparr>as_ptr = ro_at h, slice_len = of_nat (length ro)\<rparr> ?start"
  let ?rs = "[?ro, new_writable_gapped stack MM_STACK_START
      (if stack_frame_gaps ?v \<and> enable_stack_frame_gaps cfg then stack_frame_size cfg else 0),
    new_writable heap MM_HEAP_START] @ rs"
  let ?avh = "account_handler h st di (accounts tc)"
  have "low (ro_at h)" "unat (of_nat (length ro) :: u64) < 2 ^ 62"
    using assms(2) ro(2) by (simp_all add: low_host_def unat_of_nat_u64)
  then have "region_within P ?ro" unfolding new_readonly_def by (intro new_region_within) simp
  moreover have "region_within P (new_writable_gapped stack MM_STACK_START gap)" "region_within P (new_writable heap MM_HEAP_START)" for gap
    unfolding new_writable_gapped_def new_writable_def by (intro new_region_within assms(4,5))+
  ultimately have all: "list_all (region_within P) ?rs" using assms(3) by simp
  have eq: "create_memory_mapping h exe stack heap rs tc st di = new_with_access_violation_handler ?rs cfg ?v ?avh"
    by (simp add: create_memory_mapping_def cfg get_ro_region_def ro(1) Let_def)
  have regions: "list_all (machine_region [(as_ptr stack, unat (slice_len stack)), (as_ptr heap, unat (slice_len heap))] rs) ?rs"
    unfolding new_readonly_def new_writable_gapped_def new_writable_def
    by (simp add: machine_region_new) (auto simp: machine_region_def list_all_iff)
  have captured: "captured ?avh = Some (accounts tc)" by (simp add: account_handler_def)
  have ok: "handler_ok ?avh" using assms(2) by (intro account_handler_ok) (simp add: low_host_def)
  have "new_with_access_violation_handler ?rs cfg ?v ?avh \<noteq> (None :: (_, BoxedError EbpfError) result option)"
    using new_unaligned_total [of ?rs cfg ?v ?avh, where ?'a = BoxedError]
    by (auto simp: new_with_access_violation_handler_def)
  then consider e where "new_with_access_violation_handler ?rs cfg ?v ?avh = Some (Err e :: (_, BoxedError EbpfError) result)"
    | mm where "new_with_access_violation_handler ?rs cfg ?v ?avh = Some (Ok mm :: (_, BoxedError EbpfError) result)"
    by (metis option.exhaust result.exhaust)
  then show thesis
  proof cases
    case (2 mm)
    moreover have "mm \<noteq> Identity" using 2 by (auto simp: new_with_access_violation_handler_def and_then_Ok_iff split: if_splits)
    ultimately show thesis using that(2) new_mapping_ok(1-4) [OF 2 all ok] new_mapping_ok(5) [OF 2 all ok regions] captured unfolding eq by blast
  qed (use that(1) eq in simp)
qed

lemma settled_provision:
  "settled (fst (consume_checked ic n)) = settled ic"
  "settled (fst (set_syscall_context ic sc)) = settled ic"
  "ic_get_remaining (fst (consume_checked ic n)) \<le> ic_get_remaining ic"
  "ic_get_remaining (fst (set_syscall_context ic sc)) = ic_get_remaining ic"
  by (simp_all add: settled_def consume_checked_def set_syscall_context_def ic_get_remaining_def Let_def saturating_sub_le)

abbreviation handler_for :: "Host \<Rightarrow> InvokeContext \<Rightarrow> AccessViolationHandler" where
  "handler_for h ic \<equiv>
     account_handler h (stricter_abi_and_runtime_constraints (feature_set ic)) (account_data_direct_mapping (feature_set ic))
       (accounts (transaction_context ic))"

lemma create_vm_cases:
  assumes "runnable exe cfg" "low_host h" "list_all (region_within P) rs"
    and "unat (as_ptr stack) + unat (slice_len stack) < 2 ^ 64" "unat (as_ptr heap) + unat (slice_len heap) < 2 ^ 64"
  obtains ic' e where "create_vm h exe rs metas ic stack heap hm = Some (ic', Err e)" "settled ic' = settled ic"
  | ic' m where "create_vm h exe rs metas ic stack heap hm = Some (ic', Ok m)" "settled ic' = settled ic"
      "ic_get_remaining ic' = ic_get_remaining ic" "context_object_pointer m = ic'" "built_vm exe cfg m" "host m = hm"
      "guards P (accounts (transaction_context ic)) (memory_mapping m)"
      "assembled [(as_ptr stack, unat (slice_len stack)), (as_ptr heap, unat (slice_len heap))] rs (handler_for h ic) (memory_mapping m)"
proof -
  let ?tc = "transaction_context ic"
  let ?st = "stricter_abi_and_runtime_constraints (feature_set ic)"
  let ?di = "account_data_direct_mapping (feature_set ic)"
  let ?sc = "\<lparr>allocator = new_BpfAllocator (slice_len heap), accounts_metadata = metas\<rparr>"
  have cfg: "exe_get_config exe = Some cfg" using assms(1) by (simp add: runnable_def)
  show thesis
  proof (rule create_mapping_cases [OF assms, of ?tc ?st ?di], goal_cases)
    case (1 e)
    then show thesis using that(1) by (simp add: create_vm_def Let_def)
  next
    case (2 mm)
    obtain ic' r where sc: "set_syscall_context ic ?sc = (ic', r)" by (cases "set_syscall_context ic ?sc")
    then have ic': "settled ic' = settled ic" "ic_get_remaining ic' = ic_get_remaining ic"
      using settled_provision(2,4) [of ic ?sc] by simp_all
    show thesis
    proof (cases r)
      case (Err e)
      then show thesis using that(1) 2(1) sc ic'(1) by (simp add: create_vm_def Let_def)
    next
      case (Ok u)
      obtain m :: "(InvokeContext, 'a, BoxedError) EbpfVm" where
        m: "new_vm (get_loader exe) (get_sbpf_version exe) ic' mm (slice_len stack) hm = Some m"
        using cfg by (auto simp: new_vm_def exe_get_config_def get_loader_def)
      have mp: "memory_mapping m = (if enable_address_translation cfg then mm else Identity)"
        "context_object_pointer m = ic'" "host m = hm"
        using m cfg by (auto simp: new_vm_def exe_get_config_def get_loader_def Let_def new_identity_def)
      have "mapping_ok Identity" "mapping_watched Identity = []" "mapping_log Identity = []"
        by (simp_all add: mapping_ok_def mapping_inv_def lookup_inv_def mapping_handler_ok_def mapping_watched_def
            mapping_log_def get_access_tracker_def)
      then have "built_vm exe cfg m"
        using new_vm_fresh [OF cfg m] 2(2-5) mp(1) by (simp add: built_vm_def)
      moreover have "create_vm h exe rs metas ic stack heap hm = Some (ic', Ok m)"
        using 2(1) sc Ok m by (simp add: create_vm_def Let_def)
      moreover have "guards P (accounts ?tc) (memory_mapping m)"
        using 2(6) mp(1) by (simp add: guards_def payloads_def)
      moreover have "assembled [(as_ptr stack, unat (slice_len stack)), (as_ptr heap, unat (slice_len heap))] rs (handler_for h ic) (memory_mapping m)"
        using 2(7) mp(1) by (simp add: assembled_def)
      ultimately show thesis using that(2) ic' mp(2,3) by blast
    qed
  qed
qed

lemma provision_cases:
  assumes "runnable exe cfg" "low_host h" "list_all (region_within P) rs" "usable_pool pool"
    and "unat (heap_size (compute_budget ic)) \<le> full_heap"
  obtains ic' pool' e where "provision h exe params rs metas ic pool hm = Some (ic', pool', Err e)"
      "settled ic' = settled ic" "usable_pool pool'"
  | ic' pool' m stack heap where "provision h exe params rs metas ic pool hm = Some (ic', pool', Ok (m, stack, heap))"
      "settled ic' = settled ic" "usable_pool pool'" "ic_get_remaining ic' \<le> ic_get_remaining ic"
      "context_object_pointer m = ic'" "built_vm exe cfg m"
      "full_memory full_stack stack" "full_memory full_heap heap"
      "host m = place hm (segments h exe (accounts (transaction_context ic)) params stack heap)"
      "guards P (accounts (transaction_context ic)) (memory_mapping m)"
      "assembled [(memory_ptr stack, full_stack), (memory_ptr heap, full_heap)] rs (handler_for h ic) (memory_mapping m)"
proof -
  let ?hs = "heap_size (compute_budget ic)"
  let ?cost = "calculate_heap_cost ?hs (heap_cost (execution_cost ic))"
  have cfg: "exe_get_config exe = Some cfg" "unat (stack_size cfg) = full_stack" using assms(1) by (auto simp: runnable_def)
  have al: "low (alloc_ptr (h_allocator h) n)" for n using assms(2) by (simp add: low_host_def)
  obtain ic1 r where c: "consume_checked ic ?cost = (ic1, r)" by (cases "consume_checked ic ?cost")
  then have ic1: "settled ic1 = settled ic" "ic_get_remaining ic1 \<le> ic_get_remaining ic"
    using settled_provision(1,3) [of ic ?cost] by simp_all
  show thesis
  proof (cases r)
    case (Err e)
    then show thesis using that(1) c cfg ic1(1) assms(4) by (simp add: provision_def Let_def)
  next
    case (Ok u)
    obtain stack p1 where st: "get_stack (h_allocator h) pool full_stack = Some (stack, p1)"
      and m1: "full_memory full_stack stack" "usable_pool p1"
      using memory_from_pool(1) [OF assms(4) al] by auto
    obtain heap p2 where hp: "get_heap (h_allocator h) p1 ?hs = Some (heap, p2)"
      and m2: "full_memory full_heap heap" "usable_pool p2"
      using memory_from_pool(2) [OF m1(2) al, of ?hs] by auto
    let ?stack = "\<lparr>as_ptr = memory_ptr stack, slice_len = stack_size cfg\<rparr>"
    let ?heap = "\<lparr>as_ptr = memory_ptr heap, slice_len = ucast ?hs\<rparr> :: Slice"
    let ?hm = "place hm (segments h exe (accounts (transaction_context ic1)) params stack heap)"
    have len: "full_stack \<le> mem_len stack" "unat ?hs \<le> mem_len heap"
      using m1(1) m2(1) assms(5) by (simp_all add: full_memory_def sized_def)
    have eq: "provision h exe params rs metas ic pool hm =
        map_option (\<lambda>(ic, res). (ic, p2, and_then res (\<lambda>m. Ok (m, stack, heap)))) (create_vm h exe rs metas ic1 ?stack ?heap ?hm)"
      using c cfg Ok st hp len by (simp add: provision_def Let_def)
    have tc: "accounts (transaction_context ic1) = accounts (transaction_context ic)" using ic1(1) by (simp add: settled_def)
    have "unat ?hs < 2 ^ 64" using assms(5) full_sizes(2) by simp
    then have ucast: "unat (ucast ?hs :: u64) = unat ?hs" by (simp add: unsigned_ucast_eq take_bit_nat_eq_self)
    have fit: "unat (as_ptr ?stack) + unat (slice_len ?stack) < 2 ^ 64" "unat (as_ptr ?heap) + unat (slice_len ?heap) < 2 ^ 64"
      using m1(1) m2(1) cfg(2) assms(5)
      by (auto simp: full_memory_def ucast STACK_FRAME_SIZE_def MAX_CALL_DEPTH_def MAX_HEAP_FRAME_BYTES_def)
    show thesis
    proof (rule create_vm_cases [OF assms(1-3) fit, of metas ic1 ?hm], goal_cases)
      case (1 ic' e)
      then show thesis using that(1) eq ic1(1) m2(2) by simp
    next
      case (2 ic' m)
      have features: "feature_set ic1 = feature_set ic" using ic1(1) by (simp add: settled_def)
      have "assembled [(memory_ptr stack, full_stack), (memory_ptr heap, full_heap)] rs (handler_for h ic) (memory_mapping m)"
        by (rule assembled_wider [OF 2(8) [unfolded tc features]]) (use cfg(2) ucast assms(5) in auto)
      then show thesis using that(2) [of ic' p2 m stack heap] 2 eq ic1 m2 m1(1) tc by simp
    qed
  qed
qed

section \<open>Launching\<close>

lemma registers_launch: "length (set_start_registers features ofs regs) = length regs"
  by (simp add: set_start_registers_def Let_def)

lemma mapping_with_ranges:
  fixes ranges :: "u64 range list"
  assumes "mapping_ok mm"
  defines "mm' \<equiv> map_common (\<lambda>c. c\<lparr>access_tracker := add_watched_ranges (access_tracker c) ranges\<rparr>) mm"
  shows "mapping_ok mm'" "mapping_log mm' = mapping_log mm"
    and "mm \<noteq> Identity \<Longrightarrow> mapping_watched mm' = mapping_watched mm @ filter (\<lambda>r. \<not> range_is_empty r) ranges"
    and "guards P ta mm' = guards P ta mm" "assembled areas rs avh mm' = assembled areas rs avh mm"
proof -
  show "assembled areas rs avh mm' = assembled areas rs avh mm"
    by (cases mm) (simp_all add: mm'_def assembled_def)
  show "guards P ta mm' = guards P ta mm"
    by (cases mm) (simp_all add: mm'_def guards_def captured_accounts_def payloads_def)
  have "get_regions mm' = get_regions mm" "lookup_inv mm' \<longleftrightarrow> lookup_inv mm"
    "mapping_handler_ok mm' \<longleftrightarrow> mapping_handler_ok mm"
    by (cases mm; simp add: mm'_def lookup_inv_def aligned_inv_def unaligned_inv_def mapping_handler_ok_def)+
  moreover have t: "get_access_tracker mm' = map_option (\<lambda>t. add_watched_ranges t ranges) (get_access_tracker mm)"
    by (cases mm) (simp_all add: mm'_def get_access_tracker_def)
  ultimately show "mapping_ok mm'" using assms(1) by (auto simp: mapping_ok_def mapping_inv_def)
  have "watched_ranges (add_watched_ranges u ranges) = watched_ranges u @ filter (\<lambda>r. \<not> range_is_empty r) ranges"
    "get_forbidden_accesses (add_watched_ranges u ranges) = get_forbidden_accesses u" for u
    by (simp_all add: add_watched_ranges_def push_nonempty_filter get_forbidden_accesses_def Let_def)
  then show "mapping_log mm' = mapping_log mm"
    "mm \<noteq> Identity \<Longrightarrow> mapping_watched mm' = mapping_watched mm @ filter (\<lambda>r. \<not> range_is_empty r) ranges"
    using t by (auto simp: mapping_log_def mapping_watched_def get_access_tracker_def split: option.splits)
qed

lemma launch_ready:
  assumes "runnable exe cfg" "built_vm exe cfg m"
  shows "prepared exe cfg (launch ranges ofs m)" "mapping_ok (memory_mapping (launch ranges ofs m))"
    and "mapping_log (memory_mapping (launch ranges ofs m)) = []"
    and "context_object_pointer (launch ranges ofs m) = context_object_pointer m"
    and "host (launch ranges ofs m) = host m" "guards P ta (memory_mapping (launch ranges ofs m)) = guards P ta (memory_mapping m)"
    and "assembled areas rs avh (memory_mapping (launch ranges ofs m)) = assembled areas rs avh (memory_mapping m)"
    and "enable_address_translation cfg \<Longrightarrow>
      mapping_watched (memory_mapping (launch ranges ofs m)) = filter (\<lambda>r. \<not> range_is_empty r) ranges"
    and "enable_address_translation cfg \<Longrightarrow> memory_mapping (launch ranges ofs m) \<noteq> Identity"
proof -
  let ?m = "launch ranges ofs m"
  note b = assms(2) [unfolded built_vm_def]
  have "fresh_vm exe cfg ?m"
    using b registers_launch by (auto simp: fresh_vm_def launch_def add_watched_memory_ranges_def on_tracker_def Let_def)
  then show "prepared exe cfg ?m" using assms(1) by (simp add: prepared_def runnable_def)
  have mm: "memory_mapping ?m = (if ranges = [] then memory_mapping m
      else map_common (\<lambda>c. c\<lparr>access_tracker := add_watched_ranges (access_tracker c) ranges\<rparr>) (memory_mapping m))"
    by (simp add: launch_def add_watched_memory_ranges_def on_tracker_def Let_def)
  show "mapping_ok (memory_mapping ?m)" "mapping_log (memory_mapping ?m) = []"
    using b mapping_with_ranges(1,2) [of "memory_mapping m" ranges] unfolding mm by auto
  show "guards P ta (memory_mapping ?m) = guards P ta (memory_mapping m)"
    using b mapping_with_ranges(4) [of "memory_mapping m" P ta ranges] unfolding mm by auto
  show "assembled areas rs avh (memory_mapping ?m) = assembled areas rs avh (memory_mapping m)"
    using b mapping_with_ranges(5) [of "memory_mapping m" areas rs avh ranges] unfolding mm by auto
  show "enable_address_translation cfg \<Longrightarrow> mapping_watched (memory_mapping ?m) = filter (\<lambda>r. \<not> range_is_empty r) ranges"
    using b mapping_with_ranges(3) [of "memory_mapping m" ranges] unfolding mm by auto
  show "enable_address_translation cfg \<Longrightarrow> memory_mapping ?m \<noteq> Identity"
    using b unfolding mm by (cases "memory_mapping m") auto
  show "context_object_pointer ?m = context_object_pointer m" "host ?m = host m"
    by (simp_all add: launch_def add_watched_memory_ranges_def on_tracker_def Let_def)
qed

lemma execute_program_more:
  assumes "execute_program n env m exe = Some r" "n \<le> n'"
  shows "execute_program n' env m exe = Some r"
  using assms run_more [of n env _ _ n']
  by (fastforce simp: execute_program_def Let_def split: option.splits)

section \<open>After the run\<close>

lemma set_owner_total: "length k = 32 \<Longrightarrow> \<exists>r. set_owner ta a k = Some r"
  by (simp add: set_owner_def view_copy_into_owner_from_slice_def split: prod.split result.split)

lemma deserialize_account_total:
  "\<exists>r. deserialize_account_aligned ep st di bytes ta a k n = Some r" "\<exists>r. deserialize_account_unaligned st di bytes ta a k n = Some r"
proof -
  have owner: "\<exists>r. map_option f (set_owner ta' a o') = Some r"
    if "slice_get bytes i (i + 32) = Some o'" for f :: "_ \<Rightarrow> TransactionAccounts \<times> (nat, InstructionError) result" and ta' o' i
    using set_owner_total [of o' ta' a] slice_get_length [OF that] by auto
  show "\<exists>r. deserialize_account_aligned ep st di bytes ta a k n = Some r"
    unfolding deserialize_account_aligned_def Let_def
    by (auto simp only: split: option.split prod.split result.split if_split dest: owner)
qed (simp add: deserialize_account_unaligned_def)

lemma deserialize_accounts_total:
  assumes "\<And>ta a k n. \<exists>r. one ta a k n = Some r"
  shows "deserialize_accounts one dup_len ins is start tc \<noteq> None"
proof -
  have no: "one ta a k n = None \<Longrightarrow> False" for ta a k n using assms [of ta a k n] by auto
  show ?thesis
  proof (induction "is" arbitrary: start tc)
    case (Cons x xs)
    then show ?case
      by (cases x) (auto simp: Let_def dest!: no split: option.splits prod.splits result.splits)
  qed simp
qed

lemma deserialize_total: "deserialize_parameters sdk ep tc ins st di bytes metas \<noteq> None"
  using deserialize_accounts_total [OF deserialize_account_total(1)] deserialize_accounts_total [OF deserialize_account_total(2)]
  by (auto simp: deserialize_parameters_def deserialize_parameters_unaligned_def deserialize_parameters_aligned_def Let_def
      split: result.splits)

lemma collected_accesses:
  "forbidden_memory_accesses (collect_accesses m) =
     forbidden_memory_accesses (context_object_pointer m) @ mapping_log (memory_mapping m)"
  by (auto simp: collect_accesses_def Let_def has_forbidden_memory_accesses_def get_forbidden_memory_accesses_def
      mapping_log_def has_forbidden_accesses_def get_forbidden_accesses_def split: option.splits)

lemma accesses_kept [simp]:
  "forbidden_memory_accesses (collect_account_state h m ic) = forbidden_memory_accesses ic"
  "forbidden_memory_accesses (report_run h k u p tr ic) = forbidden_memory_accesses ic"
  "forbidden_memory_accesses (fst (execution_result h addrs ic res)) = forbidden_memory_accesses ic"
  by (simp_all add: collect_account_state_def report_run_def insert_register_trace_def ic_msg_def program_return_def
      execution_result_def ic_consume_def Let_def split_beta split: result.split)

lemma execute_deserialize_accesses:
  "\<exists>ic' r. execute_deserialize h ic bytes = Some (ic', r) \<and> forbidden_memory_accesses ic' = forbidden_memory_accesses ic"
proof (cases "and_then (get_current_instruction_context (transaction_context ic))
    (\<lambda>ins. and_then (get_syscall_context ic) (\<lambda>sc. Ok (ins, accounts_metadata sc)))")
  case (Ok p)
  then show ?thesis
    using deserialize_total [of "h_sdk h" "h_entrypoint h" "transaction_context ic" "fst p"
        "stricter_abi_and_runtime_constraints (feature_set ic)" "account_data_direct_mapping (feature_set ic)" bytes "snd p"]
    by (cases p) (auto simp: execute_deserialize_def)
qed (simp add: execute_deserialize_def)

lemma conclude_accesses:
  "\<exists>ic' r. conclude h k prev addrs params units res m = Some (ic', r)
     \<and> forbidden_memory_accesses ic' = forbidden_memory_accesses (context_object_pointer m) @ mapping_log (memory_mapping m)"
proof -
  let ?ic = "report_run h k units prev (register_trace m) (collect_account_state h m (collect_accesses m))"
  obtain ic r where r: "execution_result h addrs ?ic res = (ic, r)" by (cases "execution_result h addrs ?ic res")
  then have ic: "forbidden_memory_accesses ic = forbidden_memory_accesses (context_object_pointer m) @ mapping_log (memory_mapping m)"
    using accesses_kept(3) [of h addrs ?ic res] by (simp add: collected_accesses)
  obtain ic' r' where "execute_deserialize h ic (as_slice (memory_after (host m) params)) = Some (ic', r')"
    "forbidden_memory_accesses ic' = forbidden_memory_accesses ic"
    using execute_deserialize_accesses [of h ic] by blast
  then show ?thesis using r ic by (cases r) (auto simp: conclude_def)
qed

section \<open>Execution\<close>

text \<open>The current instruction can be serialized, and the heap it asks for is one the pool has.\<close>

definition callable :: "Host \<Rightarrow> InvokeContext \<Rightarrow> InstructionContext \<Rightarrow> bool" where
  "callable h ic ins \<longleftrightarrow>
     (let tc = transaction_context ic; features = feature_set ic in
      get_current_instruction_context tc = Ok ins \<and> ready (h_entrypoint h) tc ins
      \<and> (\<exists>program_id program_owner. get_program_key tc ins = Ok program_id \<and> length program_id = 32
           \<and> get_program_owner tc ins = Ok program_owner
           \<and> length (guest_layout (h_sdk h) (h_entrypoint h) (stricter_abi_and_runtime_constraints features)
                (account_data_direct_mapping features) program_id program_owner tc ins) < 2 ^ 62)
      \<and> unat (heap_size (compute_budget ic)) \<le> full_heap)"

abbreviation serialized_for :: "Host \<Rightarrow> InvokeContext \<Rightarrow> InstructionContext \<Rightarrow> (TransactionContext \<times> (serialized, InstructionError) result) option" where
  "serialized_for h ic ins \<equiv>
     serialize_parameters (h_sdk h) (h_entrypoint h) (h_allocator h) (data_addresses h) (transaction_context ic) ins
       (stricter_abi_and_runtime_constraints (feature_set ic)) (account_data_direct_mapping (feature_set ic))"

lemma region_from_ok:
  assumes "region_from di ptrs W s r" "\<And>i. low (ptrs i)" "low (av_ptr (mem_vec (buffer s)))" "mem_len (buffer s) < 2 ^ 62"
  shows "region_ok r"
proof -
  have "unat (host_addr r) < 2 ^ 63"
  proof (cases "\<exists>i. host_addr r = ptrs i")
    case True
    then obtain i where "host_addr r = ptrs i" ..
    then show ?thesis using assms(2) [of i] by simp
  next
    case False
    then obtain start where st: "start \<le> mem_len (buffer s)" "host_addr r = av_ptr (mem_vec (buffer s)) + of_nat start"
      using assms(1) by (auto simp: region_from_def in_buffer_def over_account_def)
    have "unat (of_nat start :: u64) = start" using st(1) assms(4) by (intro unat_of_nat_u64) simp
    then show ?thesis
      using st assms(3,4) unat_plus_simple [of "av_ptr (mem_vec (buffer s))" "of_nat start"]
      by (simp add: unat_word_ariths)
  qed
  moreover have "unat (len r) \<le> 2 ^ 62" "unat (vm_gap_shift r) \<le> 63"
    "access_violation_handler_payload r \<noteq> None \<Longrightarrow> unat (len r) \<le> 4294967296"
    using assms(1,4) by (auto simp: region_from_def MAX_ACCOUNT_DATA_LEN_def)
  ultimately show ?thesis by (auto simp: region_ok_def region_wf_def mm_values)
qed

lemma accounts_update_eq: "tc\<lparr>accounts := ta\<rparr> = tc\<lparr>accounts := ta'\<rparr> \<longleftrightarrow> ta = ta'"
  by (cases tc) auto

lemma callable_serialized:
  assumes "callable h ic ins" "low_host h"
  obtains ta mem rs metas ofs where
    "serialized_for h ic ins = Some ((transaction_context ic)\<lparr>accounts := ta\<rparr>, Ok (mem, rs, metas, ofs))"
    "list_all (region_within (changeable (transaction_context ic) ins)) rs" "same_contents (accounts (transaction_context ic)) ta"
    "length metas = length (instruction_accounts ins)"
    "memory_inv mem" "\<exists>u. buffer u = mem \<and> ser_regions u = rs
       \<and> regions_from (account_data_direct_mapping (feature_set ic)) (data_at h) (changeable (transaction_context ic) ins) u"
    "\<And>hm i. memory_ready hm (data_addresses h) (accounts (transaction_context ic)) mem \<Longrightarrow>
       i < length (instruction_accounts ins) \<Longrightarrow>
       data_visible hm rs (vm_data_addr (metas ! i)) (get_data (accounts (transaction_context ic)) (borrowed_account ins i))"
proof -
  let ?tc = "transaction_context ic"
  let ?st = "stricter_abi_and_runtime_constraints (feature_set ic)"
  let ?di = "account_data_direct_mapping (feature_set ic)"
  obtain k ow where c: "ready (h_entrypoint h) ?tc ins" "get_program_key ?tc ins = Ok k" "length k = 32"
    "get_program_owner ?tc ins = Ok ow"
    and small: "length (guest_layout (h_sdk h) (h_entrypoint h) ?st ?di k ow ?tc ins) < 2 ^ 62"
    using assms(1) by (auto simp: callable_def Let_def)
  let ?bytes = "guest_layout (h_sdk h) (h_entrypoint h) ?st ?di k ow ?tc ins"
  obtain ta mem rs metas ofs where s: "serialized_for h ic ins = Some (?tc\<lparr>accounts := ta\<rparr>, Ok (mem, rs, metas, ofs))"
    and as_s: "serialized_as (h_allocator h) (data_addresses h) ?tc ins ?st ?di ?bytes (?tc\<lparr>accounts := ta\<rparr>, Ok (mem, rs, metas, ofs))"
    using serialize_ready [OF c layout_fitsI [OF small], of "h_allocator h" "data_addresses h"]
    unfolding serialized_as_def by fastforce
  then have s': "as_slice mem = ?bytes" "memory_inv mem" "same_contents (accounts ?tc) ta"
    "av_ptr (mem_vec mem) = block_ptr (h_allocator h) (length ?bytes)"
    "length metas = length (accounts_of ins)"
    by (auto simp: serialized_as_def finished_def metas_for_def accounts_update_eq)
  obtain u where u: "buffer u = mem" "ser_regions u = rs" "regions_from ?di (data_at h) (changeable ?tc ins) u"
    using serialized_regions [OF c(1) s] by blast
  have "low (av_ptr (mem_vec mem))"
    using assms(2) s'(4) block_ptr_low by (simp add: low_host_def)
  moreover have "mem_len mem < 2 ^ 62" using small s'(1) length_as_slice [OF s'(2)] by simp
  ultimately have "list_all (region_within (changeable ?tc ins)) rs"
    using u assms(2) region_from_ok [of ?di "data_at h" _ u]
    by (auto simp: regions_from_def list_all_iff low_host_def region_within_def) (auto simp: region_from_def)
  then show thesis
    using that [OF s] s'(2,3,5) u accounts_of_ready(1) [OF c(1)] serialized_visible [OF c(1) as_s] small by auto
qed

text \<open>The machine just before the program runs, if it comes to that, and what was placed in its memory.\<close>

definition started ::
  "Host \<Rightarrow> VmMemoryPool \<Rightarrow> host_memory \<Rightarrow> 'f Executable \<Rightarrow> InvokeContext \<Rightarrow> InstructionContext
     \<Rightarrow> ((InvokeContext, 'f, BoxedError) EbpfVm \<times> (u64 \<times> u8 list) list) option"
where
  "started h pool hm exe ic ins =
     (case serialized_for h ic ins of
        Some (tc, Ok (params, rs, metas, ofs)) \<Rightarrow>
          (case provision h exe params rs metas (ic\<lparr>transaction_context := tc\<rparr>) pool hm of
             Some (_, _, Ok (m, stack, heap)) \<Rightarrow>
               Some (launch (forbidden_vm_ranges (h_sdk h) (ic\<lparr>transaction_context := tc\<rparr>) tc ins metas) ofs m,
                 segments h exe (accounts tc) params stack heap)
           | _ \<Rightarrow> None)
      | _ \<Rightarrow> None)"

lemma execute_cases:
  assumes "callable h ic ins" "runnable exe cfg" "low_host h" "usable_pool pool"
  obtains (failed) ic' pool' r where "\<And>fuel env. execute fuel h env pool hm exe ic = Some (Some (ic', pool', hm, r))"
      "started h pool hm exe ic ins = None" "forbidden_memory_accesses ic' = forbidden_memory_accesses ic" "usable_pool pool'"
      "same_contents (accounts (transaction_context ic)) (accounts (transaction_context ic'))"
  | (running) m segs pool' stack heap f where
      "\<And>fuel env. execute fuel h env pool hm exe ic =
        (case execute_program fuel env m exe of
           None \<Rightarrow> None
         | Some None \<Rightarrow> Some None
         | Some (Some (units, res, m')) \<Rightarrow>
             Some (map_option (\<lambda>(ic, r). (ic, return_memory pool' (host m') stack heap, host m', r)) (f units res m')))"
      "\<And>units res m'. \<exists>ic' r. f units res m' = Some (ic', r) \<and> forbidden_memory_accesses ic' =
        forbidden_memory_accesses (context_object_pointer m') @ mapping_log (memory_mapping m')"
      "started h pool hm exe ic ins = Some (m, segs)" "prepared exe cfg m" "mapping_ok (memory_mapping m)"
      "mapping_log (memory_mapping m) = []" "ic_get_remaining (context_object_pointer m) \<le> ic_get_remaining ic"
      "forbidden_memory_accesses (context_object_pointer m) = forbidden_memory_accesses ic"
      "usable_pool pool'" "full_memory full_stack stack" "full_memory full_heap heap"
      "host m = place hm segs"
      "\<exists>ta. same_contents (accounts (transaction_context ic)) ta \<and> accounts (transaction_context (context_object_pointer m)) = ta
         \<and> guards (changeable (transaction_context ic) ins) ta (memory_mapping m)"
      "feature_set (context_object_pointer m) = feature_set ic"
      "get_current_instruction_context (transaction_context (context_object_pointer m)) = Ok ins" "\<exists>k prev addrs params. f = conclude h k prev addrs params"
      "\<And>tc params rs metas ofs. serialized_for h ic ins = Some (tc, Ok (params, rs, metas, ofs)) \<Longrightarrow>
         segs = segments h exe (accounts tc) params stack heap
         \<and> assembled [(memory_ptr stack, full_stack), (memory_ptr heap, full_heap)] rs
             (handler_for h (ic\<lparr>transaction_context := tc\<rparr>)) (memory_mapping m)
         \<and> (enable_address_translation cfg \<longrightarrow> memory_mapping m \<noteq> Identity \<and> mapping_watched (memory_mapping m) =
              filter (\<lambda>r. \<not> range_is_empty r) (forbidden_vm_ranges (h_sdk h) (ic\<lparr>transaction_context := tc\<rparr>) tc ins metas))"
proof -
  obtain tc params rs metas ofs where ser: "serialized_for h ic ins = Some (tc, Ok (params, rs, metas, ofs))"
    and rs: "list_all (region_within (changeable (transaction_context ic) ins)) rs"
    and same: "same_contents (accounts (transaction_context ic)) (accounts tc)"
    and cur: "get_current_instruction_context tc = get_current_instruction_context (transaction_context ic)"
    by (rule callable_serialized [OF assms(1,3)]) (rule that, assumption, assumption, simp_all)
  obtain k ow where c: "get_current_instruction_context (transaction_context ic) = Ok ins"
    "get_program_key (transaction_context ic) ins = Ok k" "get_program_owner (transaction_context ic) ins = Ok ow"
    and hs: "unat (heap_size (compute_budget ic)) \<le> full_heap"
    using assms(1) by (auto simp: callable_def Let_def)
  let ?ic = "ic\<lparr>transaction_context := tc\<rparr>"
  have ex: "execute fuel h env pool hm exe ic =
      execute_serialized fuel h env pool hm exe k ow ins ?ic (params, rs, metas, ofs)" for fuel env
    using c ser by (simp add: execute_def Let_def)
  have hs': "unat (heap_size (compute_budget ?ic)) \<le> full_heap" using hs by simp
  show thesis
  proof (rule provision_cases [OF assms(2,3) rs assms(4) hs', of params metas hm], goal_cases)
    case (1 ic' pool' e)
    let ?failed = "ic_msg ic' (''Failed to create SBF VM: '' @ show_err (h_display h) e)"
    have "forbidden_memory_accesses ?failed = forbidden_memory_accesses ic"
      "same_contents (accounts (transaction_context ic)) (accounts (transaction_context ?failed))"
      using 1(2) same by (simp_all add: settled_def ic_msg_def)
    moreover have "execute fuel h env pool hm exe ic =
        Some (Some (?failed, pool', hm, Err (BoxInstruction ProgramEnvironmentSetupFailure)))" for fuel env
      using 1(1) by (simp add: ex execute_serialized_def Let_def)
    moreover have "started h pool hm exe ic ins = None" using 1(1) by (simp add: started_def ser)
    ultimately show thesis using 1(3) by (intro failed)
  next
    case (2 ic' pool' m stack heap)
    let ?w = "forbidden_vm_ranges (h_sdk h) ?ic tc ins metas"
    let ?m = "launch ?w ofs m"
    let ?segs = "segments h exe (accounts tc) params stack heap"
    let ?f = "conclude h k (ic_get_remaining ?ic) (account_region_addrs (h_entrypoint h) (ow = bpf_loader_deprecated_id (h_sdk h)) metas) params"
    note l = launch_ready [OF assms(2) 2(6), where ranges = ?w and ofs = ofs]
    have "execute fuel h env pool hm exe ic =
        (case execute_program fuel env ?m exe of
           None \<Rightarrow> None
         | Some None \<Rightarrow> Some None
         | Some (Some (units, res, m')) \<Rightarrow>
             Some (map_option (\<lambda>(ic, r). (ic, return_memory pool' (host m') stack heap, host m', r)) (?f units res m')))"
      for fuel env
      using 2(1) by (simp add: ex execute_serialized_def Let_def)
    moreover have "started h pool hm exe ic ins = Some (?m, ?segs)" using 2(1) by (simp add: started_def ser)
    moreover have "ic_get_remaining (context_object_pointer ?m) \<le> ic_get_remaining ic"
      "forbidden_memory_accesses (context_object_pointer ?m) = forbidden_memory_accesses ic"
      using 2(2,4,5) l(4) by (simp_all add: settled_def ic_get_remaining_def)
    moreover have "accounts (transaction_context (context_object_pointer ?m)) = accounts tc"
      "feature_set (context_object_pointer ?m) = feature_set ic"
      "get_current_instruction_context (transaction_context (context_object_pointer ?m)) = Ok ins"
      "guards (changeable (transaction_context ic) ins) (accounts tc) (memory_mapping ?m)"
      using 2(2,5,10) l(4,6) cur c(1) by (simp_all add: settled_def)
    ultimately show thesis
      using conclude_accesses l 2(3,7-9,11) ser same by (intro running [where m = ?m and segs = ?segs and pool' = pool' and stack = stack and heap = heap and f = ?f]) auto
  qed
qed

lemma execute_outcome:
  assumes "callable h ic ins" "runnable exe cfg" "low_host h" "usable_pool pool"
  defines "fuel \<equiv> Suc (unat (ic_get_remaining ic))"
  obtains ic' pool' hm' r where "execute fuel h (syscall_env se) pool hm exe ic = Some (Some (ic', pool', hm', r))"
    "usable_pool pool'"
    "started h pool hm exe ic ins = None \<Longrightarrow> forbidden_memory_accesses ic' = forbidden_memory_accesses ic"
    "\<And>m segs. started h pool hm exe ic ins = Some (m, segs) \<Longrightarrow>
       \<exists>reported. forbidden_memory_accesses ic' = forbidden_memory_accesses ic @ reported
         \<and> subseq (filter (forbidden (mapping_watched (memory_mapping m))) (program_loads fuel (syscall_env se) m exe)) reported"
proof -
  show thesis
  proof (rule execute_cases [OF assms(1-4), of hm], goal_cases)
    case (1 ic' pool' r)
    then show thesis using that by simp
  next
    case (2 m segs pool' stack heap f)
    have meter: "enable_instruction_meter cfg" using assms(2) by (simp add: runnable_def)
    obtain count res m' where r:
      "execute_program (Suc (unat (ic_get_remaining (context_object_pointer m)))) (syscall_env se) m exe = Some (Some (count, res, m'))"
      "exe_get_config exe = Some cfg" "get_config (vm_loader m) = Some cfg"
      by (rule sys_metered.prepared_finishes [OF 2(4) meter, of se, simplified])
    have run: "execute_program fuel (syscall_env se) m exe = Some (Some (count, res, m'))"
      unfolding fuel_def by (rule execute_program_more [OF r(1)]) (use 2(7) in \<open>simp add: word_le_nat_alt\<close>)
    obtain reported where log: "mapping_log (memory_mapping m') = reported"
      "subseq (filter (forbidden (mapping_watched (memory_mapping m))) (program_loads fuel (syscall_env se) m exe)) reported"
      using sys_reading.execute_log(1) [OF r(2,3) run 2(5)] 2(6) by auto
    have "forbidden_memory_accesses (context_object_pointer m') = forbidden_memory_accesses ic"
      using sys_settled.execute_context [OF r(2,3) run] 2(8) by (simp add: settled_def)
    moreover obtain ic' res' where "f count res m' = Some (ic', res')"
      "forbidden_memory_accesses ic' = forbidden_memory_accesses (context_object_pointer m') @ mapping_log (memory_mapping m')"
      using 2(2) by blast
    ultimately show thesis
      using that [of ic' "return_memory pool' (host m') stack heap" "host m'" res'] 2(1,3) run log
        return_memory_usable [OF 2(9-11)] by auto
  qed
qed

section \<open>Placed memory\<close>

text \<open>Buffers that neither overlap nor wrap.\<close>

fun apart :: "(u64 \<times> u8 list) list \<Rightarrow> bool" where
  "apart [] = True"
| "apart ((p, bs) # segs) \<longleftrightarrow>
     unat p + length bs < 2 ^ 64
     \<and> list_all (\<lambda>(q, cs). unat p + length bs \<le> unat q \<or> unat q + length cs \<le> unat p) segs \<and> apart segs"

lemma holds_write: "unat p + length bs < 2 ^ 64 \<Longrightarrow> holds (write_bytes hm p bs) p bs"
  by (simp add: holds_def read_write_bytes)

lemma unat_plus_offset: "unat (p :: u64) + n < 2 ^ 64 \<Longrightarrow> i \<le> n \<Longrightarrow> unat (p + of_nat i) = unat p + i"
  using unat_of_nat_u64 [of i] by (simp add: unat_word_ariths)

lemma holds_frame:
  assumes "holds hm p bs" "unat q + length cs < 2 ^ 64" "unat p + length bs \<le> unat q \<or> unat q + length cs \<le> unat p"
  shows "holds (write_bytes hm q cs) p bs"
proof -
  have b: "unat p + length bs < 2 ^ 64" using assms(1) by (simp add: holds_def)
  have "write_bytes hm q cs (p + of_nat i) = hm (p + of_nat i)" if "i < length bs" for i
  proof (rule write_bytes_other)
    fix j
    assume "j < length cs"
    then have "unat (p + of_nat i) \<noteq> unat (q + of_nat j)"
      using unat_plus_offset [OF b, of i] unat_plus_offset [OF assms(2), of j] that assms(3) by auto
    then show "p + of_nat i \<noteq> q + of_nat j" by metis
  qed
  then have "read_bytes (write_bytes hm q cs) p (length bs) = read_bytes hm p (length bs)" by (simp add: read_bytes_def)
  then show ?thesis using assms(1) by (simp add: holds_def)
qed

lemma place_frame:
  "holds hm p bs \<Longrightarrow> apart segs \<Longrightarrow> list_all (\<lambda>(q, cs). unat p + length bs \<le> unat q \<or> unat q + length cs \<le> unat p) segs \<Longrightarrow>
     holds (place hm segs) p bs"
proof (induction segs arbitrary: hm)
  case (Cons x segs)
  then show ?case using holds_frame by (cases x) (auto simp: place_def)
qed (simp add: place_def)

lemma place_holds: "apart segs \<Longrightarrow> (p, bs) \<in> set segs \<Longrightarrow> holds (place hm segs) p bs"
proof (induction segs arbitrary: hm)
  case (Cons x segs)
  obtain q cs where x: "x = (q, cs)" by (cases x)
  have "holds (place (write_bytes hm q cs) segs) q cs"
    using Cons.prems(1) x by (intro place_frame holds_write) simp_all
  then show ?case using Cons x by (auto simp: place_def)
qed simp

lemma placed_ready:
  assumes "apart (segments h exe ta params stack heap)" "same_contents ta' ta"
  shows "memory_ready (place hm (segments h exe ta params stack heap)) (data_addresses h) ta' params"
proof -
  let ?segs = "segments h exe ta params stack heap"
  have "(memory_ptr params, as_slice params) \<in> set ?segs" by (simp add: segments_def)
  moreover have "(data_at h i, view_data (view_at ta' i)) \<in> set ?segs" if "i < accounts_len ta'" for i
    using that assms(2) by (auto simp: segments_def same_contents_def content_def intro!: image_eqI [of _ _ i])
  ultimately show ?thesis
    using place_holds [OF assms(1)] by (auto simp: memory_ready_def memory_ptr_def)
qed

section \<open>The sysvar account\<close>

text \<open>The key of an account that the instruction names.\<close>

definition named_key :: "TransactionContext \<Rightarrow> InstructionContext \<Rightarrow> nat \<Rightarrow> (Pubkey, InstructionError) result" where
  "named_key tc ins i =
     and_then (get_index_of_instruction_account_in_transaction ins (of_nat i)) (get_key_of_account_at_index tc)"

lemma named_key_same: "same_contents (accounts tc) ta \<Longrightarrow> named_key (tc\<lparr>accounts := ta\<rparr>) ins i = named_key tc ins i"
  by (simp add: named_key_def get_key_of_account_at_index_def [abs_def] same_contents_key)

lemma find_sysvar_first:
  assumes "named_key tc ins i = Ok (instructions_id sdk)" "i < length metas"
    and "\<forall>j. lo \<le> j \<longrightarrow> j < i \<longrightarrow> named_key tc ins j \<noteq> Ok (instructions_id sdk)" "lo \<le> i" "i < n"
  shows "find_sysvar_addr sdk tc ins metas [lo..<n] = Some (vm_data_addr (metas ! i))"
  using assms
proof (induction "i - lo" arbitrary: lo)
  case 0
  then have "lo = i" by simp
  then show ?case using 0 by (simp add: upt_conv_Cons named_key_def nth_get_def)
next
  case (Suc d)
  then have lo: "lo < i" "[lo..<n] = lo # [Suc lo..<n]" by (auto simp: upt_conv_Cons)
  have "find_sysvar_addr sdk tc ins metas [Suc lo..<n] = Some (vm_data_addr (metas ! i))"
    using Suc lo(1) by (intro Suc.hyps(1)) auto
  moreover have "named_key tc ins lo \<noteq> Ok (instructions_id sdk)" using Suc lo(1) by auto
  ultimately show ?case by (auto simp: lo(2) named_key_def split: result.splits)
qed

lemma watched_sysvar:
  assumes "callable h ic ins" "low_host h"
    and "serialized_for h ic ins = Some (tc, Ok (params, rs, metas, ofs))" "i < length (instruction_accounts ins)"
    and "named_key (transaction_context ic) ins i = Ok (instructions_id (h_sdk h))"
    and "\<forall>j < i. named_key (transaction_context ic) ins j \<noteq> Ok (instructions_id (h_sdk h))"
  shows "forbidden_vm_ranges (h_sdk h) (ic\<lparr>transaction_context := tc\<rparr>) tc ins metas =
    map (\<lambda>r. mk_range (vm_data_addr (metas ! i) + range_start r) (vm_data_addr (metas ! i) + range_end r))
      (forbidden_sysvar_data_ranges ic)"
proof -
  obtain ta where ta: "tc = (transaction_context ic)\<lparr>accounts := ta\<rparr>" "same_contents (accounts (transaction_context ic)) ta"
    and len: "length metas = length (instruction_accounts ins)"
    by (rule callable_serialized [OF assms(1,2)]) (use assms(3) that in auto)
  have n: "unat (get_number_of_instruction_accounts ins) = length (instruction_accounts ins)"
    using assms(1) by (simp add: callable_def ready_def Let_def MAX_ACCOUNTS_PER_INSTRUCTION_def
        get_number_of_instruction_accounts_def unat_of_nat)
  have "find_sysvar_addr (h_sdk h) tc ins metas [0..<length (instruction_accounts ins)] = Some (vm_data_addr (metas ! i))"
    using assms(4-6) len named_key_same [OF ta(2)] unfolding ta(1) by (intro find_sysvar_first) auto
  then show ?thesis using n by (simp add: forbidden_vm_ranges_def)
qed

end
