(* ===== verification/End_To_End.thy ===== *)
theory End_To_End
  imports Detection
begin

text \<open>
  The promise of the detector over a whole execution: it ends, and a program cannot read a forbidden byte of the
  instructions sysvar without being reported.
\<close>

lemma started_facts:
  assumes "callable h ic ins" "runnable exe cfg" "low_host h" "usable_pool pool"
    and "started h pool hm exe ic ins = Some (m, segs)"
    and "serialized_for h ic ins = Some (tc, Ok (params, rs, metas, ofs))"
  shows "host m = place hm segs" "\<exists>stack heap. segs = segments h exe (accounts tc) params stack heap"
    and "enable_address_translation cfg \<Longrightarrow> mapping_watched (memory_mapping m) =
      filter (\<lambda>r. \<not> range_is_empty r) (forbidden_vm_ranges (h_sdk h) (ic\<lparr>transaction_context := tc\<rparr>) tc ins metas)"
  by (rule execute_cases [OF assms(1-4), of hm]; use assms(5,6) in auto)+

lemma sysvar_range_touched:
  assumes "unat (range_start r) \<le> k" "k < unat (range_end r)" "unat base + unat (range_end r) < 2 ^ 64"
    and "unat a \<le> unat base + k" "unat base + k < unat a + unat n"
  shows "\<not> range_is_empty (mk_range (base + range_start r) (base + range_end r))"
    and "touches a n (mk_range (base + range_start r) (base + range_end r))"
proof -
  have "unat (base + range_start r) = unat base + unat (range_start r)" "unat (base + range_end r) = unat base + unat (range_end r)"
    using assms(1-3) by (simp_all add: unat_word_ariths)
  then show "\<not> range_is_empty (mk_range (base + range_start r) (base + range_end r))"
    "touches a n (mk_range (base + range_start r) (base + range_end r))"
    using assms by (auto simp: range_is_empty_def touches_def word_le_nat_alt word_less_nat_alt intro!: exI [of _ "unat base + k"])
qed

section \<open>A program that reads the sysvar\<close>

text \<open>A byte load behind the start of the input, where the first account is the instructions sysvar.\<close>

definition reader_code :: "u8 list" where
  "reader_code =
     [0x71, 0x10, 97, 0, 0, 0, 0, 0,
      0x95, 0, 0, 0, 0, 0, 0, 0]"

definition reader_exe :: "Syscall Executable" where
  "reader_exe =
     \<lparr>elf_bytes = reader_code, sbpf_version = V0, ro_section = Borrowed MM_BYTECODE_START (mk_range 0 16),
      text_section_vaddr = MM_BYTECODE_START, text_section_range = mk_range 0 16, entry_pc = 0,
      function_registry = default_FunctionRegistry, loader = sample_loader\<rparr>"

definition reader_host :: Host where
  "reader_host =
     \<lparr>h_sdk = sample_sdk\<lparr>instructions_id := replicate 32 1\<rparr>, h_entrypoint = sample_entrypoint,
      h_display = sample_display, h_success = 0, status_error = \<lambda>_. InvalidArgument, h_allocator = sample_allocator,
      data_at = \<lambda>i. if i = 0 then 0x900000 else 0xa00000, ro_at = 0x800000\<rparr>"

definition memory_at :: "u64 \<Rightarrow> nat \<Rightarrow> AlignedMemory" where
  "memory_at p n = the (zero_filled \<lparr>alloc_ptr = \<lambda>n. p, alloc_bytes = \<lambda>n i. 7\<rparr> n)"

definition reader_pool :: VmMemoryPool where
  "reader_pool =
     \<lparr>stack_pool = new_Pool [memory_at 0x100000 full_stack], heap_pool = new_Pool [memory_at 0x200000 full_heap]\<rparr>"

definition reader_tc :: TransactionContext where
  "reader_tc = sample_ser_tc
     \<lparr>instruction_stack := [0], instruction_trace := [default_InstructionFrame],
      deduplication_maps := [[65535, 0]], tc_instruction_data := [[42]],
      tc_instruction_accounts := [instruction_accounts sample_ser_ic]\<rparr>"

definition reader_ic :: InvokeContext where
  "reader_ic =
     (new_InvokeContext reader_tc
        (all_enabled\<lparr>stricter_abi_and_runtime_constraints := False, account_data_direct_mapping := False\<rparr>) None
        (new_ExecutionBudget 32768 False) (default_ExecutionCost False))
     \<lparr>syscall_context := [None], forbidden_sysvar_data_ranges := [mk_range 1 3]\<rparr>"

lemma reader_tc_fields [simp]: "accounts reader_tc = accounts sample_ser_tc"
  by (simp add: reader_tc_def)

lemma reader_ic_fields [simp]:
  "transaction_context reader_ic = reader_tc" "forbidden_sysvar_data_ranges reader_ic = [mk_range 1 3]"
  "stricter_abi_and_runtime_constraints (feature_set reader_ic) = False"
  "account_data_direct_mapping (feature_set reader_ic) = False"
  "syscall_context reader_ic = [None]" "heap_size (compute_budget reader_ic) = 32768"
  "compute_meter reader_ic = 1400000"
  by (simp_all add: reader_ic_def new_InvokeContext_def new_ExecutionBudget_def MAX_COMPUTE_UNIT_LIMIT_def)

lemma reader_verifies: "verify reader_code default_Config V0 = Some (Ok ())"
  by code_simp

lemma reader_text: "get_text_bytes reader_exe = Some (MM_BYTECODE_START, reader_code)"
  by (simp add: get_text_bytes_def reader_exe_def slice_get_def reader_code_def)

lemma reader_config: "exe_get_config reader_exe = Some default_Config"
  by (simp add: exe_get_config_def reader_exe_def sample_loader_def new_loader_def get_config_def)

lemma reader_ro: "get_ro_section reader_exe = Some reader_code"
  by (simp add: get_ro_section_def reader_exe_def slice_get_def reader_code_def)

lemma reader_version: "get_sbpf_version reader_exe = V0"
  by (simp add: get_sbpf_version_def reader_exe_def)

lemma reader_runnable: "runnable reader_exe default_Config"
proof -
  have "exe_verify reader_exe = Some (Ok () :: (unit, BoxedError EbpfError) result)"
    by (simp add: exe_verify_def reader_text reader_config reader_version reader_verifies)
  then show ?thesis
    by (simp add: runnable_def reader_text reader_config reader_ro default_Config_def slice_len_ok_def insn_count_def get_entrypoint_instruction_offset_def stack_size_def
        STACK_FRAME_SIZE_def MAX_CALL_DEPTH_def)
      (simp add: reader_code_def reader_exe_def)
qed

lemma reader_low: "low_host reader_host"
  by (simp add: low_host_def reader_host_def sample_allocator_def)

lemma reader_pool_usable: "usable_pool reader_pool"
  using zero_filled_fresh [of "\<lparr>alloc_ptr = \<lambda>n. 0x100000, alloc_bytes = \<lambda>n i. 7\<rparr>", OF _ full_sizes(3)]
    zero_filled_fresh [of "\<lparr>alloc_ptr = \<lambda>n. 0x200000, alloc_bytes = \<lambda>n i. 7\<rparr>", OF _ full_sizes(4)]
  by (auto simp: usable_pool_def reader_pool_def memory_at_def intro!: machine_memory.new_clean)

lemma reader_current: "get_current_instruction_context reader_tc = Ok sample_ser_ic"
  by (simp add: get_current_instruction_context_def get_current_instruction_index_def reader_tc_def
      get_instruction_context_at_index_in_trace_def nth_get_def ok_or_def get_or_empty_def default_InstructionFrame_def sample_ser_ic_def)

lemma reader_program:
  "get_program_key reader_tc sample_ser_ic = Ok (replicate 32 7)"
  "get_program_owner reader_tc sample_ser_ic = Ok (replicate 32 9)"
  using sample_ser_program
  by (simp_all add: get_program_key_def get_program_owner_def get_key_of_account_at_index_def
      get_index_of_program_account_in_transaction_def split: if_splits)

lemma reader_ready: "ready sample_entrypoint reader_tc sample_ser_ic"
  using sample_ser_ready by (simp add: ready_def)

lemma reader_small:
  "length (guest_layout sdk sample_entrypoint False False (replicate 32 7) (replicate 32 9) reader_tc sample_ser_ic) \<le> 20000"
proof -
  have as: "accounts_of sample_ser_ic = [Account 0 (borrowed_account sample_ser_ic 0), Duplicate 0]"
    by (simp add: accounts_of_def first_use_def tx_index_def sample_ser_ic_def new_InstructionAccount_def)
  have "length (key_of (accounts sample_ser_tc) (borrowed_account sample_ser_ic 0)) = 32"
    "length (get_owner (accounts sample_ser_tc) (borrowed_account sample_ser_ic 0)) = 32"
    using sample_ser_ready by (auto simp: ready_def serializable_def sample_ser_ic_def)
  moreover have fields: "instruction_data sample_ser_ic = [42]" "bpf_align_of_u128 sample_entrypoint = 8"
    "max_permitted_data_increase sample_entrypoint = 10240"
    "length (get_data (accounts sample_ser_tc) (borrowed_account sample_ser_ic 0)) = 3"
    by (simp_all add: sample_ser_simps)
  ultimately show ?thesis
    by (simp add: guest_layout_def params_layout_def accounts_layout_def as layout_accounts_def account_bytes_aligned_def
        account_bytes_unaligned_def header_aligned_def header_unaligned_def account_body_def dup_aligned_def
        dup_unaligned_def offset_to_align_def fields)
qed

lemma reader_callable: "callable reader_host reader_ic sample_ser_ic"
  using reader_small [of "h_sdk reader_host"] reader_current reader_ready reader_program
  by (simp add: callable_def reader_host_def MAX_HEAP_FRAME_BYTES_def)

lemma reader_serialized:
  obtains ta params r metas ofs where
    "serialized_for reader_host reader_ic sample_ser_ic = Some (reader_tc\<lparr>accounts := ta\<rparr>, Ok (params, [r], metas, ofs))"
    "same_contents (accounts sample_ser_tc) ta" "vm_addr r = MM_INPUT_START" "vm_data_addr (metas ! 0) = MM_INPUT_START + 96"
    "memory_ptr params = 0x1000" "length (as_slice params) \<le> 20000"
proof -
  let ?b = "guest_layout (h_sdk reader_host) sample_entrypoint False False (replicate 32 7) (replicate 32 9) reader_tc sample_ser_ic"
  have h: "h_entrypoint reader_host = sample_entrypoint" "h_allocator reader_host = sample_allocator"
    "replicate 32 9 \<noteq> bpf_loader_deprecated_id (h_sdk reader_host)" "instruction_accounts sample_ser_ic \<noteq> []"
    by (simp_all add: reader_host_def sample_sdk_def sample_ser_ic_def)
  have small: "length ?b \<le> 20000" by (rule reader_small)
  then have "layout_fits (length ?b)" by (intro layout_fitsI) simp
  from serialize_ready [OF reader_ready reader_program(1) _ reader_program(2) this, of sample_allocator "data_addresses reader_host"]
  obtain ta params rs metas ofs where s: "serialized_for reader_host reader_ic sample_ser_ic = Some (reader_tc\<lparr>accounts := ta\<rparr>, Ok (params, rs, metas, ofs))"
    "same_contents (accounts sample_ser_tc) ta" "as_slice params = ?b"
    "av_ptr (mem_vec params) = block_ptr sample_allocator (length ?b)"
    by (auto simp: serialized_as_def h)
  have s': "serialize_parameters (h_sdk reader_host) sample_entrypoint sample_allocator (data_addresses reader_host) reader_tc sample_ser_ic
      False False = Some (reader_tc\<lparr>accounts := ta\<rparr>, Ok (params, rs, metas, ofs))"
    using s(1) by (simp add: h)
  obtain r where r: "rs = [r]" "vm_addr r = MM_INPUT_START"
    using flat_region [OF reader_ready reader_program(2) h(3) s'] by blast
  have "?b \<noteq> []" by (simp add: guest_layout_def params_layout_def)
  then have "memory_ptr params = 0x1000" unfolding memory_ptr_def s(4) by (simp add: block_ptr_def sample_allocator_def)
  then show thesis
    using that [of ta params r metas ofs] s(1-3) small r first_data_addr [OF reader_ready reader_program(2) h(3) s' h(4)] by simp
qed

lemma new_unaligned_apart:
  "find_overlap (sort_key vm_addr rs) 1 = None \<Longrightarrow> \<exists>mm. new_unaligned rs cfg v h = Some (Ok mm)"
  using new_unaligned_total [of rs cfg v h] by (auto simp: new_unaligned_def Let_def split: option.splits)

lemma region_end:
  "vm_addr r = a \<Longrightarrow> len r = n \<Longrightarrow> range_end (vm_addr_range r) =
     (if vm_gap_shift r = 63 then saturating_add a n else saturating_add a (saturating_mul n 2))"
  by (simp add: vm_addr_range_def)

lemma reader_mapping:
  assumes "vm_addr r = MM_INPUT_START"
  shows "\<exists>mm. create_memory_mapping reader_host reader_exe \<lparr>as_ptr = p, slice_len = 262144\<rparr> \<lparr>as_ptr = q, slice_len = 32768\<rparr> [r] tc st di
    = Some (Ok mm)"
proof -
  let ?stack = "new_writable_gapped \<lparr>as_ptr = p, slice_len = 262144\<rparr> MM_STACK_START 4096"
  let ?ro = "new_readonly \<lparr>as_ptr = ro_at reader_host, slice_len = 16\<rparr> MM_BYTECODE_START"
  let ?heap = "new_writable \<lparr>as_ptr = q, slice_len = 32768\<rparr> MM_HEAP_START"
  have ro: "get_ro_region reader_host reader_exe = Some ?ro"
    unfolding get_ro_region_def reader_ro by (simp add: reader_code_def reader_exe_def)
  have starts: "vm_addr ?ro = MM_BYTECODE_START" "vm_addr ?stack = MM_STACK_START" "vm_addr ?heap = MM_HEAP_START"
    "len ?ro = 16" "len ?stack = 262144" "len ?heap = 32768"
    by (simp_all add: new_readonly_def new_writable_def new_writable_gapped_def new_region_def Let_def)
  then have "sort_key vm_addr [?ro, ?stack, ?heap, r] = [?ro, ?stack, ?heap, r]"
    by (intro sort_key_id_if_sorted) (simp add: assms)
  moreover have "range_end (vm_addr_range ?ro) \<le> MM_STACK_START" "range_end (vm_addr_range ?stack) \<le> MM_HEAP_START"
    "range_end (vm_addr_range ?heap) \<le> MM_INPUT_START"
    unfolding region_end [OF starts(1,4)] region_end [OF starts(2,5)] region_end [OF starts(3,6)]
    by (simp_all add: saturating_add_def saturating_mul_def)
  ultimately have "find_overlap (sort_key vm_addr [?ro, ?stack, ?heap, r]) 1 = None"
    using starts assms by (simp add: not_less)
  then obtain mm where "new_unaligned [?ro, ?stack, ?heap, r] default_Config V0 (account_handler reader_host st di (accounts tc))
      = Some (Ok mm :: (_, BoxedError EbpfError) result)"
    using new_unaligned_apart by blast
  moreover have "stack_frame_gaps V0 \<and> enable_stack_frame_gaps default_Config" "stack_frame_size default_Config = 4096"
    "\<not> (V4 \<le> V0 \<or> aligned_memory_mapping default_Config)"
    by (simp_all add: stack_frame_gaps_def default_Config_def less_eq_SBPFVersion_def)
  ultimately show ?thesis
    unfolding create_memory_mapping_def reader_config ro reader_version new_with_access_violation_handler_def by simp
qed

lemma memory_at_facts:
  assumes "0 < n" "n < 2 ^ 62"
  shows "memory_ptr (memory_at p n) = p" "mem_len (memory_at p n) = n" "length (as_slice (memory_at p n)) = n"
proof -
  obtain m where m: "memory_at p n = m" "memory_inv m" "as_slice m = replicate n 0" "av_ptr (mem_vec m) = p"
    using constructors_fit(3) [OF layout_fitsI [OF assms(2)], of "\<lparr>alloc_ptr = \<lambda>n. p, alloc_bytes = \<lambda>n i. 7\<rparr>"] assms(1)
    by (auto simp: memory_at_def block_ptr_def)
  then show "memory_ptr (memory_at p n) = p" "mem_len (memory_at p n) = n" "length (as_slice (memory_at p n)) = n"
    using length_as_slice [OF m(2)] by (simp_all add: memory_ptr_def)
qed

lemma reader_pool_gets:
  fixes al n hs
  defines "taken \<equiv> \<lparr>items = [None], next_empty = 0\<rparr> :: AlignedMemory Pool"
  shows "get_stack al reader_pool n = Some (memory_at 0x100000 full_stack, reader_pool\<lparr>stack_pool := taken\<rparr>)"
    and "get_heap al (reader_pool\<lparr>stack_pool := taken\<rparr>) hs =
      Some (memory_at 0x200000 full_heap, reader_pool\<lparr>stack_pool := taken, heap_pool := taken\<rparr>)"
  by (simp_all add: get_stack_def get_heap_def reader_pool_def taken_def pool_get_def new_Pool_def pool_len_def Let_def)

lemma reader_pool_memory:
  assumes "provision h exe params rs metas ic reader_pool hm = Some (ic', pool', Ok (m, stack, heap))"
  shows "stack = memory_at 0x100000 full_stack \<and> heap = memory_at 0x200000 full_heap"
  using assms
  by (auto simp: provision_def reader_pool_gets and_then_Ok_iff Let_def split: option.splits prod.splits result.splits if_splits)

lemma reader_provision:
  assumes "vm_addr r = MM_INPUT_START"
  obtains m ic' pool' where "provision reader_host reader_exe params [r] metas (reader_ic\<lparr>transaction_context := tc\<rparr>) reader_pool hm =
      Some (ic', pool', Ok (m, memory_at 0x100000 full_stack, memory_at 0x200000 full_heap))"
    "length (registers m) = 12" "compute_meter (context_object_pointer m) = 1400000"
proof -
  let ?ic = "reader_ic\<lparr>transaction_context := tc\<rparr>"
  have "calculate_heap_cost 32768 c = 0" for c
    by (simp add: calculate_heap_cost_def Let_def saturating_mul_def saturating_sub_def saturating_add_def)
  then have paid: "consume_checked ?ic (calculate_heap_cost (heap_size (compute_budget ?ic)) c) = (?ic, Ok ())" for c
    by (simp add: consume_checked_def saturating_sub_def)
  let ?stack = "memory_at 0x100000 full_stack" and ?heap = "memory_at 0x200000 full_heap"
  have sizes: "full_stack = 262144" "full_heap = 262144" "stack_size default_Config = 262144"
    by (simp_all add: STACK_FRAME_SIZE_def MAX_CALL_DEPTH_def MAX_HEAP_FRAME_BYTES_def stack_size_def default_Config_def)
  have mem: "memory_ptr ?stack = 0x100000" "memory_ptr ?heap = 0x200000" "mem_len ?stack = 262144" "mem_len ?heap = 262144"
    unfolding sizes by (simp_all add: memory_at_facts)
  let ?taken = "\<lparr>items = [None], next_empty = 0\<rparr> :: AlignedMemory Pool"
  obtain mm where mm: "create_memory_mapping reader_host reader_exe \<lparr>as_ptr = 0x100000, slice_len = 262144\<rparr>
      \<lparr>as_ptr = 0x200000, slice_len = 32768\<rparr> [r] tc False False = Some (Ok mm)"
    using reader_mapping [OF assms] by blast
  have ldr: "get_config (get_loader reader_exe) = Some default_Config"
    using reader_config by (simp add: exe_get_config_def get_loader_def)
  define hm' where "hm' = place hm (segments reader_host reader_exe (accounts tc) params ?stack ?heap)"
  define ic' where "ic' = ?ic\<lparr>syscall_context := [Some \<lparr>allocator = new_BpfAllocator 32768, accounts_metadata = metas\<rparr>]\<rparr>"
  obtain m :: "(InvokeContext, Syscall, BoxedError) EbpfVm" where m: "new_vm (get_loader reader_exe) (get_sbpf_version reader_exe) ic' mm 262144 hm' = Some m"
    "length (registers m) = 12" "context_object_pointer m = ic'"
    by (simp add: new_vm_def ldr Let_def)
  have "create_vm reader_host reader_exe [r] metas ?ic \<lparr>as_ptr = 0x100000, slice_len = 262144\<rparr>
      \<lparr>as_ptr = 0x200000, slice_len = 32768\<rparr> hm' = Some (ic', Ok m)"
    using m(1) by (simp add: create_vm_def mm set_syscall_context_def ic'_def)
  then have "provision reader_host reader_exe params [r] metas ?ic reader_pool hm =
      Some (ic', reader_pool\<lparr>stack_pool := ?taken, heap_pool := ?taken\<rparr>, Ok (m, ?stack, ?heap))"
    unfolding provision_def reader_config option.case Let_def paid prod.case result.case sizes(3) reader_pool_gets
    by (simp add: mem hm'_def)
  then show thesis by (rule that) (use m(2,3) in \<open>simp_all add: ic'_def\<close>)
qed

lemma reader_insn: "get_insn_unchecked reader_code 0 = Some \<lparr>ptr = 0, opc = 0x71, dst = 0, src = 1, off = 97, imm = 0\<rparr>"
  by code_simp

lemma reader_loads:
  assumes "registers m ! 1 = MM_INPUT_START" "length (registers m) = 12" "compute_meter (context_object_pointer m) = 1400000"
  shows "(MM_INPUT_START + 97, 1) \<in> set (program_loads (Suc n) (syscall_env se) m reader_exe)"
proof -
  let ?m = "start_program (syscall_env se) m reader_exe"
  have entry: "get_entrypoint_instruction_offset reader_exe = 0"
    by (simp add: get_entrypoint_instruction_offset_def reader_exe_def)
  have m: "registers ?m ! 1 = MM_INPUT_START" "registers ?m ! 11 = 0" "due_insn_count ?m = 0" "previous_instruction_meter ?m = 1400000"
    using assms by (simp_all add: start_program_def entry ic_get_remaining_def)
  obtain s where s: "new_interpreter ?m reader_exe (registers ?m) = Some s" "vm s = ?m" "reg s = registers ?m"
    "program s = reader_code" "executable s = reader_exe"
    by (simp add: new_interpreter_def reader_text)
  let ?insn = "\<lparr>ptr = 0, opc = 0x71, dst = 0, src = 1, off = 97, imm = 0\<rparr> :: Insn"
  have "length reader_code = 16" by (simp add: reader_code_def)
  then have "fetched default_Config s = Some ?insn" by (simp add: fetched_def s m reader_insn)
  then have "issued_load default_Config s = [(MM_INPUT_START + 97, 1)]"
    using m(1) by (simp add: issued_load_def s reader_version load_width_def opcode_values move_memory_instruction_classes_def)
  then show ?thesis by (simp add: program_loads_def Let_def reader_config s(1))
qed

lemma reader_apart:
  assumes "same_contents (accounts sample_ser_tc) ta" "memory_ptr params = 0x1000" "length (as_slice params) \<le> 20000"
  shows "apart (segments reader_host reader_exe ta params (memory_at 0x100000 full_stack) (memory_at 0x200000 full_heap))"
proof -
  have "accounts_len (accounts sample_ser_tc) = 2" "view_data (view_at (accounts sample_ser_tc) 0) = []"
    "view_data (view_at (accounts sample_ser_tc) 1) = [1, 2, 3]"
    by (simp_all add: sample_ser_simps)
  then have "accounts_len ta = 2" "view_data (view_at ta 0) = []" "view_data (view_at ta 1) = [1, 2, 3]"
    using assms(1) unfolding same_contents_def content_def by auto
  then have data: "map (\<lambda>i. (data_at reader_host i, view_data (view_at ta i))) [0..<accounts_len ta] =
      [(0x900000, []), (0xa00000, [1, 2, 3])]"
    by (simp add: upt_rec reader_host_def)
  have len: "length (as_slice (memory_at p full_stack)) = 262144" "length (as_slice (memory_at p full_heap)) = 262144" for p
    by (simp_all add: memory_at_facts STACK_FRAME_SIZE_def MAX_CALL_DEPTH_def MAX_HEAP_FRAME_BYTES_def)
  have at: "memory_ptr (memory_at p full_stack) = p" "memory_ptr (memory_at p full_heap) = p" for p
    by (simp_all add: memory_at_facts STACK_FRAME_SIZE_def MAX_CALL_DEPTH_def MAX_HEAP_FRAME_BYTES_def)
  have "ro_at reader_host = 0x800000" "length reader_code = 16" by (simp_all add: reader_host_def reader_code_def)
  then show ?thesis
    using assms(3) unfolding segments_def data reader_ro assms(2) at by (simp add: len)
qed

section \<open>Properties\<close>

text \<open>
  C3: an execution ends with a result.  For a verified program and a current instruction whose accounts are free, one
  step per compute unit, and one, is enough: \<open>execute\<close> neither runs on nor panics, whatever the program does.  The
  memory pool can serve the next execution, and the context's list of forbidden accesses has grown by entries among
  which are all loads of the program that touch a watched range, in order.
\<close>

theorem execution_ends:
  assumes "callable h ic ins" "runnable exe cfg" "low_host h" "usable_pool pool"
  shows "let fuel = Suc (unat (ic_get_remaining ic)) in
    \<exists>ic' pool' hm' res reported.
      execute fuel h (syscall_env se) pool hm exe ic = Some (Some (ic', pool', hm', res)) \<and> usable_pool pool'
      \<and> forbidden_memory_accesses ic' = forbidden_memory_accesses ic @ reported
      \<and> (case started h pool hm exe ic ins of
           None \<Rightarrow> reported = []
         | Some (m, _) \<Rightarrow>
             subseq (filter (forbidden (mapping_watched (memory_mapping m))) (program_loads fuel (syscall_env se) m exe)) reported)"
  unfolding Let_def
proof (rule execute_outcome [OF assms, of se hm], goal_cases)
  case (1 ic' pool' hm' res)
  then show ?case by (cases "started h pool hm exe ic ins") fastforce+
qed

theorem execution_ends_witness:
  "\<exists>ic' pool' hm' res. execute (Suc (unat (ic_get_remaining reader_ic))) reader_host (syscall_env sample_se) reader_pool (\<lambda>_. 0)
     reader_exe reader_ic = Some (Some (ic', pool', hm', res)) \<and> usable_pool pool'"
  using execution_ends [OF reader_callable reader_runnable reader_low reader_pool_usable, of sample_se "\<lambda>_. 0"]
  unfolding Let_def by blast

text \<open>
  C1: a program that reads a forbidden byte is reported.  The first account of the instruction that is the instructions
  sysvar has its data at the guest address that serialization recorded, and there the program sees those bytes.  If a
  load of the program covers byte \<open>k\<close> of the data and \<open>k\<close> lies in a forbidden range, then that load is in the list of
  forbidden accesses when the execution ends.
\<close>

theorem forbidden_sysvar_read_detected:
  assumes "callable h ic ins" "runnable exe cfg" "low_host h" "usable_pool pool" "enable_address_translation cfg"
    and "serialized_for h ic ins = Some (tc, Ok (params, rs, metas, ofs))"
    and "started h pool hm exe ic ins = Some (m, segs)" "apart segs"
    and "i < length (instruction_accounts ins)" "named_key (transaction_context ic) ins i = Ok (instructions_id (h_sdk h))"
    and "\<forall>j < i. named_key (transaction_context ic) ins j \<noteq> Ok (instructions_id (h_sdk h))"
    and "r \<in> set (forbidden_sysvar_data_ranges ic)" "unat (range_start r) \<le> k" "k < unat (range_end r)"
    and "unat (vm_data_addr (metas ! i)) + unat (range_end r) < 2 ^ 64"
    and "(a, n) \<in> set (program_loads (Suc (unat (ic_get_remaining ic))) (syscall_env se) m exe)"
    and "unat a \<le> unat (vm_data_addr (metas ! i)) + k" "unat (vm_data_addr (metas ! i)) + k < unat a + unat n"
  shows "data_visible (host m) rs (vm_data_addr (metas ! i)) (get_data (accounts (transaction_context ic)) (borrowed_account ins i))
    \<and> (\<exists>ic' pool' hm' res. execute (Suc (unat (ic_get_remaining ic))) h (syscall_env se) pool hm exe ic =
          Some (Some (ic', pool', hm', res)) \<and> (a, n) \<in> set (forbidden_memory_accesses ic'))"
proof
  note f = started_facts [OF assms(1-4,7,6)]
  obtain stack heap where segs: "segs = segments h exe (accounts tc) params stack heap" using f(2) by blast
  obtain ta where ta: "same_contents (accounts (transaction_context ic)) (accounts tc)"
    "\<And>hm i. memory_ready hm (data_addresses h) (accounts (transaction_context ic)) params \<Longrightarrow>
       i < length (instruction_accounts ins) \<Longrightarrow>
       data_visible hm rs (vm_data_addr (metas ! i)) (get_data (accounts (transaction_context ic)) (borrowed_account ins i))"
    by (rule callable_serialized [OF assms(1,3)]) (use assms(6) that in auto)
  show "data_visible (host m) rs (vm_data_addr (metas ! i)) (get_data (accounts (transaction_context ic)) (borrowed_account ins i))"
    using ta(2) [OF placed_ready assms(9)] ta(1) assms(8) segs f(1) by simp
  let ?base = "vm_data_addr (metas ! i)"
  let ?r = "mk_range (?base + range_start r) (?base + range_end r)"
  note t = sysvar_range_touched [OF assms(13-15,17,18)]
  have "?r \<in> set (mapping_watched (memory_mapping m))"
    using f(3) [OF assms(5)] watched_sysvar [OF assms(1,3,6,9-11)] assms(12) t(1) by auto
  with t(2) have "forbidden (mapping_watched (memory_mapping m)) (a, n)"
    by (auto simp: forbidden_def reads_forbidden_def)
  then have load: "(a, n) \<in> set (filter (forbidden (mapping_watched (memory_mapping m)))
      (program_loads (Suc (unat (ic_get_remaining ic))) (syscall_env se) m exe))"
    using assms(16) by simp
  show "\<exists>ic' pool' hm' res. execute (Suc (unat (ic_get_remaining ic))) h (syscall_env se) pool hm exe ic =
      Some (Some (ic', pool', hm', res)) \<and> (a, n) \<in> set (forbidden_memory_accesses ic')"
  proof (rule execute_outcome [OF assms(1-4), of se hm], goal_cases)
    case (1 ic' pool' hm' res)
    obtain reported where "forbidden_memory_accesses ic' = forbidden_memory_accesses ic @ reported"
      "subseq (filter (forbidden (mapping_watched (memory_mapping m)))
        (program_loads (Suc (unat (ic_get_remaining ic))) (syscall_env se) m exe)) reported"
      using 1(4) [OF assms(7)] by blast
    with load have "(a, n) \<in> set (forbidden_memory_accesses ic')"
      by (auto dest: list_emb_set)
    with 1(1) show ?case by blast
  qed
qed

theorem forbidden_sysvar_read_detected_witness:
  "\<exists>ic' pool' hm' res. execute (Suc (unat (ic_get_remaining reader_ic))) reader_host (syscall_env sample_se) reader_pool (\<lambda>_. 0)
     reader_exe reader_ic = Some (Some (ic', pool', hm', res))
     \<and> (MM_INPUT_START + 97, 1) \<in> set (forbidden_memory_accesses ic')"
proof (rule reader_serialized, goal_cases)
  case (1 ta params r metas ofs)
  obtain m ic' pool' where m: "provision reader_host reader_exe params [r] metas (reader_ic\<lparr>transaction_context := reader_tc\<lparr>accounts := ta\<rparr>\<rparr>)
      reader_pool (\<lambda>_. 0) = Some (ic', pool', Ok (m, memory_at 0x100000 full_stack, memory_at 0x200000 full_heap))"
    "length (registers m) = 12" "compute_meter (context_object_pointer m) = 1400000"
    by (rule reader_provision [OF 1(3)])
  let ?w = "forbidden_vm_ranges (h_sdk reader_host) (reader_ic\<lparr>transaction_context := reader_tc\<lparr>accounts := ta\<rparr>\<rparr>)
    (reader_tc\<lparr>accounts := ta\<rparr>) sample_ser_ic metas"
  let ?segs = "segments reader_host reader_exe ta params (memory_at 0x100000 full_stack) (memory_at 0x200000 full_heap)"
  have started: "started reader_host reader_pool (\<lambda>_. 0) reader_exe reader_ic sample_ser_ic = Some (launch ?w ofs m, ?segs)"
    using 1(1) m(1) by (simp add: started_def)
  have loads: "(MM_INPUT_START + 97, 1) \<in> set (program_loads (Suc n) (syscall_env sample_se) (launch ?w ofs m) reader_exe)" for n
    by (rule reader_loads) (use m(2,3) in \<open>auto simp: launch_def set_start_registers_def add_watched_memory_ranges_def on_tracker_def Let_def\<close>)
  have sysvar: "0 < length (instruction_accounts sample_ser_ic)"
    "named_key (transaction_context reader_ic) sample_ser_ic 0 = Ok (instructions_id (h_sdk reader_host))"
    by (simp_all add: named_key_def get_index_of_instruction_account_in_transaction_def get_key_of_account_at_index_def
        account_key_def nth_get_def ok_or_def reader_host_def sample_ser_simps)
  show ?case
    using forbidden_sysvar_read_detected [OF reader_callable reader_runnable reader_low reader_pool_usable _ 1(1) started
        reader_apart [OF 1(2,5,6)] sysvar _ _ _ _ _ loads, of "mk_range 1 3" 1] 1(4)
    by (simp add: default_Config_def)
qed

end
