(* ===== verification/Memory_Frame.thy ===== *)
theory Memory_Frame
  imports Syscall_Effects
begin

text \<open>
  Host memory that a program cannot change.  A store, of the interpreter or of a system call, goes
  through a writable region; so memory that the mapping keeps away from writable regions is the same
  when the program has ended.
\<close>

section \<open>Translated addresses\<close>

abbreviation (input) clear_of :: "u64 set \<Rightarrow> u64 \<Rightarrow> nat \<Rightarrow> bool" where
  "clear_of X p n \<equiv> bytes_at p n \<inter> X = {}"

definition same_on :: "u64 set \<Rightarrow> host_memory \<Rightarrow> host_memory \<Rightarrow> bool" where
  "same_on X mem mem' \<longleftrightarrow> (\<forall>x \<in> X. mem' x = mem x)"

lemma same_on_refl [simp]: "same_on X mem mem"
  by (simp add: same_on_def)

lemma same_on_trans: "same_on X a b \<Longrightarrow> same_on X b c \<Longrightarrow> same_on X a c"
  by (simp add: same_on_def)

lemma same_on_write: "clear_of X p (length bs) \<Longrightarrow> same_on X mem (write_bytes mem p bs)"
  unfolding same_on_def by (intro ballI write_bytes_other) (auto simp: bytes_at_def)

lemma clear_of_mono: "clear_of X p n \<Longrightarrow> k \<le> n \<Longrightarrow> clear_of X p k"
  by (force simp: bytes_at_def)

lemma clear_of_0 [simp]: "clear_of X p 0"
  by (simp add: bytes_at_def)

lemma bytes_at_within:
  assumes "unat p \<le> unat h" "unat h + n \<le> unat p + k"
  shows "bytes_at h n \<subseteq> bytes_at p k"
proof
  fix x assume "x \<in> bytes_at h n"
  then obtain i where i: "i < n" "x = h + of_nat i" by (auto simp: bytes_at_def)
  have "unat (h - p) = unat h - unat p" using assms(1) by (intro unat_sub) (simp add: word_le_nat_alt)
  then have "of_nat (unat h - unat p) = h - p" by (metis of_nat_unat ucast_id)
  then have "x = p + of_nat (unat h - unat p + i)" by (simp add: i(2))
  moreover have "unat h - unat p + i < k" using assms i(1) by linarith
  ultimately show "x \<in> bytes_at p k" unfolding bytes_at_def by blast
qed

lemma region_store_clear:
  assumes "spares X m" "mapping_inv m" "fst (find_region m a) = Some (i, r)" "vm_to_host r Store a n = Some h"
  shows "clear_of X h (unat n)"
proof -
  have l: "lookup_inv m" "list_all region_wf (get_regions m)" using assms(2) by (auto simp: mapping_inv_def list_all_iff region_ok_wf)
  note safe = mapping.lookup_safe [OF l assms(3,4)]
  have "clear_of X (host_addr r) (unat (len r))"
    using spares_region [OF assms(1) mapping.lookup_mem [OF l(1) assms(3)]] safe(3) by simp
  then show ?thesis using bytes_at_within [OF safe(1,2)] by auto
qed

lemma spares_not_identity: "spares X m \<Longrightarrow> m \<noteq> Identity"
  by (auto simp: spares_def)

lemma mapped_store_clear:
  assumes "spares X m" "mapping_ok m"
  shows "map_with_access_violation_handler m Store a n = (Ok h :: 'x ProgramResult, m') \<Longrightarrow> clear_of X h (unat n)"
    and "map_memory m Store a n = (Ok h :: 'x ProgramResult, m') \<Longrightarrow> clear_of X h (unat n)"
proof -
  have inv: "mapping_inv m" "mapping_handler_ok m" "lookup_inv m" "m \<noteq> Identity"
    using assms spares_not_identity by (auto simp: mapping_ok_def mapping_inv_def)
  show "clear_of X h (unat n)" if m: "map_with_access_violation_handler m Store a n = (Ok h :: 'x ProgramResult, m')"
  proof -
    have "spares X m'" using map_with_handler_follows [OF inv(1,2), of Store a n, where ?'x = 'x] m assms(1) by (simp add: accounts_follow_def)
    moreover have "mapping_inv m'" "\<exists>i r. fst (find_region m' a) = Some (i, r) \<and> vm_to_host r Store a n = Some h"
      using map_with_handler_spec [OF inv(1,2,4) m] by auto
    ultimately show ?thesis using region_store_clear by blast
  qed
  show "clear_of X h (unat n)" if m: "map_memory m Store a n = (Ok h :: 'x ProgramResult, m')"
  proof -
    obtain f m1 where f: "find_region m a = (f, m1)" by (cases "find_region m a")
    have "m1 \<noteq> Identity" using find_region_identity [OF inv(3), of a] inv(4) f by simp
    then obtain c where c: "common_of m1 = Some c" by (cases m1) auto
    then obtain i r where r: "f = Some (i, r)" "vm_to_host r Store a n = Some h"
      using m f generate_access_violation_Err [of c Store a n, where ?'a = 'x]
      by (auto simp: map_memory_def Let_def split: option.splits)
    show ?thesis by (rule region_store_clear [OF assms(1) inv(1) _ r(2)]) (use f r(1) in simp)
  qed
qed

lemma store_same_on:
  assumes "spares X m" "mapping_ok m" "n \<le> 8"
  shows "same_on X mem (snd (snd (store n mem m x a :: 'x ProgramResult \<times> MemoryMapping \<times> host_memory)))"
proof -
  obtain res m' where r: "map_with_access_violation_handler m Store a (of_nat n) = (res :: 'x ProgramResult, m')" by (rule prod.exhaust)
  have n: "unat (of_nat n :: u64) = n" using assms(3) by (simp only: unat_of_nat) simp
  show ?thesis
  proof (cases res)
    case (Ok h)
    then have "clear_of X h n" using mapped_store_clear(1) [OF assms(1,2)] r n by metis
    then show ?thesis using r Ok assms(3) by (auto simp: store_def intro!: same_on_write)
  qed (use r in \<open>simp add: store_def\<close>)
qed

section \<open>Runs\<close>

locale sparing_builtins = reading_builtins env for env :: "('c, 'f, 'x) Env" +
  assumes rust_spares:
    "mapping_ok mm \<Longrightarrow> spares X mm \<Longrightarrow> rust env f c args mm mem = (res, c', mm', mem') \<Longrightarrow> same_on X mem mem'"
begin

lemma effect_spares:
  assumes "log_inv cfg s" "spares X (memory_mapping (vm s))" "insn_effect env s insn s'"
  shows "same_on X (host (vm s)) (host (vm s'))"
proof -
  have ok: "mapping_ok (memory_mapping (vm s))" and cfg: "get_config (vm_loader (vm s)) = Some cfg"
    using assms(1) by (simp_all add: log_inv_def)
  consider "host (vm s') = host (vm s)" | n where "n \<in> {1, 2, 4, 8}" "stored n s s'" | "dispatched env s s'"
    using assms(3) by (auto simp: insn_effect_def same_all_def same_world_def split: option.splits)
  then show ?thesis
  proof cases
    case (2 n)
    then obtain x a where "host (vm s') = snd (snd (store n (host (vm s)) (memory_mapping (vm s)) x a :: 'x ProgramResult \<times> _))"
      unfolding stored_def by (metis snd_conv)
    moreover have "n \<le> 8" using 2(1) by auto
    ultimately show ?thesis using store_same_on [OF assms(2) ok, where ?'x = 'x] by simp
  next
    case 3
    then obtain f res t where d: "dispatch_syscall env f s = Some (res, t)" "same_all t s'" by (auto simp: dispatched_def)
    obtain ctx args res' ctx' mm m' where m':
      "rust env f ctx args (memory_mapping (vm s)) (host (vm s)) = (res', ctx', mm, host m')" "t = s\<lparr>vm := m'\<rparr>"
      by (rule dispatch_spec [OF cfg, of env f]) (use d(1) in auto)
    then show ?thesis using rust_spares [OF ok assms(2) m'(1)] d(2) by (simp add: same_defs)
  qed simp
qed

lemma step_spares:
  assumes inv: "log_inv cfg s" and sp: "spares X (memory_mapping (vm s))" and step: "step env s = Running s' \<or> step env s = Halted s'"
  shows "log_inv cfg s' \<and> spares X (memory_mapping (vm s')) \<and> same_on X (host (vm s)) (host (vm s'))"
proof -
  have cfg: "exe_get_config (executable s) = Some cfg" using inv by (simp add: log_inv_def)
  have next_ok: "log_inv cfg s'" "spares X (memory_mapping (vm s'))"
    using step_log [OF inv step] sp by (auto simp: log_grows_def accounts_follow_def)
  have "same_on X (host (vm s)) (host (vm s'))"
  proof (cases "fetched cfg s")
    case None
    then obtain t err where "s' = throw_error t err" "t \<in> {s, counted s}"
      using step_fetched [where env = env, OF cfg] step by auto
    then show ?thesis by (auto simp: throw_error_def counted_def)
  next
    case (Some insn)
    then have "insn_effect env (entered cfg s) insn s'"
      using step_fetched [where env = env, OF cfg] step
        execute_insn_effect [where env = env and cfg = cfg and s = "entered cfg s" and insn = insn]
      by auto
    from effect_spares [OF _ _ this, of cfg X] show ?thesis using inv sp by (simp add: log_inv_def)
  qed
  with next_ok show ?thesis by simp
qed

lemma run_spares:
  "log_inv cfg s \<Longrightarrow> spares X (memory_mapping (vm s)) \<Longrightarrow> run fuel env s = Some (Halted s') \<Longrightarrow>
     same_on X (host (vm s)) (host (vm s'))"
proof (induction fuel arbitrary: s)
  case (Suc fuel)
  show ?case
  proof (cases "step env s")
    case (Running t)
    then have t: "log_inv cfg t" "spares X (memory_mapping (vm t))" "same_on X (host (vm s)) (host (vm t))"
      using step_spares [OF Suc.prems(1,2), of t] by simp_all
    moreover have "run fuel env t = Some (Halted s')" using Running Suc.prems(3) by simp
    ultimately show ?thesis using same_on_trans [OF t(3)] Suc.IH [OF t(1,2)] by simp
  next
    case (Halted t)
    then show ?thesis using step_spares [OF Suc.prems(1,2), of t] Suc.prems(3) by simp
  qed (use Suc.prems in simp)
qed simp

lemma execute_spares:
  assumes "exe_get_config exe = Some cfg" "get_config (vm_loader m) = Some cfg"
    and "execute_program fuel env m exe = Some (Some (count, res, m'))" "mapping_ok (memory_mapping m)"
    and "spares X (memory_mapping m)"
  shows "same_on X (host m) (host m')"
  by (rule execute_program_cases [OF assms(1-4)]) (use assms(5) run_spares in metis)

end

section \<open>System calls\<close>

text \<open>
  A part of a system call, started in \<open>s\<close>, leaves the memory \<open>X\<close> alone, and its result, if it has
  one, satisfies \<open>P\<close>.
\<close>

definition sys_safe :: "u64 set \<Rightarrow> SysState \<Rightarrow> SysState \<Rightarrow> bool" where
  "sys_safe X s t \<longleftrightarrow>
     mapping_ok (sys_mapping s) \<and> spares X (sys_mapping s) \<longrightarrow>
       mapping_ok (sys_mapping t) \<and> spares X (sys_mapping t) \<and> same_on X (sys_mem s) (sys_mem t)"

definition sys_spares :: "u64 set \<Rightarrow> SysState \<Rightarrow> ('a \<Rightarrow> bool) \<Rightarrow> 'a sys \<Rightarrow> bool" where
  "sys_spares X s P p \<longleftrightarrow>
     sys_safe X s (fst p)
     \<and> (mapping_ok (sys_mapping s) \<and> spares X (sys_mapping s) \<longrightarrow> (\<forall>x. snd p = Ok x \<longrightarrow> P x))"

named_theorems spare_rules

lemma safe_refl [spare_rules]: "sys_safe X s s"
  by (simp add: sys_safe_def)

lemma safe_trans: "sys_safe X s t \<Longrightarrow> sys_safe X t u \<Longrightarrow> sys_safe X s u"
  using same_on_trans by (auto simp: sys_safe_def)

lemma safe_put [spare_rules]: "clear_of X h (length bs) \<Longrightarrow> sys_safe X s t \<Longrightarrow> sys_safe X s (put_bytes t h bs)"
  using same_on_trans [OF _ same_on_write] by (auto simp: sys_safe_def put_bytes_def)

lemma safe_put_sized [spare_rules]: "clear_of X h n \<Longrightarrow> sys_safe X s t \<Longrightarrow> sys_safe X s (put_sized t h n bs)"
  unfolding put_sized_def by (rule safe_put) (simp_all add: clear_of_mono [of h n X])

lemma safe_on_ic [spare_rules]: "sys_safe X s (on_ic f s)" "sys_safe X s (s\<lparr>sys_ic := ic\<rparr>)"
  by (simp_all add: sys_safe_def on_ic_def)

lemma spares_Ok [spare_rules]: "sys_safe X s t \<Longrightarrow> P x \<Longrightarrow> sys_spares X s P (t, Ok x)"
  by (simp add: sys_spares_def)

lemma spares_Err [spare_rules]: "sys_safe X s t \<Longrightarrow> sys_spares X s P (t, Err e)"
  by (simp add: sys_spares_def)

lemma spares_try [spare_rules]:
  assumes "sys_spares X s P p" "\<And>t x. P x \<Longrightarrow> sys_spares X t Q (k t x)"
  shows "sys_spares X s Q (try_then p k)"
proof (cases p)
  case (Pair t r)
  then show ?thesis using assms safe_trans [of X s t] by (cases r) (auto simp: sys_spares_def sys_safe_def)
qed

lemma spares_prod [spare_rules]: "(\<And>a b. x = (a, b) \<Longrightarrow> sys_spares X s P (f a b)) \<Longrightarrow> sys_spares X s P (case x of (a, b) \<Rightarrow> f a b)"
  by (cases x) simp

lemma spares_if [spare_rules]:
  "(b \<Longrightarrow> sys_spares X s P p) \<Longrightarrow> (\<not> b \<Longrightarrow> sys_spares X s P q) \<Longrightarrow> sys_spares X s P (if b then p else q)"
  by simp

lemma spares_result [spare_rules]:
  "(\<And>x. sys_spares X s P (f x)) \<Longrightarrow> (\<And>e. sys_spares X s P (g e)) \<Longrightarrow> sys_spares X s P (case r of Ok x \<Rightarrow> f x | Err e \<Rightarrow> g e)"
  by (cases r) simp_all

lemma spares_option [spare_rules]:
  "sys_spares X s P p \<Longrightarrow> (\<And>x. sys_spares X s P (f x)) \<Longrightarrow> sys_spares X s P (case r of None \<Rightarrow> p | Some x \<Rightarrow> f x)"
  by (cases r) simp_all

lemma spares_let [spare_rules]: "(\<And>x. sys_spares X s P (f x)) \<Longrightarrow> sys_spares X s P (let x = e in f x)"
  by simp

lemma spares_weaken: "sys_spares X s P p \<Longrightarrow> (\<And>x. P x \<Longrightarrow> Q x) \<Longrightarrow> sys_spares X s Q p"
  by (simp add: sys_spares_def)

text \<open>What reads or maps memory without writing it is safe by the laws that system calls keep.\<close>

lemma spares_kept:
  assumes "sys_keeps silent s p" "sys_mem (fst p) = sys_mem s"
    and "\<And>x. mapping_ok (sys_mapping s) \<Longrightarrow> spares X (sys_mapping s) \<Longrightarrow> snd p = Ok x \<Longrightarrow> P x"
  shows "sys_spares X s P p"
  using assms by (auto simp: sys_spares_def sys_safe_def sys_keeps_def sys_kept_def log_grows_def accounts_follow_def)

lemma spares_consume [spare_rules]: "sys_spares X s (\<lambda>_. True) (consume_compute_meter s n)"
  by (rule spares_kept [OF keeps_consume [of False]])
    (simp_all add: consume_compute_meter_def consume_checked_def Let_def split: prod.splits)

lemma spares_touch_inner [spare_rules]: "sys_spares X s (\<lambda>_. True) (touch_inner s a n)"
  by (rule spares_kept [OF keeps_touch_inner [of False]]) (auto simp: touch_inner_def split: prod.splits result.splits)

lemma spares_load_inner [spare_rules]: "sys_spares X s (\<lambda>_. True) (translate_inner s Load a n)"
  by (rule spares_kept [OF keeps_translate_inner(1)]) (auto simp: translate_inner_def split: prod.splits result.splits)

lemma spares_store_inner [spare_rules]: "sys_spares X s (\<lambda>h. clear_of X h (unat n)) (translate_inner s Store a n)"
proof (rule spares_kept [OF keeps_translate_inner(2) [of False]])
  fix h assume "mapping_ok (sys_mapping s)" "spares X (sys_mapping s)" "snd (translate_inner s Store a n) = Ok h"
  then show "clear_of X h (unat n)"
    using mapped_store_clear(2) [of X "sys_mapping s" a n h, where ?'x = BoxedError]
    by (cases "map_memory (sys_mapping s) Store a n :: BoxedError ProgramResult \<times> _")
      (auto simp: translate_inner_def split: result.splits)
qed (auto simp: translate_inner_def split: prod.splits result.splits)

section \<open>Translations of system calls\<close>

lemma spares_type_inner [spare_rules]:
  "sys_spares X s (\<lambda>_. True) (translate_type_inner s Load a T c)"
  "sys_spares X s (\<lambda>h. clear_of X h (unat (size_of T))) (translate_type_inner s Store a T c)"
  unfolding translate_type_inner_def by (rule spare_rules TrueI | assumption)+

lemma spares_slice_inner [spare_rules]:
  "sys_spares X s (\<lambda>sl. snd sl = unat n) (translate_slice_inner s Load a n T c)"
  "sys_spares X s (\<lambda>sl. clear_of X (fst sl) (unat (saturating_mul n (size_of T)))) (translate_slice_inner s Store a n T c)"
  unfolding translate_slice_inner_def Let_def
  by (rule spare_rules TrueI | simp add: saturating_mul_def)+

lemma spares_translate [spare_rules]:
  "sys_spares X s (\<lambda>_. True) (translate_type s a T c)"
  "sys_spares X s (\<lambda>sl. snd sl = unat n) (translate_slice s a n T c)"
  "sys_spares X s (\<lambda>h. clear_of X h (unat (size_of T))) (translate_type_mut s a T c)"
  "sys_spares X s (\<lambda>sl. clear_of X (fst sl) (unat (saturating_mul n (size_of T)))) (translate_slice_mut s a n T c)"
  "sys_spares X s (\<lambda>sl. snd sl = unat (vs_len v)) (translate_vm_slice s v T c)"
  unfolding translate_type_def translate_slice_def translate_type_mut_def translate_slice_mut_def
    translate_vm_slice_def by (rule spares_type_inner spares_slice_inner)+

fun mut_size :: "MutRef \<Rightarrow> nat" where
  "mut_size (MutType addr T) = unat (size_of T)"
| "mut_size (MutSlice addr n T) = unat (saturating_mul n (size_of T))"

lemma spares_touch_mut [spare_rules]: "sys_spares X s (\<lambda>_. True) (touch_mut s r)"
  by (cases r) (auto simp: touch_type_mut_def touch_slice_mut_def intro!: spare_rules)

lemma spares_bind_mut [spare_rules]: "sys_spares X s (\<lambda>b. clear_of X (fst b) (mut_size r)) (bind_mut s c r)"
  by (cases r) (simp_all only: bind_mut.simps mut_size.simps,
      (rule spares_try, rule spares_translate, (rule spares_prod)?, rule spares_Ok [OF safe_refl], simp)+)

lemma spares_touch_all [spare_rules]: "sys_spares X s (\<lambda>_. True) (touch_all s rs)"
  by (induction rs arbitrary: s) (auto intro!: spare_rules)

lemma spares_bind_all [spare_rules]:
  "sys_spares X s (\<lambda>bs. list_all2 (\<lambda>r b. clear_of X (fst b) (mut_size r)) rs bs) (bind_all s c rs)"
proof (induction rs arbitrary: s)
  case (Cons r rs)
  show ?case unfolding bind_all.simps
    by (rule spares_try, rule spares_bind_mut, rule spares_try, rule Cons.IH, rule spares_Ok [OF safe_refl]) simp
qed (simp add: spares_Ok safe_refl)

lemma spares_translate_mut [spare_rules]:
  "sys_spares X s (\<lambda>hs. list_all2 (\<lambda>r h. clear_of X h (mut_size r)) rs hs) (translate_mut s c rs)"
  unfolding translate_mut_def
  by (rule spares_try, rule spares_touch_all, rule spares_try, rule spares_bind_all, intro spare_rules)
    (simp add: list_all2_conv_all_nth)

lemma spares_string [spare_rules]:
  "(\<And>s str. sys_spares X s (\<lambda>_. True) (work s str)) \<Longrightarrow> sys_spares X s (\<lambda>_. True) (translate_string_and_do s a n c work)"
  unfolding translate_string_and_do_def by (rule spare_rules | assumption)+

lemma spares_hash_slices [spare_rules]: "sys_spares X s (\<lambda>_. True) (hash_slices s c cost vs)"
  by (induction vs arbitrary: s) (auto simp only: hash_slices.simps intro!: spare_rules)

lemma spares_seed_bytes [spare_rules]: "sys_spares X s (\<lambda>_. True) (seed_bytes se s c vs)"
  by (induction vs arbitrary: s) (auto simp only: seed_bytes.simps intro!: spare_rules)

lemma spares_fields [spare_rules]: "sys_spares X s (\<lambda>_. True) (translate_fields s c vs)"
  by (induction vs arbitrary: s) (auto simp only: translate_fields.simps intro!: spare_rules)

lemma spares_address_inputs [spare_rules]:
  "sys_spares X s (\<lambda>_. True) (translate_and_check_program_address_inputs se s a n p c)"
  unfolding translate_and_check_program_address_inputs_def by (rule spare_rules TrueI)+

section \<open>Every system call leaves it alone\<close>

lemma spares_bump_seeds [spare_rules]:
  "sys_spares X s (\<lambda>_. True) (try_bump_seeds n se s seeds p cost a b bump)"
proof (induction n arbitrary: s bump)
  case (Suc n)
  show ?case unfolding try_bump_seeds.simps
    by (rule spare_rules TrueI Suc.IH | (clarsimp simp: list_all2_Cons1 of_u8_def saturating_mul_def; fail))+
qed (simp add: spares_Ok safe_refl)

lemma spares_alloc_free: "sys_spares X s (\<lambda>_. True) (SyscallAllocFree se s sz fa)"
  unfolding SyscallAllocFree_def Let_def by (rule spare_rules TrueI)+

lemma spares_set_return_data: "sys_spares X s (\<lambda>_. True) (SyscallSetReturnData se s a n)"
  unfolding SyscallSetReturnData_def Let_def
  by (rule spare_rules TrueI spares_try [where P = "\<lambda>_. True"])+

lemma spares_mem_op [spare_rules]: "sys_spares X s (\<lambda>_. True) (mem_op_consume s n)"
  unfolding mem_op_consume_def by (rule spare_rules)

lemma mul_of_u8 [simp]: "saturating_mul n (size_of of_u8) = n"
  using unsigned_less [of n, where 'a = nat] by (simp add: saturating_mul_def of_u8_def)

lemma slice_bytes_length [simp]: "length (slice_bytes s sl) = snd sl"
  by (simp add: slice_bytes_def read_bytes_def)

lemma spares_memmove [spare_rules]: "sys_spares X s (\<lambda>_. True) (memmove se s d a n)"
  unfolding memmove_def by (rule spare_rules TrueI | (clarsimp simp: list_all2_Cons1; fail))+

lemma spares_memset: "sys_spares X s (\<lambda>_. True) (SyscallMemset se s a c n)"
  unfolding SyscallMemset_def by (rule spare_rules TrueI | (clarsimp simp: list_all2_Cons1; fail))+

lemma spares_memcmp: "sys_spares X s (\<lambda>_. True) (SyscallMemcmp se s a b n r)"
  unfolding SyscallMemcmp_def by (rule spare_rules TrueI | (clarsimp simp: list_all2_Cons1 of_i32_def; fail))+

lemma spares_get_return_data: "sys_spares X s (\<lambda>_. True) (SyscallGetReturnData se s a n p)"
  unfolding SyscallGetReturnData_def
  by (rule spare_rules TrueI | (clarsimp simp: list_all2_Cons1 of_Pubkey_def; fail))+

lemma spares_hash: "sys_spares X s (\<lambda>_. True) (SyscallHash se h s a n r)"
  unfolding SyscallHash_def
  by (rule spare_rules TrueI | (clarsimp simp: list_all2_Cons1; fail))+

lemma spares_syscall: "sys_spares X s (\<lambda>_. True) (syscall se f s args)"
proof -
  note defs = SyscallAbort_def SyscallPanic_def SyscallMemcpy_def SyscallMemmove_def
    SyscallLog_def SyscallLogU64_def SyscallLogBpfComputeUnits_def SyscallLogPubkey_def SyscallLogData_def
    SyscallGetStackHeight_def SyscallRemainingComputeUnits_def SyscallGetEpochStake_def
    SyscallCreateProgramAddress_def SyscallTryFindProgramAddress_def
  show ?thesis
    by (cases f; simp only: syscall.simps spares_alloc_free spares_set_return_data spares_get_return_data
          spares_memset spares_memcmp spares_hash;
        unfold defs; (rule spare_rules TrueI | (clarsimp simp: list_all2_Cons1; fail))+)
qed

interpretation sys_sparing: sparing_builtins "syscall_env se" for se
proof
  fix X f c args mem res c' mem' and mm mm' :: MemoryMapping
  assume r: "rust (syscall_env se) f c args mm mem = (res, c', mm', mem')" and "mapping_ok mm" "spares X mm"
  let ?s = "\<lparr>sys_ic = c, sys_mapping = mm, sys_mem = mem\<rparr>"
  have "fst (syscall se f ?s args) = \<lparr>sys_ic = c', sys_mapping = mm', sys_mem = mem'\<rparr>"
    using r by (cases "fst (syscall se f ?s args)") (auto simp: syscall_env_def Let_def split: prod.splits)
  then show "same_on X mem mem'"
    using spares_syscall [of X ?s se f args] \<open>mapping_ok mm\<close> \<open>spares X mm\<close> by (simp add: sys_spares_def sys_safe_def)
qed

end
