(* ===== verification/Machine_Frame.thy ===== *)
theory Machine_Frame
  imports Detection Memory_Frame
begin

text \<open>
  What a program cannot write when account data is mapped directly.  The regions of the machine are its
  stack, its heap, the serialized parameters and the data of accounts; a region over the data of an
  account can be stored to only if the instruction lets the program change that account.  So the bytes
  of all other accounts are the same when the program has ended, whatever it does.
\<close>

section \<open>Separate buffers\<close>

lemma bytes_at_apart:
  assumes "unat p + n < 2 ^ 64" "unat q + k < 2 ^ 64" "unat p + n \<le> unat q \<or> unat q + k \<le> unat p"
  shows "clear_of (bytes_at q k) p n"
proof -
  have "unat (p + of_nat i) \<noteq> unat (q + of_nat j)" if "i < n" "j < k" for i j
    using unat_plus_offset [OF assms(1), of i] unat_plus_offset [OF assms(2), of j] assms(3) that by auto
  then have "p + of_nat i \<noteq> q + of_nat j" if "i < n" "j < k" for i j using that by metis
  then show ?thesis by (auto simp: bytes_at_def)
qed

lemma bytes_at_part: "s + n \<le> k \<Longrightarrow> bytes_at (p + of_nat s) n \<subseteq> bytes_at p k"
  by (force simp: bytes_at_def image_iff intro: bexI [of _ "s + _"])

lemma apart_bound: "apart segs \<Longrightarrow> (p, bs) \<in> set segs \<Longrightarrow> unat p + length bs < 2 ^ 64"
  by (induction segs) auto

lemma apart_parts:
  "apart (xs @ ys) \<Longrightarrow> (p, bs) \<in> set xs \<Longrightarrow> (q, cs) \<in> set ys \<Longrightarrow> clear_of (bytes_at q (length cs)) p (length bs)"
proof (induction xs)
  case (Cons x xs)
  show ?case
  proof (cases "x = (p, bs)")
    case True
    have "apart (x # xs @ ys)" using Cons.prems(1) by simp
    moreover have "unat q + length cs < 2 ^ 64" using Cons.prems by (intro apart_bound [of "x # xs @ ys"]) auto
    ultimately show ?thesis using True Cons.prems(3) by (intro bytes_at_apart) (auto simp: list_all_iff)
  next
    case False
    then show ?thesis using Cons by (cases x) auto
  qed
qed simp

section \<open>Bytes that are not to be written\<close>

text \<open>The data of the accounts that the program may not change.\<close>

definition protected_bytes :: "Host \<Rightarrow> TransactionAccounts \<Rightarrow> nat set \<Rightarrow> u64 set" where
  "protected_bytes h ta W =
     (\<Union>j \<in> {..<accounts_len ta} - W. bytes_at (data_at h j) (length (view_data (view_at ta j))))"

text \<open>
  An account that may change can grow to the largest size where it is, without reaching the data of an
  account that may not.
\<close>

definition room_to_grow :: "Host \<Rightarrow> TransactionAccounts \<Rightarrow> nat set \<Rightarrow> bool" where
  "room_to_grow h ta W \<longleftrightarrow>
     (\<forall>i \<in> W. \<forall>j \<in> {..<accounts_len ta} - W.
        unat (data_at h i) + MAX_ACCOUNT_DATA_LEN \<le> unat (data_at h j)
        \<or> unat (data_at h j) + length (view_data (view_at ta j)) \<le> unat (data_at h i))"

lemma protected_clear:
  "(\<And>j. j < accounts_len ta \<Longrightarrow> j \<notin> W \<Longrightarrow> clear_of (bytes_at (data_at h j) (length (view_data (view_at ta j)))) p n) \<Longrightarrow>
     clear_of (protected_bytes h ta W) p n"
  by (auto simp: protected_bytes_def)

lemma buffers_clear:
  assumes "apart (segments h exe ta params stack heap)" "b \<in> {params, stack, heap}"
  shows "clear_of (protected_bytes h ta W) (memory_ptr b) (length (as_slice b))"
proof (rule protected_clear)
  fix j assume j: "j < accounts_len ta"
  let ?xs = "[(memory_ptr params, as_slice params), (memory_ptr stack, as_slice stack), (memory_ptr heap, as_slice heap),
    (ro_at h, case get_ro_section exe of Some ro \<Rightarrow> ro | None \<Rightarrow> [])]"
  let ?ys = "map (\<lambda>i. (data_at h i, view_data (view_at ta i))) [0..<accounts_len ta]"
  have "apart (?xs @ ?ys)" using assms(1) by (simp add: segments_def)
  moreover have "(memory_ptr b, as_slice b) \<in> set ?xs" using assms(2) by auto
  moreover have "(data_at h j, view_data (view_at ta j)) \<in> set ?ys" using j by auto
  ultimately show "clear_of (bytes_at (data_at h j) (length (view_data (view_at ta j)))) (memory_ptr b) (length (as_slice b))"
    by (rule apart_parts)
qed

lemma growth_clear:
  assumes "room_to_grow h ta W" "low_host h" "i \<in> W" "apart (segments h exe ta params stack heap)"
  shows "clear_of (protected_bytes h ta W) (data_at h i) MAX_ACCOUNT_DATA_LEN"
proof (rule protected_clear)
  fix j assume j: "j < accounts_len ta" "j \<notin> W"
  have "(data_at h j, view_data (view_at ta j)) \<in> set (segments h exe ta params stack heap)"
    using j(1) by (auto simp: segments_def)
  then have "unat (data_at h j) + length (view_data (view_at ta j)) < 2 ^ 64" by (rule apart_bound [OF assms(4)])
  moreover have "low (data_at h i)" using assms(2) by (simp add: low_host_def)
  then have "unat (data_at h i) + MAX_ACCOUNT_DATA_LEN < 2 ^ 64" by (simp add: MAX_ACCOUNT_DATA_LEN_def)
  ultimately show "clear_of (bytes_at (data_at h j) (length (view_data (view_at ta j)))) (data_at h i) MAX_ACCOUNT_DATA_LEN"
    using assms(1,3) j by (intro bytes_at_apart) (auto simp: room_to_grow_def)
qed

section \<open>Regions\<close>

text \<open>A region through which nothing in \<open>X\<close> can be written, now or after the handler has grown it.\<close>

definition sparing :: "Host \<Rightarrow> u64 set \<Rightarrow> MemoryRegion \<Rightarrow> bool" where
  "sparing h X r \<longleftrightarrow>
     (writable r \<longrightarrow> clear_of X (host_addr r) (unat (len r)))
     \<and> (\<forall>i. access_violation_handler_payload r = Some i \<longrightarrow>
          unat (len r) \<le> MAX_ACCOUNT_DATA_LEN \<and> clear_of X (data_at h (unat i)) MAX_ACCOUNT_DATA_LEN)"

lemma account_handler_sparing:
  assumes "sparing h X r"
  shows "sparing h X (fst (account_access_violation_handler (data_addresses h) True True ta r k t a n))"
proof (cases "access_violation_handler_payload r")
  case None
  then show ?thesis using assms by (simp add: account_access_violation_handler_def)
next
  case (Some i)
  let ?r = "fst (account_access_violation_handler (data_addresses h) True True ta r k t a n)"
  have s: "unat (len r) \<le> MAX_ACCOUNT_DATA_LEN" "clear_of X (data_at h (unat i)) MAX_ACCOUNT_DATA_LEN"
    using assms Some by (auto simp: sparing_def)
  have g: "unat (of_nat (grown_len ta' m k) :: u64) \<le> MAX_ACCOUNT_DATA_LEN" for ta' m
    using grown_len_bound [of ta' m k] unat_data_len [OF grown_len_bound, of ta' m k] by simp
  have "?r = r \<or> host_addr ?r = data_at h (unat i) \<and> unat (len ?r) \<le> MAX_ACCOUNT_DATA_LEN
      \<and> access_violation_handler_payload ?r = Some i"
    using Some s(1) g
    by (auto simp: account_access_violation_handler_def Let_def split: result.splits prod.splits)
  then show ?thesis using assms s(2) clear_of_mono [OF s(2), of "unat (len ?r)"] by (auto simp: sparing_def)
qed

lemma handler_keeps_away:
  assumes "handler_code avh = handler_code (account_handler h True True ta)"
  shows "keeps_away X (sparing h X) avh"
proof -
  have "sparing h X (fst (handler_code avh env r k t a n))" if "sparing h X r" for env r k t a n
    using that account_handler_sparing [OF that] unfolding assms
    by (cases env) (simp_all add: account_handler_def split_beta)
  then show ?thesis by (simp add: keeps_away_def sparing_def)
qed

lemma region_sparing:
  assumes "region_from True (data_at h) W u r"
    and "clear_of X (av_ptr (mem_vec (buffer u))) (mem_len (buffer u))"
    and "\<And>i. i \<in> W \<Longrightarrow> clear_of X (data_at h i) MAX_ACCOUNT_DATA_LEN"
  shows "sparing h X r"
proof (cases "access_violation_handler_payload r")
  case None
  show ?thesis
  proof (cases "writable r")
    case True
    then obtain start where "host_addr r = av_ptr (mem_vec (buffer u)) + of_nat start" "start + unat (len r) \<le> mem_len (buffer u)"
      using assms(1) None by (auto simp: region_from_def in_buffer_def over_account_def)
    then have "bytes_at (host_addr r) (unat (len r)) \<subseteq> bytes_at (av_ptr (mem_vec (buffer u))) (mem_len (buffer u))"
      using bytes_at_part by metis
    then show ?thesis using assms(2) None by (auto simp: sparing_def)
  qed (simp add: sparing_def None)
next
  case (Some i)
  then have r: "unat i \<in> W" "unat (len r) \<le> MAX_ACCOUNT_DATA_LEN" "host_addr r = data_at h (unat i)"
    using assms(1) by (auto simp: region_from_def in_buffer_def over_account_def region_payload_def)
  then show ?thesis using Some assms(3) [OF r(1)] clear_of_mono [OF assms(3) [OF r(1)] r(2)] by (simp add: sparing_def)
qed

lemma assembled_spares:
  assumes "assembled areas rs (account_handler h True True ta) mm" "mm \<noteq> Identity"
    and "\<And>p n. (p, n) \<in> set areas \<Longrightarrow> clear_of X p n" "list_all (sparing h X) rs"
  shows "spares X mm"
proof -
  obtain c where c: "common_of mm = Some c" using assms(2) by (cases mm) auto
  then have a: "list_all (machine_region areas rs) (regions c)"
    "handler_code (access_violation_handler c) = handler_code (account_handler h True True ta)"
    using assms(1) by (auto simp: assembled_def)
  have "sparing h X r" if m: "machine_region areas rs r" for r
  proof (cases "r \<in> set rs")
    case False
    then have r: "access_violation_handler_payload r = None" "writable r \<longrightarrow> (\<exists>n. (host_addr r, n) \<in> set areas \<and> unat (len r) \<le> n)"
      using m by (auto simp: machine_region_def)
    have "clear_of X (host_addr r) (unat (len r))" if "writable r" using r(2) that assms(3) clear_of_mono by metis
    then show ?thesis using r(1) by (simp add: sparing_def)
  qed (use assms(4) in \<open>simp add: list_all_iff\<close>)
  then show ?thesis
    using a(1) handler_keeps_away [OF a(2)] c unfolding spares_def by (auto simp: list_all_iff)
qed

section \<open>The machine\<close>

lemma same_contents_data:
  assumes "same_contents ta ta'"
  shows "protected_bytes h ta' W = protected_bytes h ta W" "room_to_grow h ta' W = room_to_grow h ta W"
proof -
  have "accounts_len ta' = accounts_len ta" "\<And>j. j < accounts_len ta \<Longrightarrow> view_data (view_at ta' j) = view_data (view_at ta j)"
    using assms by (auto simp: same_contents_def content_def)
  then show "protected_bytes h ta' W = protected_bytes h ta W" "room_to_grow h ta' W = room_to_grow h ta W"
    by (auto simp: protected_bytes_def room_to_grow_def)
qed

lemma started_spares:
  assumes "callable h ic ins" "runnable exe cfg" "low_host h" "usable_pool pool"
    and started: "started h pool hm exe ic ins = Some (m, segs)" and apart: "apart segs"
    and direct: "stricter_abi_and_runtime_constraints (feature_set ic)" "account_data_direct_mapping (feature_set ic)"
    and translation: "enable_address_translation cfg"
    and room: "room_to_grow h (accounts (transaction_context ic)) (changeable (transaction_context ic) ins)"
  shows "spares (protected_bytes h (accounts (transaction_context ic)) (changeable (transaction_context ic) ins)) (memory_mapping m)"
    and "\<forall>j < accounts_len (accounts (transaction_context ic)). holds (host m) (data_at h j) (view_data (view_at (accounts (transaction_context ic)) j))"
proof -
  let ?tc = "transaction_context ic" and ?W = "changeable (transaction_context ic) ins"
  let ?X = "protected_bytes h (accounts ?tc) ?W"
  obtain ta mem rs metas ofs u where s: "serialized_for h ic ins = Some (?tc\<lparr>accounts := ta\<rparr>, Ok (mem, rs, metas, ofs))"
    and same: "same_contents (accounts ?tc) ta" and inv: "memory_inv mem"
    and u: "buffer u = mem" "ser_regions u = rs" "regions_from True (data_at h) ?W u"
    by (rule callable_serialized [OF assms(1,3)]) (use that direct in auto)
  show "spares ?X (memory_mapping m)"
  proof (rule execute_cases [OF assms(1-4), of hm], goal_cases)
    case (2 m2 segs2 pool' stack heap f)
    have eq: "m2 = m" "segs2 = segs" using 2(3) started by simp_all
    note run = 2(17) [OF s, unfolded eq]
    have segs: "apart (segments h exe ta mem stack heap)" using run apart by simp
    have X: "?X = protected_bytes h ta ?W" using same_contents_data(1) [OF same] by simp
    note clear = buffers_clear [OF segs, of _ ?W, folded X]
    have lens: "length (as_slice mem) = mem_len mem" "length (as_slice stack) = full_stack" "length (as_slice heap) = full_heap"
      using 2(10,11) length_as_slice inv by (auto simp: full_memory_def sized_def)
    have "list_all (sparing h ?X) rs"
      using u clear [of mem] growth_clear [OF _ assms(3) _ segs, of ?W, folded X] room same_contents_data(2) [OF same] lens(1)
      by (auto simp: regions_from_def list_all_iff memory_ptr_def intro!: region_sparing)
    then show ?case
      using run translation direct clear [of stack] clear [of heap] lens(2,3)
      by (intro assembled_spares [of "[(memory_ptr stack, full_stack), (memory_ptr heap, full_heap)]" rs h ta]) auto
  qed (use started in simp)
  show "\<forall>j < accounts_len (accounts ?tc). holds (host m) (data_at h j) (view_data (view_at (accounts ?tc) j))"
  proof (rule execute_cases [OF assms(1-4), of hm], goal_cases)
    case (2 m2 segs2 pool' stack heap f)
    have "memory_ready (place hm segs) (data_addresses h) (accounts ?tc) mem"
      using placed_ready [OF _ same, of h exe mem stack heap hm] apart 2(3) 2(17) [OF s] started by simp
    then show ?case using 2(3,12) started same by (auto simp: memory_ready_def)
  qed (use started in simp)
qed

end
