(* ===== verification/Account_Safety.thy ===== *)
theory Account_Safety
  imports End_To_End Machine_Frame
begin

text \<open>
  What an execution can do to accounts: the run, through the access violation handler and the memory
  of direct mapping, and reading the parameters back change only what the instruction lets the program
  change.
\<close>

section \<open>Permitted changes\<close>

text \<open>
  What may happen to an account that the instruction passes as writable or not, \<open>w\<close>, when the program is \<open>k\<close>.
\<close>

definition view_within :: "bool \<Rightarrow> Pubkey \<Rightarrow> TransactionAccountView \<Rightarrow> TransactionAccountView \<Rightarrow> bool" where
  "view_within w k v v' \<longleftrightarrow>
     (\<not> w \<longrightarrow> view_meta v' = view_meta v)
     \<and> (view_owner v \<noteq> k \<longrightarrow>
          view_owner v' = view_owner v \<and> view_executable v' = view_executable v \<and> view_lamports v \<le> view_lamports v')
     \<and> ((\<not> w \<or> view_owner v \<noteq> k) \<longrightarrow> view_data v' = view_data v)"

definition accounts_respect :: "nat set \<Rightarrow> Pubkey \<Rightarrow> TransactionAccounts \<Rightarrow> TransactionAccounts \<Rightarrow> bool" where
  "accounts_respect W k ta ta' \<longleftrightarrow>
     accounts_step ta ta' \<and> (\<forall>j < accounts_len ta. view_within (j \<in> W) k (view_at ta j) (view_at ta' j))"

lemma view_within_refl: "view_within w k v v"
  by (simp add: view_within_def)

lemma view_within_trans: "view_within w k u v \<Longrightarrow> view_within w k v x \<Longrightarrow> view_within w k u x"
  unfolding view_within_def view_meta_def by (cases w; cases "view_owner u = k") (auto intro: order.trans)

lemma step_len: "accounts_step ta ta' \<Longrightarrow> accounts_len ta' = accounts_len ta"
  by (auto simp: accounts_step_def keeps_def account_keys_iter_def accounts_len_def dest: map_eq_imp_length_eq)

lemma respects_refl: "accounts_inv ta \<Longrightarrow> accounts_respect W k ta ta"
  by (simp add: accounts_respect_def accounts_step_refl view_within_refl)

lemma respects_trans:
  assumes "accounts_respect W k x y" "accounts_respect W k y z"
  shows "accounts_respect W k x z"
proof -
  have "accounts_step x z" using assms keeps_trans by (auto simp: accounts_respect_def accounts_step_def)
  then show ?thesis using assms step_len [of x y] view_within_trans by (fastforce simp: accounts_respect_def)
qed

lemma respects_inv: "accounts_respect W k ta ta' \<Longrightarrow> accounts_inv ta'"
  by (simp add: accounts_respect_def accounts_step_def)

lemma keys_views: "account_keys_iter ta = map (\<lambda>i. shared_key (abi_account (view_at ta i))) [0..<accounts_len ta]"
  by (intro nth_equalityI) (simp_all add: account_keys_iter_def accounts_len_def view_at_def)

lemma total_views: "total_lamports ta = (\<Sum>i\<leftarrow>[0..<accounts_len ta]. int (unat (view_lamports (view_at ta i))))"
proof -
  have "map (\<lambda>i. int (unat (view_lamports (view_at ta i)))) [0..<accounts_len ta] =
      map (\<lambda>f. int (unat (shared_lamports f))) (shared_account_fields ta)"
    by (intro nth_equalityI) (simp_all add: accounts_len_def view_at_def view_lamports_def)
  then show ?thesis by (simp add: total_lamports_def)
qed

text \<open>Same keys and lamports are enough for a step.\<close>

lemma same_views_step:
  assumes "accounts_inv ta'" "accounts_len ta' = accounts_len ta" "ta_lamports_delta ta' = ta_lamports_delta ta"
    and "\<And>i. i < accounts_len ta \<Longrightarrow> shared_key (abi_account (view_at ta' i)) = shared_key (abi_account (view_at ta i))
      \<and> view_lamports (view_at ta' i) = view_lamports (view_at ta i)"
  shows "accounts_step ta ta'"
proof -
  have "account_keys_iter ta' = account_keys_iter ta" unfolding keys_views using assms(2,4) by simp
  moreover have "total_lamports ta' = total_lamports ta"
    unfolding total_views using assms(2,4) by (intro arg_cong [where f = sum_list] map_cong) simp_all
  ultimately show ?thesis using assms(1,3) by (simp add: accounts_step_def keeps_def)
qed

lemma same_contents_respects: "same_contents ta ta' \<Longrightarrow> accounts_respect W k ta ta'"
  using same_views_step [of ta' ta]
  by (auto simp: accounts_respect_def same_contents_def content_def view_within_def view_meta_def)

section \<open>The run\<close>

lemma followed_respects:
  assumes "env_follows P (Some ta) env'" "accounts_inv ta"
    and "\<And>j. j \<in> P \<Longrightarrow> j \<in> W \<and> (j < accounts_len ta \<longrightarrow> view_owner (view_at ta j) = k)"
  shows "\<exists>ta'. env' = Some ta' \<and> accounts_respect W k ta ta'"
proof -
  obtain ta' where t: "env' = Some ta'" "accounts_step ta ta'" "\<And>j. view_meta (view_at ta' j) = view_meta (view_at ta j)"
    "\<And>j. j \<notin> P \<Longrightarrow> view_at ta' j = view_at ta j"
    using assms(1,2) unfolding env_follows_def by auto
  have "view_within (j \<in> W) k (view_at ta j) (view_at ta' j)" if "j < accounts_len ta" for j
    using t(3) [of j] t(4) [of j] assms(3) [of j] that by (cases "j \<in> P") (auto simp: view_within_def view_meta_def)
  then show ?thesis using t(1,2) by (auto simp: accounts_respect_def)
qed

lemma handler_accounts_captured:
  "handler_accounts mm ta = (case captured_accounts mm of None \<Rightarrow> ta | Some t \<Rightarrow> t)"
  by (simp add: handler_accounts_def captured_accounts_def split: option.splits)

text \<open>Memory that still has the data of the accounts the program may not change.\<close>

definition data_unchanged :: "Host \<Rightarrow> nat set \<Rightarrow> Pubkey \<Rightarrow> TransactionAccounts \<Rightarrow> host_memory \<Rightarrow> bool" where
  "data_unchanged h W k ta hm \<longleftrightarrow>
     (\<forall>j < accounts_len ta. j \<notin> W \<or> view_owner (view_at ta j) \<noteq> k \<longrightarrow>
        read_bytes hm (data_at h j) (length (view_data (view_at ta j))) = view_data (view_at ta j))"

lemma read_data_respects:
  assumes r: "accounts_respect W k base ta" and kept: "data_unchanged h W k base hm"
  shows "accounts_respect W k base (read_account_data h hm ta)"
proof -
  let ?ta = "read_account_data h hm ta"
  have inv: "accounts_inv ta" and blen: "accounts_len ta = accounts_len base"
    using respects_inv [OF r] r step_len by (auto simp: accounts_respect_def)
  have len: "accounts_len ?ta = accounts_len ta" by (simp add: read_account_data_def accounts_len_def)
  have at: "abi_account (view_at ?ta i) = abi_account (view_at ta i)" "view_executable (view_at ?ta i) = view_executable (view_at ta i)"
    "view_data (view_at ?ta i) = read_bytes hm (data_at h i) (length (view_data (view_at ta i)))" if "i < accounts_len ta" for i
    using that inv by (simp_all add: view_at_def read_account_data_def nth_enumerate_eq accounts_inv_def view_executable_def view_data_def)
  then have "length (view_data (view_at ?ta i)) = length (view_data (view_at ta i))" if "i < accounts_len ta" for i
    using that by (simp add: read_bytes_def)
  then have "accounts_inv ?ta" using inv at(1) len by (simp add: accounts_inv_def) (simp add: read_account_data_def)
  then have "accounts_step ta ?ta"
    using len at(1) by (intro same_views_step) (simp_all add: view_lamports_def, simp add: read_account_data_def)
  then have "accounts_step base ?ta" using r keeps_trans by (auto simp: accounts_respect_def accounts_step_def)
  moreover have "view_within (j \<in> W) k (view_at base j) (view_at ?ta j)" if j: "j < accounts_len base" for j
  proof -
    have v: "view_within (j \<in> W) k (view_at base j) (view_at ta j)" using r j by (simp add: accounts_respect_def)
    then show ?thesis
      using at [of j] j blen kept
      by (auto simp: view_within_def view_meta_def view_owner_def view_lamports_def data_unchanged_def)
  qed
  ultimately show ?thesis by (simp add: accounts_respect_def)
qed

section \<open>A borrowed account\<close>

lemma drop_views:
  assumes "accounts_inv ta" "unat i < accounts_len ta"
  shows "view_at (drop_AccountRefMut ta i) j = view_at ta j"
proof -
  let ?v = "view_at ta (unat i)"
  have "sync_len ?v (of_nat (payload_len (private_fields ?v))) = ?v"
    using assms by (auto simp: accounts_inv_def sync_len_def set_len_def payload_len_def view_data_def)
  moreover have "unat i < length (shared_account_fields ta)" "unat i < length (private_account_fields ta)"
    using assms by (simp_all add: accounts_inv_def accounts_len_def)
  ultimately show ?thesis by (simp add: drop_AccountRefMut_def Let_def view_at_put_view)
qed

definition writable_accounts :: "InstructionContext \<Rightarrow> nat set" where
  "writable_accounts ins = {unat (index_in_transaction a) |a. a \<in> set (instruction_accounts ins) \<and> is_writable a}"

lemma borrow_respects:
  assumes inv: "accounts_inv (accounts tc)" and b: "try_borrow_instruction_account tc ins i = Ok (tc1, a)"
    and steps: "(account_step is_exempt a)\<^sup>*\<^sup>* (accounts tc1) ta"
    and key: "account_key (accounts tc) (ic_program_account_index ins) = Some k"
  shows "accounts_respect (writable_accounts ins) k (accounts tc) (drop_AccountRefMut ta (get_index_in_transaction a))"
    and "tc1 = tc\<lparr>accounts := accounts tc1\<rparr>"
proof -
  let ?i = "get_index_in_transaction a"
  define ia where "ia = instruction_accounts ins ! unat i"
  have ia: "ia \<in> set (instruction_accounts ins)" "try_borrow_mut (accounts tc) (index_in_transaction ia) = Ok (accounts tc1)"
    "tc1 = tc\<lparr>accounts := accounts tc1\<rparr>"
    "a = \<lparr>ba_instruction_account = ia, index_in_transaction_of_instruction_program = ic_program_account_index ins\<rparr>"
    using b by (auto simp: try_borrow_instruction_account_def and_then_Ok_iff ok_or_def nth_get_def ia_def split: option.splits if_splits)
  show "tc1 = tc\<lparr>accounts := accounts tc1\<rparr>" by (rule ia(3))
  have i: "?i = index_in_transaction ia" by (simp add: ia(4) get_index_in_transaction_def)
  note bi = borrow_inv [OF inv ia(2)] and bo = try_borrow_mut_Ok(3) [OF ia(2)]
  have views: "view_at (accounts tc1) j = view_at (accounts tc) j" "account_key (accounts tc1) x = account_key (accounts tc) x" for j x
    by (simp_all add: bo account_key_def view_at_def)
  have "borrowable (accounts tc1) a" using bi(1,3) i by (simp add: borrowable_def inv_but_def)
  note al = account_steps_allowed [OF steps this]
  then have ta: "accounts_inv ta" "unat ?i < accounts_len ta" by (auto simp: borrowable_def)
  have d: "accounts_inv (drop_AccountRefMut ta ?i)" "keeps ta (drop_AccountRefMut ta ?i)"
    using drop_inv [OF inv_but_inv [OF ta]] by auto
  have "keeps (accounts tc1) ta" using al by (simp add: allowed_def keeps_def)
  then have "accounts_step (accounts tc) (drop_AccountRefMut ta ?i)"
    using keeps_trans [OF keeps_trans [OF bi(2)] d(2)] d(1) by (simp add: accounts_step_def)
  moreover have "view_within (j \<in> writable_accounts ins) k (view_at (accounts tc) j) (view_at (drop_AccountRefMut ta ?i) j)" for j
  proof (cases "j = unat ?i")
    case False
    then have "view_at ta j = view_at (accounts tc) j" using al views(1) by (simp add: allowed_def)
    then show ?thesis by (simp add: drop_views [OF ta] view_within_refl)
  next
    case True
    have w: "ba_is_writable a \<Longrightarrow> j \<in> writable_accounts ins"
      using ia(1) True i by (auto simp: writable_accounts_def ba_is_writable_def ia(4))
    have own: "is_owned_by_current_program (accounts tc1) a \<longleftrightarrow> view_owner (view_at (accounts tc) j) = k"
      using key views True by (auto simp: is_owned_by_current_program_def ia(4) get_owner_def)
    show ?thesis
    proof (cases "ba_is_writable a")
      case False
      then have "view_at ta j = view_at (accounts tc) j" using al views(1) True by (simp add: allowed_def)
      then show ?thesis by (simp add: drop_views [OF ta] view_within_refl)
    next
      case wr: True
      then show ?thesis
        using al own w views(1) True
        by (auto simp: drop_views [OF ta] view_within_def allowed_def get_owner_def get_data_def get_lamports_def ba_is_executable_def)
    qed
  qed
  ultimately show "accounts_respect (writable_accounts ins) k (accounts tc) (drop_AccountRefMut ta ?i)"
    by (simp add: accounts_respect_def)
qed

section \<open>Reading parameters back\<close>

lemma update_lamports_steps: "(account_step ex a)\<^sup>*\<^sup>* ta (fst (update_lamports ta a n))"
  using account_step.set_lamports [of ex a ta n] by (simp add: update_lamports_def r_into_rtranclp)

lemma update_data_steps: "(account_step ex a)\<^sup>*\<^sup>* ta (fst (update_data st di bytes start ta a n))"
  using account_step.replace [of ex a ta] account_step.resize [of ex a ta n]
  by (auto simp: update_data_def r_into_rtranclp split: option.splits result.splits)

lemma set_owner_steps: "set_owner ta a k = Some (ta', r) \<Longrightarrow> (account_step ex a)\<^sup>*\<^sup>* ta ta'"
  by (intro r_into_rtranclp account_step.set_owner)

lemma deserialize_unaligned_steps:
  assumes "deserialize_account_unaligned st di bytes ta a n start = Some (ta', r)"
  shows "(account_step ex a)\<^sup>*\<^sup>* ta ta'"
proof (cases "get_u64 bytes (start + 1 + 1 + 32)")
  case None
  then show ?thesis using assms by (simp add: deserialize_account_unaligned_def Let_def)
next
  case (Some lamports)
  obtain t1 r1 where l: "update_lamports ta a lamports = (t1, r1)" by (rule prod.exhaust)
  obtain t2 r2 where d: "update_data st di bytes (start + 1 + 1 + 32 + (8 + 8)) t1 a n = (t2, r2)" by (rule prod.exhaust)
  have "ta' = t1 \<or> ta' = t2"
    using assms Some l d by (cases r1; cases r2) (auto simp: deserialize_account_unaligned_def Let_def)
  moreover have "(account_step ex a)\<^sup>*\<^sup>* ta t1" "(account_step ex a)\<^sup>*\<^sup>* t1 t2"
    using update_lamports_steps [of ex a ta lamports] update_data_steps [of ex a t1 st di bytes "start + 1 + 1 + 32 + (8 + 8)" n] l d
    by simp_all
  ultimately show ?thesis by (auto intro: rtranclp_trans)
qed

lemma deserialize_aligned_steps:
  assumes "deserialize_account_aligned ep st di bytes ta a n start = Some (ta', r)"
  shows "(account_step ex a)\<^sup>*\<^sup>* ta ta'"
proof -
  let ?s = "start + (1 + 1 + 1 + 4 + 32) + 32"
  consider "ta' = ta" | lamports where "get_u64 bytes ?s = Some lamports"
    using assms by (auto simp: deserialize_account_aligned_def Let_def split: option.splits)
  then show ?thesis
  proof cases
    case 2
    obtain t1 r1 where l: "update_lamports ta a lamports = (t1, r1)" by (rule prod.exhaust)
    have s1: "(account_step ex a)\<^sup>*\<^sup>* ta t1" using update_lamports_steps [of ex a ta lamports] l by simp
    consider "ta' = ta" | "ta' = t1" | m r2 where "update_data st di bytes (?s + 8 + 8) t1 a m = (ta', r2)"
      | m t2 r2 k r3 where "update_data st di bytes (?s + 8 + 8) t1 a m = (t2, r2)" "set_owner t2 a k = Some (ta', r3)"
      using assms 2 l
      by (auto simp: deserialize_account_aligned_def Let_def split: option.splits result.splits if_splits prod.splits)
    then show ?thesis
    proof cases
      case (3 m r2)
      then show ?thesis using update_data_steps [of ex a t1 st di bytes "?s + 8 + 8" m] s1 by (auto intro: rtranclp_trans)
    next
      case (4 m t2 r2 k r3)
      have "(account_step ex a)\<^sup>*\<^sup>* t1 t2" using update_data_steps [of ex a t1 st di bytes "?s + 8 + 8" m] 4(1) by simp
      from rtranclp_trans [OF rtranclp_trans [OF s1 this] set_owner_steps [OF 4(2)]] show ?thesis .
    qed (use s1 in auto)
  qed simp
qed

lemma respects_key:
  assumes "accounts_respect W k ta ta'"
  shows "account_key ta' i = account_key ta i"
proof -
  have "account_keys_iter ta' = account_keys_iter ta" using assms by (simp add: accounts_respect_def accounts_step_def keeps_def)
  moreover have "account_key t i = nth_get (account_keys_iter t) (unat i)" for t
    by (simp add: account_key_def account_keys_iter_def nth_get_def)
  ultimately show ?thesis by simp
qed

lemma deserialize_accounts_respects:
  assumes one: "\<And>ta a n start ta' r. one ta a n start = Some (ta', r) \<Longrightarrow> (account_step ex a)\<^sup>*\<^sup>* ta ta'"
  shows "deserialize_accounts one dup_len ins is start tc = Some (tc', r) \<Longrightarrow> accounts_inv (accounts tc) \<Longrightarrow>
    account_key (accounts tc) (ic_program_account_index ins) = Some k \<Longrightarrow>
    accounts_respect (writable_accounts ins) k (accounts tc) (accounts tc')"
proof (induction "is" arbitrary: start tc)
  case Nil
  then show ?case by (simp add: respects_refl)
next
  case (Cons x xs)
  obtain i n where x: "x = (i, n)" by (cases x)
  show ?case
  proof (cases "is_instruction_account_duplicate ins (of_nat i)")
    case (Err e)
    then show ?thesis using Cons.prems x by (simp add: respects_refl)
  next
    case (Ok dup)
    show ?thesis
    proof (cases dup)
      case (Some d)
      then show ?thesis using Cons.IH Cons.prems x Ok by simp
    next
      case None
      show ?thesis
      proof (cases "try_borrow_instruction_account tc ins (of_nat i)")
        case (Err e)
        then show ?thesis using Cons.prems x Ok None by (simp add: respects_refl)
      next
        case b: (Ok p)
        then obtain tc1 a where b: "try_borrow_instruction_account tc ins (of_nat i) = Ok (tc1, a)" by (cases p) auto
        then obtain ta r1 where o: "one (accounts tc1) a n (start + 1) = Some (ta, r1)"
          using Cons.prems(1) x Ok None by (auto split: option.splits)
        let ?ta = "drop_AccountRefMut ta (get_index_in_transaction a)"
        have s: "accounts_respect (writable_accounts ins) k (accounts tc) ?ta"
          by (rule borrow_respects(1) [OF Cons.prems(2) b one [OF o] Cons.prems(3)])
        show ?thesis
        proof (cases r1)
          case (Err e)
          then show ?thesis using Cons.prems(1) x Ok None b o s by auto
        next
          case go: (Ok start')
          have "deserialize_accounts one dup_len ins xs start' (tc1\<lparr>accounts := ?ta\<rparr>) = Some (tc', r)"
            using Cons.prems(1) x Ok None b o go by simp
          from Cons.IH [OF this] show ?thesis
            using respects_inv [OF s] respects_key [OF s] Cons.prems(3) respects_trans [OF s] by simp
        qed
      qed
    qed
  qed
qed

lemma deserialize_respects:
  assumes "deserialize_parameters sdk ep tc ins st di bytes metas = Some (tc', r)" "accounts_inv (accounts tc)"
    and "account_key (accounts tc) (ic_program_account_index ins) = Some k"
  shows "accounts_respect (writable_accounts ins) k (accounts tc) (accounts tc')"
  using assms deserialize_accounts_respects [OF deserialize_unaligned_steps] deserialize_accounts_respects [OF deserialize_aligned_steps]
  by (auto simp: deserialize_parameters_def deserialize_parameters_unaligned_def deserialize_parameters_aligned_def respects_refl Let_def
      split: result.splits if_splits)

section \<open>After the run\<close>

lemma report_keeps: "transaction_context (report_run h k units prev trace ic) = transaction_context ic"
  by (simp add: report_run_def insert_register_trace_def ic_msg_def program_return_def Let_def split: result.splits)

lemma violation_keeps:
  assumes "accounts_inv (accounts tc)"
  shows "accounts (fst (map_violation addrs tc error)) = accounts tc"
    and "get_current_instruction_context (fst (map_violation addrs tc error)) = get_current_instruction_context tc"
proof -
  have "\<exists>ta. fst (map_violation addrs tc error) = tc\<lparr>accounts := ta\<rparr> \<and> ta = accounts tc"
  proof (cases "fst (map_violation addrs tc error) = tc")
    case False
    then obtain ins i tc1 a where b: "try_borrow_instruction_account tc ins (of_nat i) = Ok (tc1, a)"
      "fst (map_violation addrs tc error) = tc1\<lparr>accounts := drop_AccountRefMut (accounts tc1) (get_index_in_transaction a)\<rparr>"
      by (cases error) (auto simp: map_violation_def and_then_Ok_iff Let_def split: option.splits result.splits)
    have ia: "try_borrow_mut (accounts tc) (get_index_in_transaction a) = Ok (accounts tc1)" "tc1 = tc\<lparr>accounts := accounts tc1\<rparr>"
      using b(1) by (auto simp: try_borrow_instruction_account_def and_then_Ok_iff get_index_in_transaction_def)
    have "tc1\<lparr>accounts := t\<rparr> = tc\<lparr>accounts := t\<rparr>" for t by (subst ia(2)) simp
    with b(2) borrow_drop [OF assms ia(1)] show ?thesis by simp
  qed (auto intro: exI [of _ "accounts tc"])
  then show "accounts (fst (map_violation addrs tc error)) = accounts tc"
    "get_current_instruction_context (fst (map_violation addrs tc error)) = get_current_instruction_context tc"
    by auto
qed

lemma result_keeps:
  assumes "accounts_inv (accounts (transaction_context ic))"
  shows "accounts (transaction_context (fst (execution_result h addrs ic res))) = accounts (transaction_context ic)"
    and "get_current_instruction_context (transaction_context (fst (execution_result h addrs ic res))) =
      get_current_instruction_context (transaction_context ic)"
proof -
  consider "transaction_context (fst (execution_result h addrs ic res)) = transaction_context ic"
    | e where "transaction_context (fst (execution_result h addrs ic res)) = fst (map_violation addrs (transaction_context ic) e)"
  proof (cases res)
    case (Err x)
    define ic1 where "ic1 = (if deplete_cu_meter_on_vm_failure (feature_set ic) \<and> \<not> is_syscall_error x
      then ic_consume ic (ic_get_remaining ic) else ic)"
    have t: "transaction_context ic1 = transaction_context ic" by (simp add: ic1_def ic_consume_def)
    obtain tc r where v: "map_violation addrs (transaction_context ic) (downcast x) = (tc, r)" by (rule prod.exhaust)
    show thesis
    proof (cases "stricter_abi_and_runtime_constraints (feature_set ic1)")
      case True
      have "transaction_context (fst (execution_result h addrs ic res)) = tc"
        using True v by (cases r) (simp_all add: execution_result_def Err Let_def ic1_def [symmetric] t)
      then show thesis using that(2) [of "downcast x"] v by simp
    next
      case False
      then show thesis using that(1) by (simp add: execution_result_def Err Let_def ic1_def [symmetric] t)
    qed
  qed (simp add: that(1) execution_result_def)
  then show "accounts (transaction_context (fst (execution_result h addrs ic res))) = accounts (transaction_context ic)"
    "get_current_instruction_context (transaction_context (fst (execution_result h addrs ic res))) =
      get_current_instruction_context (transaction_context ic)"
    by (cases; simp add: violation_keeps [OF assms])+
qed

lemma collected_respects:
  assumes "accounts_respect W k ta (handler_accounts (memory_mapping m) (accounts (transaction_context ic)))"
    and "stricter_abi_and_runtime_constraints (feature_set ic) \<and> account_data_direct_mapping (feature_set ic) \<longrightarrow>
      data_unchanged h W k ta (host m)"
  shows "accounts_respect W k ta (accounts (transaction_context (collect_account_state h m ic)))"
    and "get_current_instruction_context (transaction_context (collect_account_state h m ic)) =
      get_current_instruction_context (transaction_context ic)"
  using assms read_data_respects [OF assms(1)] by (auto simp: collect_account_state_def Let_def)

lemma conclude_respects:
  assumes c: "conclude h pk prev addrs params units res m = Some (ic', r)"
    and cur: "get_current_instruction_context (transaction_context (context_object_pointer m)) = Ok ins"
    and ta: "accounts_respect (writable_accounts ins) k ta
      (handler_accounts (memory_mapping m) (accounts (transaction_context (context_object_pointer m))))"
    and direct: "stricter_abi_and_runtime_constraints (feature_set (context_object_pointer m))
      \<and> account_data_direct_mapping (feature_set (context_object_pointer m)) \<longrightarrow>
        data_unchanged h (writable_accounts ins) k ta (host m)"
    and key: "account_key ta (ic_program_account_index ins) = Some k"
  shows "accounts_respect (writable_accounts ins) k ta (accounts (transaction_context ic'))"
proof -
  let ?ic0 = "collect_accesses m"
  have c0: "transaction_context ?ic0 = transaction_context (context_object_pointer m)" "feature_set ?ic0 = feature_set (context_object_pointer m)"
    by (simp_all add: collect_accesses_def Let_def)
  let ?ic1 = "collect_account_state h m ?ic0"
  have s1: "accounts_respect (writable_accounts ins) k ta (accounts (transaction_context ?ic1))"
    "get_current_instruction_context (transaction_context ?ic1) = Ok ins"
    using collected_respects [of "writable_accounts ins" k ta m ?ic0 h] ta direct cur unfolding c0 by simp_all
  let ?ic2 = "report_run h pk units prev (register_trace m) ?ic1"
  obtain ic3 r3 where r3: "execution_result h addrs ?ic2 res = (ic3, r3)" by (rule prod.exhaust)
  have inv: "accounts_inv (accounts (transaction_context ?ic2))" using respects_inv [OF s1(1)] by (simp add: report_keeps)
  have s3: "accounts (transaction_context ic3) = accounts (transaction_context ?ic1)"
    "get_current_instruction_context (transaction_context ic3) = Ok ins"
    using result_keeps [OF inv, of h addrs res] r3 s1(2) by (simp_all add: report_keeps)
  show ?thesis
  proof (cases r3)
    case (Err e)
    then show ?thesis using c r3 s3(1) s1(1) by (simp add: conclude_def Let_def)
  next
    case (Ok u)
    then obtain r4 where d: "execute_deserialize h ic3 (as_slice (memory_after (host m) params)) = Some (ic', r4)"
      using c r3 by (auto simp: conclude_def Let_def)
    show ?thesis
    proof (cases "get_syscall_context ic3")
      case (Err e)
      then show ?thesis using d s3 s1(1) by (auto simp: execute_deserialize_def)
    next
      case sc: (Ok sc)
      then obtain tc' r5 where t: "deserialize_parameters (h_sdk h) (h_entrypoint h) (transaction_context ic3) ins
          (stricter_abi_and_runtime_constraints (feature_set ic3)) (account_data_direct_mapping (feature_set ic3))
          (as_slice (memory_after (host m) params)) (accounts_metadata sc) = Some (tc', r5)" "ic' = ic3\<lparr>transaction_context := tc'\<rparr>"
        using d s3(2) by (auto simp: execute_deserialize_def)
      have "accounts_respect (writable_accounts ins) k (accounts (transaction_context ic3)) (accounts tc')"
        by (rule deserialize_respects [OF t(1)]) (use s3(1) respects_inv [OF s1(1)] respects_key [OF s1(1)] key in simp_all)
      then show ?thesis using respects_trans [OF s1(1)] s3(1) t(2) by simp
    qed
  qed
qed

section \<open>Execution\<close>

lemma changeable_within:
  assumes "j \<in> changeable tc ins" "get_program_key tc ins = Ok k"
  shows "j \<in> writable_accounts ins" "view_owner (view_at (accounts tc) j) = k"
proof -
  obtain i where i: "j = unat (index_in_transaction (instruction_accounts ins ! i))" "i < length (instruction_accounts ins)"
    "is_ok (can_data_be_changed (accounts tc) (borrowed_account ins i))"
    using assms(1) by (auto simp: changeable_def get_index_in_transaction_def borrowed_account_def)
  have w: "ba_is_writable (borrowed_account ins i)" "is_owned_by_current_program (accounts tc) (borrowed_account ins i)"
    using i(3) by (auto simp: can_data_be_changed_def split: if_splits)
  then show "j \<in> writable_accounts ins"
    using i(1,2) by (auto simp: writable_accounts_def ba_is_writable_def borrowed_account_def)
  have "account_key (accounts tc) (ic_program_account_index ins) = Some k"
    using assms(2) by (auto simp: get_program_key_def and_then_Ok_iff get_index_of_program_account_in_transaction_def
        get_key_of_account_at_index_def ok_or_def split: if_splits option.splits)
  then show "view_owner (view_at (accounts tc) j) = k"
    using w(2) i(1) by (simp add: is_owned_by_current_program_def borrowed_account_def get_owner_def get_index_in_transaction_def)
qed

lemma run_respects:
  assumes same: "same_contents (accounts tc) ta" and g: "guards (changeable tc ins) ta mm" and f: "accounts_follow mm mm'"
    and key: "get_program_key tc ins = Ok k"
  shows "accounts_respect (writable_accounts ins) k (accounts tc) (handler_accounts mm' ta)"
proof (cases "mm = Identity")
  case True
  then have "captured_accounts mm' = None" using f by (simp add: accounts_follow_def env_follows_def captured_accounts_def)
  then show ?thesis using same_contents_respects [OF same] by (simp add: handler_accounts_captured)
next
  case False
  then have c: "captured_accounts mm = Some ta" "payloads mm \<subseteq> changeable tc ins" using g by (auto simp: guards_def)
  have inv: "accounts_inv ta" using same by (simp add: same_contents_def)
  have "view_owner (view_at ta j) = view_owner (view_at (accounts tc) j)" if "j < accounts_len ta" for j
    using same that by (simp add: same_contents_def content_def)
  then have p: "j \<in> writable_accounts ins \<and> (j < accounts_len ta \<longrightarrow> view_owner (view_at ta j) = k)" if "j \<in> payloads mm" for j
    using changeable_within [OF _ key, of j] c(2) that by auto
  have "env_follows (payloads mm) (Some ta) (captured_accounts mm')" using f c(1) by (simp add: accounts_follow_def)
  from followed_respects [OF this inv p]
  obtain ta' where t: "captured_accounts mm' = Some ta'" "accounts_respect (writable_accounts ins) k ta ta'" by blast
  then show ?thesis using respects_trans [OF same_contents_respects [OF same]] by (simp add: handler_accounts_captured)
qed

text \<open>
  What direct mapping relies on: addresses are translated, the buffers of the machine and the data of
  the accounts do not overlap, and accounts have room to grow where they are.
\<close>

definition data_separate ::
  "Host \<Rightarrow> VmMemoryPool \<Rightarrow> host_memory \<Rightarrow> 'f Executable \<Rightarrow> Config \<Rightarrow> InvokeContext \<Rightarrow> InstructionContext \<Rightarrow> bool"
where
  "data_separate h pool hm exe cfg ic ins \<longleftrightarrow>
     enable_address_translation cfg
     \<and> (case started h pool hm exe ic ins of None \<Rightarrow> True | Some (_, segs) \<Rightarrow> apart segs)
     \<and> room_to_grow h (accounts (transaction_context ic)) (changeable (transaction_context ic) ins)"

lemma run_keeps_data:
  assumes "callable h ic ins" "runnable exe cfg" "low_host h" "usable_pool pool"
    and key: "get_program_key (transaction_context ic) ins = Ok k"
    and direct: "stricter_abi_and_runtime_constraints (feature_set ic)" "account_data_direct_mapping (feature_set ic)"
    and sep: "data_separate h pool hm exe cfg ic ins" and started: "started h pool hm exe ic ins = Some (m, segs)"
    and run: "exe_get_config exe = Some cfg" "get_config (vm_loader m) = Some cfg"
      "execute_program fuel (syscall_env se) m exe = Some (Some (count, res, m'))" "mapping_ok (memory_mapping m)"
  shows "data_unchanged h (writable_accounts ins) k (accounts (transaction_context ic)) (host m')"
  unfolding data_unchanged_def
proof (intro allI impI)
  let ?tc = "transaction_context ic"
  fix j
  let ?bs = "view_data (view_at (accounts ?tc) j)"
  assume j: "j < accounts_len (accounts ?tc)" "j \<notin> writable_accounts ins \<or> view_owner (view_at (accounts ?tc) j) \<noteq> k"
  have "apart segs" "enable_address_translation cfg" "room_to_grow h (accounts ?tc) (changeable ?tc ins)"
    using sep started by (auto simp: data_separate_def)
  note s = started_spares [OF assms(1-4) started this(1) direct this(2,3)]
  have same: "same_on (protected_bytes h (accounts ?tc) (changeable ?tc ins)) (host m) (host m')"
    by (rule sys_sparing.execute_spares [OF run s(1)])
  have "j \<notin> changeable ?tc ins" using changeable_within [OF _ key, of j] j(2) by blast
  then have "data_at h j + of_nat i \<in> protected_bytes h (accounts ?tc) (changeable ?tc ins)" if "i < length ?bs" for i
    using j(1) that by (auto simp: protected_bytes_def bytes_at_def)
  then have "read_bytes (host m') (data_at h j) (length ?bs) = read_bytes (host m) (data_at h j) (length ?bs)"
    using same by (simp add: same_on_def read_bytes_def)
  then show "read_bytes (host m') (data_at h j) (length ?bs) = ?bs" using s(2) j(1) by (simp add: holds_def)
qed

lemma execute_respects:
  assumes "callable h ic ins" "runnable exe cfg" "low_host h" "usable_pool pool"
    and sep: "stricter_abi_and_runtime_constraints (feature_set ic) \<and> account_data_direct_mapping (feature_set ic) \<longrightarrow>
      data_separate h pool hm exe cfg ic ins"
    and key: "get_program_key (transaction_context ic) ins = Ok k"
  defines "fuel \<equiv> Suc (unat (ic_get_remaining ic))"
  shows "\<exists>ic' pool' hm' r. execute fuel h (syscall_env se) pool hm exe ic = Some (Some (ic', pool', hm', r))
    \<and> accounts_respect (writable_accounts ins) k (accounts (transaction_context ic)) (accounts (transaction_context ic'))"
proof (rule execute_cases [OF assms(1-4), of hm], goal_cases)
  case (1 ic' pool' r)
  then show ?case using same_contents_respects by blast
next
  case (2 m segs pool' stack heap f)
  let ?tc = "transaction_context ic" and ?ic = "context_object_pointer m"
  have meter: "enable_instruction_meter cfg" using assms(2) by (simp add: runnable_def)
  obtain count res m' where r:
    "execute_program (Suc (unat (ic_get_remaining ?ic))) (syscall_env se) m exe = Some (Some (count, res, m'))"
    "exe_get_config exe = Some cfg" "get_config (vm_loader m) = Some cfg"
    by (rule sys_metered.prepared_finishes [OF 2(4) meter, of se, simplified])
  have run: "execute_program fuel (syscall_env se) m exe = Some (Some (count, res, m'))"
    unfolding fuel_def by (rule execute_program_more [OF r(1)]) (use 2(7) in \<open>simp add: word_le_nat_alt\<close>)
  have settled: "settled (context_object_pointer m') = settled ?ic" by (rule sys_settled.execute_context [OF r(2,3) run])
  have follow: "accounts_follow (memory_mapping m) (memory_mapping m')" by (rule sys_reading.execute_log(3) [OF r(2,3) run 2(5)])
  obtain ta where ta: "same_contents (accounts ?tc) ta" "accounts (transaction_context ?ic) = ta"
    "guards (changeable ?tc ins) ta (memory_mapping m)"
    using 2(13) by blast
  obtain pk prev addrs params where f: "f = conclude h pk prev addrs params" using 2(16) by blast
  obtain ic' r' where c: "f count res m' = Some (ic', r')" using 2(2) by blast
  have "account_key (accounts ?tc) (ic_program_account_index ins) = Some k"
    using key by (auto simp: get_program_key_def and_then_Ok_iff get_index_of_program_account_in_transaction_def
        get_key_of_account_at_index_def ok_or_def split: if_splits option.splits)
  then have "accounts_respect (writable_accounts ins) k (accounts ?tc) (accounts (transaction_context ic'))"
    using settled 2(14,15) ta(2) run_respects [OF ta(1,3) follow key] sep
      run_keeps_data [OF assms(1-4) key _ _ _ 2(3) r(2,3) run 2(5)]
    by (intro conclude_respects [OF c [unfolded f]]) (simp_all add: settled_def)
  then show ?case using 2(1) run c by auto
qed


section \<open>A machine with direct mapping\<close>

text \<open>
  The program's account, one that the program may change and a writable one that belongs to another
  program; data is mapped directly.
\<close>

definition direct_tc :: TransactionContext where
  "direct_tc =
     (new_TransactionContext
        [(replicate 32 7, sample_ser_account [] (replicate 32 9)),
         (replicate 32 1, sample_ser_account [1, 2, 3] (replicate 32 7)),
         (replicate 32 2, sample_ser_account [4, 5] (replicate 32 9))] 5 64 1)
     \<lparr>instruction_stack := [0], instruction_trace := [default_InstructionFrame],
      deduplication_maps := [[65535, 0, 1]], tc_instruction_data := [[42]],
      tc_instruction_accounts := [[new_InstructionAccount 1 False True, new_InstructionAccount 2 False True]]\<rparr>"

definition direct_ins :: InstructionContext where
  "direct_ins =
     \<lparr>index_in_trace = 0, ic_nesting_level = 0, ic_program_account_index = 0,
      instruction_accounts = [new_InstructionAccount 1 False True, new_InstructionAccount 2 False True],
      dedup_map = [65535, 0, 1], instruction_data = [42]\<rparr>"

definition direct_ic :: InvokeContext where
  "direct_ic =
     (new_InvokeContext direct_tc
        (all_enabled\<lparr>stricter_abi_and_runtime_constraints := True, account_data_direct_mapping := True\<rparr>) None
        (new_ExecutionBudget 32768 False) (default_ExecutionCost False))
     \<lparr>syscall_context := [None]\<rparr>"

definition direct_host :: Host where
  "direct_host = reader_host\<lparr>data_at := \<lambda>i. if i = 0 then 0x900000 else if i = 1 then 0x1000000 else 0x3000000\<rparr>"

lemmas direct_simps = direct_tc_def direct_ins_def sample_ser_simps

lemma direct_ic_fields [simp]:
  "transaction_context direct_ic = direct_tc" "stricter_abi_and_runtime_constraints (feature_set direct_ic) = True"
  "account_data_direct_mapping (feature_set direct_ic) = True" "heap_size (compute_budget direct_ic) = 32768"
  by (simp_all add: direct_ic_def new_InvokeContext_def new_ExecutionBudget_def)

lemma direct_current: "get_current_instruction_context direct_tc = Ok direct_ins"
  by (simp add: get_current_instruction_context_def get_current_instruction_index_def direct_tc_def new_TransactionContext_def
      get_instruction_context_at_index_in_trace_def nth_get_def ok_or_def get_or_empty_def default_InstructionFrame_def direct_ins_def)

lemma direct_all_less_3: "(\<forall>i < Suc (Suc (Suc 0)). P i) \<longleftrightarrow> P 0 \<and> P (Suc 0) \<and> P (Suc (Suc 0))"
  by (auto simp: less_Suc_eq)

lemma direct_ready: "ready sample_entrypoint direct_tc direct_ins"
  by (simp add: ready_def tx_index_def first_use_def sample_all_less_2 direct_all_less_3 serializable_def borrowable_def accounts_inv_def
      key_of_def get_key_def account_key_def nth_get_def MAX_ACCOUNTS_PER_INSTRUCTION_def direct_simps)

lemma direct_program:
  "get_program_key direct_tc direct_ins = Ok (replicate 32 7)"
  "get_program_owner direct_tc direct_ins = Ok (replicate 32 9)"
  by (simp_all add: get_program_key_def get_program_owner_def get_index_of_program_account_in_transaction_def
      get_key_of_account_at_index_def account_key_def nth_get_def ok_or_def try_borrow_def counter_try_borrow_def
      is_writing_def checked_signed_def direct_simps)

lemma direct_small:
  "length (guest_layout sdk sample_entrypoint True True (replicate 32 7) (replicate 32 9) direct_tc direct_ins) \<le> 1000"
proof -
  let ?a = "borrowed_account direct_ins 0" and ?b = "borrowed_account direct_ins 1"
  have as: "accounts_of direct_ins = [Account 0 ?a, Account 1 ?b]"
    by (simp add: accounts_of_def first_use_def tx_index_def direct_ins_def new_InstructionAccount_def)
  have "length (key_of (accounts direct_tc) ?a) = 32" "length (get_owner (accounts direct_tc) ?a) = 32"
    "length (key_of (accounts direct_tc) ?b) = 32" "length (get_owner (accounts direct_tc) ?b) = 32"
    using direct_ready by (auto simp: ready_def serializable_def direct_ins_def)
  moreover have fields: "instruction_data direct_ins = [42]" "bpf_align_of_u128 sample_entrypoint = 8"
    by (simp_all add: direct_ins_def sample_entrypoint_def)
  ultimately show ?thesis
    by (simp add: guest_layout_def params_layout_def accounts_layout_def as layout_accounts_def account_bytes_aligned_def
        account_bytes_unaligned_def header_aligned_def header_unaligned_def account_body_def dup_aligned_def
        dup_unaligned_def fields)
qed

lemma direct_callable: "callable direct_host direct_ic direct_ins"
  using direct_small [of "h_sdk reader_host"] direct_current direct_ready direct_program
  by (simp add: callable_def direct_host_def) (simp add: reader_host_def MAX_HEAP_FRAME_BYTES_def)

lemma direct_low: "low_host direct_host"
  using reader_low by (simp add: low_host_def direct_host_def)

lemma direct_changeable: "changeable direct_tc direct_ins = {1}"
proof -
  have "is_ok (can_data_be_changed (accounts direct_tc) (borrowed_account direct_ins 0))"
    "\<not> is_ok (can_data_be_changed (accounts direct_tc) (borrowed_account direct_ins (Suc 0)))"
    by (simp_all add: can_data_be_changed_def ba_is_writable_def is_owned_by_current_program_def is_writable_def as_u8_def
        account_key_def nth_get_def direct_simps)
  moreover have "get_index_in_transaction (borrowed_account direct_ins 0) = 1" "length (instruction_accounts direct_ins) = Suc (Suc 0)"
    by (simp_all add: direct_simps)
  ultimately show ?thesis by (auto simp: changeable_def less_Suc_eq intro!: exI [of _ 0])
qed

lemma direct_accounts:
  "accounts_len (accounts direct_tc) = 3" "view_data (view_at (accounts direct_tc) 0) = []"
  "view_data (view_at (accounts direct_tc) 1) = [1, 2, 3]" "view_data (view_at (accounts direct_tc) 2) = [4, 5]"
  by (simp_all add: direct_simps)

lemma direct_room: "room_to_grow direct_host (accounts direct_tc) (changeable direct_tc direct_ins)"
proof -
  have "{..<3} - {1 :: nat} = {0, 2}" by auto
  then show ?thesis
    unfolding direct_changeable room_to_grow_def direct_accounts(1)
    by (simp add: direct_accounts direct_host_def MAX_ACCOUNT_DATA_LEN_def)
qed

lemma direct_serialized:
  obtains ta params rs metas ofs where
    "serialized_for direct_host direct_ic direct_ins = Some (direct_tc\<lparr>accounts := ta\<rparr>, Ok (params, rs, metas, ofs))"
    "same_contents (accounts direct_tc) ta" "memory_ptr params = 0x1000" "length (as_slice params) \<le> 1000"
proof -
  let ?b = "guest_layout (h_sdk direct_host) sample_entrypoint True True (replicate 32 7) (replicate 32 9) direct_tc direct_ins"
  have h: "h_entrypoint direct_host = sample_entrypoint" "h_allocator direct_host = sample_allocator"
    by (simp_all add: direct_host_def reader_host_def)
  have small: "length ?b \<le> 1000" by (rule direct_small)
  then have "layout_fits (length ?b)" by (intro layout_fitsI) simp
  from serialize_ready [OF direct_ready direct_program(1) _ direct_program(2) this, of sample_allocator "data_addresses direct_host"]
  obtain ta params rs metas ofs where
    "serialized_for direct_host direct_ic direct_ins = Some (direct_tc\<lparr>accounts := ta\<rparr>, Ok (params, rs, metas, ofs))"
    "same_contents (accounts direct_tc) ta" "as_slice params = ?b" "av_ptr (mem_vec params) = block_ptr sample_allocator (length ?b)"
    by (auto simp: serialized_as_def h)
  moreover have "length ?b \<noteq> 0" by (simp add: guest_layout_def params_layout_def)
  then have "block_ptr sample_allocator (length ?b) = 0x1000" by (simp add: block_ptr_def sample_allocator_def)
  ultimately show thesis using that [of ta params rs metas ofs] small by (simp add: memory_ptr_def)
qed

lemma direct_apart:
  assumes "same_contents (accounts direct_tc) ta" "memory_ptr params = 0x1000" "length (as_slice params) \<le> 1000"
  shows "apart (segments direct_host reader_exe ta params (memory_at 0x100000 full_stack) (memory_at 0x200000 full_heap))"
proof -
  have "accounts_len ta = 3" "view_data (view_at ta 0) = []" "view_data (view_at ta 1) = [1, 2, 3]" "view_data (view_at ta 2) = [4, 5]"
    using assms(1) direct_accounts unfolding same_contents_def content_def by auto
  then have data: "map (\<lambda>i. (data_at direct_host i, view_data (view_at ta i))) [0..<accounts_len ta] =
      [(0x900000, []), (0x1000000, [1, 2, 3]), (0x3000000, [4, 5])]"
    by (simp add: upt_rec direct_host_def numeral_2_eq_2 numeral_3_eq_3)
  have mem: "memory_ptr (memory_at p full_stack) = p" "memory_ptr (memory_at p full_heap) = p"
    "length (as_slice (memory_at p full_stack)) = 262144" "length (as_slice (memory_at p full_heap)) = 262144" for p
    by (simp_all add: memory_at_facts STACK_FRAME_SIZE_def MAX_CALL_DEPTH_def MAX_HEAP_FRAME_BYTES_def)
  have "ro_at direct_host = 0x800000" "length reader_code = 16" by (simp_all add: direct_host_def reader_host_def reader_code_def)
  then show ?thesis
    using assms(3) unfolding segments_def data reader_ro assms(2) mem by (simp add: mem)
qed

lemma direct_separate: "data_separate direct_host reader_pool hm reader_exe default_Config direct_ic direct_ins"
proof (rule direct_serialized, goal_cases)
  case (1 ta params rs metas ofs)
  have "apart segs" if "started direct_host reader_pool hm reader_exe direct_ic direct_ins = Some (m, segs)" for m segs
    using that 1(1) direct_apart [OF 1(2-4)] by (auto simp: started_def dest!: reader_pool_memory split: option.splits prod.splits result.splits)
  then show ?case using direct_room by (auto simp: data_separate_def default_Config_def split: option.splits)
qed

section \<open>Property\<close>

text \<open>
  C5: an execution changes only the accounts it may change.  Whatever the program does and however it
  ends, the account storage stays in order, no key changes, and lamports appear or vanish only as the
  transaction's delta records.  An account that the instruction does not pass as writable keeps owner,
  lamports, executable flag and data; one that the program does not own keeps owner, flag and data and
  loses no lamports.  With direct mapping, where the program works on the bytes of the accounts
  themselves, this needs that addresses are translated and that the buffers in host memory are separate.
\<close>

theorem execution_respects_accounts:
  assumes "callable h ic ins" "runnable exe cfg" "low_host h" "usable_pool pool"
    and "stricter_abi_and_runtime_constraints (feature_set ic) \<and> account_data_direct_mapping (feature_set ic) \<longrightarrow>
      data_separate h pool hm exe cfg ic ins"
    and "get_program_key (transaction_context ic) ins = Ok k"
  shows "let ta = accounts (transaction_context ic) in
    \<exists>ic' pool' hm' res.
      execute (Suc (unat (ic_get_remaining ic))) h (syscall_env se) pool hm exe ic = Some (Some (ic', pool', hm', res))
      \<and> (let ta' = accounts (transaction_context ic') in
         accounts_inv ta' \<and> account_keys_iter ta' = account_keys_iter ta
         \<and> total_lamports ta' - ta_lamports_delta ta' = total_lamports ta - ta_lamports_delta ta
         \<and> (\<forall>j < accounts_len ta. view_within (j \<in> writable_accounts ins) k (view_at ta j) (view_at ta' j)))"
  unfolding Let_def
  using execute_respects [OF assms, of se] by (auto simp: accounts_respect_def accounts_step_def keeps_def)

text \<open>Without and with direct mapping: the program's account, and the account of another program, keep their data.\<close>

theorem execution_respects_accounts_witness:
  "(\<exists>ic' pool' hm' res. execute (Suc (unat (ic_get_remaining reader_ic))) reader_host (syscall_env sample_se) reader_pool (\<lambda>_. 0)
     reader_exe reader_ic = Some (Some (ic', pool', hm', res))
     \<and> view_lamports (view_at (accounts (transaction_context ic')) 0) = 5
     \<and> view_data (view_at (accounts (transaction_context ic')) 0) = [])
   \<and> (\<exists>ic' pool' hm' res. execute (Suc (unat (ic_get_remaining direct_ic))) direct_host (syscall_env sample_se) reader_pool (\<lambda>_. 0)
     reader_exe direct_ic = Some (Some (ic', pool', hm', res))
     \<and> account_keys_iter (accounts (transaction_context ic')) = [replicate 32 7, replicate 32 1, replicate 32 2]
     \<and> view_data (view_at (accounts (transaction_context ic')) 2) = [4, 5])"
proof
  have k: "get_program_key (transaction_context reader_ic) sample_ser_ic = Ok (replicate 32 7)"
    "get_program_key (transaction_context direct_ic) direct_ins = Ok (replicate 32 7)"
    using reader_program(1) direct_program(1) by simp_all
  have w: "0 \<notin> writable_accounts sample_ser_ic"
    by (auto simp: writable_accounts_def sample_ser_ic_def new_InstructionAccount_def)
  have a: "0 < accounts_len (accounts sample_ser_tc)" "view_lamports (view_at (accounts sample_ser_tc) 0) = 5"
    "view_data (view_at (accounts sample_ser_tc) 0) = []"
    by (simp_all add: view_lamports_def sample_ser_simps)
  obtain ic' pool' hm' res where "execute (Suc (unat (ic_get_remaining reader_ic))) reader_host (syscall_env sample_se) reader_pool
      (\<lambda>_. 0) reader_exe reader_ic = Some (Some (ic', pool', hm', res))"
    "\<forall>j < accounts_len (accounts sample_ser_tc). view_within (j \<in> writable_accounts sample_ser_ic) (replicate 32 7)
       (view_at (accounts sample_ser_tc) j) (view_at (accounts (transaction_context ic')) j)"
    using execution_respects_accounts [OF reader_callable reader_runnable reader_low reader_pool_usable _ k(1), of "\<lambda>_. 0" sample_se]
    by (auto simp: Let_def)
  then show "\<exists>ic' pool' hm' res. execute (Suc (unat (ic_get_remaining reader_ic))) reader_host (syscall_env sample_se) reader_pool (\<lambda>_. 0)
     reader_exe reader_ic = Some (Some (ic', pool', hm', res))
     \<and> view_lamports (view_at (accounts (transaction_context ic')) 0) = 5
     \<and> view_data (view_at (accounts (transaction_context ic')) 0) = []"
    using a w by (fastforce simp: view_within_def view_meta_def)
  have b: "account_keys_iter (accounts direct_tc) = [replicate 32 7, replicate 32 1, replicate 32 2]"
    "view_owner (view_at (accounts direct_tc) 2) \<noteq> replicate 32 7"
    by (simp_all add: account_keys_iter_def direct_simps)
  obtain ic' pool' hm' res where "execute (Suc (unat (ic_get_remaining direct_ic))) direct_host (syscall_env sample_se) reader_pool
      (\<lambda>_. 0) reader_exe direct_ic = Some (Some (ic', pool', hm', res))"
    "account_keys_iter (accounts (transaction_context ic')) = account_keys_iter (accounts direct_tc)"
    "view_within (2 \<in> writable_accounts direct_ins) (replicate 32 7)
       (view_at (accounts direct_tc) 2) (view_at (accounts (transaction_context ic')) 2)"
    using execution_respects_accounts [OF direct_callable reader_runnable direct_low reader_pool_usable _ k(2), of "\<lambda>_. 0" sample_se]
      direct_separate [of "\<lambda>_. 0"] direct_accounts(1)
    by (auto simp: Let_def)
  then show "\<exists>ic' pool' hm' res. execute (Suc (unat (ic_get_remaining direct_ic))) direct_host (syscall_env sample_se) reader_pool (\<lambda>_. 0)
     reader_exe direct_ic = Some (Some (ic', pool', hm', res))
     \<and> account_keys_iter (accounts (transaction_context ic')) = [replicate 32 7, replicate 32 1, replicate 32 2]
     \<and> view_data (view_at (accounts (transaction_context ic')) 2) = [4, 5]"
    using b direct_accounts(4) by (fastforce simp: view_within_def)
qed

end
