(* ===== verification/Spec2Isabelle.thy ===== *)
theory Spec2Isabelle
  imports Mapping_Safety Cli Account_Safety
begin

text \<open>
  \<^bold>\<open>gobble\<close> finds out whether an on-chain program reads bytes of an instruction's data, through the
  instructions sysvar, that it should not depend on.  A command line tool (\<open>src/gobble\<close>) builds the
  sysvar account of a transaction, a library (\<open>src/gobble-lib\<close>) computes where the forbidden bytes lie
  in it, and a patched Solana runtime (\<open>src/agave\<close>) executes one instruction in a patched virtual
  machine (\<open>src/sbpf\<close>) that records every read of a forbidden address range.

  \<^bold>\<open>The detector.\<close>
  \<^item> \<open>Detector\<close> (\<open>gobble-lib/src/lib.rs\<close>): configuration and offsets; for a sysvar in the documented
    layout the offsets are where the forbidden bytes lie.
  \<^item> \<open>Cli\<close> (\<open>gobble/src/main.rs\<close>): the range syntax, lookup tables, the sysvar account, the account
    list and the program cache; the offsets computed from a message fit the account built from it.

  \<^bold>\<open>The virtual machine.\<close>
  \<^item> \<open>Prelude\<close>: machine words, Rust's saturating, checked and wrapping arithmetic, byte order,
    ranges; the collections of simplification rules that the other theories share.
  \<^item> \<open>Ebpf\<close> (\<open>ebpf.rs\<close>): the constants of the instruction set, the instruction record, encoder and
    decoder.  \<open>Errors\<close> (\<open>error.rs\<close> and the error types of the other modules): errors are values.
    \<open>Program\<close> (\<open>program.rs\<close>): version switches, function registry, builtin programs.
  \<^item> \<open>Tracker\<close> (\<open>memory_region.rs\<close>, \<open>MemoryAccessTracker\<close>): the read monitor.  Its contract is the
    locale \<open>read_monitor\<close>, interpreted on the tracker and again on a whole memory mapping.
  \<^item> \<open>Region\<close>, \<open>Eytzinger\<close>, \<open>Memory_Mapping\<close>, \<open>Mapping_Lookup\<close>, \<open>Mapping_Safety\<close>
    (\<open>memory_region.rs\<close>): regions with stack-frame gaps, the aligned and the unaligned mapping with
    its Eytzinger search and cache, translation, loads and stores.  The lemmas show that the search
    equals a linear scan, that loads and stores stay inside the host slice of a region, that stores
    need a writable region, and that each load is reported exactly when it must be.
  \<^item> \<open>Verifier\<close> (\<open>verifier.rs\<close>): the static checks, with a characterisation of the accepted programs.
  \<^item> \<open>Vm\<close>, \<open>Interpreter\<close> (\<open>elf.rs\<close> accessors, \<open>vm.rs\<close>, \<open>interpreter.rs\<close>): the machine record, the
    interpreter's step function arm by arm, and \<open>execute_program\<close>.
  \<^item> \<open>Arm_Safety\<close>, \<open>Execution\<close>: a verified program never makes the interpreter panic.
    \<open>Effects\<close>: what one instruction can change; the locales \<open>metered\<close> and \<open>context_relation\<close> state
    what is needed of builtin functions for runs to end and to respect a relation on contexts.
    \<open>Read_Log\<close>: the read log of a run; the locales \<open>reading_builtins\<close> and \<open>silent_builtins\<close>.

  \<^bold>\<open>The runtime.\<close>
  \<^item> \<open>Accounts\<close>, \<open>Borrowed_Account\<close>, \<open>Transaction\<close> (\<open>transaction-context/src\<close>): account storage with
    borrow counters, the rules under which a program may change an account, the instruction trace
    and stack.  \<open>Lamports\<close>: the step relation \<open>tx_step\<close> over everything that can happen to a
    transaction context, with conservation of lamports and consistency of the stacks.
  \<^item> \<open>Budget\<close> (\<open>execution_budget.rs\<close>, feature set, log collector), \<open>Heap_Allocator\<close>,
    \<open>Invoke_Context\<close>, \<open>Invocation\<close> (\<open>invoke_context.rs\<close>, \<open>stable_log.rs\<close>): metering, logging, pushing
    and popping invocations, preparing instructions with their privilege checks, running builtins.
  \<^item> \<open>Translate\<close>, \<open>Syscalls\<close> (\<open>memory.rs\<close>, \<open>syscalls/src\<close>): guest pointers and twenty system calls.
    \<open>Syscall_Effects\<close> shows that every system call only lowers the meter, leaves the stacks alone,
    keeps the mapping in order and only appends to the read log.  This interprets the four locales
    on \<open>syscall_env\<close>, and with them \<open>execute_program\<close> is shown to end, and its read log to hold all
    forbidden loads.
  \<^item> \<open>Memory_Frame\<close>: host memory that no run can write.  If every region that is or may become writable keeps
    away from a set of addresses (\<open>spares\<close>), translated stores miss it; the locale \<open>sparing_builtins\<close> asks the
    same of builtin functions, and a Hoare-style calculus (\<open>sys_spares\<close>) interprets it on all system calls.

  \<^bold>\<open>The execution of one program\<close> (\<open>sbpf/src/aligned_memory.rs\<close>, \<open>program-runtime/src\<close>).
  \<^item> \<open>Aligned_Memory\<close>, \<open>Mem_Pool\<close> (\<open>mem_pool.rs\<close>): buffers with unchecked writes, and the pool of stacks
    and heaps, which is a bounded stack of zeroed buffers (locale \<open>clean_pool\<close>).  The panic of an
    allocation whose layout does not fit \<open>isize\<close> is a \<open>None\<close> that serialization and provisioning pass on.
  \<^item> \<open>Serialization\<close> (\<open>serialization.rs\<close>): the input region in both formats and all modes, and reading it
    back.  \<open>Serialization_Layout\<close>, \<open>Serialization_Roundtrip\<close>, \<open>Guest_Parameters\<close>: an abstract layout and the
    refinement to it, the absence of overruns, what the guest sees, and the round trip;
    \<open>Serialized_Regions\<close>: the regions that come out are slices of the buffer or of account data.
  \<^item> \<open>Execute\<close> (\<open>vm.rs\<close>): \<open>execute\<close> with provisioning, the watched ranges of the sysvar, collection of the
    forbidden reads, error mapping and reading back.
  \<^item> \<open>Detection\<close>, \<open>End_To_End\<close>: the composition.  The cases of \<open>execute\<close>, the machine that is \<open>started\<close>, what
    host memory holds then; with the theorems on runs, execution always ends with a result, and a
    program that reads a forbidden byte of the instructions sysvar is reported.
  \<^item> \<open>Machine_Frame\<close>, \<open>Account_Safety\<close>: what an execution can do to accounts.  The run changes them only through
    the access violation handler (\<open>accounts_follow\<close> in \<open>Mapping_Safety\<close>, part of \<open>log_grows\<close> in \<open>Read_Log\<close>) and, with
    direct mapping, through the memory their data lies in; the regions that \<open>execute\<close> assembles spare the data of
    all accounts that the program may not change.  Reading back goes through the operations of
    \<open>Borrowed_Account\<close> only; together they respect writability and ownership.

  \<^bold>\<open>Conventions.\<close>  Interior mutability and \<open>&mut\<close> are explicit state; the \<open>?\<close> operator is
  \<open>try_then\<close> (state kept) or \<open>and_then\<close>; a panic is an outer \<open>None\<close> or the constructor \<open>Panicked\<close>.
  Where fuel is involved, \<open>None\<close> is a lack of fuel and \<open>Some None\<close> a panic.
  Integers are words of their width and wrap as in a release build.  Host memory is a function from
  64-bit addresses to bytes, a reference is an address; \<open>execute\<close> puts its buffers, the program and the
  account data into it (\<open>segments\<close>, \<open>place\<close>) and takes them out again.  The accounts that the access
  violation handler shares with the transaction context are a captured value of the handler, moved in
  when the mapping is built and out when the run has ended.  The bytes of an account stay at one address
  (\<open>data_at\<close>) during an execution: an account that grows does so where it is.  With direct mapping the bytes by
  which the handler grows an account are zero in the account's value, not in host memory, and what is
  collected after the run comes from host memory.  Code of crates outside the repository (hash
  functions, key derivation, sysvar layout, display of keys, rent, the allocator) is an argument: the
  records \<open>Sdk\<close>, \<open>Entrypoint\<close>, \<open>Display\<close>, \<open>SysEnv\<close>, \<open>Host\<close>, \<open>Allocator\<close>.  \<open>execute\<close> is modelled with
  \<open>use_jit\<close> false.

  \<^bold>\<open>Fuel.\<close>  Only \<open>run\<close>, \<open>execute_program\<close> and \<open>execute\<close> take fuel, one unit per step.  With the
  instruction meter on, the number of compute units plus one is enough for every program:
  \<open>verified_program_finishes\<close> and \<open>execution_ends\<close>.

  \<^bold>\<open>Not modelled.\<close>  The JIT compiler, debugger, assembler, disassembler, static analysis and ELF
  loading of \<open>src/sbpf\<close>; from \<open>src/agave\<close> the system calls that wrap external cryptography, sysvar
  getters and cross-program invocation from guest memory, and everything around the runtime that the
  detector does not run (accounts database, ledger, networking, validator, command line tools); from
  \<open>src/gobble\<close> argument parsing, RPC requests, base58 and bincode decoding, and printing.
\<close>

end
